(* ===== verification/Prelude.thy ===== *)
theory Prelude
  imports Complex_Main "HOL-Library.Char_ord" "HOL-Library.List_Lexorder"
    "HOL-Library.Product_Lexorder" "HOL-Library.Multiset"
begin

text \<open>
  Generic material shared by every component of the development: fallible steps
  (\<open>error + 'a\<close>), SQL tables as lists of rows in insertion order, and the lemmas on
  row lookup, row update and row selection that carry the proofs about the coordinator
  database. Nothing in this theory models code of the repository by itself.
\<close>

section \<open>Names and values\<close>

text \<open>
  Identifiers are Python strings. Timestamps and durations are Python floats; they are
  modelled by exact rationals, which contain every finite IEEE double; rounding of the
  float additions is not modelled.
\<close>

type_synonym id = string
type_synonym time = rat

text \<open>A SHA-256 digest string \<open>sha256:<hex>\<close>, by its hexadecimal part.\<close>

datatype digest = Sha256 (digest_hex: string)

text \<open>
  The exceptions of the coordinator. Messages are not modelled, only the class that a
  caller can match on; \<open>IntegrityError\<close> is the \<open>sqlite3.IntegrityError\<close> of a violated
  table constraint.
\<close>

datatype error =
    ValueError
  | TypeError
  | ConflictError
  | InvalidStateError
  | IncompatibleWorkerError
  | CapacityError
  | ArtifactCorruptionError
  | NotFoundError
  | ZeroDivisionError
  | AssertionError
  | IndexError
  | KeyError
  | PermissionError
  | RuntimeError
  | InferenceLeaseClosed
  | UnsupportedProtocol
  | FileNotFoundError
  | IntegrityError

section \<open>Collections of facts\<close>

named_theorems step_simps "equations of the statements of the coordinator store"
named_theorems row_simps "lookup after a change of a table"

section \<open>Fallible steps\<close>

definition and_then :: "'e + 'a \<Rightarrow> ('a \<Rightarrow> 'e + 'b) \<Rightarrow> 'e + 'b" where
  "and_then m f = (case m of Inl e \<Rightarrow> Inl e | Inr x \<Rightarrow> f x)"

lemma and_then_simps [simp]:
  "and_then (Inl e) f = Inl e"
  "and_then (Inr x) f = f x"
  by (simp_all add: and_then_def)

lemma and_then_eq_Inr: "and_then m f = Inr y \<longleftrightarrow> (\<exists>x. m = Inr x \<and> f x = Inr y)"
  by (cases m) auto

lemma and_then_eq_Inl: "and_then m f = Inl e \<longleftrightarrow> m = Inl e \<or> (\<exists>x. m = Inr x \<and> f x = Inl e)"
  by (cases m) auto

lemma and_then_InrE:
  assumes "and_then m f = Inr y"
  obtains x where "m = Inr x" "f x = Inr y"
  using assms by (auto simp: and_then_eq_Inr)

definition guard :: "bool \<Rightarrow> 'e \<Rightarrow> 'e + unit" where
  "guard b e = (if b then Inr () else Inl e)"

lemma guard_eq_Inr [simp]: "guard b e = Inr u \<longleftrightarrow> b"
  by (simp add: guard_def)

lemma guard_eq_Inl [simp]: "guard b e = Inl e' \<longleftrightarrow> \<not> b \<and> e' = e"
  by (auto simp: guard_def)

lemma guard_True [simp]: "guard True e = Inr ()"
  by (simp add: guard_def)

lemma guard_False [simp]: "guard False e = Inl e"
  by (simp add: guard_def)

text \<open>A step applied to every element of a list, the state threaded, stopping at the first error.\<close>

fun fold_step :: "('a \<Rightarrow> 's \<Rightarrow> 'e + 's) \<Rightarrow> 'a list \<Rightarrow> 's \<Rightarrow> 'e + 's" where
  "fold_step f [] s = Inr s"
| "fold_step f (x # xs) s = and_then (f x s) (fold_step f xs)"

lemma fold_step_append:
  "fold_step f (xs @ ys) s = and_then (fold_step f xs s) (fold_step f ys)"
  by (induction xs arbitrary: s) (auto simp: and_then_def split: sum.splits)

lemma fold_step_invariant:
  assumes "fold_step f xs s = Inr s'" "P s"
    and "\<And>x s s'. x \<in> set xs \<Longrightarrow> P s \<Longrightarrow> f x s = Inr s' \<Longrightarrow> P s'"
  shows "P s'"
  using assms
proof (induction xs arbitrary: s)
  case Nil
  then show ?case by simp
next
  case (Cons x xs)
  from Cons.prems(1) obtain s1 where 1: "f x s = Inr s1" and 2: "fold_step f xs s1 = Inr s'"
    by (auto simp: and_then_eq_Inr)
  from Cons.prems(2,3) 1 have "P s1" by (meson list.set_intros(1))
  with Cons.IH [OF 2] Cons.prems(3) show ?case by (meson list.set_intros(2))
qed

text \<open>
  A list of jobs computed before the first of them runs: each job \<open>x\<close> is enabled (\<open>Q x\<close>) at the
  start, and running a job keeps the jobs with another key enabled. Then the whole list runs
  without an error.
\<close>

lemma fold_step_total:
  assumes "P s" "distinct (map key xs)" "\<And>x. x \<in> set xs \<Longrightarrow> Q x s"
    and step: "\<And>x s. x \<in> set xs \<Longrightarrow> P s \<Longrightarrow> Q x s \<Longrightarrow>
      \<exists>s'. f x s = Inr s' \<and> P s' \<and> (\<forall>y \<in> set xs. key y \<noteq> key x \<longrightarrow> Q y s \<longrightarrow> Q y s')"
  shows "\<exists>s'. fold_step f xs s = Inr s' \<and> P s'"
  using assms
proof (induction xs arbitrary: s)
  case Nil
  then show ?case by simp
next
  case (Cons x xs)
  from Cons.prems(3) have "Q x s" by simp
  with Cons.prems(1) Cons.prems(4) [of x s] obtain s1 where 1: "f x s = Inr s1" "P s1"
    and keep: "\<And>y. y \<in> set xs \<Longrightarrow> key y \<noteq> key x \<Longrightarrow> Q y s \<Longrightarrow> Q y s1" by auto
  have "\<exists>s'. fold_step f xs s1 = Inr s' \<and> P s'"
  proof (rule Cons.IH [OF 1(2)])
    show "distinct (map key xs)" using Cons.prems(2) by simp
    show "Q y s1" if "y \<in> set xs" for y
      using keep [OF that] Cons.prems(2,3) that by (metis image_eqI distinct.simps(2) list.map(2) list.set_intros(2) set_map)
    show "\<exists>s'. f y t = Inr s' \<and> P s' \<and> (\<forall>z \<in> set xs. key z \<noteq> key y \<longrightarrow> Q z t \<longrightarrow> Q z s')"
      if "y \<in> set xs" "P t" "Q y t" for y t
      using Cons.prems(4) [of y t] that by (meson list.set_intros(2))
  qed
  with 1 show ?case by simp
qed

text \<open>A list comprehension over a fallible function.\<close>

fun each :: "('a \<Rightarrow> 'e + 'b) \<Rightarrow> 'a list \<Rightarrow> 'e + 'b list" where
  "each f [] = Inr []"
| "each f (x # xs) = and_then (f x) (\<lambda>y. and_then (each f xs) (\<lambda>ys. Inr (y # ys)))"

lemma each_Inr_iff: "each f xs = Inr ys \<longleftrightarrow> list_all2 (\<lambda>x y. f x = Inr y) xs ys"
proof (induction xs arbitrary: ys)
  case (Cons x xs)
  then show ?case by (cases ys) (auto simp: and_then_eq_Inr)
qed auto

lemma each_InrD: "each f xs = Inr ys \<Longrightarrow> y \<in> set ys \<Longrightarrow> \<exists>x \<in> set xs. f x = Inr y"
  by (induction xs arbitrary: ys) (auto simp: and_then_eq_Inr)

lemma each_total: "(\<And>x. x \<in> set xs \<Longrightarrow> \<exists>y. f x = Inr y) \<Longrightarrow> \<exists>ys. each f xs = Inr ys"
  by (induction xs) fastforce+

text \<open>A transaction commits the state of a successful body and rolls back otherwise.\<close>

definition transaction :: "('s \<Rightarrow> 'e + 'a \<times> 's) \<Rightarrow> 's \<Rightarrow> ('e + 'a) \<times> 's" where
  "transaction body s = (case body s of Inl e \<Rightarrow> (Inl e, s) | Inr (a, s') \<Rightarrow> (Inr a, s'))"

lemma transaction_state:
  "snd (transaction body s) = (case body s of Inl _ \<Rightarrow> s | Inr r \<Rightarrow> snd r)"
  by (auto simp: transaction_def split: sum.splits)

lemma transaction_keeps:
  assumes "P s" "\<And>a s'. body s = Inr (a, s') \<Longrightarrow> P s'"
  shows "P (snd (transaction body s))"
  using assms by (auto simp: transaction_def split: sum.splits prod.splits)

section \<open>Tables\<close>

text \<open>\<open>SELECT * FROM t WHERE pk = k\<close>: the first row with the key, if any.\<close>

definition row_at :: "('r \<Rightarrow> 'k) \<Rightarrow> 'r list \<Rightarrow> 'k \<Rightarrow> 'r option" where
  "row_at key rows k = find (\<lambda>r. key r = k) rows"

text \<open>\<open>UPDATE t SET ... WHERE P\<close>.\<close>

definition update_where :: "('r \<Rightarrow> bool) \<Rightarrow> ('r \<Rightarrow> 'r) \<Rightarrow> 'r list \<Rightarrow> 'r list" where
  "update_where P f rows = map (\<lambda>r. if P r then f r else r) rows"

text \<open>\<open>DELETE FROM t WHERE P\<close>.\<close>

definition delete_where :: "('r \<Rightarrow> bool) \<Rightarrow> 'r list \<Rightarrow> 'r list" where
  "delete_where P rows = filter (\<lambda>r. \<not> P r) rows"

lemma row_at_Nil [simp]: "row_at key [] k = None"
  by (simp add: row_at_def)

lemma row_at_Cons: "row_at key (r # rs) k = (if key r = k then Some r else row_at key rs k)"
  by (simp add: row_at_def)

lemma row_at_append:
  "row_at key (rs @ qs) k = (case row_at key rs k of None \<Rightarrow> row_at key qs k | Some r \<Rightarrow> Some r)"
  by (induction rs) (auto simp: row_at_Cons)

lemma row_at_snoc [row_simps]:
  "row_at key (rs @ [r]) k =
     (case row_at key rs k of None \<Rightarrow> (if key r = k then Some r else None) | Some x \<Rightarrow> Some x)"
  by (simp add: row_at_append row_at_Cons split: option.split)

lemma row_at_SomeD:
  assumes "row_at key rs k = Some r"
  shows "key r = k" "r \<in> set rs"
  using assms by (auto simp: row_at_def find_Some_iff)

lemma row_at_None_iff: "row_at key rs k = None \<longleftrightarrow> k \<notin> key ` set rs"
  by (auto simp: row_at_def find_None_iff)

lemma row_at_map:
  assumes "\<And>r. key (f r) = key r"
  shows "row_at key (map f rs) k = map_option f (row_at key rs k)"
  by (induction rs) (auto simp: row_at_Cons assms)

lemma row_at_update_where:
  assumes "\<And>r. key (f r) = key r"
  shows "row_at key (update_where P f rs) k = map_option (\<lambda>r. if P r then f r else r) (row_at key rs k)"
  unfolding update_where_def by (rule row_at_map) (simp add: assms)

text \<open>An \<open>UPDATE\<close> of one row, by its primary key.\<close>

lemma row_at_update_key:
  assumes "\<And>r. key (f r) = key r"
  shows "row_at key (update_where (\<lambda>r. key r = k) f rs) x =
    (if x = k then map_option f (row_at key rs k) else row_at key rs x)"
proof (cases "row_at key rs x")
  case None
  then show ?thesis by (cases "x = k") (simp_all add: row_at_update_where assms)
next
  case (Some r)
  from Some have "key r = x" by (rule row_at_SomeD)
  with Some show ?thesis by (cases "x = k") (simp_all add: row_at_update_where assms)
qed

lemma row_at_eq_SomeI:
  assumes "distinct (map key rs)" "r \<in> set rs"
  shows "row_at key rs (key r) = Some r"
  using assms by (induction rs) (auto simp: row_at_Cons rev_image_eqI)

lemma mem_iff_row_at:
  assumes "distinct (map key rs)"
  shows "r \<in> set rs \<longleftrightarrow> row_at key rs (key r) = Some r"
  using row_at_eq_SomeI [OF assms] row_at_SomeD by metis

lemma set_update_where:
  "set (update_where P f rs) = (\<lambda>r. if P r then f r else r) ` set rs"
  by (simp add: update_where_def)

lemma map_key_update_where [simp]:
  assumes "\<And>r. key (f r) = key r"
  shows "map key (update_where P f rs) = map key rs"
  unfolding update_where_def map_map by (rule map_cong) (simp_all add: assms)

lemma length_update_where [simp]: "length (update_where P f rs) = length rs"
  by (simp add: update_where_def)

lemma update_where_none:
  assumes "\<And>r. r \<in> set rs \<Longrightarrow> \<not> P r"
  shows "update_where P f rs = rs"
  unfolding update_where_def by (rule map_idI) (simp add: assms)

text \<open>\<open>ORDER BY\<close>: a stable sort on a key; \<open>SELECT ... LIMIT 1\<close> is the head of the result.\<close>

definition order_by :: "('r \<Rightarrow> 'k::linorder) \<Rightarrow> 'r list \<Rightarrow> 'r list" where
  "order_by key rows = sort_key key rows"

lemma set_order_by [simp]: "set (order_by key rs) = set rs"
  by (simp add: order_by_def)

lemma sorted_order_by: "sorted (map key (order_by key rs))"
  by (simp add: order_by_def)

lemma mset_order_by [simp]: "mset (order_by key rs) = mset rs"
  by (simp add: order_by_def)

lemma length_order_by [simp]: "length (order_by key rs) = length rs"
  by (simp add: order_by_def)

lemma distinct_map_order_by [simp]: "distinct (map f (order_by key rs)) \<longleftrightarrow> distinct (map f rs)"
  by (metis mset_map mset_order_by mset_eq_imp_distinct_iff)

text \<open>\<open>SELECT 1 ... LIMIT 1\<close> and \<open>SELECT COUNT( * )\<close>.\<close>

definition count_where :: "('r \<Rightarrow> bool) \<Rightarrow> 'r list \<Rightarrow> nat" where
  "count_where P rows = length (filter P rows)"

lemma count_where_0_iff: "count_where P rs = 0 \<longleftrightarrow> (\<forall>r \<in> set rs. \<not> P r)"
  by (simp add: count_where_def filter_empty_conv)

end
