(* ===== verification/Protocol.thy ===== *)
theory Protocol
  imports Prelude
begin

text \<open>
  The wire protocol (\<open>src/aether_rl/protocol.py\<close>): the pydantic models as records, their
  field constraints and model validators as executable predicates, and the identities
  derived from digests. A pydantic model that fails validation raises; here the validated
  constructors return \<open>Inl ValueError\<close>.

  JSON values and verifier payloads are carried, never inspected. \<open>canonical_json_bytes\<close>
  is used by the program for equality and as the input of SHA-256 only; objects are kept
  as lists of members sorted by name (\<open>sort_keys=True\<close>), so structural equality of the
  values is equality of their canonical bytes, and a digest is a function of the value.
\<close>

section \<open>Opaque payloads\<close>

datatype json =
    JNull
  | JBool bool
  | JInt int
  | JFloat rat
  | JStr string
  | JArr "json list"
  | JObj "(string \<times> json) list"

text \<open>The part of the verifier library's \<open>SamplingConfig\<close> that the program reads, and the rest.\<close>

record sampling_config =
  sc_temperature :: "rat option"
  sc_max_tokens :: "nat option"
  sc_rest :: json

section \<open>Field constraints\<close>

definition is_digit :: "char \<Rightarrow> bool" where
  "is_digit c \<longleftrightarrow> CHR ''0'' \<le> c \<and> c \<le> CHR ''9''"

definition is_alnum :: "char \<Rightarrow> bool" where
  "is_alnum c \<longleftrightarrow> is_digit c \<or> (CHR ''A'' \<le> c \<and> c \<le> CHR ''Z'') \<or> (CHR ''a'' \<le> c \<and> c \<le> CHR ''z'')"

definition is_hex :: "char \<Rightarrow> bool" where
  "is_hex c \<longleftrightarrow> is_digit c \<or> (CHR ''a'' \<le> c \<and> c \<le> CHR ''f'')"

definition is_opaque_char :: "char \<Rightarrow> bool" where
  "is_opaque_char c \<longleftrightarrow> is_alnum c \<or> c \<in> set ''._:@+~-''"

fun OpaqueId :: "string \<Rightarrow> bool" where
  "OpaqueId [] = False"
| "OpaqueId (c # cs) = (length (c # cs) \<le> 255 \<and> is_alnum c \<and> list_all is_opaque_char cs)"

definition Digest :: "digest \<Rightarrow> bool" where
  "Digest d \<longleftrightarrow> length (digest_hex d) = 64 \<and> list_all is_hex (digest_hex d)"

definition FullRevision :: "string \<Rightarrow> bool" where
  "FullRevision s \<longleftrightarrow> length s = 40 \<and> list_all is_hex s"

definition Timestamp :: "time \<Rightarrow> bool" where
  "Timestamp t \<longleftrightarrow> 0 \<le> t"

definition sized :: "nat \<Rightarrow> string \<Rightarrow> bool" where
  "sized n s \<longleftrightarrow> 1 \<le> length s \<and> length s \<le> n"

section \<open>Model identities\<close>

record base_model_identity =
  bm_model_name :: string
  bm_model_revision :: string
  bm_model_config_digest :: digest
  bm_tokenizer_name :: string
  bm_tokenizer_revision :: string
  bm_tokenizer_digest :: digest
  bm_chat_template_digest :: digest
  bm_vocab_size :: nat
  bm_quantization :: string

definition BaseModelIdentity :: "base_model_identity \<Rightarrow> bool" where
  "BaseModelIdentity b \<longleftrightarrow>
     sized 512 (bm_model_name b) \<and> FullRevision (bm_model_revision b) \<and>
     Digest (bm_model_config_digest b) \<and> sized 512 (bm_tokenizer_name b) \<and>
     FullRevision (bm_tokenizer_revision b) \<and> Digest (bm_tokenizer_digest b) \<and>
     Digest (bm_chat_template_digest b) \<and> 1 \<le> bm_vocab_size b \<and> sized 128 (bm_quantization b)"

record runtime_identity =
  rt_aether_rl_version :: string
  rt_python_version :: string
  rt_torch_version :: string
  rt_transformers_version :: string
  rt_vllm_version :: string
  rt_cuda_version :: "string option"

definition RuntimeIdentity :: "runtime_identity \<Rightarrow> bool" where
  "RuntimeIdentity r \<longleftrightarrow>
     sized 64 (rt_aether_rl_version r) \<and> sized 64 (rt_python_version r) \<and>
     sized 64 (rt_torch_version r) \<and> sized 64 (rt_transformers_version r) \<and>
     sized 64 (rt_vllm_version r) \<and>
     (case rt_cuda_version r of None \<Rightarrow> True | Some v \<Rightarrow> sized 64 v)"

record environment_identity =
  en_id :: id
  en_revision :: string

definition EnvironmentIdentity :: "environment_identity \<Rightarrow> bool" where
  "EnvironmentIdentity e \<longleftrightarrow> OpaqueId (en_id e) \<and> sized 255 (en_revision e)"

section \<open>Adapter manifests\<close>

record adapter_file =
  af_name :: string
  af_size_bytes :: nat
  af_digest :: digest

definition adapter_file_names :: "string list" where
  "adapter_file_names = [''adapter_config.json'', ''adapter_model.safetensors'']"

definition AdapterFile :: "adapter_file \<Rightarrow> bool" where
  "AdapterFile f \<longleftrightarrow> af_name f \<in> set adapter_file_names \<and> 0 < af_size_bytes f \<and> Digest (af_digest f)"

record adapter_content =
  ac_manifest_version :: nat
  ac_files :: "adapter_file list"
  ac_rank :: nat
  ac_alpha :: rat
  ac_target_modules :: "string list"

record adapter_manifest = adapter_content +
  am_digest :: digest

text \<open>\<open>_adapter_manifest_content\<close>: the manifest without its digest field.\<close>

definition adapter_manifest_content :: "adapter_manifest \<Rightarrow> adapter_content" where
  "adapter_manifest_content m = adapter_content.truncate m"

text \<open>
  The hash of a canonical JSON document is a parameter, one per kind of document the
  program hashes: \<open>HA\<close> for adapter contents, \<open>HP\<close> for policy identities.
\<close>

definition adapter_manifest_digest :: "(adapter_content \<Rightarrow> digest) \<Rightarrow> adapter_manifest \<Rightarrow> digest" where
  "adapter_manifest_digest HA m = HA (adapter_manifest_content m)"

definition validate_manifest :: "(adapter_content \<Rightarrow> digest) \<Rightarrow> adapter_manifest \<Rightarrow> bool" where
  "validate_manifest HA m \<longleftrightarrow>
     map af_name (ac_files m) = adapter_file_names \<and>
     ac_target_modules m \<noteq> [] \<and>
     list_all (\<lambda>t. t \<noteq> []) (ac_target_modules m) \<and>
     distinct (ac_target_modules m) \<and>
     sort (ac_target_modules m) = ac_target_modules m \<and>
     am_digest m = adapter_manifest_digest HA m"

definition AdapterManifest :: "(adapter_content \<Rightarrow> digest) \<Rightarrow> adapter_manifest \<Rightarrow> bool" where
  "AdapterManifest HA m \<longleftrightarrow>
     ac_manifest_version m = 1 \<and> Digest (am_digest m) \<and> list_all AdapterFile (ac_files m) \<and>
     1 \<le> ac_rank m \<and> 0 < ac_alpha m \<and> validate_manifest HA m"

definition create_adapter_manifest ::
  "(adapter_content \<Rightarrow> digest) \<Rightarrow> adapter_file list \<Rightarrow> nat \<Rightarrow> rat \<Rightarrow> string list \<Rightarrow> error + adapter_manifest" where
  "create_adapter_manifest HA files rank alpha target_modules =
     (let content = \<lparr>ac_manifest_version = 1, ac_files = files, ac_rank = rank, ac_alpha = alpha,
                     ac_target_modules = target_modules\<rparr>;
          m = adapter_content.extend content \<lparr>am_digest = HA content\<rparr>
      in and_then (guard (AdapterManifest HA m) ValueError) (\<lambda>_. Inr m))"

section \<open>Policy manifests\<close>

record policy_identity =
  pi_protocol_version :: nat
  pi_manifest_version :: nat
  pi_run_id :: id
  pi_policy_version :: nat
  pi_base_model :: base_model_identity
  pi_adapter_digest :: "digest option"

record policy_manifest =
  pm_run_id :: id
  pm_policy_version :: nat
  pm_base_model :: base_model_identity
  pm_adapter :: "adapter_manifest option"
  pm_created_at :: time
  pm_policy_id :: id
  pm_served_model_name :: string

definition PROTOCOL_VERSION :: nat where
  "PROTOCOL_VERSION = 2"

text \<open>
  \<open>_policy_identity_digest\<close>: neither \<open>created_at\<close> nor the names derived from the digest are
  part of the identity; the adapter enters by its digest.
\<close>

definition semantic_identity :: "id \<Rightarrow> nat \<Rightarrow> base_model_identity \<Rightarrow> adapter_manifest option \<Rightarrow> policy_identity" where
  "semantic_identity run_id version base adapter =
     \<lparr>pi_protocol_version = PROTOCOL_VERSION, pi_manifest_version = 1, pi_run_id = run_id,
      pi_policy_version = version, pi_base_model = base, pi_adapter_digest = map_option am_digest adapter\<rparr>"

definition policy_manifest_digest :: "(policy_identity \<Rightarrow> digest) \<Rightarrow> policy_manifest \<Rightarrow> digest" where
  "policy_manifest_digest HP m =
     HP (semantic_identity (pm_run_id m) (pm_policy_version m) (pm_base_model m) (pm_adapter m))"

text \<open>The digest string of the wire format.\<close>

definition digest_text :: "digest \<Rightarrow> string" where
  "digest_text d = ''sha256:'' @ digest_hex d"

text \<open>Decimal digits, and the zero-padded \<open>{version:08d}\<close>.\<close>

fun decimal :: "nat \<Rightarrow> string" where
  "decimal n = (if n < 10 then [char_of (48 + n)] else decimal (n div 10) @ [char_of (48 + n mod 10)])"

declare decimal.simps [simp del]

definition zero_padded :: "nat \<Rightarrow> nat \<Rightarrow> string" where
  "zero_padded w n = replicate (w - length (decimal n)) (CHR ''0'') @ decimal n"

definition expected_policy_id :: "nat \<Rightarrow> digest \<Rightarrow> id" where
  "expected_policy_id version d =
     ''policy-v'' @ zero_padded 8 version @ ''-'' @ take 16 (digest_hex d)"

definition make_policy_manifest ::
  "(adapter_content \<Rightarrow> digest) \<Rightarrow> (policy_identity \<Rightarrow> digest) \<Rightarrow> id \<Rightarrow> nat \<Rightarrow> base_model_identity \<Rightarrow>
   adapter_manifest option \<Rightarrow> time \<Rightarrow> id option \<Rightarrow> string option \<Rightarrow> error + policy_manifest" where
  "make_policy_manifest HA HP run_id version base adapter created_at policy_id served_model_name =
     (let d = HP (semantic_identity run_id version base adapter);
          expected_id = expected_policy_id version d;
          expected_model = (case adapter of None \<Rightarrow> bm_model_name base | Some _ \<Rightarrow> expected_id)
      in if \<not> (OpaqueId run_id \<and> BaseModelIdentity base \<and> Timestamp created_at \<and>
               (case adapter of None \<Rightarrow> True | Some a \<Rightarrow> AdapterManifest HA a)) then Inl ValueError
         else if version = 0 \<and> adapter \<noteq> None then Inl ValueError
         else if version > 0 \<and> adapter = None then Inl ValueError
         else if policy_id \<noteq> None \<and> policy_id \<noteq> Some expected_id then Inl ValueError
         else if served_model_name \<noteq> None \<and> served_model_name \<noteq> Some expected_model then Inl ValueError
         else Inr \<lparr>pm_run_id = run_id, pm_policy_version = version, pm_base_model = base,
                   pm_adapter = adapter, pm_created_at = created_at, pm_policy_id = expected_id,
                   pm_served_model_name = expected_model\<rparr>)"

text \<open>A manifest that \<open>PolicyManifest.model_validate_json\<close> accepts, unchanged.\<close>

definition PolicyManifest :: "(adapter_content \<Rightarrow> digest) \<Rightarrow> (policy_identity \<Rightarrow> digest) \<Rightarrow> policy_manifest \<Rightarrow> bool" where
  "PolicyManifest HA HP m \<longleftrightarrow>
     make_policy_manifest HA HP (pm_run_id m) (pm_policy_version m) (pm_base_model m) (pm_adapter m)
       (pm_created_at m) (Some (pm_policy_id m)) (Some (pm_served_model_name m)) = Inr m"

section \<open>Workers\<close>

record worker_capabilities =
  wc_base_model :: base_model_identity
  wc_runtime :: runtime_identity
  wc_inference_slots :: nat
  wc_gpu_count :: nat
  wc_tensor_parallel_size :: nat
  wc_labels :: "(string \<times> string) list"

definition WorkerCapabilities :: "worker_capabilities \<Rightarrow> bool" where
  "WorkerCapabilities c \<longleftrightarrow>
     BaseModelIdentity (wc_base_model c) \<and> RuntimeIdentity (wc_runtime c) \<and>
     1 \<le> wc_inference_slots c \<and> 1 \<le> wc_gpu_count c \<and> 1 \<le> wc_tensor_parallel_size c \<and>
     wc_tensor_parallel_size c \<le> wc_gpu_count c"

record worker_registration =
  wr_worker_id :: id
  wr_worker_session_id :: id
  wr_registered_at :: time
  wr_capabilities :: worker_capabilities

definition WorkerRegistration :: "worker_registration \<Rightarrow> bool" where
  "WorkerRegistration r \<longleftrightarrow>
     OpaqueId (wr_worker_id r) \<and> OpaqueId (wr_worker_session_id r) \<and> Timestamp (wr_registered_at r) \<and>
     WorkerCapabilities (wr_capabilities r)"

section \<open>Assignments and leases\<close>

datatype rollout_kind = Train | Eval

record rollout_assignment =
  ra_assignment_id :: id
  ra_source_id :: id
  ra_group_id :: id
  ra_group_index :: nat
  ra_group_size :: nat
  ra_kind :: rollout_kind
  ra_environment :: environment_identity
  ra_task_data :: json
  ra_sampling :: sampling_config
  ra_policy :: policy_manifest
  ra_created_at :: time
  ra_deadline_at :: "time option"
  ra_result_size_limit_bytes :: nat

text \<open>\<open>deadline is not None and deadline <= t\<close> and its kin.\<close>

definition deadline_passed :: "time option \<Rightarrow> time \<Rightarrow> bool" where
  "deadline_passed d t = (case d of None \<Rightarrow> False | Some x \<Rightarrow> x \<le> t)"

definition cap_at :: "time option \<Rightarrow> time \<Rightarrow> time" where
  "cap_at d t = (case d of None \<Rightarrow> t | Some x \<Rightarrow> min t x)"

definition RolloutAssignment :: "rollout_assignment \<Rightarrow> bool" where
  "RolloutAssignment a \<longleftrightarrow>
     OpaqueId (ra_assignment_id a) \<and> OpaqueId (ra_source_id a) \<and> OpaqueId (ra_group_id a) \<and>
     1 \<le> ra_group_size a \<and> EnvironmentIdentity (ra_environment a) \<and>
     Timestamp (ra_created_at a) \<and> 1 \<le> ra_result_size_limit_bytes a \<and>
     ra_group_index a < ra_group_size a \<and> \<not> deadline_passed (ra_deadline_at a) (ra_created_at a)"

record assignment_lease =
  al_lease_id :: id
  al_attempt :: nat
  al_worker_id :: id
  al_worker_session_id :: id
  al_issued_at :: time
  al_expires_at :: time
  al_assignment :: rollout_assignment

text \<open>\<open>AssignmentLease.validate_expiry\<close>.\<close>

definition validate_expiry :: "assignment_lease \<Rightarrow> bool" where
  "validate_expiry l \<longleftrightarrow>
     al_issued_at l < al_expires_at l \<and>
     ra_created_at (al_assignment l) \<le> al_issued_at l \<and>
     (case ra_deadline_at (al_assignment l) of None \<Rightarrow> True | Some d \<Rightarrow> al_expires_at l \<le> d)"

definition AssignmentLease :: "assignment_lease \<Rightarrow> error + assignment_lease" where
  "AssignmentLease l = (if 1 \<le> al_attempt l \<and> validate_expiry l then Inr l else Inl ValueError)"

record lease_renewal =
  lr_assignment_id :: id
  lr_lease_id :: id
  lr_expires_at :: time

section \<open>Requests\<close>

text \<open>\<open>_validate_sorted_unique\<close>.\<close>

definition validate_sorted_unique :: "id list \<Rightarrow> bool" where
  "validate_sorted_unique xs \<longleftrightarrow> length (remdups xs) = length xs \<and> sort xs = xs"

record worker_heartbeat =
  hb_worker_id :: id
  hb_worker_session_id :: id
  hb_sent_at :: time
  hb_active_lease_ids :: "id list"
  hb_loaded_policy_ids :: "id list"

definition WorkerHeartbeat :: "worker_heartbeat \<Rightarrow> bool" where
  "WorkerHeartbeat h \<longleftrightarrow>
     OpaqueId (hb_worker_id h) \<and> OpaqueId (hb_worker_session_id h) \<and> Timestamp (hb_sent_at h) \<and>
     list_all OpaqueId (hb_active_lease_ids h) \<and> list_all OpaqueId (hb_loaded_policy_ids h) \<and>
     validate_sorted_unique (hb_active_lease_ids h) \<and> validate_sorted_unique (hb_loaded_policy_ids h)"

record lease_request =
  lq_request_id :: id
  lq_worker_id :: id
  lq_worker_session_id :: id
  lq_sent_at :: time
  lq_loaded_policy_ids :: "id list"
  lq_available_slots :: nat
  lq_wait_seconds :: time

definition LeaseRequest :: "lease_request \<Rightarrow> bool" where
  "LeaseRequest r \<longleftrightarrow>
     OpaqueId (lq_request_id r) \<and> OpaqueId (lq_worker_id r) \<and> OpaqueId (lq_worker_session_id r) \<and>
     Timestamp (lq_sent_at r) \<and> 1 \<le> lq_available_slots r \<and> 0 \<le> lq_wait_seconds r \<and>
     lq_wait_seconds r \<le> 60 \<and> list_all OpaqueId (lq_loaded_policy_ids r) \<and> validate_sorted_unique (lq_loaded_policy_ids r)"

record heartbeat_response =
  hr_server_time :: time
  hr_renewals :: "lease_renewal list"
  hr_stop_lease_ids :: "id list"

text \<open>\<open>WorkerHeartbeatResponse.validate_response_ids\<close>.\<close>

definition validate_response_ids :: "heartbeat_response \<Rightarrow> bool" where
  "validate_response_ids r \<longleftrightarrow>
     validate_sorted_unique (map lr_lease_id (hr_renewals r)) \<and> validate_sorted_unique (hr_stop_lease_ids r)"

section \<open>Terminal envelopes\<close>

text \<open>The episode is a verifier payload; its digest function is a parameter.\<close>

record result_envelope =
  re_assignment_id :: id
  re_attempt :: nat
  re_lease_id :: id
  re_worker_id :: id
  re_worker_session_id :: id
  re_requested_policy_id :: id
  re_served_policy_id :: id
  re_requested_policy_digest :: digest
  re_served_policy_digest :: digest
  re_completed_at :: time
  re_result_digest :: digest
  re_episode :: json

definition validate_result :: "(json \<Rightarrow> digest) \<Rightarrow> result_envelope \<Rightarrow> bool" where
  "validate_result episode_digest e \<longleftrightarrow>
     re_requested_policy_id e = re_served_policy_id e \<and>
     re_requested_policy_digest e = re_served_policy_digest e \<and>
     re_result_digest e = episode_digest (re_episode e)"

record failure_envelope =
  fe_assignment_id :: id
  fe_attempt :: nat
  fe_lease_id :: id
  fe_worker_id :: id
  fe_worker_session_id :: id
  fe_failed_at :: time
  fe_code :: id
  fe_message :: string
  fe_retryable :: bool
  fe_details :: json

definition FailureEnvelope :: "failure_envelope \<Rightarrow> bool" where
  "FailureEnvelope f \<longleftrightarrow>
     OpaqueId (fe_assignment_id f) \<and> 1 \<le> fe_attempt f \<and> OpaqueId (fe_lease_id f) \<and>
     OpaqueId (fe_worker_id f) \<and> OpaqueId (fe_worker_session_id f) \<and> Timestamp (fe_failed_at f) \<and>
     OpaqueId (fe_code f) \<and> sized 8192 (fe_message f)"

section \<open>Lemmas\<close>

lemma validate_sorted_unique_iff: "validate_sorted_unique xs \<longleftrightarrow> sorted xs \<and> distinct xs"
proof -
  have "sort xs = xs \<longleftrightarrow> sorted xs"
  proof
    assume eq: "sort xs = xs"
    have "sorted (sort xs)" by (rule sorted_sort)
    then show "sorted xs" by (simp only: eq)
  qed (rule sorted_sort_id)
  then show ?thesis by (auto simp: validate_sorted_unique_def)
qed

lemma validate_sorted_unique_filter:
  "validate_sorted_unique xs \<Longrightarrow> validate_sorted_unique (filter P xs)"
  by (simp add: validate_sorted_unique_iff sorted_wrt_filter)

lemma cap_at_le: "cap_at (Some d) t \<le> d" "cap_at d' t \<le> t"
  by (auto simp: cap_at_def split: option.split)

lemma cap_at_greater: "t0 < t \<Longrightarrow> \<not> deadline_passed d t0 \<Longrightarrow> t0 < cap_at d t"
  by (auto simp: cap_at_def deadline_passed_def split: option.splits)

lemma deadline_passed_mono: "deadline_passed d t \<Longrightarrow> t \<le> t' \<Longrightarrow> deadline_passed d t'"
  by (auto simp: deadline_passed_def split: option.splits)

text \<open>Decimal printing is injective and writes digits only.\<close>

definition digit_value :: "char \<Rightarrow> nat" where
  "digit_value c = of_char c - 48"

definition parse_decimal :: "string \<Rightarrow> nat" where
  "parse_decimal s = foldl (\<lambda>n c. 10 * n + digit_value c) 0 s"

lemma digit_value_char [simp]: "n < 10 \<Longrightarrow> digit_value (char_of (48 + n)) = n"
  by (simp add: digit_value_def of_char_of)

lemma parse_decimal_snoc [simp]: "parse_decimal (s @ [c]) = 10 * parse_decimal s + digit_value c"
  by (simp add: parse_decimal_def)

lemma parse_decimal_decimal [simp]: "parse_decimal (decimal n) = n"
proof (induction n rule: decimal.induct)
  case (1 n)
  show ?case
  proof (cases "n < 10")
    case True
    then show ?thesis by (subst decimal.simps) (simp add: parse_decimal_def)
  next
    case False
    then have "parse_decimal (decimal n) = 10 * parse_decimal (decimal (n div 10)) + n mod 10"
      by (subst decimal.simps) simp
    also have "\<dots> = n" using "1.IH" [OF False] by simp
    finally show ?thesis .
  qed
qed

lemma parse_decimal_zeros: "parse_decimal (replicate k (CHR ''0'') @ s) = parse_decimal s"
proof (induction k)
  case (Suc k)
  have "digit_value (CHR ''0'') = 0" by (simp add: digit_value_def)
  with Suc show ?case by (simp add: parse_decimal_def)
qed simp

lemma parse_zero_padded [simp]: "parse_decimal (zero_padded w n) = n"
  by (simp add: zero_padded_def parse_decimal_zeros)

lemma char_of_digit: "n < 10 \<Longrightarrow> is_digit (char_of (48 + n :: nat))"
  by (simp add: is_digit_def less_eq_char_def of_char_of)

lemma decimal_digits: "list_all is_digit (decimal n)"
proof (induction n rule: decimal.induct)
  case (1 n)
  show ?case
    by (subst decimal.simps) (use 1 in \<open>simp add: char_of_digit\<close>)
qed

lemma zero_padded_digits: "list_all is_digit (zero_padded w n)"
proof -
  have "is_digit (CHR ''0'')" by (simp add: is_digit_def less_eq_char_def)
  then show ?thesis using decimal_digits [of n] by (auto simp: zero_padded_def list_all_iff)
qed

lemma minus_not_digit: "\<not> is_digit (CHR ''-'')"
  by (simp add: is_digit_def less_eq_char_def)

lemma takeWhile_digits:
  assumes "list_all is_digit xs"
  shows "takeWhile is_digit (xs @ CHR ''-'' # ys) = xs"
proof -
  have "\<forall>x \<in> set xs. is_digit x" using assms by (simp add: list_all_iff)
  then show ?thesis using minus_not_digit by (simp add: takeWhile_append)
qed

lemma expected_policy_id_parse:
  "parse_decimal (takeWhile is_digit (drop 8 (expected_policy_id v d))) = v"
proof -
  have "drop 8 (expected_policy_id v d) = zero_padded 8 v @ CHR ''-'' # take 16 (digest_hex d)"
    by (simp add: expected_policy_id_def)
  then show ?thesis by (simp add: takeWhile_digits zero_padded_digits)
qed

lemma expected_policy_id_version:
  "expected_policy_id v d = expected_policy_id v' d' \<Longrightarrow> v = v'"
  by (metis expected_policy_id_parse)

lemma make_policy_manifest_InrD:
  assumes "make_policy_manifest HA HP r v b a t p s = Inr m"
  shows "pm_policy_id m = expected_policy_id v (HP (semantic_identity r v b a))"
    "pm_policy_version m = v" "pm_run_id m = r" "pm_base_model m = b" "pm_adapter m = a"
    "(v = 0) = (a = None)"
  using assms by (auto simp: make_policy_manifest_def Let_def split: if_splits)

end
