(* ===== verification/Schema.thy ===== *)
theory Schema
  imports Protocol
begin

text \<open>
  The SQLite schema of the coordinator (\<open>src/aether_rl/coordinator/migrations.py\<close>, schema
  version 5): one record per table row, the database as a record of tables, and the
  \<open>INSERT\<close>/\<open>UPDATE\<close>/\<open>DELETE\<close> statements the repository issues. A statement that can
  violate a constraint (primary key, \<open>UNIQUE\<close>, \<open>CHECK\<close>, foreign key; \<open>PRAGMA foreign_keys\<close>
  is on and no key is deferred) returns \<open>Inl IntegrityError\<close>, which aborts the transaction.
  Tables are lists in insertion order. JSON columns hold the decoded value. \<open>NOT NULL\<close> is
  the type of the column. The \<open>CHECK\<close>s on the form of digests are the type \<open>digest\<close>.
\<close>

section \<open>Rows\<close>

record run_row =
  ru_run_id :: id
  ru_base_model_json :: base_model_identity
  ru_base_policy_id :: id
  ru_active_policy_id :: id
  ru_created_at :: time

record policy_row =
  p_policy_id :: id
  p_policy_version :: nat
  p_manifest_digest :: digest
  p_manifest_json :: policy_manifest
  p_artifact_path :: "string option"
  p_created_at :: time

record worker_row =
  w_worker_id :: id
  w_first_registered_at :: time

record session_row =
  s_worker_session_id :: id
  s_worker_id :: id
  s_capabilities_json :: worker_capabilities
  s_registered_at :: time
  s_last_seen_at :: time
  s_last_heartbeat_sent_at :: "time option"
  s_last_lease_request_sent_at :: "time option"

datatype group_state = Collecting | Ready

record group_row =
  g_group_id :: id
  g_policy_id :: id
  g_kind :: rollout_kind
  g_environment :: environment_identity
  g_task_json :: json
  g_sampling_json :: sampling_config
  g_group_size :: nat
  g_state :: group_state
  g_created_at :: time
  g_creation_key :: string
  g_sequence :: nat
  g_source_id :: "id option"

datatype assignment_state = Pending | Retry_wait | Leased | Succeeded | Failed

record assignment_row =
  a_assignment_id :: id
  a_group_id :: id
  a_group_index :: nat
  a_assignment_json :: rollout_assignment
  a_policy_id :: id
  a_policy_manifest_digest :: digest
  a_state :: assignment_state
  a_max_attempts :: nat
  a_attempt_count :: nat
  a_available_at :: time
  a_deadline_at :: "time option"
  a_current_lease_id :: "id option"

datatype lease_state = L_active | L_succeeded | L_failed | L_expired

record lease_row =
  l_lease_id :: id
  l_assignment_id :: id
  l_attempt :: nat
  l_worker_id :: id
  l_worker_session_id :: id
  l_issued_at :: time
  l_expires_at :: time
  l_state :: lease_state
  l_last_renew_sent_at :: "time option"

datatype processing_state = Proc_pending | Proc_processing | Proc_processed

record result_row =
  r_assignment_id :: id
  r_lease_id :: id
  r_envelope_digest :: digest
  r_artifact_path :: string
  r_size_bytes :: nat
  r_accepted_at :: time
  r_processing_state :: processing_state

record failure_row =
  f_lease_id :: id
  f_assignment_id :: id
  f_envelope_digest :: digest
  f_envelope_json :: failure_envelope
  f_accepted_at :: time
  f_retryable :: bool
  f_terminal :: bool

datatype outcome = Out_result | Out_failure | Attempts_exhausted | Deadline_exceeded

record outcome_row =
  o_assignment_id :: id
  o_outcome :: outcome
  o_lease_id :: "id option"
  o_envelope_digest :: "digest option"
  o_completed_at :: time

record scheduler_row =
  ss_next_group_sequence :: nat
  ss_max_policy_lag :: "nat option"
  ss_loaded_policy_preference_seconds :: "time option"

record source_row =
  so_source_id :: id
  so_kind :: rollout_kind
  so_environment :: environment_identity
  so_weight :: rat
  so_virtual_finish :: rat
  so_cursor :: nat
  so_tasks_json :: "json list"
  so_sampling_json :: sampling_config
  so_group_size :: nat
  so_max_attempts :: nat
  so_result_size_limit_bytes :: nat
  so_assignment_timeout_seconds :: "time option"
  so_enabled :: bool

datatype cancel_reason = Policy_stale | Cancelled

record assignment_cancellation_row =
  ca_assignment_id :: id
  ca_reason :: cancel_reason
  ca_requested_at :: time
  ca_terminal :: bool

record lease_cancellation_row =
  cl_lease_id :: id
  cl_assignment_id :: id
  cl_reason :: cancel_reason
  cl_requested_at :: time
  cl_delivered_at :: "time option"

datatype request_state = Rq_pending | Rq_no_work | Rq_leased

record request_row =
  q_request_id :: id
  q_worker_session_id :: id
  q_request_digest :: digest
  q_state :: request_state
  q_lease_id :: "id option"
  q_created_at :: time
  q_completed_at :: "time option"

record batch_row =
  b_step :: nat
  b_artifact_digest :: digest
  b_artifact_path :: string
  b_size_bytes :: nat
  b_sample_count :: nat
  b_created_at :: time

record processed_group_row =
  pg_group_id :: id
  pg_input_digest :: digest
  pg_artifact_digest :: digest
  pg_artifact_path :: string
  pg_size_bytes :: nat
  pg_rollout_count :: nat
  pg_processed_at :: time

record processed_rollout_row =
  pr_group_id :: id
  pr_ordinal :: nat
  pr_token_count :: nat
  pr_batch_step :: "nat option"
  pr_batch_ordinal :: "nat option"
  pr_discarded :: bool

section \<open>The database\<close>

record db =
  runs :: "run_row option"
  policies :: "policy_row list"
  workers :: "worker_row list"
  worker_sessions :: "session_row list"
  rollout_groups :: "group_row list"
  assignments :: "assignment_row list"
  lease_attempts :: "lease_row list"
  accepted_results :: "result_row list"
  failures :: "failure_row list"
  assignment_outcomes :: "outcome_row list"
  scheduler_state :: "scheduler_row option"
  scheduler_sources :: "source_row list"
  assignment_cancellations :: "assignment_cancellation_row list"
  lease_cancellations :: "lease_cancellation_row list"
  lease_requests :: "request_row list"
  training_batches :: "batch_row list"
  processed_groups :: "processed_group_row list"
  processed_rollouts :: "processed_rollout_row list"

text \<open>The database after the five migrations: empty tables and one scheduler row.\<close>

definition migrated_db :: db where
  "migrated_db =
     \<lparr>runs = None, policies = [], workers = [], worker_sessions = [], rollout_groups = [],
      assignments = [], lease_attempts = [], accepted_results = [], failures = [],
      assignment_outcomes = [],
      scheduler_state = Some \<lparr>ss_next_group_sequence = 1, ss_max_policy_lag = None,
                              ss_loaded_policy_preference_seconds = None\<rparr>,
      scheduler_sources = [], assignment_cancellations = [], lease_cancellations = [],
      lease_requests = [], training_batches = [], processed_groups = [], processed_rollouts = []\<rparr>"

text \<open>Primary-key lookups.\<close>

definition policy_at :: "db \<Rightarrow> id \<Rightarrow> policy_row option" where
  "policy_at d = row_at p_policy_id (policies d)"

definition worker_at :: "db \<Rightarrow> id \<Rightarrow> worker_row option" where
  "worker_at d = row_at w_worker_id (workers d)"

definition session_at :: "db \<Rightarrow> id \<Rightarrow> session_row option" where
  "session_at d = row_at s_worker_session_id (worker_sessions d)"

definition group_at :: "db \<Rightarrow> id \<Rightarrow> group_row option" where
  "group_at d = row_at g_group_id (rollout_groups d)"

definition assignment_at :: "db \<Rightarrow> id \<Rightarrow> assignment_row option" where
  "assignment_at d = row_at a_assignment_id (assignments d)"

definition lease_at :: "db \<Rightarrow> id \<Rightarrow> lease_row option" where
  "lease_at d = row_at l_lease_id (lease_attempts d)"

definition result_at :: "db \<Rightarrow> id \<Rightarrow> result_row option" where
  "result_at d = row_at r_assignment_id (accepted_results d)"

definition failure_at :: "db \<Rightarrow> id \<Rightarrow> failure_row option" where
  "failure_at d = row_at f_lease_id (failures d)"

definition outcome_at :: "db \<Rightarrow> id \<Rightarrow> outcome_row option" where
  "outcome_at d = row_at o_assignment_id (assignment_outcomes d)"

definition source_at :: "db \<Rightarrow> id \<Rightarrow> source_row option" where
  "source_at d = row_at so_source_id (scheduler_sources d)"

definition cancellation_at :: "db \<Rightarrow> id \<Rightarrow> assignment_cancellation_row option" where
  "cancellation_at d = row_at ca_assignment_id (assignment_cancellations d)"

definition lease_cancellation_at :: "db \<Rightarrow> id \<Rightarrow> lease_cancellation_row option" where
  "lease_cancellation_at d = row_at cl_lease_id (lease_cancellations d)"

definition request_at :: "db \<Rightarrow> id \<Rightarrow> request_row option" where
  "request_at d = row_at q_request_id (lease_requests d)"

definition batch_at :: "db \<Rightarrow> nat \<Rightarrow> batch_row option" where
  "batch_at d = row_at b_step (training_batches d)"

definition processed_group_at :: "db \<Rightarrow> id \<Rightarrow> processed_group_row option" where
  "processed_group_at d = row_at pg_group_id (processed_groups d)"

text \<open>The parent key \<open>lease_attempts(assignment_id, lease_id)\<close> of several foreign keys.\<close>

definition lease_pair :: "db \<Rightarrow> id \<Rightarrow> id \<Rightarrow> bool" where
  "lease_pair d a l = (case lease_at d l of None \<Rightarrow> False | Some r \<Rightarrow> l_assignment_id r = a)"

section \<open>Insertions\<close>

definition insert_policy :: "policy_row \<Rightarrow> db \<Rightarrow> error + db" where
  "insert_policy r d =
     and_then (guard (policy_at d (p_policy_id r) = None \<and>
                      \<not> list_ex (\<lambda>x. p_policy_version x = p_policy_version r) (policies d) \<and>
                      \<not> list_ex (\<lambda>x. p_manifest_digest x = p_manifest_digest r) (policies d) \<and>
                      (p_policy_version r = 0 \<longleftrightarrow> p_artifact_path r = None)) IntegrityError)
       (\<lambda>_. Inr (d\<lparr>policies := policies d @ [r]\<rparr>))"

definition insert_run :: "run_row \<Rightarrow> db \<Rightarrow> error + db" where
  "insert_run r d =
     and_then (guard (runs d = None \<and> policy_at d (ru_base_policy_id r) \<noteq> None \<and>
                      policy_at d (ru_active_policy_id r) \<noteq> None) IntegrityError)
       (\<lambda>_. Inr (d\<lparr>runs := Some r\<rparr>))"

text \<open>\<open>INSERT OR IGNORE INTO workers\<close>.\<close>

definition insert_worker :: "worker_row \<Rightarrow> db \<Rightarrow> db" where
  "insert_worker r d =
     (if worker_at d (w_worker_id r) = None then d\<lparr>workers := workers d @ [r]\<rparr> else d)"

definition insert_session :: "session_row \<Rightarrow> db \<Rightarrow> error + db" where
  "insert_session r d =
     and_then (guard (session_at d (s_worker_session_id r) = None \<and>
                      worker_at d (s_worker_id r) \<noteq> None) IntegrityError)
       (\<lambda>_. Inr (d\<lparr>worker_sessions := worker_sessions d @ [r]\<rparr>))"

definition insert_group :: "group_row \<Rightarrow> db \<Rightarrow> error + db" where
  "insert_group r d =
     and_then (guard (group_at d (g_group_id r) = None \<and>
                      policy_at d (g_policy_id r) \<noteq> None \<and> 0 < g_group_size r \<and>
                      \<not> list_ex (\<lambda>x. g_creation_key x = g_creation_key r) (rollout_groups d) \<and>
                      \<not> list_ex (\<lambda>x. g_sequence x = g_sequence r) (rollout_groups d) \<and>
                      (case g_source_id r of None \<Rightarrow> True | Some s \<Rightarrow> source_at d s \<noteq> None)) IntegrityError)
       (\<lambda>_. Inr (d\<lparr>rollout_groups := rollout_groups d @ [r]\<rparr>))"

definition insert_assignment_row :: "assignment_row \<Rightarrow> db \<Rightarrow> error + db" where
  "insert_assignment_row r d =
     and_then (guard (assignment_at d (a_assignment_id r) = None \<and>
                      \<not> list_ex (\<lambda>x. a_group_id x = a_group_id r \<and> a_group_index x = a_group_index r) (assignments d) \<and>
                      0 < a_max_attempts r \<and>
                      (case group_at d (a_group_id r) of None \<Rightarrow> False
                       | Some g \<Rightarrow> g_policy_id g = a_policy_id r) \<and>
                      (case policy_at d (a_policy_id r) of None \<Rightarrow> False
                       | Some p \<Rightarrow> p_manifest_digest p = a_policy_manifest_digest r)) IntegrityError)
       (\<lambda>_. Inr (d\<lparr>assignments := assignments d @ [r]\<rparr>))"

definition insert_lease :: "lease_row \<Rightarrow> db \<Rightarrow> error + db" where
  "insert_lease r d =
     and_then (guard (lease_at d (l_lease_id r) = None \<and>
                      assignment_at d (l_assignment_id r) \<noteq> None \<and> 0 < l_attempt r \<and>
                      worker_at d (l_worker_id r) \<noteq> None \<and>
                      (case session_at d (l_worker_session_id r) of None \<Rightarrow> False
                       | Some s \<Rightarrow> s_worker_id s = l_worker_id r) \<and>
                      \<not> list_ex (\<lambda>x. l_assignment_id x = l_assignment_id r \<and> l_attempt x = l_attempt r) (lease_attempts d) \<and>
                      l_issued_at r < l_expires_at r) IntegrityError)
       (\<lambda>_. Inr (d\<lparr>lease_attempts := lease_attempts d @ [r]\<rparr>))"

definition insert_result :: "result_row \<Rightarrow> db \<Rightarrow> error + db" where
  "insert_result r d =
     and_then (guard (result_at d (r_assignment_id r) = None \<and>
                      assignment_at d (r_assignment_id r) \<noteq> None \<and>
                      \<not> list_ex (\<lambda>x. r_lease_id x = r_lease_id r) (accepted_results d) \<and>
                      \<not> list_ex (\<lambda>x. r_envelope_digest x = r_envelope_digest r) (accepted_results d) \<and>
                      \<not> list_ex (\<lambda>x. r_artifact_path x = r_artifact_path r) (accepted_results d) \<and>
                      0 < r_size_bytes r \<and>
                      lease_pair d (r_assignment_id r) (r_lease_id r)) IntegrityError)
       (\<lambda>_. Inr (d\<lparr>accepted_results := accepted_results d @ [r]\<rparr>))"

definition insert_failure :: "failure_row \<Rightarrow> db \<Rightarrow> error + db" where
  "insert_failure r d =
     and_then (guard (failure_at d (f_lease_id r) = None \<and>
                      assignment_at d (f_assignment_id r) \<noteq> None \<and>
                      \<not> list_ex (\<lambda>x. f_envelope_digest x = f_envelope_digest r) (failures d) \<and>
                      lease_pair d (f_assignment_id r) (f_lease_id r)) IntegrityError)
       (\<lambda>_. Inr (d\<lparr>failures := failures d @ [r]\<rparr>))"

definition outcome_keys_ok :: "outcome_row \<Rightarrow> db \<Rightarrow> bool" where
  "outcome_keys_ok r d \<longleftrightarrow>
     assignment_at d (o_assignment_id r) \<noteq> None \<and>
     (case o_lease_id r of None \<Rightarrow> True | Some l \<Rightarrow> lease_pair d (o_assignment_id r) l)"

definition insert_outcome :: "outcome_row \<Rightarrow> db \<Rightarrow> error + db" where
  "insert_outcome r d =
     and_then (guard (outcome_at d (o_assignment_id r) = None \<and> outcome_keys_ok r d) IntegrityError)
       (\<lambda>_. Inr (d\<lparr>assignment_outcomes := assignment_outcomes d @ [r]\<rparr>))"

text \<open>\<open>INSERT OR IGNORE\<close> skips a duplicate key; a foreign key still has to hold.\<close>

definition insert_outcome_or_ignore :: "outcome_row \<Rightarrow> db \<Rightarrow> error + db" where
  "insert_outcome_or_ignore r d =
     (if outcome_at d (o_assignment_id r) \<noteq> None then Inr d else insert_outcome r d)"

definition insert_cancellation_or_ignore :: "assignment_cancellation_row \<Rightarrow> db \<Rightarrow> error + db" where
  "insert_cancellation_or_ignore r d =
     (if cancellation_at d (ca_assignment_id r) \<noteq> None then Inr d
      else and_then (guard (assignment_at d (ca_assignment_id r) \<noteq> None) IntegrityError)
        (\<lambda>_. Inr (d\<lparr>assignment_cancellations := assignment_cancellations d @ [r]\<rparr>)))"

definition insert_lease_cancellation_or_ignore :: "lease_cancellation_row \<Rightarrow> db \<Rightarrow> error + db" where
  "insert_lease_cancellation_or_ignore r d =
     (if lease_cancellation_at d (cl_lease_id r) \<noteq> None then Inr d
      else and_then (guard (lease_pair d (cl_assignment_id r) (cl_lease_id r)) IntegrityError)
        (\<lambda>_. Inr (d\<lparr>lease_cancellations := lease_cancellations d @ [r]\<rparr>)))"

text \<open>The two row \<open>CHECK\<close>s of \<open>lease_requests\<close>.\<close>

definition request_ok :: "request_row \<Rightarrow> bool" where
  "request_ok r \<longleftrightarrow>
     (case q_completed_at r of None \<Rightarrow> True | Some t \<Rightarrow> q_created_at r \<le> t) \<and>
     ((q_state r = Rq_pending \<and> q_lease_id r = None \<and> q_completed_at r = None) \<or>
      (q_state r = Rq_no_work \<and> q_lease_id r = None \<and> q_completed_at r \<noteq> None) \<or>
      (q_state r = Rq_leased \<and> q_lease_id r \<noteq> None \<and> q_completed_at r \<noteq> None))"

definition insert_request :: "request_row \<Rightarrow> db \<Rightarrow> error + db" where
  "insert_request r d =
     and_then (guard (request_at d (q_request_id r) = None \<and>
                      session_at d (q_worker_session_id r) \<noteq> None \<and> request_ok r) IntegrityError)
       (\<lambda>_. Inr (d\<lparr>lease_requests := lease_requests d @ [r]\<rparr>))"

definition insert_source :: "source_row \<Rightarrow> db \<Rightarrow> error + db" where
  "insert_source r d =
     and_then (guard (source_at d (so_source_id r) = None \<and> 0 < so_weight r \<and> 0 < so_group_size r \<and>
                      0 < so_max_attempts r \<and> 0 < so_result_size_limit_bytes r \<and>
                      (case so_assignment_timeout_seconds r of None \<Rightarrow> True | Some t \<Rightarrow> 0 < t)) IntegrityError)
       (\<lambda>_. Inr (d\<lparr>scheduler_sources := scheduler_sources d @ [r]\<rparr>))"

definition insert_batch :: "batch_row \<Rightarrow> db \<Rightarrow> error + db" where
  "insert_batch r d =
     and_then (guard (batch_at d (b_step r) = None \<and> 0 < b_step r \<and> 0 < b_size_bytes r \<and> 0 < b_sample_count r \<and>
                      \<not> list_ex (\<lambda>x. b_artifact_digest x = b_artifact_digest r) (training_batches d) \<and>
                      \<not> list_ex (\<lambda>x. b_artifact_path x = b_artifact_path r) (training_batches d)) IntegrityError)
       (\<lambda>_. Inr (d\<lparr>training_batches := training_batches d @ [r]\<rparr>))"

definition insert_processed_group :: "processed_group_row \<Rightarrow> db \<Rightarrow> error + db" where
  "insert_processed_group r d =
     and_then (guard (processed_group_at d (pg_group_id r) = None \<and> group_at d (pg_group_id r) \<noteq> None \<and>
                      0 < pg_size_bytes r \<and>
                      \<not> list_ex (\<lambda>x. pg_artifact_digest x = pg_artifact_digest r) (processed_groups d) \<and>
                      \<not> list_ex (\<lambda>x. pg_artifact_path x = pg_artifact_path r) (processed_groups d)) IntegrityError)
       (\<lambda>_. Inr (d\<lparr>processed_groups := processed_groups d @ [r]\<rparr>))"

definition insert_processed_rollout :: "processed_rollout_row \<Rightarrow> db \<Rightarrow> error + db" where
  "insert_processed_rollout r d =
     and_then (guard (\<not> list_ex (\<lambda>x. pr_group_id x = pr_group_id r \<and> pr_ordinal x = pr_ordinal r) (processed_rollouts d) \<and>
                      processed_group_at d (pr_group_id r) \<noteq> None \<and>
                      (pr_batch_step r = None \<longleftrightarrow> pr_batch_ordinal r = None) \<and>
                      (pr_discarded r \<longrightarrow> pr_batch_step r = None)) IntegrityError)
       (\<lambda>_. Inr (d\<lparr>processed_rollouts := processed_rollouts d @ [r]\<rparr>))"

section \<open>Updates\<close>

definition update_assignment :: "id \<Rightarrow> (assignment_row \<Rightarrow> assignment_row) \<Rightarrow> db \<Rightarrow> db" where
  "update_assignment a f d =
     d\<lparr>assignments := update_where (\<lambda>r. a_assignment_id r = a) f (assignments d)\<rparr>"

text \<open>\<open>current_lease_id = ?\<close> with a lease: the foreign key on \<open>(assignment_id, current_lease_id)\<close>.\<close>

definition set_current_lease :: "id \<Rightarrow> nat \<Rightarrow> id \<Rightarrow> db \<Rightarrow> error + db" where
  "set_current_lease a attempt l d =
     and_then (guard (assignment_at d a = None \<or> lease_pair d a l) IntegrityError)
       (\<lambda>_. Inr (update_assignment a
         (\<lambda>r. r\<lparr>a_state := Leased, a_attempt_count := attempt, a_current_lease_id := Some l\<rparr>) d))"

definition update_lease_state :: "id \<Rightarrow> lease_state \<Rightarrow> db \<Rightarrow> db" where
  "update_lease_state l st d =
     d\<lparr>lease_attempts := update_where (\<lambda>r. l_lease_id r = l) (\<lambda>r. r\<lparr>l_state := st\<rparr>) (lease_attempts d)\<rparr>"

text \<open>A new expiry has to respect \<open>CHECK (expires_at > issued_at)\<close>.\<close>

definition update_lease_expiry :: "id \<Rightarrow> time \<Rightarrow> time option \<Rightarrow> db \<Rightarrow> error + db" where
  "update_lease_expiry l t sent d =
     and_then (guard (case lease_at d l of None \<Rightarrow> True | Some r \<Rightarrow> l_issued_at r < t) IntegrityError)
       (\<lambda>_. Inr (d\<lparr>lease_attempts := update_where (\<lambda>r. l_lease_id r = l)
          (\<lambda>r. r\<lparr>l_expires_at := t,
                 l_last_renew_sent_at := (case sent of None \<Rightarrow> l_last_renew_sent_at r | Some x \<Rightarrow> Some x)\<rparr>)
          (lease_attempts d)\<rparr>))"

definition set_group_state :: "id \<Rightarrow> group_state \<Rightarrow> db \<Rightarrow> db" where
  "set_group_state g st d =
     d\<lparr>rollout_groups := update_where (\<lambda>r. g_group_id r = g) (\<lambda>r. r\<lparr>g_state := st\<rparr>) (rollout_groups d)\<rparr>"

definition set_cancellation_terminal :: "id \<Rightarrow> db \<Rightarrow> db" where
  "set_cancellation_terminal a d =
     d\<lparr>assignment_cancellations := update_where (\<lambda>r. ca_assignment_id r = a)
        (\<lambda>r. r\<lparr>ca_terminal := True\<rparr>) (assignment_cancellations d)\<rparr>"

text \<open>\<open>delivered_at = COALESCE(delivered_at, ?)\<close>.\<close>

definition deliver_cancellation :: "id \<Rightarrow> time \<Rightarrow> db \<Rightarrow> db" where
  "deliver_cancellation l t d =
     d\<lparr>lease_cancellations := update_where (\<lambda>r. cl_lease_id r = l)
        (\<lambda>r. r\<lparr>cl_delivered_at := (case cl_delivered_at r of None \<Rightarrow> Some t | Some x \<Rightarrow> Some x)\<rparr>)
        (lease_cancellations d)\<rparr>"

text \<open>\<open>UPDATE lease_requests ... WHERE request_id = ? AND state = 'pending'\<close>, with the
  \<open>CHECK\<close>s, the foreign key on \<open>lease_id\<close> and the unique index on it.\<close>

definition complete_request :: "id \<Rightarrow> request_state \<Rightarrow> id option \<Rightarrow> time \<Rightarrow> db \<Rightarrow> error + db" where
  "complete_request q st l t d =
     (let P = (\<lambda>r. q_request_id r = q \<and> q_state r = Rq_pending);
          f = (\<lambda>r. r\<lparr>q_state := st, q_lease_id := l, q_completed_at := Some t\<rparr>)
      in and_then (guard (list_all (\<lambda>r. P r \<longrightarrow>
              request_ok (f r) \<and>
              (case l of None \<Rightarrow> True
               | Some x \<Rightarrow> lease_at d x \<noteq> None \<and>
                   \<not> list_ex (\<lambda>y. y \<noteq> r \<and> q_lease_id y = Some x) (lease_requests d))) (lease_requests d)) IntegrityError)
        (\<lambda>_. Inr (d\<lparr>lease_requests := update_where P f (lease_requests d)\<rparr>)))"

text \<open>\<open>DELETE FROM lease_attempts\<close>: refused while any child row refers to the lease.\<close>

definition lease_referenced :: "db \<Rightarrow> id \<Rightarrow> bool" where
  "lease_referenced d l \<longleftrightarrow>
     list_ex (\<lambda>r. a_current_lease_id r = Some l) (assignments d) \<or>
     list_ex (\<lambda>r. r_lease_id r = l) (accepted_results d) \<or>
     list_ex (\<lambda>r. f_lease_id r = l) (failures d) \<or>
     list_ex (\<lambda>r. o_lease_id r = Some l) (assignment_outcomes d) \<or>
     list_ex (\<lambda>r. cl_lease_id r = l) (lease_cancellations d) \<or>
     list_ex (\<lambda>r. q_lease_id r = Some l) (lease_requests d)"

definition delete_lease :: "id \<Rightarrow> db \<Rightarrow> error + db" where
  "delete_lease l d =
     and_then (guard (lease_at d l = None \<or> \<not> lease_referenced d l) IntegrityError)
       (\<lambda>_. Inr (d\<lparr>lease_attempts := delete_where (\<lambda>r. l_lease_id r = l) (lease_attempts d)\<rparr>))"

definition set_active_policy :: "id \<Rightarrow> db \<Rightarrow> error + db" where
  "set_active_policy p d =
     and_then (guard (policy_at d p \<noteq> None) IntegrityError)
       (\<lambda>_. Inr (d\<lparr>runs := map_option (\<lambda>r. r\<lparr>ru_active_policy_id := p\<rparr>) (runs d)\<rparr>))"

definition update_session :: "id \<Rightarrow> (session_row \<Rightarrow> session_row) \<Rightarrow> db \<Rightarrow> db" where
  "update_session s f d =
     d\<lparr>worker_sessions := update_where (\<lambda>r. s_worker_session_id r = s) f (worker_sessions d)\<rparr>"

definition update_source :: "id \<Rightarrow> (source_row \<Rightarrow> source_row) \<Rightarrow> db \<Rightarrow> db" where
  "update_source s f d =
     d\<lparr>scheduler_sources := update_where (\<lambda>r. so_source_id r = s) f (scheduler_sources d)\<rparr>"

end
