(* ===== verification/Lifecycle.thy ===== *)
theory Lifecycle
  imports Schema
begin

text \<open>
  The private transitions of \<open>CoordinatorRepository\<close> (\<open>coordinator/database.py\<close>) that move an
  assignment through its life: retry or terminal failure, lease expiry, cancellation of
  stale training groups, and the recomputation of group states. Each is a function on the
  database; a raised exception is \<open>Inl\<close>.
\<close>

section \<open>The repository object\<close>

text \<open>
  The immutable attributes of the repository (the directory of the run, the retry delays), and the parameters that stand for code the
  model does not contain: SHA-256 over canonical documents and over bytes, the two encodings
  of a result envelope and their decoder (its flag says JSON), the
  resolution of a path relative to the run root (\<open>None\<close> is a path outside of it), the verification
  of an adapter directory against an expected manifest, and the verdict of the file checks on
  the directory of a stored policy.
\<close>

record repository =
  run_root :: string
  retry_base_seconds :: time
  retry_max_seconds :: time
  hash_adapter :: "adapter_content \<Rightarrow> digest"
  hash_identity :: "policy_identity \<Rightarrow> digest"
  hash_request :: "lease_request \<Rightarrow> digest"
  hash_failure :: "failure_envelope \<Rightarrow> digest"
  sha256 :: "string \<Rightarrow> digest"
  result_bytes :: "result_envelope \<Rightarrow> string"
  result_json_bytes :: "result_envelope \<Rightarrow> string"
  decode_result :: "bool \<Rightarrow> string \<Rightarrow> result_envelope option"
  relative_path :: "string \<Rightarrow> string option"
  verify_artifact :: "string \<Rightarrow> policy_manifest \<Rightarrow> error + policy_manifest"
  artifact_intact :: "policy_row \<Rightarrow> bool"

text \<open>The constructor refuses delays that are not positive.\<close>

definition CoordinatorRepository :: "repository \<Rightarrow> error + repository" where
  "CoordinatorRepository R =
     and_then (guard (0 < retry_base_seconds R \<and> 0 < retry_max_seconds R) ValueError) (\<lambda>_. Inr R)"

abbreviation manifest_digest :: "repository \<Rightarrow> policy_manifest \<Rightarrow> digest" where
  "manifest_digest R \<equiv> policy_manifest_digest (hash_identity R)"

section \<open>Group states\<close>

definition terminal :: "assignment_state \<Rightarrow> bool" where
  "terminal s \<longleftrightarrow> s = Succeeded \<or> s = Failed"

definition recompute_group :: "id \<Rightarrow> db \<Rightarrow> db" where
  "recompute_group g d =
     (let count = count_where (\<lambda>r. a_group_id r = g \<and> \<not> terminal (a_state r)) (assignments d)
      in set_group_state g (if count = 0 then Ready else Collecting) d)"

definition recompute_groups :: "db \<Rightarrow> db" where
  "recompute_groups d = fold recompute_group (map g_group_id (order_by g_group_id (rollout_groups d))) d"

section \<open>Ending or retrying an attempt\<close>

text \<open>\<open>min(retry_max_seconds, retry_base_seconds * 2 ** (attempt_count - 1))\<close>; the power is
  a half when the count is 0.\<close>

definition retry_delay :: "repository \<Rightarrow> nat \<Rightarrow> time" where
  "retry_delay R attempt_count = min (retry_max_seconds R) (retry_base_seconds R * (2 ^ attempt_count / 2))"

definition fail_assignment :: "id \<Rightarrow> db \<Rightarrow> db" where
  "fail_assignment a = update_assignment a (\<lambda>r. r\<lparr>a_state := Failed, a_current_lease_id := None\<rparr>)"

definition retry_or_terminal ::
  "repository \<Rightarrow> assignment_row \<Rightarrow> time \<Rightarrow> failure_envelope option \<Rightarrow> digest option \<Rightarrow> id option \<Rightarrow> db \<Rightarrow> error + bool \<times> db" where
  "retry_or_terminal R asg now envelope dig lease_id d =
     (let retryable = (case envelope of None \<Rightarrow> True | Some e \<Rightarrow> fe_retryable e);
          delay = retry_delay R (a_attempt_count asg);
          deadline = a_deadline_at asg;
          can_retry = (retryable \<and> a_attempt_count asg < a_max_attempts asg \<and>
                       \<not> deadline_passed deadline (now + delay))
      in if can_retry then
           Inr (False, update_assignment (a_assignment_id asg)
             (\<lambda>r. r\<lparr>a_state := Retry_wait, a_available_at := now + delay, a_current_lease_id := None\<rparr>) d)
         else
           let out = (if a_attempt_count asg \<ge> a_max_attempts asg then Attempts_exhausted
                      else if \<not> retryable then Out_failure
                      else if deadline_passed deadline (now + delay) then Deadline_exceeded
                      else Attempts_exhausted)
           in and_then (insert_outcome
                \<lparr>o_assignment_id = a_assignment_id asg, o_outcome = out,
                 o_lease_id = (case envelope of None \<Rightarrow> lease_id | Some e \<Rightarrow> Some (fe_lease_id e)),
                 o_envelope_digest = dig, o_completed_at = now\<rparr> (fail_assignment (a_assignment_id asg) d))
                (\<lambda>d. Inr (True, d)))"

lemma retry_delay_pos:
  assumes "CoordinatorRepository R = Inr R"
  shows "0 < retry_delay R n"
  using assms by (simp add: retry_delay_def CoordinatorRepository_def and_then_eq_Inr)

definition terminalize_without_envelope :: "assignment_row \<Rightarrow> outcome \<Rightarrow> time \<Rightarrow> db \<Rightarrow> error + db" where
  "terminalize_without_envelope asg out now d =
     and_then (insert_outcome
         \<lparr>o_assignment_id = a_assignment_id asg, o_outcome = out, o_lease_id = None,
          o_envelope_digest = None, o_completed_at = now\<rparr> (fail_assignment (a_assignment_id asg) d))
       (\<lambda>d. Inr (recompute_group (a_group_id asg) d))"

section \<open>Lease expiry\<close>

text \<open>The join of active leases that are past their expiry or their assignment's deadline.\<close>

definition due_lease :: "db \<Rightarrow> time \<Rightarrow> lease_row \<Rightarrow> (assignment_row \<times> lease_row \<times> bool) option" where
  "due_lease d now l =
     (case assignment_at d (l_assignment_id l) of
        None \<Rightarrow> None
      | Some a \<Rightarrow>
          if l_state l = L_active \<and> (l_expires_at l \<le> now \<or> deadline_passed (a_deadline_at a) now)
          then Some (a, l, lease_cancellation_at d (l_lease_id l) \<noteq> None) else None)"

definition due_leases :: "db \<Rightarrow> time \<Rightarrow> (assignment_row \<times> lease_row \<times> bool) list" where
  "due_leases d now =
     order_by (\<lambda>(a, l, c). (l_expires_at l, l_assignment_id l))
       (List.map_filter (due_lease d now) (lease_attempts d))"

definition expire_one :: "repository \<Rightarrow> time \<Rightarrow> assignment_row \<times> lease_row \<times> bool \<Rightarrow> db \<Rightarrow> error + db" where
  "expire_one R now due d =
     (case due of (asg, l, cancelled) \<Rightarrow>
        let d1 = update_lease_state (l_lease_id l) L_expired d in
        if cancelled then
          insert_outcome_or_ignore
            \<lparr>o_assignment_id = a_assignment_id asg, o_outcome = Out_failure, o_lease_id = Some (l_lease_id l),
             o_envelope_digest = None, o_completed_at = now\<rparr>
            (set_cancellation_terminal (a_assignment_id asg) (fail_assignment (a_assignment_id asg) d1))
        else and_then (retry_or_terminal R asg now None None (Some (l_lease_id l)) d1) (\<lambda>(_, d2). Inr d2))"

definition overdue :: "db \<Rightarrow> time \<Rightarrow> assignment_row list" where
  "overdue d now =
     order_by (\<lambda>r. (case a_deadline_at r of None \<Rightarrow> 0 | Some t \<Rightarrow> t, a_assignment_id r))
       (filter (\<lambda>r. a_state r \<in> {Pending, Retry_wait} \<and> deadline_passed (a_deadline_at r) now) (assignments d))"

definition expire_leases_in :: "repository \<Rightarrow> time \<Rightarrow> db \<Rightarrow> error + nat \<times> db" where
  "expire_leases_in R now d =
     (let leases = due_leases d now in
      and_then (fold_step (expire_one R now) leases d) (\<lambda>d1.
      and_then (fold_step (\<lambda>asg. terminalize_without_envelope asg Deadline_exceeded now) (overdue d1 now) d1) (\<lambda>d2.
      Inr (length leases, recompute_groups d2))))"

section \<open>Stale training groups\<close>

text \<open>The version of the active policy; \<open>None\<close> before the run is initialised.\<close>

definition active_policy_row :: "db \<Rightarrow> policy_row option" where
  "active_policy_row d = (case runs d of None \<Rightarrow> None | Some r \<Rightarrow> policy_at d (ru_active_policy_id r))"

definition stale_groups :: "nat \<Rightarrow> nat \<Rightarrow> db \<Rightarrow> group_row list" where
  "stale_groups active_version max_policy_lag d =
     order_by (\<lambda>g. (g_sequence g, g_group_id g))
       (filter (\<lambda>g. g_kind g = Train \<and>
                 (case policy_at d (g_policy_id g) of None \<Rightarrow> False
                  | Some p \<Rightarrow> int active_version - int (p_policy_version p) > int max_policy_lag))
         (rollout_groups d))"

definition open_assignments :: "db \<Rightarrow> id \<Rightarrow> assignment_row list" where
  "open_assignments d g =
     order_by (\<lambda>r. (a_group_index r, a_assignment_id r))
       (filter (\<lambda>r. a_group_id r = g \<and> a_state r \<in> {Pending, Retry_wait, Leased}) (assignments d))"

definition cancel_stale_assignment :: "time \<Rightarrow> assignment_row \<Rightarrow> db \<Rightarrow> error + db" where
  "cancel_stale_assignment now asg d =
     (let a = a_assignment_id asg; term = (a_state asg \<noteq> Leased) in
      and_then (insert_cancellation_or_ignore
          \<lparr>ca_assignment_id = a, ca_reason = Policy_stale, ca_requested_at = now, ca_terminal = term\<rparr> d) (\<lambda>d1.
      if term then
        insert_outcome_or_ignore
          \<lparr>o_assignment_id = a, o_outcome = Out_failure, o_lease_id = None, o_envelope_digest = None,
           o_completed_at = now\<rparr>
          (set_cancellation_terminal a (fail_assignment a d1))
      else
        (case a_current_lease_id asg of
           None \<Rightarrow> Inr d1
         | Some l \<Rightarrow> insert_lease_cancellation_or_ignore
             \<lparr>cl_lease_id = l, cl_assignment_id = a, cl_reason = Policy_stale, cl_requested_at = now,
              cl_delivered_at = None\<rparr> d1)))"

definition cancel_stale_group :: "time \<Rightarrow> group_row \<Rightarrow> db \<Rightarrow> error + db" where
  "cancel_stale_group now g d =
     and_then (fold_step (cancel_stale_assignment now) (open_assignments d (g_group_id g)) d)
       (\<lambda>d1. Inr (recompute_group (g_group_id g) d1))"

definition cancel_stale_train_groups :: "nat \<Rightarrow> time \<Rightarrow> db \<Rightarrow> error + db" where
  "cancel_stale_train_groups max_policy_lag now d =
     (case active_policy_row d of
        None \<Rightarrow> Inl TypeError
      | Some p \<Rightarrow> fold_step (cancel_stale_group now) (stale_groups (p_policy_version p) max_policy_lag d) d)"

definition scheduler_settings :: "db \<Rightarrow> error + scheduler_row" where
  "scheduler_settings d = (case scheduler_state d of None \<Rightarrow> Inl InvalidStateError | Some s \<Rightarrow> Inr s)"

definition reconcile_stale_work :: "time \<Rightarrow> db \<Rightarrow> error + db" where
  "reconcile_stale_work now d =
     and_then (scheduler_settings d) (\<lambda>s.
       case ss_max_policy_lag s of None \<Rightarrow> Inr d | Some lag \<Rightarrow> cancel_stale_train_groups lag now d)"

definition expire_leases :: "repository \<Rightarrow> time \<Rightarrow> db \<Rightarrow> (error + nat) \<times> db" where
  "expire_leases R now =
     transaction (\<lambda>d. and_then (reconcile_stale_work now d) (expire_leases_in R now))"

end
