(* ===== verification/Leasing.thy ===== *)
theory Leasing
  imports Lifecycle
begin

text \<open>
  The operations of \<open>CoordinatorRepository\<close> that workers drive: registration, heartbeats,
  lease requests, leasing, renewal. Each public method is a function from the values of the
  clock (and of the id factory) and the database to the returned value or the raised
  exception, and the database after the last commit. \<open>transaction\<close> is the \<open>with
  self._transaction()\<close> block: a body that raises leaves the database as it was.
\<close>

section \<open>Reads\<close>

text \<open>\<open>_run\<close> and \<open>_assignment\<close>.\<close>

definition the_run :: "db \<Rightarrow> error + run_row" where
  "the_run d = (case runs d of None \<Rightarrow> Inl InvalidStateError | Some r \<Rightarrow> Inr r)"

definition the_assignment :: "id \<Rightarrow> db \<Rightarrow> error + assignment_row" where
  "the_assignment a d = (case assignment_at d a of None \<Rightarrow> Inl NotFoundError | Some r \<Rightarrow> Inr r)"

text \<open>\<open>RolloutAssignment.model_validate_json(row["assignment_json"])\<close>.\<close>

definition decode_assignment :: "assignment_row \<Rightarrow> error + rollout_assignment" where
  "decode_assignment r =
     (if RolloutAssignment (a_assignment_json r) then Inr (a_assignment_json r) else Inl ValueError)"

definition validate_policy_ids :: "id list \<Rightarrow> db \<Rightarrow> error + unit" where
  "validate_policy_ids ids d = guard (list_all (\<lambda>p. policy_at d p \<noteq> None) ids) IncompatibleWorkerError"

text \<open>The session of a worker: it exists and belongs to the worker (\<open>_compatible_session\<close> and its inlined copies).\<close>

definition compatible_session :: "id \<Rightarrow> id \<Rightarrow> db \<Rightarrow> error + session_row" where
  "compatible_session worker session d =
     (case session_at d session of
        None \<Rightarrow> Inl IncompatibleWorkerError
      | Some s \<Rightarrow> if s_worker_id s \<noteq> worker then Inl IncompatibleWorkerError else Inr s)"

text \<open>Leases that count against the capacity of a session: not expired, and not a cancelled
  lease whose cancellation the worker has been told of.\<close>

definition occupies_slot :: "db \<Rightarrow> id \<Rightarrow> id \<Rightarrow> time \<Rightarrow> lease_row \<Rightarrow> bool" where
  "occupies_slot d worker session now l \<longleftrightarrow>
     l_worker_id l = worker \<and> l_worker_session_id l = session \<and> l_state l = L_active \<and> now < l_expires_at l \<and>
     (case assignment_at d (l_assignment_id l) of None \<Rightarrow> False
      | Some a \<Rightarrow> \<not> deadline_passed (a_deadline_at a) now) \<and>
     (case lease_cancellation_at d (l_lease_id l) of None \<Rightarrow> True | Some c \<Rightarrow> cl_delivered_at c = None)"

definition active_count :: "db \<Rightarrow> id \<Rightarrow> id \<Rightarrow> time \<Rightarrow> nat" where
  "active_count d worker session now = count_where (occupies_slot d worker session now) (lease_attempts d)"

section \<open>Registration\<close>

record registration_record =
  rg_worker_id :: id
  rg_worker_session_id :: id
  rg_created :: bool

definition register_worker :: "worker_registration \<Rightarrow> time \<Rightarrow> db \<Rightarrow> (error + registration_record) \<times> db" where
  "register_worker reg received_at =
     transaction (\<lambda>d.
       and_then (the_run d) (\<lambda>run.
       if wc_base_model (wr_capabilities reg) \<noteq> ru_base_model_json run then Inl IncompatibleWorkerError
       else case session_at d (wr_worker_session_id reg) of
         Some existing \<Rightarrow>
           if s_worker_id existing \<noteq> wr_worker_id reg \<or> s_capabilities_json existing \<noteq> wr_capabilities reg
           then Inl ConflictError
           else Inr (\<lparr>rg_worker_id = wr_worker_id reg, rg_worker_session_id = wr_worker_session_id reg,
                      rg_created = False\<rparr>, d)
       | None \<Rightarrow>
           and_then (insert_session
               \<lparr>s_worker_session_id = wr_worker_session_id reg, s_worker_id = wr_worker_id reg,
                s_capabilities_json = wr_capabilities reg, s_registered_at = received_at, s_last_seen_at = received_at,
                s_last_heartbeat_sent_at = None, s_last_lease_request_sent_at = None\<rparr>
               (insert_worker \<lparr>w_worker_id = wr_worker_id reg, w_first_registered_at = received_at\<rparr> d))
             (\<lambda>d1. Inr (\<lparr>rg_worker_id = wr_worker_id reg, rg_worker_session_id = wr_worker_session_id reg,
                         rg_created = True\<rparr>, d1))))"

section \<open>Heartbeats\<close>

text \<open>The rows the heartbeat selects before it changes any of them.\<close>

definition reported_lease :: "db \<Rightarrow> id \<Rightarrow> (lease_row \<times> assignment_row) option" where
  "reported_lease d l =
     (case lease_at d l of
        None \<Rightarrow> None
      | Some lr \<Rightarrow> (case assignment_at d (l_assignment_id lr) of None \<Rightarrow> None | Some ar \<Rightarrow> Some (lr, ar)))"

definition must_stop :: "db \<Rightarrow> time \<Rightarrow> id \<Rightarrow> bool" where
  "must_stop d now l =
     (case reported_lease d l of
        None \<Rightarrow> True
      | Some (lr, ar) \<Rightarrow>
          lease_cancellation_at d l \<noteq> None \<or> l_state lr \<noteq> L_active \<or> a_state ar \<noteq> Leased \<or>
          l_expires_at lr \<le> now \<or> deadline_passed (a_deadline_at ar) now)"

definition renewed_expiry :: "time \<Rightarrow> time \<Rightarrow> lease_row \<Rightarrow> assignment_row \<Rightarrow> time" where
  "renewed_expiry now duration lr ar = cap_at (a_deadline_at ar) (max (l_expires_at lr) (now + duration))"

text \<open>One iteration of the loop over the reported ids; \<open>d0\<close> is the database the rows were read from.\<close>

definition heartbeat_lease :: "db \<Rightarrow> time \<Rightarrow> time \<Rightarrow> id \<Rightarrow> lease_renewal list \<times> id list \<times> db
    \<Rightarrow> error + lease_renewal list \<times> id list \<times> db" where
  "heartbeat_lease d0 now duration l s =
     (case s of (renewals, stop_ids, d) \<Rightarrow>
        let d1 = (if lease_cancellation_at d0 l \<noteq> None then deliver_cancellation l now d else d) in
        if must_stop d0 now l then Inr (renewals, stop_ids @ [l], d1)
        else case reported_lease d0 l of
          None \<Rightarrow> Inr (renewals, stop_ids @ [l], d1)
        | Some (lr, ar) \<Rightarrow>
            let expires_at = renewed_expiry now duration lr ar in
            and_then (update_lease_expiry l expires_at None d1) (\<lambda>d2.
              Inr (renewals @ [\<lparr>lr_assignment_id = l_assignment_id lr, lr_lease_id = l, lr_expires_at = expires_at\<rparr>],
                   stop_ids, d2)))"

definition record_heartbeat :: "worker_heartbeat \<Rightarrow> time \<Rightarrow> time \<Rightarrow> db
    \<Rightarrow> (error + lease_renewal list \<times> id list) \<times> db" where
  "record_heartbeat hb duration now =
     transaction (\<lambda>d.
       if duration \<le> 0 then Inl ValueError
       else and_then (reconcile_stale_work now d) (\<lambda>d1.
       and_then (compatible_session (hb_worker_id hb) (hb_worker_session_id hb) d1) (\<lambda>session.
       if (case s_last_heartbeat_sent_at session of None \<Rightarrow> False | Some t \<Rightarrow> hb_sent_at hb \<le> t) then Inl ConflictError
       else and_then (validate_policy_ids (hb_loaded_policy_ids hb) d1) (\<lambda>_.
       if list_ex (\<lambda>l. case reported_lease d1 l of None \<Rightarrow> False
            | Some (lr, ar) \<Rightarrow> l_worker_id lr \<noteq> hb_worker_id hb \<or> l_worker_session_id lr \<noteq> hb_worker_session_id hb)
            (hb_active_lease_ids hb) then Inl ConflictError
       else and_then (fold_step (heartbeat_lease d1 now duration) (hb_active_lease_ids hb) ([], [], d1))
         (\<lambda>(renewals, stop_ids, d2).
           Inr ((renewals, stop_ids),
             update_session (hb_worker_session_id hb)
               (\<lambda>r. r\<lparr>s_last_seen_at := now, s_last_heartbeat_sent_at := Some (hb_sent_at hb)\<rparr>) d2))))))"

section \<open>Lease requests\<close>

record disposition =
  dp_state :: request_state
  dp_lease :: "assignment_lease option"

text \<open>\<open>_assignment_lease\<close>: the lease is rebuilt from its rows and validated again.\<close>

definition assignment_lease_of :: "lease_row \<Rightarrow> assignment_row \<Rightarrow> error + assignment_lease" where
  "assignment_lease_of lr ar =
     and_then (decode_assignment ar) (\<lambda>asg. AssignmentLease
       \<lparr>al_lease_id = l_lease_id lr, al_attempt = l_attempt lr, al_worker_id = l_worker_id lr,
        al_worker_session_id = l_worker_session_id lr, al_issued_at = l_issued_at lr,
        al_expires_at = l_expires_at lr, al_assignment = asg\<rparr>)"

definition lease_of_id :: "id \<Rightarrow> db \<Rightarrow> error + assignment_lease" where
  "lease_of_id l d =
     (case reported_lease d l of None \<Rightarrow> Inl InvalidStateError | Some (lr, ar) \<Rightarrow> assignment_lease_of lr ar)"

definition lease_request_disposition :: "request_row \<Rightarrow> db \<Rightarrow> error + disposition" where
  "lease_request_disposition row d =
     (if q_state row = Rq_leased then
        (case q_lease_id row of
           None \<Rightarrow> Inl InvalidStateError
         | Some l \<Rightarrow> and_then (lease_of_id l d) (\<lambda>lease. Inr \<lparr>dp_state = q_state row, dp_lease = Some lease\<rparr>))
      else Inr \<lparr>dp_state = q_state row, dp_lease = None\<rparr>)"

definition the_request :: "id \<Rightarrow> db \<Rightarrow> error + request_row" where
  "the_request q d = (case request_at d q of None \<Rightarrow> Inl InvalidStateError | Some r \<Rightarrow> Inr r)"

definition validate_lease_request :: "repository \<Rightarrow> lease_request \<Rightarrow> time \<Rightarrow> db \<Rightarrow> (error + disposition) \<times> db" where
  "validate_lease_request R req now =
     transaction (\<lambda>d. case request_at d (lq_request_id req) of
       Some existing \<Rightarrow>
         if q_request_digest existing \<noteq> hash_request R req then Inl ConflictError
         else and_then (lease_request_disposition existing d) (\<lambda>dp. Inr (dp, d))
     | None \<Rightarrow>
         and_then (compatible_session (lq_worker_id req) (lq_worker_session_id req) d) (\<lambda>session.
         if (case s_last_lease_request_sent_at session of None \<Rightarrow> False | Some t \<Rightarrow> lq_sent_at req \<le> t)
         then Inl ConflictError
         else and_then (validate_policy_ids (lq_loaded_policy_ids req) d) (\<lambda>_.
         let active = active_count d (lq_worker_id req) (lq_worker_session_id req) now in
         if int (lq_available_slots req) > int (wc_inference_slots (s_capabilities_json session)) - int active
         then Inl CapacityError
         else and_then (insert_request
             \<lparr>q_request_id = lq_request_id req, q_worker_session_id = lq_worker_session_id req,
              q_request_digest = hash_request R req, q_state = Rq_pending, q_lease_id = None,
              q_created_at = now, q_completed_at = None\<rparr> d) (\<lambda>d1.
           Inr (\<lparr>dp_state = Rq_pending, dp_lease = None\<rparr>,
             update_session (lq_worker_session_id req)
               (\<lambda>r. r\<lparr>s_last_lease_request_sent_at := Some (lq_sent_at req)\<rparr>) d1)))))"

definition mark_lease_request_no_work :: "id \<Rightarrow> time \<Rightarrow> db \<Rightarrow> (error + disposition) \<times> db" where
  "mark_lease_request_no_work q now =
     transaction (\<lambda>d. and_then (the_request q d) (\<lambda>row.
       if q_state row = Rq_pending then
         and_then (complete_request q Rq_no_work None now d) (\<lambda>d1.
         and_then (the_request q d1) (\<lambda>row1.
         and_then (lease_request_disposition row1 d1) (\<lambda>dp. Inr (dp, d1))))
       else and_then (lease_request_disposition row d) (\<lambda>dp. Inr (dp, d))))"

text \<open>\<open>_validate_offered_lease\<close> compares every field of the offered lease with the stored rows.\<close>

definition validate_offered_lease :: "lease_request \<Rightarrow> assignment_lease \<Rightarrow> time \<Rightarrow> db \<Rightarrow> error + unit" where
  "validate_offered_lease req offered now d =
     (if al_worker_id offered \<noteq> lq_worker_id req \<or> al_worker_session_id offered \<noteq> lq_worker_session_id req
      then Inl ConflictError
      else and_then (the_assignment (ra_assignment_id (al_assignment offered)) d) (\<lambda>asg.
        case lease_at d (al_lease_id offered) of
          None \<Rightarrow> Inl ConflictError
        | Some lease \<Rightarrow>
            if l_assignment_id lease \<noteq> ra_assignment_id (al_assignment offered) \<or>
               l_attempt lease \<noteq> al_attempt offered \<or>
               l_worker_id lease \<noteq> al_worker_id offered \<or>
               l_worker_session_id lease \<noteq> al_worker_session_id offered \<or>
               l_state lease \<noteq> L_active \<or> l_expires_at lease \<le> now \<or>
               l_issued_at lease \<noteq> al_issued_at offered \<or> l_expires_at lease \<noteq> al_expires_at offered \<or>
               a_state asg \<noteq> Leased \<or> deadline_passed (a_deadline_at asg) now \<or>
               a_current_lease_id asg \<noteq> Some (al_lease_id offered) \<or>
               al_assignment offered \<noteq> a_assignment_json asg
            then Inl ConflictError else Inr ()))"

definition associated_elsewhere :: "id list \<Rightarrow> id \<Rightarrow> db \<Rightarrow> bool" where
  "associated_elsewhere ls q d \<longleftrightarrow>
     list_ex (\<lambda>r. (case q_lease_id r of None \<Rightarrow> False | Some l \<Rightarrow> l \<in> set ls) \<and> q_request_id r \<noteq> q) (lease_requests d)"

definition associate_offered_lease :: "lease_request \<Rightarrow> assignment_lease \<Rightarrow> time \<Rightarrow> time \<Rightarrow> db
    \<Rightarrow> (error + disposition) \<times> db" where
  "associate_offered_lease req offered now completed_at =
     transaction (\<lambda>d. and_then (the_request (lq_request_id req) d) (\<lambda>row.
       and_then (lease_request_disposition row d) (\<lambda>dp.
       if dp_state dp \<noteq> Rq_pending then
         (if dp_lease dp = Some offered then Inr (dp, d) else Inl ConflictError)
       else and_then (validate_offered_lease req offered now d) (\<lambda>_.
         if associated_elsewhere [al_lease_id offered] (lq_request_id req) d then Inl ConflictError
         else and_then (complete_request (lq_request_id req) Rq_leased (Some (al_lease_id offered)) completed_at d)
           (\<lambda>d1. Inr (\<lparr>dp_state = Rq_leased, dp_lease = Some offered\<rparr>, d1))))))"

text \<open>The batch variant: every lease is validated (at the clock's next value), the request is
  associated with the first.\<close>

definition associate_offered_leases :: "lease_request \<Rightarrow> assignment_lease list \<Rightarrow> (nat \<Rightarrow> time) \<Rightarrow> time \<Rightarrow> db
    \<Rightarrow> (error + unit) \<times> db" where
  "associate_offered_leases req offered clock completed_at =
     transaction (\<lambda>d. case offered of [] \<Rightarrow> Inl ValueError | o1 # _ \<Rightarrow>
       and_then (the_request (lq_request_id req) d) (\<lambda>row.
       and_then (lease_request_disposition row d) (\<lambda>dp.
       if dp_state dp \<noteq> Rq_pending then
         (if dp_lease dp = Some o1 then Inr ((), d) else Inl ConflictError)
       else and_then (fold_step (\<lambda>(i, lease) _. validate_offered_lease req lease (clock i) d) (enumerate 0 offered) ()) (\<lambda>_.
         if associated_elsewhere (map al_lease_id offered) (lq_request_id req) d then Inl ConflictError
         else and_then (complete_request (lq_request_id req) Rq_leased (Some (al_lease_id o1)) completed_at d)
           (\<lambda>d1. Inr ((), d1))))))"

definition release_unoffered_lease :: "id \<Rightarrow> time \<Rightarrow> db \<Rightarrow> (error + unit) \<times> db" where
  "release_unoffered_lease l now =
     transaction (\<lambda>d. case lease_at d l of
       None \<Rightarrow> Inr ((), d)
     | Some lease \<Rightarrow>
         if l_state lease \<noteq> L_active then Inr ((), d)
         else and_then (the_assignment (l_assignment_id lease) d) (\<lambda>asg.
           if a_current_lease_id asg \<noteq> Some l then Inr ((), d)
           else and_then (delete_lease l d) (\<lambda>d1.
             Inr ((), update_assignment (l_assignment_id lease)
               (\<lambda>r. r\<lparr>a_state := Retry_wait, a_attempt_count := a_attempt_count r - 1,
                      a_current_lease_id := None, a_available_at := now\<rparr>) d1))))"

section \<open>Leasing\<close>

text \<open>The query for candidates: waiting, available, not past its deadline, not cancelled.\<close>

definition leasable :: "db \<Rightarrow> time \<Rightarrow> assignment_row \<Rightarrow> bool" where
  "leasable d now r \<longleftrightarrow>
     a_state r \<in> {Pending, Retry_wait} \<and> a_available_at r \<le> now \<and> \<not> deadline_passed (a_deadline_at r) now \<and>
     cancellation_at d (a_assignment_id r) = None \<and> group_at d (a_group_id r) \<noteq> None"

definition group_sequence :: "db \<Rightarrow> id \<Rightarrow> nat" where
  "group_sequence d g = (case group_at d g of None \<Rightarrow> 0 | Some r \<Rightarrow> g_sequence r)"

definition candidates :: "db \<Rightarrow> time \<Rightarrow> assignment_row list" where
  "candidates d now =
     order_by (\<lambda>r. (group_sequence d (a_group_id r), a_group_index r, a_assignment_id r))
       (filter (leasable d now) (assignments d))"

text \<open>The oldest candidate, unless it has waited for less than the preference and a worker can
  run another candidate with a policy it has loaded.\<close>

definition choose_candidate :: "time \<Rightarrow> time \<Rightarrow> id list \<Rightarrow> assignment_row list \<Rightarrow> assignment_row option" where
  "choose_candidate preference now loaded cands =
     (case cands of
        [] \<Rightarrow> None
      | oldest # _ \<Rightarrow>
          if now - a_available_at oldest < preference then
            (case find (\<lambda>r. a_policy_id r \<in> set loaded) cands of None \<Rightarrow> Some oldest | Some r \<Rightarrow> Some r)
          else Some oldest)"

text \<open>The three statements that grant a lease.\<close>

definition grant_lease :: "assignment_row \<Rightarrow> id \<Rightarrow> id \<Rightarrow> id \<Rightarrow> time \<Rightarrow> time \<Rightarrow> db \<Rightarrow> error + lease_row \<times> db" where
  "grant_lease asg worker session lease_id now duration d =
     (let row = \<lparr>l_lease_id = lease_id, l_assignment_id = a_assignment_id asg, l_attempt = a_attempt_count asg + 1,
                 l_worker_id = worker, l_worker_session_id = session, l_issued_at = now,
                 l_expires_at = cap_at (a_deadline_at asg) (now + duration), l_state = L_active,
                 l_last_renew_sent_at = None\<rparr>
      in and_then (insert_lease row d) (\<lambda>d1.
         and_then (set_current_lease (a_assignment_id asg) (a_attempt_count asg + 1) lease_id d1) (\<lambda>d2.
         Inr (row, d2))))"

text \<open>The body of the transaction: the lease granted with its assignment row, or nothing.\<close>

datatype lease_answer = Already "assignment_lease option" | No_lease | Granted lease_row assignment_row

definition grant_next :: "session_row \<Rightarrow> time \<Rightarrow> lease_request \<Rightarrow> time \<Rightarrow> id \<Rightarrow> time \<Rightarrow> db \<Rightarrow> error + lease_answer \<times> db" where
  "grant_next session preference req duration lease_id now d =
     (if int (wc_inference_slots (s_capabilities_json session))
         - int (active_count d (lq_worker_id req) (lq_worker_session_id req) now) < 1
      then Inr (No_lease, d)
      else case choose_candidate preference now (lq_loaded_policy_ids req) (candidates d now) of
        None \<Rightarrow> Inr (No_lease, d)
      | Some chosen \<Rightarrow>
          and_then (grant_lease chosen (lq_worker_id req) (lq_worker_session_id req) lease_id now duration d)
            (\<lambda>(lease, d1).
          and_then (complete_request (lq_request_id req) Rq_leased (Some lease_id) now d1) (\<lambda>d2.
          Inr (Granted lease chosen, d2))))"

definition lease_pending :: "repository \<Rightarrow> lease_request \<Rightarrow> time \<Rightarrow> id \<Rightarrow> time \<Rightarrow> db \<Rightarrow> error + lease_answer \<times> db" where
  "lease_pending R req duration lease_id now d =
     and_then (expire_leases_in R now d) (\<lambda>(_, d1).
     and_then (compatible_session (lq_worker_id req) (lq_worker_session_id req) d1) (\<lambda>session.
     and_then (validate_policy_ids (lq_loaded_policy_ids req) d1) (\<lambda>_.
     and_then (scheduler_settings d1) (\<lambda>settings.
     case (ss_max_policy_lag settings, ss_loaded_policy_preference_seconds settings) of
       (Some lag, Some preference) \<Rightarrow>
         and_then (cancel_stale_train_groups lag now d1) (grant_next session preference req duration lease_id now)
     | _ \<Rightarrow> Inl InvalidStateError))))"

definition lease_next_in :: "repository \<Rightarrow> lease_request \<Rightarrow> time \<Rightarrow> id \<Rightarrow> time \<Rightarrow> db \<Rightarrow> error + lease_answer \<times> db" where
  "lease_next_in R req duration lease_id now d =
     and_then (the_request (lq_request_id req) d) (\<lambda>row.
     and_then (lease_request_disposition row d) (\<lambda>dp.
     case dp_state dp of
       Rq_leased \<Rightarrow> Inr (Already (dp_lease dp), d)
     | Rq_no_work \<Rightarrow> Inr (No_lease, d)
     | Rq_pending \<Rightarrow> lease_pending R req duration lease_id now d))"

text \<open>The \<open>AssignmentLease\<close> is built, and validated, after the commit.\<close>

definition lease_answer_value :: "lease_answer \<Rightarrow> error + assignment_lease option" where
  "lease_answer_value ans =
     (case ans of
        Already l \<Rightarrow> Inr l
      | No_lease \<Rightarrow> Inr None
      | Granted lr ar \<Rightarrow> and_then (assignment_lease_of lr ar) (\<lambda>l. Inr (Some l)))"

definition lease_next_compatible :: "repository \<Rightarrow> lease_request \<Rightarrow> time \<Rightarrow> id \<Rightarrow> time \<Rightarrow> db
    \<Rightarrow> (error + assignment_lease option) \<times> db" where
  "lease_next_compatible R req duration lease_id now d =
     (if duration \<le> 0 then (Inl ValueError, d)
      else case transaction (lease_next_in R req duration lease_id now) d of
        (Inl e, d1) \<Rightarrow> (Inl e, d1)
      | (Inr ans, d1) \<Rightarrow> (lease_answer_value ans, d1))"

text \<open>\<open>_lease_request_can_generate\<close>: a pending request, free capacity, nothing waiting.\<close>

definition lease_request_can_generate :: "lease_request \<Rightarrow> time \<Rightarrow> db \<Rightarrow> bool" where
  "lease_request_can_generate req now d =
     (case request_at d (lq_request_id req) of
        None \<Rightarrow> False
      | Some row \<Rightarrow>
          q_state row = Rq_pending \<and>
          (case session_at d (lq_worker_session_id req) of
             None \<Rightarrow> False
           | Some s \<Rightarrow>
               s_worker_id s = lq_worker_id req \<and>
               active_count d (lq_worker_id req) (lq_worker_session_id req) now < wc_inference_slots (s_capabilities_json s) \<and>
               \<not> list_ex (leasable d now) (assignments d)))"

text \<open>\<open>create_lease\<close>: expiry first, in a transaction of its own; an assignment found past its
  deadline is failed, that is committed, and only then the method raises.\<close>

datatype create_answer = Past_deadline | Created lease_row assignment_row

definition create_lease_in :: "id \<Rightarrow> id \<Rightarrow> id \<Rightarrow> id \<Rightarrow> time \<Rightarrow> time \<Rightarrow> db \<Rightarrow> error + create_answer \<times> db" where
  "create_lease_in a worker session lease_id duration now d =
     and_then (the_assignment a d) (\<lambda>asg.
     if a_state asg = Failed \<and> deadline_passed (a_deadline_at asg) now then Inl InvalidStateError
     else if a_state asg \<notin> {Pending, Retry_wait} \<or> now < a_available_at asg then Inl InvalidStateError
     else and_then (compatible_session worker session d) (\<lambda>s.
     if a_max_attempts asg \<le> a_attempt_count asg then Inl InvalidStateError
     else if deadline_passed (a_deadline_at asg) now then
       and_then (terminalize_without_envelope asg Deadline_exceeded now d) (\<lambda>d1. Inr (Past_deadline, d1))
     else if wc_inference_slots (s_capabilities_json s) \<le>
         count_where (\<lambda>l. l_worker_id l = worker \<and> l_worker_session_id l = session \<and> l_state l = L_active) (lease_attempts d)
     then Inl CapacityError
     else and_then (grant_lease asg worker session lease_id now duration d) (\<lambda>(lease, d1). Inr (Created lease asg, d1))))"

definition create_lease :: "repository \<Rightarrow> id \<Rightarrow> id \<Rightarrow> id \<Rightarrow> id \<Rightarrow> time \<Rightarrow> time \<Rightarrow> time \<Rightarrow> db
    \<Rightarrow> (error + assignment_lease) \<times> db" where
  "create_lease R a worker session lease_id duration now0 now d =
     (if duration \<le> 0 then (Inl ValueError, d)
      else case expire_leases R now0 d of
        (Inl e, d1) \<Rightarrow> (Inl e, d1)
      | (Inr _, d1) \<Rightarrow>
          (case transaction (create_lease_in a worker session lease_id duration now) d1 of
             (Inl e, d2) \<Rightarrow> (Inl e, d2)
           | (Inr Past_deadline, d2) \<Rightarrow> (Inl InvalidStateError, d2)
           | (Inr (Created lr ar), d2) \<Rightarrow> (assignment_lease_of lr ar, d2)))"

section \<open>Renewal\<close>

datatype renew_answer = Renewed lease_row assignment_row | Stopped cancel_reason

definition renew_lease_in :: "id \<Rightarrow> id \<Rightarrow> id \<Rightarrow> time \<Rightarrow> id option \<Rightarrow> time option \<Rightarrow> bool \<Rightarrow> time \<Rightarrow> db
    \<Rightarrow> error + renew_answer \<times> db" where
  "renew_lease_in l worker session duration expected sent_at acknowledge now d =
     and_then (reconcile_stale_work now d) (\<lambda>d1.
     case lease_at d1 l of
       None \<Rightarrow> Inl InvalidStateError
     | Some lease \<Rightarrow>
         if (case expected of None \<Rightarrow> False | Some a \<Rightarrow> l_assignment_id lease \<noteq> a) then Inl ConflictError
         else if l_state lease \<noteq> L_active \<or> l_expires_at lease \<le> now then Inl InvalidStateError
         else if l_worker_id lease \<noteq> worker \<or> l_worker_session_id lease \<noteq> session then Inl ConflictError
         else (case lease_cancellation_at d1 l of
             Some c \<Rightarrow>
               if \<not> acknowledge then Inl InvalidStateError
               else Inr (Stopped (cl_reason c), deliver_cancellation l now d1)
           | None \<Rightarrow>
               if (case (sent_at, l_last_renew_sent_at lease) of (Some s, Some t) \<Rightarrow> s \<le> t | _ \<Rightarrow> False)
               then Inl ConflictError
               else and_then (the_assignment (l_assignment_id lease) d1) (\<lambda>asg.
                 if deadline_passed (a_deadline_at asg) now then Inl InvalidStateError
                 else let expires_at = renewed_expiry now duration lease asg in
                   and_then (update_lease_expiry l expires_at sent_at d1) (\<lambda>d2.
                     Inr (Renewed (lease\<lparr>l_expires_at := expires_at\<rparr>) asg, d2)))))"

definition renew_lease :: "id \<Rightarrow> id \<Rightarrow> id \<Rightarrow> time \<Rightarrow> id option \<Rightarrow> time option \<Rightarrow> bool \<Rightarrow> time \<Rightarrow> db
    \<Rightarrow> (error + (assignment_lease + cancel_reason)) \<times> db" where
  "renew_lease l worker session duration expected sent_at acknowledge now d =
     (if duration \<le> 0 then (Inl ValueError, d)
      else case transaction (renew_lease_in l worker session duration expected sent_at acknowledge now) d of
        (Inl e, d1) \<Rightarrow> (Inl e, d1)
      | (Inr (Stopped c), d1) \<Rightarrow> (Inr (Inr c), d1)
      | (Inr (Renewed lr ar), d1) \<Rightarrow> (and_then (assignment_lease_of lr ar) (\<lambda>x. Inr (Inl x)), d1))"

end
