(* ===== verification/Spool.thy ===== *)
theory Spool
  imports Protocol
begin

text \<open>
  The result spool (\<open>coordinator/spool.py\<close>): content-addressed result artifacts, published by
  writing a temporary file and linking it under its digest. The two directories are maps from
  file names to bytes; symbolic links, permissions and I/O errors are not modelled. The
  function \<open>sha\<close> that stands for SHA-256 over bytes is a parameter.
\<close>

section \<open>The spool\<close>

record spool =
  incoming :: "string \<Rightarrow> string option"
  results :: "string \<Rightarrow> string option"

definition empty_spool :: spool where
  "empty_spool = \<lparr>incoming = (\<lambda>_. None), results = (\<lambda>_. None)\<rparr>"

definition result_suffixes :: "string list" where
  "result_suffixes = [''.json'', ''.msgpack'']"

definition result_name :: "digest \<Rightarrow> string \<Rightarrow> string" where
  "result_name d suffix = digest_hex d @ suffix"

definition results_prefix :: string where
  "results_prefix = ''spool/results/''"

definition result_path :: "digest \<Rightarrow> string \<Rightarrow> string" where
  "result_path d suffix = results_prefix @ result_name d suffix"

text \<open>The temporary file is gone again when the method returns, on success and on an error.\<close>

definition publish_result :: "(string \<Rightarrow> digest) \<Rightarrow> digest \<Rightarrow> string \<Rightarrow> string \<Rightarrow> spool \<Rightarrow> error + string \<times> spool" where
  "publish_result sha d data suffix sp =
     (if \<not> Digest d then Inl ValueError
      else if suffix \<notin> set result_suffixes then Inl ValueError
      else case results sp (result_name d suffix) of
        None \<Rightarrow> Inr (result_path d suffix, sp\<lparr>results := (results sp)(result_name d suffix := Some data)\<rparr>)
      | Some old \<Rightarrow>
          if length old \<noteq> length data \<or> sha old \<noteq> d then Inl ValueError
          else Inr (result_path d suffix, sp))"

section \<open>Resolving a stored path\<close>

fun split_path :: "string \<Rightarrow> string list" where
  "split_path [] = [[]]"
| "split_path (c # cs) =
     (if c = CHR ''/'' then [] # split_path cs
      else case split_path cs of [] \<Rightarrow> [[c]] | w # ws \<Rightarrow> (c # w) # ws)"

text \<open>\<open>Path.resolve\<close> on the components of a relative path, without links: empty components and
  \<open>.\<close> vanish, \<open>..\<close> removes the last one; \<open>None\<close> is a path that leaves the run root.\<close>

fun resolve_components :: "string list \<Rightarrow> string list \<Rightarrow> string list option" where
  "resolve_components done [] = Some (rev done)"
| "resolve_components done (w # ws) =
     (if w = [] \<or> w = ''.'' then resolve_components done ws
      else if w = ''..'' then (case done of [] \<Rightarrow> None | _ # rest \<Rightarrow> resolve_components rest ws)
      else resolve_components (w # done) ws)"

definition resolve_result :: "string \<Rightarrow> error + string" where
  "resolve_result path =
     (if take 1 path = ''/'' then Inl ValueError
      else case resolve_components [] (split_path path) of
        Some [a, b, name] \<Rightarrow> if a = ''spool'' \<and> b = ''results'' then Inr name else Inl ValueError
      | _ \<Rightarrow> Inl ValueError)"

section \<open>Publication step by step, with crashes\<close>

text \<open>
  The process may stop between any two system calls. A publication of \<open>data\<close> under \<open>name\<close> is
  at one of four points; \<open>Writing n\<close> has written the first \<open>n\<close> bytes of the temporary file.
\<close>

datatype publisher = Idle | Writing nat | Linked | Returned

inductive publish_step :: "string \<Rightarrow> string \<Rightarrow> string \<Rightarrow> publisher \<times> spool \<Rightarrow> publisher \<times> spool \<Rightarrow> bool"
  for temp name data where
  start: "incoming sp temp = None \<Longrightarrow>
    publish_step temp name data (Idle, sp) (Writing 0, sp\<lparr>incoming := (incoming sp)(temp := Some [])\<rparr>)"
| append_bytes: "n < n' \<Longrightarrow> n' \<le> length data \<Longrightarrow>
    publish_step temp name data (Writing n, sp)
      (Writing n', sp\<lparr>incoming := (incoming sp)(temp := Some (take n' data))\<rparr>)"
| link: "results sp name = None \<Longrightarrow>
    publish_step temp name data (Writing (length data), sp)
      (Linked, sp\<lparr>results := (results sp)(name := incoming sp temp)\<rparr>)"
| exists: "results sp name = Some old \<Longrightarrow>
    publish_step temp name data (Writing (length data), sp) (Linked, sp)"
| unlink: "publish_step temp name data (Linked, sp) (Returned, sp\<lparr>incoming := (incoming sp)(temp := None)\<rparr>)"

inductive_cases publish_stepE: "publish_step temp name data s s'"

text \<open>What holds at every point: the temporary file has a prefix of the data, and the results
  directory is either as it was or has the whole data under the one new name.\<close>

definition publish_inv :: "string \<Rightarrow> string \<Rightarrow> string \<Rightarrow> spool \<Rightarrow> publisher \<times> spool \<Rightarrow> bool" where
  "publish_inv temp name data sp0 s \<longleftrightarrow>
     (case s of (pc, sp) \<Rightarrow>
        (results sp = results sp0 \<or> results sp0 name = None \<and> results sp = (results sp0)(name := Some data)) \<and>
        (\<forall>t. t \<noteq> temp \<longrightarrow> incoming sp t = incoming sp0 t) \<and>
        (case pc of
           Idle \<Rightarrow> sp = sp0
         | Writing n \<Rightarrow> incoming sp temp = Some (take n data) \<and> n \<le> length data \<and> results sp = results sp0
         | Linked \<Rightarrow> results sp name \<noteq> None
         | Returned \<Rightarrow> results sp name \<noteq> None \<and> incoming sp temp = None))"

lemma publish_inv_step:
  assumes "publish_inv temp name data sp0 s" "publish_step temp name data s s'"
  shows "publish_inv temp name data sp0 s'"
  using assms(2,1) by (cases rule: publish_step.cases) (auto simp: publish_inv_def)

lemma publish_reachable:
  assumes "(publish_step temp name data)\<^sup>*\<^sup>* (Idle, sp0) s"
  shows "publish_inv temp name data sp0 s"
  using assms
proof (induction rule: rtranclp_induct)
  case base
  then show ?case by (simp add: publish_inv_def)
next
  case (step s s')
  then show ?case by (blast intro: publish_inv_step)
qed

text \<open>The steps can always run to the end, whatever the results directory holds.\<close>

lemma publish_completes:
  assumes "incoming sp temp = None"
  shows "\<exists>sp'. (publish_step temp name data)\<^sup>*\<^sup>* (Idle, sp) (Returned, sp') \<and>
    results sp' = (case results sp name of None \<Rightarrow> (results sp)(name := Some data) | Some _ \<Rightarrow> results sp) \<and>
    incoming sp' = incoming sp"
proof -
  let ?w = "sp\<lparr>incoming := (incoming sp)(temp := Some data)\<rparr>"
  have 1: "(publish_step temp name data)\<^sup>*\<^sup>* (Idle, sp) (Writing (length data), ?w)"
  proof (cases "data = []")
    case True
    with start [OF assms, of name data] show ?thesis by (simp add: r_into_rtranclp)
  next
    case False
    from start [OF assms, of name data] append_bytes [of 0 "length data" data temp name "sp\<lparr>incoming := (incoming sp)(temp := Some [])\<rparr>"]
      False show ?thesis by (simp add: rtranclp.rtrancl_into_rtrancl r_into_rtranclp)
  qed
  have gone: "((incoming sp)(temp := Some data))(temp := None) = incoming sp"
    using assms by (simp add: fun_eq_iff)
  show ?thesis
  proof (cases "results sp name")
    case None
    let ?l = "?w\<lparr>results := (results sp)(name := Some data)\<rparr>"
    have "publish_step temp name data (Writing (length data), ?w) (Linked, ?l)"
      using link [of ?w name temp data] None by simp
    with 1 unlink [of temp name data ?l] have
      "(publish_step temp name data)\<^sup>*\<^sup>* (Idle, sp) (Returned, ?l\<lparr>incoming := (incoming ?l)(temp := None)\<rparr>)"
      by (meson rtranclp.rtrancl_into_rtrancl)
    with None gone show ?thesis
      by (intro exI [where x = "?l\<lparr>incoming := (incoming ?l)(temp := None)\<rparr>"]) auto
  next
    case (Some old)
    have "publish_step temp name data (Writing (length data), ?w) (Linked, ?w)"
      using exists [of ?w name old temp data] Some by simp
    with 1 unlink [of temp name data ?w] have
      "(publish_step temp name data)\<^sup>*\<^sup>* (Idle, sp) (Returned, ?w\<lparr>incoming := (incoming ?w)(temp := None)\<rparr>)"
      by (meson rtranclp.rtrancl_into_rtrancl)
    with Some gone show ?thesis
      by (intro exI [where x = "?w\<lparr>incoming := (incoming ?w)(temp := None)\<rparr>"]) auto
  qed
qed

section \<open>Content addressing\<close>

text \<open>Every artifact's bytes hash to the digest in its name.\<close>

definition addressed :: "(string \<Rightarrow> digest) \<Rightarrow> spool \<Rightarrow> bool" where
  "addressed sha sp \<longleftrightarrow>
     (\<forall>name data. results sp name = Some data \<longrightarrow> (\<exists>suffix \<in> set result_suffixes. name = result_name (sha data) suffix))"

lemma addressed_empty: "addressed sha empty_spool"
  by (simp add: addressed_def empty_spool_def)

lemma publish_addressed:
  assumes "addressed sha sp" "publish_result sha (sha data) data suffix sp = Inr (path, sp')"
  shows "addressed sha sp'"
  using assms by (auto simp: addressed_def publish_result_def split: if_splits option.splits)

lemma publish_InrD:
  assumes "publish_result sha d data suffix sp = Inr (path, sp')"
  shows "path = result_path d suffix" "Digest d" "suffix \<in> set result_suffixes" "results sp' (result_name d suffix) \<noteq> None"
    "\<And>n x. results sp n = Some x \<Longrightarrow> results sp' n = Some x"
  using assms by (auto simp: publish_result_def split: if_splits option.splits)

text \<open>A published path resolves to its name.\<close>

lemma split_path_word: "CHR ''/'' \<notin> set w \<Longrightarrow> split_path w = [w]"
  by (induction w) auto

lemma split_path_append: "CHR ''/'' \<notin> set w \<Longrightarrow> split_path (w @ CHR ''/'' # rest) = w # split_path rest"
  by (induction w) auto

lemma is_hex_not_slash: "list_all is_hex h \<Longrightarrow> CHR ''/'' \<notin> set h"
  by (auto simp: list_all_iff is_hex_def is_digit_def less_eq_char_def)

lemma is_hex_not_dot: "list_all is_hex h \<Longrightarrow> CHR ''.'' \<notin> set h"
  by (auto simp: list_all_iff is_hex_def is_digit_def less_eq_char_def)

lemma resolve_result_path:
  assumes "Digest d" "suffix \<in> set result_suffixes"
  shows "resolve_result (result_path d suffix) = Inr (result_name d suffix)"
proof -
  have h: "list_all is_hex (digest_hex d)" "length (digest_hex d) = 64" using assms(1) by (simp_all add: Digest_def)
  then obtain c cs where c: "digest_hex d = c # cs" by (cases "digest_hex d") auto
  have n: "CHR ''/'' \<notin> set (result_name d suffix)"
    using is_hex_not_slash [OF h(1)] assms(2) by (auto simp: result_name_def result_suffixes_def)
  have "c \<noteq> CHR ''.''" using is_hex_not_dot [OF h(1)] c by auto
  then have w: "result_name d suffix \<noteq> []" "result_name d suffix \<noteq> ''.''" "result_name d suffix \<noteq> ''..''"
    by (simp_all add: result_name_def c)
  have "split_path (result_path d suffix) = [''spool'', ''results'', result_name d suffix]"
    using split_path_append [of "''spool''" "''results/'' @ result_name d suffix"]
      split_path_append [of "''results''" "result_name d suffix"] split_path_word [OF n]
    by (simp add: result_path_def results_prefix_def)
  then show ?thesis using w by (simp add: resolve_result_def result_path_def results_prefix_def)
qed

end
