(* ===== verification/Acceptance.thy ===== *)
theory Acceptance
  imports Leasing Spool
begin

text \<open>
  The terminal envelopes of \<open>CoordinatorRepository\<close>: accepting a result or a failure, handing
  the accepted results to the orchestrator, reading finished groups, and recovery after a
  restart. A result lives in two places, its bytes in the spool and its row in the database, so
  these methods work on both.
\<close>

section \<open>Envelopes against the current lease\<close>

record acceptance_record =
  ar_assignment_id :: id
  ar_envelope_digest :: digest
  ar_duplicate :: bool
  ar_terminal :: bool

text \<open>\<open>_validate_active_envelope\<close>, on the fields that result and failure envelopes share.\<close>

definition validate_active_envelope :: "id \<Rightarrow> id \<Rightarrow> nat \<Rightarrow> id \<Rightarrow> id \<Rightarrow> time \<Rightarrow> db \<Rightarrow> error + assignment_row" where
  "validate_active_envelope a l attempt worker session received_at d =
     and_then (the_assignment a d) (\<lambda>asg.
       case lease_at d l of
         None \<Rightarrow> Inl ConflictError
       | Some lease \<Rightarrow>
           if l_assignment_id lease \<noteq> a \<or> l_attempt lease \<noteq> attempt \<or> l_worker_id lease \<noteq> worker \<or>
              l_worker_session_id lease \<noteq> session \<or> l_state lease \<noteq> L_active \<or> a_state asg \<noteq> Leased \<or>
              a_current_lease_id asg \<noteq> Some l
           then Inl ConflictError
           else if l_expires_at lease \<le> received_at then Inl InvalidStateError
           else if deadline_passed (a_deadline_at asg) received_at then Inl InvalidStateError
           else Inr asg)"

definition existing_terminal :: "id \<Rightarrow> id \<Rightarrow> digest \<Rightarrow> db \<Rightarrow> error + acceptance_record option" where
  "existing_terminal a l dig d =
     (case result_at d a of
        None \<Rightarrow> if outcome_at d a \<noteq> None then Inl ConflictError else Inr None
      | Some r \<Rightarrow>
          if r_lease_id r \<noteq> l \<or> r_envelope_digest r \<noteq> dig then Inl ConflictError
          else Inr (Some \<lparr>ar_assignment_id = a, ar_envelope_digest = dig, ar_duplicate = True, ar_terminal = True\<rparr>))"

definition existing_failure :: "failure_envelope \<Rightarrow> digest \<Rightarrow> db \<Rightarrow> error + acceptance_record option" where
  "existing_failure env dig d =
     (case failure_at d (fe_lease_id env) of
        None \<Rightarrow> Inr None
      | Some f \<Rightarrow>
          if f_assignment_id f \<noteq> fe_assignment_id env \<or> f_envelope_digest f \<noteq> dig then Inl ConflictError
          else Inr (Some \<lparr>ar_assignment_id = fe_assignment_id env, ar_envelope_digest = dig,
                          ar_duplicate = True, ar_terminal = f_terminal f\<rparr>))"

section \<open>Results\<close>

definition validate_result_envelope :: "result_envelope \<Rightarrow> time \<Rightarrow> db \<Rightarrow> error + assignment_row" where
  "validate_result_envelope env now d =
     and_then (validate_active_envelope (re_assignment_id env) (re_lease_id env) (re_attempt env) (re_worker_id env)
         (re_worker_session_id env) now d) (\<lambda>asg.
     if re_requested_policy_id env \<noteq> a_policy_id asg then Inl ConflictError
     else if re_requested_policy_digest env \<noteq> a_policy_manifest_digest asg then Inl ConflictError
     else Inr asg)"

text \<open>The transaction of \<open>accept_result\<close>.\<close>

definition store_result :: "result_envelope \<Rightarrow> digest \<Rightarrow> string \<Rightarrow> nat \<Rightarrow> time \<Rightarrow> db \<Rightarrow> error + acceptance_record \<times> db" where
  "store_result env dig path size_bytes now d =
     and_then (existing_terminal (re_assignment_id env) (re_lease_id env) dig d) (\<lambda>duplicate.
     case duplicate of
       Some record \<Rightarrow> Inr (record, d)
     | None \<Rightarrow>
         and_then (validate_result_envelope env now d) (\<lambda>asg.
         and_then (insert_result \<lparr>r_assignment_id = re_assignment_id env, r_lease_id = re_lease_id env,
             r_envelope_digest = dig, r_artifact_path = path, r_size_bytes = size_bytes, r_accepted_at = now,
             r_processing_state = Proc_pending\<rparr> d) (\<lambda>d1.
         and_then (insert_outcome \<lparr>o_assignment_id = re_assignment_id env, o_outcome = Out_result,
             o_lease_id = Some (re_lease_id env), o_envelope_digest = Some dig, o_completed_at = now\<rparr> d1) (\<lambda>d2.
         Inr (\<lparr>ar_assignment_id = re_assignment_id env, ar_envelope_digest = dig, ar_duplicate = False,
               ar_terminal = True\<rparr>,
           recompute_group (a_group_id asg)
             (set_cancellation_terminal (re_assignment_id env)
               (update_assignment (re_assignment_id env) (\<lambda>r. r\<lparr>a_state := Succeeded, a_current_lease_id := None\<rparr>)
                 (update_lease_state (re_lease_id env) L_succeeded d2))))))))"

text \<open>\<open>accept_result\<close>: an artifact stored by an older release is JSON, and a repeated envelope is
  then compared in that encoding. The bytes are published before the transaction begins.\<close>

definition stored_as_json :: "db \<Rightarrow> id \<Rightarrow> bool" where
  "stored_as_json d a =
     (case result_at d a of None \<Rightarrow> False
      | Some r \<Rightarrow> drop (length (r_artifact_path r) - 5) (r_artifact_path r) = ''.json'')"

definition accept_result :: "repository \<Rightarrow> result_envelope \<Rightarrow> time \<Rightarrow> time \<Rightarrow> db \<times> spool
    \<Rightarrow> (error + acceptance_record) \<times> db \<times> spool" where
  "accept_result R env received_at now s =
     (case s of (d, sp) \<Rightarrow>
        let legacy = stored_as_json d (re_assignment_id env);
            data = (if legacy then result_json_bytes R env else result_bytes R env);
            suffix = (if legacy then ''.json'' else ''.msgpack'');
            dig = sha256 R data
        in case existing_terminal (re_assignment_id env) (re_lease_id env) dig d of
             Inl e \<Rightarrow> (Inl e, s)
           | Inr (Some record) \<Rightarrow>
               (case publish_result (sha256 R) dig data suffix sp of
                  Inl e \<Rightarrow> (Inl e, s)
                | Inr (_, sp1) \<Rightarrow> (Inr record, d, sp1))
           | Inr None \<Rightarrow>
               (case validate_result_envelope env received_at d of
                  Inl e \<Rightarrow> (Inl e, s)
                | Inr _ \<Rightarrow>
                    (case publish_result (sha256 R) dig data suffix sp of
                       Inl e \<Rightarrow> (Inl e, s)
                     | Inr (path, sp1) \<Rightarrow>
                         (case transaction (store_result env dig path (length data) now) d of
                            (r, d1) \<Rightarrow> (r, d1, sp1)))))"

section \<open>Failures\<close>

text \<open>The transaction of \<open>accept_failure\<close>: a cancelled attempt ends the assignment, any other
  failure is retried or terminal.\<close>

definition end_attempt :: "repository \<Rightarrow> failure_envelope \<Rightarrow> digest \<Rightarrow> assignment_row \<Rightarrow> time \<Rightarrow> db \<Rightarrow> error + bool \<times> db" where
  "end_attempt R env dig asg now d =
     (let a = fe_assignment_id env; l = fe_lease_id env; d1 = update_lease_state l L_failed d in
      if lease_cancellation_at d l \<noteq> None then
        and_then (insert_outcome \<lparr>o_assignment_id = a, o_outcome = Out_failure, o_lease_id = Some l,
            o_envelope_digest = Some dig, o_completed_at = now\<rparr>
            (set_cancellation_terminal a (fail_assignment a d1))) (\<lambda>d2. Inr (True, d2))
      else retry_or_terminal R asg now (Some env) (Some dig) (Some l) d1)"

definition store_failure :: "repository \<Rightarrow> failure_envelope \<Rightarrow> digest \<Rightarrow> time \<Rightarrow> db \<Rightarrow> error + acceptance_record \<times> db" where
  "store_failure R env dig now d =
     and_then (existing_failure env dig d) (\<lambda>duplicate.
     case duplicate of
       Some record \<Rightarrow> Inr (record, d)
     | None \<Rightarrow>
         and_then (validate_active_envelope (fe_assignment_id env) (fe_lease_id env) (fe_attempt env) (fe_worker_id env)
             (fe_worker_session_id env) now d) (\<lambda>asg.
         and_then (end_attempt R env dig asg now d) (\<lambda>(term, d1).
         and_then (insert_failure \<lparr>f_lease_id = fe_lease_id env, f_assignment_id = fe_assignment_id env,
             f_envelope_digest = dig, f_envelope_json = env, f_accepted_at = now, f_retryable = fe_retryable env,
             f_terminal = term\<rparr> d1) (\<lambda>d2.
         Inr (\<lparr>ar_assignment_id = fe_assignment_id env, ar_envelope_digest = dig, ar_duplicate = False,
               ar_terminal = term\<rparr>, recompute_group (a_group_id asg) d2)))))"

definition accept_failure :: "repository \<Rightarrow> failure_envelope \<Rightarrow> time \<Rightarrow> db \<Rightarrow> (error + acceptance_record) \<times> db" where
  "accept_failure R env now d =
     (let dig = hash_failure R env in
      case existing_failure env dig d of
        Inl e \<Rightarrow> (Inl e, d)
      | Inr (Some record) \<Rightarrow> (Inr record, d)
      | Inr None \<Rightarrow> transaction (store_failure R env dig now) d)"

section \<open>Handing results on\<close>

record pending_result =
  pd_assignment_id :: id
  pd_envelope_digest :: digest
  pd_path :: string

definition set_processing :: "(result_row \<Rightarrow> bool) \<Rightarrow> processing_state \<Rightarrow> db \<Rightarrow> db" where
  "set_processing P st d =
     d\<lparr>accepted_results := update_where P (\<lambda>r. r\<lparr>r_processing_state := st\<rparr>) (accepted_results d)\<rparr>"

definition claimable :: "nat \<Rightarrow> db \<Rightarrow> result_row list" where
  "claimable limit d =
     take limit (order_by (\<lambda>r. (r_accepted_at r, r_assignment_id r))
       (filter (\<lambda>r. r_processing_state r = Proc_pending) (accepted_results d)))"

definition claim_pending_results :: "nat \<Rightarrow> db \<Rightarrow> (error + pending_result list) \<times> db" where
  "claim_pending_results limit =
     transaction (\<lambda>d.
       if limit < 1 then Inl ValueError
       else let rows = claimable limit d in
         Inr (map (\<lambda>r. \<lparr>pd_assignment_id = r_assignment_id r, pd_envelope_digest = r_envelope_digest r,
                        pd_path = r_artifact_path r\<rparr>) rows,
              fold (\<lambda>r. set_processing (\<lambda>x. r_assignment_id x = r_assignment_id r) Proc_processing) rows d))"

definition mark_result_processed :: "id \<Rightarrow> db \<Rightarrow> (error + unit) \<times> db" where
  "mark_result_processed a =
     transaction (\<lambda>d.
       let P = (\<lambda>r. r_assignment_id r = a \<and> r_processing_state r = Proc_processing) in
       if count_where P (accepted_results d) \<noteq> 1 then Inl InvalidStateError
       else Inr ((), set_processing P Proc_processed d))"

record group_outcome =
  go_assignment :: rollout_assignment
  go_outcome :: outcome
  go_envelope_digest :: "digest option"
  go_result_path :: "string option"

record ready_group =
  rd_group_id :: id
  rd_source_id :: "id option"
  rd_kind :: rollout_kind
  rd_sequence :: nat
  rd_outcomes :: "group_outcome list"

text \<open>\<open>assignments JOIN assignment_outcomes LEFT JOIN accepted_results\<close>, for one group.\<close>

definition outcome_rows :: "db \<Rightarrow> id \<Rightarrow> (assignment_row \<times> outcome_row) list" where
  "outcome_rows d g =
     List.map_filter (\<lambda>r. map_option (Pair r) (outcome_at d (a_assignment_id r)))
       (order_by (\<lambda>r. (a_group_index r, a_assignment_id r)) (filter (\<lambda>r. a_group_id r = g) (assignments d)))"

definition group_outcome_of :: "db \<Rightarrow> assignment_row \<times> outcome_row \<Rightarrow> error + group_outcome" where
  "group_outcome_of d row =
     (case row of (r, oc) \<Rightarrow>
        and_then (decode_assignment r) (\<lambda>asg.
        Inr \<lparr>go_assignment = asg, go_outcome = o_outcome oc,
             go_envelope_digest = map_option r_envelope_digest (result_at d (a_assignment_id r)),
             go_result_path = map_option r_artifact_path (result_at d (a_assignment_id r))\<rparr>))"

definition read_group :: "db \<Rightarrow> group_row \<Rightarrow> ready_group list \<Rightarrow> error + ready_group list" where
  "read_group d g done =
     (let rows = outcome_rows d (g_group_id g) in
      if length rows \<noteq> g_group_size g then Inl InvalidStateError
      else and_then (fold_step (\<lambda>row acc. and_then (group_outcome_of d row) (\<lambda>x. Inr (acc @ [x]))) rows [])
        (\<lambda>outcomes. Inr (done @ [\<lparr>rd_group_id = g_group_id g, rd_source_id = g_source_id g, rd_kind = g_kind g,
            rd_sequence = g_sequence g, rd_outcomes = outcomes\<rparr>])))"

definition unprocessed_groups :: "nat \<Rightarrow> db \<Rightarrow> group_row list" where
  "unprocessed_groups limit d =
     take limit (order_by (\<lambda>g. (g_sequence g, g_group_id g))
       (filter (\<lambda>g. g_state g = Ready \<and> processed_group_at d (g_group_id g) = None) (rollout_groups d)))"

definition ready_groups :: "nat \<Rightarrow> db \<Rightarrow> error + ready_group list" where
  "ready_groups limit d =
     (if limit < 1 then Inl ValueError
      else fold_step (read_group d) (unprocessed_groups limit d) [])"

section \<open>Recovery\<close>

text \<open>One accepted result against its artifact: \<open>Inr\<close> the name of the file it refers to.\<close>

definition check_artifact :: "repository \<Rightarrow> spool \<Rightarrow> result_row \<Rightarrow> error + string" where
  "check_artifact R sp row =
     (case resolve_result (r_artifact_path row) of
        Inl _ \<Rightarrow> Inl ArtifactCorruptionError
      | Inr name \<Rightarrow>
          (case results sp name of
             None \<Rightarrow> Inl ArtifactCorruptionError
           | Some data \<Rightarrow>
               if length data \<noteq> r_size_bytes row \<or> sha256 R data \<noteq> r_envelope_digest row
               then Inl ArtifactCorruptionError
               else (case decode_result R (drop (length name - 5) name = ''.json'') data of
                 None \<Rightarrow> Inl ArtifactCorruptionError
               | Some env \<Rightarrow>
                   if re_assignment_id env \<noteq> r_assignment_id row \<or> re_lease_id env \<noteq> r_lease_id row
                   then Inl ArtifactCorruptionError else Inr name)))"

definition check_artifacts :: "repository \<Rightarrow> spool \<Rightarrow> result_row list \<Rightarrow> error + string list" where
  "check_artifacts R sp rows =
     fold_step (\<lambda>row names. and_then (check_artifact R sp row) (\<lambda>n. Inr (names @ [n]))) rows []"

definition verify_policy_row :: "repository \<Rightarrow> policy_row \<Rightarrow> error + unit" where
  "verify_policy_row R row =
     (let m = p_manifest_json row in
      if PolicyManifest (hash_adapter R) (hash_identity R) m \<and>
         pm_policy_id m = p_policy_id row \<and> pm_policy_version m = p_policy_version row \<and>
         manifest_digest R m = p_manifest_digest row \<and> (p_policy_version row = 0 \<or> artifact_intact R row)
      then Inr () else Inl ArtifactCorruptionError)"

definition check_policies :: "repository \<Rightarrow> policy_row list \<Rightarrow> error + unit" where
  "check_policies R rows =
     fold_step (\<lambda>row _. verify_policy_row R row)
       (order_by p_policy_version (filter (\<lambda>p. 0 < p_policy_version p) rows)) ()"

text \<open>\<open>recover\<close>: incoming files go first, then every referenced artifact and every trained policy is
  checked, then unreferenced results go, then the claims of the previous process are undone.\<close>

definition recover :: "repository \<Rightarrow> time \<Rightarrow> db \<times> spool \<Rightarrow> (error + unit) \<times> db \<times> spool" where
  "recover R now s =
     (case s of (d, sp) \<Rightarrow>
        let sp1 = sp\<lparr>incoming := (\<lambda>_. None)\<rparr> in
        case and_then (check_artifacts R sp1 (accepted_results d)) (\<lambda>names.
               and_then (check_policies R (policies d)) (\<lambda>_. Inr names)) of
          Inl e \<Rightarrow> (Inl e, d, sp1)
        | Inr names \<Rightarrow>
            let sp2 = sp1\<lparr>results := (\<lambda>n. if n \<in> set names then results sp1 n else None)\<rparr>;
                d1 = set_processing (\<lambda>r. r_processing_state r = Proc_processing) Proc_pending d
            in (case expire_leases R now d1 of
                  (Inl e, d2) \<Rightarrow> (Inl e, d2, sp2)
                | (Inr _, d2) \<Rightarrow> (Inr (), recompute_groups d2, sp2)))"

section \<open>Reading the state\<close>

definition assignment_state_of :: "id \<Rightarrow> db \<Rightarrow> error + assignment_state" where
  "assignment_state_of a d = and_then (the_assignment a d) (\<lambda>r. Inr (a_state r))"

definition group_state_of :: "id \<Rightarrow> db \<Rightarrow> error + group_state" where
  "group_state_of g d = (case group_at d g of None \<Rightarrow> Inl NotFoundError | Some r \<Rightarrow> Inr (g_state r))"

definition cancellation_state :: "id \<Rightarrow> db \<Rightarrow> (cancel_reason \<times> bool) option" where
  "cancellation_state a d = map_option (\<lambda>r. (ca_reason r, ca_terminal r)) (cancellation_at d a)"

definition assignment_result_size_limit :: "id \<Rightarrow> db \<Rightarrow> error + nat" where
  "assignment_result_size_limit a d =
     and_then (the_assignment a d) (\<lambda>r. and_then (decode_assignment r) (\<lambda>asg. Inr (ra_result_size_limit_bytes asg)))"

definition is_terminal :: "id \<Rightarrow> db \<Rightarrow> error + bool" where
  "is_terminal a d = and_then (the_assignment a d) (\<lambda>r. Inr (terminal (a_state r)))"

record status_snapshot =
  st_run_id :: id
  st_active_policy_id :: id
  st_active_policy_version :: nat
  st_workers :: nat
  st_worker_sessions :: nat
  st_stale_worker_sessions :: nat
  st_active_leases :: nat
  st_assignments :: "assignment_state \<Rightarrow> nat"
  st_groups :: "group_state \<Rightarrow> nat"
  st_results :: "processing_state \<Rightarrow> nat"
  st_stale_cutoff :: time
  st_server_time :: time

definition status_snapshot_of :: "time \<Rightarrow> time \<Rightarrow> db \<Rightarrow> error + status_snapshot" where
  "status_snapshot_of stale_after now d =
     (if stale_after < 0 then Inl ValueError
      else and_then (the_run d) (\<lambda>run.
        case policy_at d (ru_active_policy_id run) of
          None \<Rightarrow> Inl TypeError
        | Some p \<Rightarrow>
            Inr \<lparr>st_run_id = ru_run_id run, st_active_policy_id = ru_active_policy_id run,
                 st_active_policy_version = p_policy_version p, st_workers = length (workers d),
                 st_worker_sessions = length (worker_sessions d),
                 st_stale_worker_sessions = count_where (\<lambda>s. s_last_seen_at s < now - stale_after) (worker_sessions d),
                 st_active_leases = count_where (\<lambda>l. l_state l = L_active \<and> now < l_expires_at l) (lease_attempts d),
                 st_assignments = (\<lambda>st. count_where (\<lambda>r. a_state r = st) (assignments d)),
                 st_groups = (\<lambda>st. count_where (\<lambda>r. g_state r = st) (rollout_groups d)),
                 st_results = (\<lambda>st. count_where (\<lambda>r. r_processing_state r = st) (accepted_results d)),
                 st_stale_cutoff = now - stale_after, st_server_time = now\<rparr>))"

end
