(* ===== verification/Policy_Store.thy ===== *)
theory Policy_Store
  imports Acceptance
begin

text \<open>
  The run and its policies in \<open>CoordinatorRepository\<close>: initialisation, recording and activating
  trained policies, scheduler settings, and the reads of policies.
\<close>

section \<open>Initialisation\<close>

definition initialize_run :: "repository \<Rightarrow> policy_manifest \<Rightarrow> db \<Rightarrow> (error + unit) \<times> db" where
  "initialize_run R base =
     transaction (\<lambda>d.
       if pm_policy_version base \<noteq> 0 then Inl ValueError
       else case runs d of
         Some existing \<Rightarrow>
           (case policy_at d (ru_base_policy_id existing) of
              None \<Rightarrow> (if ru_run_id existing = pm_run_id base then Inl TypeError else Inl ConflictError)
            | Some p \<Rightarrow>
                if ru_run_id existing = pm_run_id base \<and> p_manifest_digest p = manifest_digest R base
                then Inr ((), d) else Inl ConflictError)
       | None \<Rightarrow>
           and_then (insert_policy \<lparr>p_policy_id = pm_policy_id base, p_policy_version = 0,
               p_manifest_digest = manifest_digest R base, p_manifest_json = base, p_artifact_path = None,
               p_created_at = pm_created_at base\<rparr> d) (\<lambda>d1.
           and_then (insert_run \<lparr>ru_run_id = pm_run_id base, ru_base_model_json = pm_base_model base,
               ru_base_policy_id = pm_policy_id base, ru_active_policy_id = pm_policy_id base,
               ru_created_at = pm_created_at base\<rparr> d1) (\<lambda>d2. Inr ((), d2))))"

section \<open>Recording and activating\<close>

definition prepare_trained_policy_record :: "repository \<Rightarrow> policy_manifest \<Rightarrow> string
    \<Rightarrow> error + policy_manifest \<times> string" where
  "prepare_trained_policy_record R m path =
     (if pm_policy_version m = 0 then Inl ValueError
      else and_then (verify_artifact R path m) (\<lambda>verified.
        case relative_path R path of
          None \<Rightarrow> Inl ValueError
        | Some p \<Rightarrow> Inr (verified, p)))"

definition record_policy_in :: "repository \<Rightarrow> policy_manifest \<Rightarrow> string \<Rightarrow> db \<Rightarrow> error + db" where
  "record_policy_in R m path d =
     and_then (the_run d) (\<lambda>run.
     if pm_run_id m \<noteq> ru_run_id run \<or> pm_base_model m \<noteq> ru_base_model_json run then Inl ConflictError
     else case find (\<lambda>p. p_policy_id p = pm_policy_id m \<or> p_policy_version p = pm_policy_version m) (policies d) of
       Some existing \<Rightarrow>
         if p_manifest_digest existing = manifest_digest R m \<and> p_artifact_path existing = Some path
         then Inr d else Inl ConflictError
     | None \<Rightarrow>
         insert_policy \<lparr>p_policy_id = pm_policy_id m, p_policy_version = pm_policy_version m,
           p_manifest_digest = manifest_digest R m, p_manifest_json = m, p_artifact_path = Some path,
           p_created_at = pm_created_at m\<rparr> d)"

definition record_policy :: "repository \<Rightarrow> policy_manifest \<Rightarrow> string \<Rightarrow> db \<Rightarrow> (error + unit) \<times> db" where
  "record_policy R m path =
     transaction (\<lambda>d.
       and_then (prepare_trained_policy_record R m path) (\<lambda>(verified, p).
       and_then (record_policy_in R verified p d) (\<lambda>d1. Inr ((), d1))))"

text \<open>The check that an activation does not go back, the switch, and the reconciliation.\<close>

definition switch_policy :: "id \<Rightarrow> nat \<Rightarrow> time \<Rightarrow> db \<Rightarrow> error + db" where
  "switch_policy p version now d =
     (case active_policy_row d of
        None \<Rightarrow> Inl InvalidStateError
      | Some active \<Rightarrow>
          if version < p_policy_version active then Inl InvalidStateError
          else and_then (set_active_policy p d) (reconcile_stale_work now))"

definition record_and_activate_policy :: "repository \<Rightarrow> policy_manifest \<Rightarrow> string \<Rightarrow> time \<Rightarrow> db
    \<Rightarrow> (error + policy_manifest) \<times> db" where
  "record_and_activate_policy R m path now =
     transaction (\<lambda>d.
       and_then (prepare_trained_policy_record R m path) (\<lambda>(verified, p).
       and_then (record_policy_in R verified p d) (\<lambda>d1.
       and_then (switch_policy (pm_policy_id verified) (pm_policy_version verified) now d1) (\<lambda>d2.
       Inr (verified, d2)))))"

definition activate_policy :: "repository \<Rightarrow> id \<Rightarrow> time \<Rightarrow> db \<Rightarrow> (error + policy_manifest) \<times> db" where
  "activate_policy R p now =
     transaction (\<lambda>d. case policy_at d p of
       None \<Rightarrow> Inl InvalidStateError
     | Some target \<Rightarrow>
         and_then (verify_policy_row R target) (\<lambda>_.
         and_then (switch_policy p (p_policy_version target) now d) (\<lambda>d1.
         Inr (p_manifest_json target, d1))))"

definition configure_scheduler :: "int \<Rightarrow> time \<Rightarrow> time \<Rightarrow> db \<Rightarrow> (error + unit) \<times> db" where
  "configure_scheduler max_policy_lag preference now =
     transaction (\<lambda>d.
       if max_policy_lag < 0 \<or> preference < 0 then Inl ValueError
       else and_then (reconcile_stale_work now
           (d\<lparr>scheduler_state := map_option (\<lambda>s. s\<lparr>ss_max_policy_lag := Some (nat max_policy_lag),
               ss_loaded_policy_preference_seconds := Some preference\<rparr>) (scheduler_state d)\<rparr>))
         (\<lambda>d1. Inr ((), d1)))"

section \<open>Reads\<close>

definition max_policy_lag_of :: "db \<Rightarrow> error + nat option" where
  "max_policy_lag_of d = and_then (scheduler_settings d) (\<lambda>s. Inr (ss_max_policy_lag s))"

definition active_policy :: "repository \<Rightarrow> db \<Rightarrow> error + policy_manifest" where
  "active_policy R d =
     (case active_policy_row d of
        None \<Rightarrow> Inl InvalidStateError
      | Some row \<Rightarrow> and_then (verify_policy_row R row) (\<lambda>_. Inr (p_manifest_json row)))"

definition get_policy :: "repository \<Rightarrow> id \<Rightarrow> db \<Rightarrow> error + policy_manifest" where
  "get_policy R p d =
     (case policy_at d p of
        None \<Rightarrow> Inl NotFoundError
      | Some row \<Rightarrow> and_then (verify_policy_row R row) (\<lambda>_. Inr (p_manifest_json row)))"

definition verify_ready :: "repository \<Rightarrow> db \<Rightarrow> error + unit" where
  "verify_ready R d =
     and_then (the_run d) (\<lambda>run.
       case policy_at d (ru_active_policy_id run) of
         None \<Rightarrow> Inl ArtifactCorruptionError
       | Some row \<Rightarrow> verify_policy_row R row)"

text \<open>The listed entry of a policy file, as \<open>resolve_policy_file\<close> and \<open>open_policy_file\<close> look it up
  before they open it.\<close>

definition listed_policy_file :: "repository \<Rightarrow> id \<Rightarrow> string \<Rightarrow> db \<Rightarrow> error + adapter_file" where
  "listed_policy_file R p name d =
     and_then (get_policy R p d) (\<lambda>m.
       case (case pm_adapter m of None \<Rightarrow> None | Some a \<Rightarrow> find (\<lambda>f. af_name f = name) (ac_files a)) of
         None \<Rightarrow> Inl NotFoundError
       | Some f \<Rightarrow> Inr f)"

section \<open>The policies of a run\<close>

text \<open>One row per policy, named after its version and digest; the active policy is one of them.\<close>

definition policies_ok :: "db \<Rightarrow> bool" where
  "policies_ok d \<longleftrightarrow>
     distinct (map p_policy_id (policies d)) \<and> distinct (map p_policy_version (policies d)) \<and>
     (\<forall>p \<in> set (policies d). (p_policy_version p = 0 \<longleftrightarrow> p_artifact_path p = None) \<and>
        p_policy_id p = expected_policy_id (p_policy_version p) (p_manifest_digest p)) \<and>
     (case runs d of None \<Rightarrow> True
      | Some r \<Rightarrow> policy_at d (ru_base_policy_id r) \<noteq> None \<and> policy_at d (ru_active_policy_id r) \<noteq> None)"

text \<open>The version of the active policy.\<close>

definition active_version :: "db \<Rightarrow> nat option" where
  "active_version d = map_option p_policy_version (active_policy_row d)"

definition run_tables where
  "run_tables d = (runs d, policies d)"

lemma policies_ok_frame: "run_tables d' = run_tables d \<Longrightarrow> policies_ok d' = policies_ok d"
  by (simp add: policies_ok_def run_tables_def policy_at_def cong: option.case_cong)

lemma active_version_frame: "run_tables d' = run_tables d \<Longrightarrow> active_version d' = active_version d"
  by (simp add: active_version_def active_policy_row_def run_tables_def policy_at_def cong: option.case_cong)

lemma insert_policy_append:
  "insert_policy p d = Inr d' \<Longrightarrow> policy_at d (p_policy_id p) = None \<and>
     p_policy_version p \<notin> p_policy_version ` set (policies d) \<and>
     (p_policy_version p = 0 \<longleftrightarrow> p_artifact_path p = None) \<and> d' = d\<lparr>policies := policies d @ [p]\<rparr>"
  by (auto simp: insert_policy_def and_then_eq_Inr list_ex_iff)

lemma policy_at_append:
  "policy_at (d\<lparr>policies := policies d @ [p]\<rparr>) x =
    (case policy_at d x of None \<Rightarrow> (if p_policy_id p = x then Some p else None) | Some q \<Rightarrow> Some q)"
  by (simp add: policy_at_def row_at_snoc)

lemma insert_policy_ok:
  assumes "policies_ok d" "insert_policy p d = Inr d'"
    and "p_policy_id p = expected_policy_id (p_policy_version p) (p_manifest_digest p)"
  shows "policies_ok d'"
proof -
  note i = insert_policy_append [OF assms(2)]
  have "p_policy_id p \<notin> p_policy_id ` set (policies d)"
    using i by (simp add: policy_at_def row_at_None_iff)
  then show ?thesis
    using assms(1,3) i by (auto simp: policies_ok_def policy_at_append split: option.splits)
qed

text \<open>A validated manifest carries the name that its version and digest give it.\<close>

definition valid_manifest :: "repository \<Rightarrow> policy_manifest \<Rightarrow> bool" where
  "valid_manifest R = PolicyManifest (hash_adapter R) (hash_identity R)"

lemma valid_manifest_name:
  assumes "valid_manifest R m"
  shows "pm_policy_id m = expected_policy_id (pm_policy_version m) (manifest_digest R m)"
  using make_policy_manifest_InrD(1) [OF assms [unfolded valid_manifest_def PolicyManifest_def]]
  by (simp add: policy_manifest_digest_def)

lemma insert_policy_active:
  assumes "policies_ok d" "insert_policy p d = Inr d'"
  shows "active_version d' = active_version d"
  using assms(1) insert_policy_append [OF assms(2)]
  by (auto simp: policies_ok_def active_version_def active_policy_row_def policy_at_append split: option.splits)

lemma record_policy_in_ok:
  assumes "policies_ok d" "record_policy_in R m path d = Inr d'" "valid_manifest R m"
  shows "policies_ok d'" "active_version d' = active_version d"
  using assms(1,2) insert_policy_ok [OF assms(1)] insert_policy_active [OF assms(1)] valid_manifest_name [OF assms(3)]
  by (auto simp: record_policy_in_def and_then_eq_Inr split: option.splits if_splits)

text \<open>The row of a recorded manifest has the manifest's version.\<close>

lemma policy_row_version:
  assumes "policies_ok d" "policy_at d (pm_policy_id m) = Some q" "valid_manifest R m"
  shows "p_policy_version q = pm_policy_version m"
proof -
  have q: "q \<in> set (policies d)" "p_policy_id q = pm_policy_id m"
    using row_at_SomeD [OF assms(2) [unfolded policy_at_def]] by auto
  then have "expected_policy_id (p_policy_version q) (p_manifest_digest q) =
      expected_policy_id (pm_policy_version m) (manifest_digest R m)"
    using assms(1) valid_manifest_name [OF assms(3)] by (simp add: policies_ok_def)
  then show ?thesis by (rule expected_policy_id_version)
qed

lemma initialize_run_ok:
  assumes "policies_ok d" and v: "valid_manifest R base"
  shows "policies_ok (snd (initialize_run R base d))"
  unfolding initialize_run_def
proof (rule transaction_keeps [where P = policies_ok, OF assms(1)], goal_cases)
  case (1 a d')
  show ?case
  proof (cases "runs d")
    case (Some r)
    with 1 assms show ?thesis by (auto split: if_splits option.splits)
  next
    case None
    with 1 obtain p ru d1 where p: "insert_policy p d = Inr d1" and r: "insert_run ru d1 = Inr d'"
      and name: "p_policy_id p = expected_policy_id (p_policy_version p) (p_manifest_digest p)"
      using valid_manifest_name [OF v] by (auto simp: and_then_eq_Inr split: if_splits)
    have "policies_ok d1" using assms(1) p name by (rule insert_policy_ok)
    then show ?thesis using r
      by (auto simp: insert_run_def and_then_eq_Inr policies_ok_def policy_at_def)
  qed
qed

text \<open>After a switch the active policy is the requested one; its version is at least the old one.\<close>

lemma switch_policyD:
  assumes "switch_policy p version now d = Inr d'" "policies_ok d"
  obtains d1 v where "set_active_policy p d = Inr d1" "reconcile_stale_work now d1 = Inr d'"
    "active_version d = Some v" "v \<le> version" "policies_ok d1" "policy_at d p \<noteq> None"
    "active_version d1 = map_option p_policy_version (policy_at d p)"
proof -
  from assms(1) obtain act d1 where act: "active_policy_row d = Some act" "p_policy_version act \<le> version"
    and d1: "set_active_policy p d = Inr d1" "reconcile_stale_work now d1 = Inr d'"
    by (auto simp: switch_policy_def and_then_eq_Inr split: option.splits if_splits)
  from d1(1) have p: "policy_at d p \<noteq> None" and e: "d1 = d\<lparr>runs := map_option (\<lambda>r. r\<lparr>ru_active_policy_id := p\<rparr>) (runs d)\<rparr>"
    by (auto simp: set_active_policy_def and_then_eq_Inr)
  obtain r where r: "runs d = Some r" using act by (auto simp: active_policy_row_def split: option.splits)
  have "policies_ok d1" using assms(2) p r by (simp add: e policies_ok_def policy_at_def)
  moreover have "active_version d1 = map_option p_policy_version (policy_at d p)"
    using r by (simp add: e active_version_def active_policy_row_def policy_at_def)
  ultimately show thesis using that [OF d1] act p by (simp add: active_version_def)
qed

end
