(* ===== verification/Group_Store.thy ===== *)
theory Group_Store
  imports Policy_Store
begin

text \<open>
  Rollout groups in \<open>CoordinatorRepository\<close>: registration of environment sources, the weighted
  choice of the next source, creation of groups from a source or from given assignments, and
  leasing that creates a group when nothing waits.
\<close>

section \<open>Sources\<close>

record environment_source_spec =
  es_source_id :: id
  es_kind :: rollout_kind
  es_environment :: environment_identity
  es_tasks :: "json list"
  es_sampling :: sampling_config
  es_group_size :: nat
  es_max_attempts :: nat
  es_result_size_limit_bytes :: nat
  es_assignment_timeout_seconds :: "time option"
  es_weight :: rat
  es_enabled :: bool

definition EnvironmentSourceSpec :: "environment_source_spec \<Rightarrow> bool" where
  "EnvironmentSourceSpec s \<longleftrightarrow>
     OpaqueId (es_source_id s) \<and> EnvironmentIdentity (es_environment s) \<and> es_tasks s \<noteq> [] \<and>
     1 \<le> es_group_size s \<and> 1 \<le> es_max_attempts s \<and> 1 \<le> es_result_size_limit_bytes s \<and>
     (case es_assignment_timeout_seconds s of None \<Rightarrow> True | Some t \<Rightarrow> 0 < t) \<and> 0 < es_weight s \<and>
     (es_kind s = Train \<longrightarrow> (case sc_temperature (es_sampling s) of None \<Rightarrow> False | Some t \<Rightarrow> 0 < t))"

text \<open>\<open>EnvironmentCatalog.validate_source_ids\<close>.\<close>

definition validate_source_ids :: "environment_source_spec list \<Rightarrow> bool" where
  "validate_source_ids sources \<longleftrightarrow> length (remdups (map es_source_id sources)) = length (map es_source_id sources)"

definition same_settings :: "source_row \<Rightarrow> environment_source_spec \<Rightarrow> bool" where
  "same_settings r s \<longleftrightarrow>
     so_kind r = es_kind s \<and> so_environment r = es_environment s \<and> so_weight r = es_weight s \<and>
     so_tasks_json r = es_tasks s \<and> so_sampling_json r = es_sampling s \<and> so_group_size r = es_group_size s \<and>
     so_max_attempts r = es_max_attempts s \<and> so_result_size_limit_bytes r = es_result_size_limit_bytes s \<and>
     so_assignment_timeout_seconds r = es_assignment_timeout_seconds s \<and> so_enabled r = es_enabled s"

text \<open>\<open>COALESCE((SELECT MIN(virtual_finish) ... WHERE enabled = 1), 0)\<close>.\<close>

definition least_finish :: "db \<Rightarrow> rat" where
  "least_finish d =
     (case map so_virtual_finish (filter so_enabled (scheduler_sources d)) of
        [] \<Rightarrow> 0
      | v # vs \<Rightarrow> fold min vs v)"

definition register_scheduler_source :: "environment_source_spec \<Rightarrow> db \<Rightarrow> (error + unit) \<times> db" where
  "register_scheduler_source s =
     transaction (\<lambda>d. case source_at d (es_source_id s) of
       Some existing \<Rightarrow> if same_settings existing s then Inr ((), d) else Inl ConflictError
     | None \<Rightarrow>
         and_then (insert_source
           \<lparr>so_source_id = es_source_id s, so_kind = es_kind s, so_environment = es_environment s,
            so_weight = es_weight s, so_virtual_finish = least_finish d, so_cursor = 0,
            so_tasks_json = es_tasks s, so_sampling_json = es_sampling s, so_group_size = es_group_size s,
            so_max_attempts = es_max_attempts s, so_result_size_limit_bytes = es_result_size_limit_bytes s,
            so_assignment_timeout_seconds = es_assignment_timeout_seconds s, so_enabled = es_enabled s\<rparr> d)
         (\<lambda>d1. Inr ((), d1)))"

text \<open>\<open>WHERE enabled = 1 [AND kind = ?] ORDER BY virtual_finish, source_id LIMIT 1\<close>.\<close>

definition next_source :: "rollout_kind option \<Rightarrow> db \<Rightarrow> source_row option" where
  "next_source kind d =
     (case order_by (\<lambda>s. (so_virtual_finish s, so_source_id s))
        (filter (\<lambda>s. so_enabled s \<and> (case kind of None \<Rightarrow> True | Some k \<Rightarrow> so_kind s = k)) (scheduler_sources d)) of
        [] \<Rightarrow> None | s # _ \<Rightarrow> Some s)"

text \<open>\<open>cursor + 1\<close> and \<open>virtual_finish + group_size / weight\<close>.\<close>

definition source_cost :: "source_row \<Rightarrow> rat" where
  "source_cost s = of_nat (so_group_size s) / so_weight s"

definition advance_source :: "id \<Rightarrow> db \<Rightarrow> db" where
  "advance_source s =
     update_source s (\<lambda>r. r\<lparr>so_cursor := so_cursor r + 1, so_virtual_finish := so_virtual_finish r + source_cost r\<rparr>)"

section \<open>Creating groups\<close>

record created_group =
  cg_group_id :: id
  cg_creation_key :: string
  cg_sequence :: nat
  cg_source_id :: id
  cg_source_cursor :: nat
  cg_assignments :: "rollout_assignment list"

definition allocate_group_sequence :: "db \<Rightarrow> error + nat \<times> db" where
  "allocate_group_sequence d =
     (case scheduler_state d of
        None \<Rightarrow> Inl TypeError
      | Some s \<Rightarrow> Inr (ss_next_group_sequence s,
          d\<lparr>scheduler_state := Some (s\<lparr>ss_next_group_sequence := ss_next_group_sequence s + 1\<rparr>)\<rparr>))"

definition assignment_row_of :: "repository \<Rightarrow> nat \<Rightarrow> rollout_assignment \<Rightarrow> assignment_row" where
  "assignment_row_of R max_attempts x =
     \<lparr>a_assignment_id = ra_assignment_id x, a_group_id = ra_group_id x, a_group_index = ra_group_index x,
      a_assignment_json = x, a_policy_id = pm_policy_id (ra_policy x),
      a_policy_manifest_digest = manifest_digest R (ra_policy x), a_state = Pending, a_max_attempts = max_attempts,
      a_attempt_count = 0, a_available_at = ra_created_at x, a_deadline_at = ra_deadline_at x,
      a_current_lease_id = None\<rparr>"

definition insert_assignments :: "repository \<Rightarrow> nat \<Rightarrow> rollout_assignment list \<Rightarrow> db \<Rightarrow> error + db" where
  "insert_assignments R max_attempts xs = fold_step (\<lambda>x. insert_assignment_row (assignment_row_of R max_attempts x)) xs"

definition creation_key_of :: "id \<Rightarrow> nat \<Rightarrow> string" where
  "creation_key_of source cursor = ''source:'' @ source @ '':occurrence:'' @ decimal cursor"

text \<open>The assignments of a new group; the \<open>i\<close>-th call of the id factory is \<open>fresh i\<close>.\<close>

definition source_assignments :: "source_row \<Rightarrow> policy_manifest \<Rightarrow> json \<Rightarrow> (nat \<Rightarrow> id) \<Rightarrow> time \<Rightarrow> rollout_assignment list" where
  "source_assignments s policy task fresh now =
     map (\<lambda>i. \<lparr>ra_assignment_id = fresh (Suc i), ra_source_id = so_source_id s, ra_group_id = fresh 0,
              ra_group_index = i, ra_group_size = so_group_size s, ra_kind = so_kind s,
              ra_environment = so_environment s, ra_task_data = task, ra_sampling = so_sampling_json s,
              ra_policy = policy, ra_created_at = now,
              ra_deadline_at = map_option (\<lambda>t. now + t) (so_assignment_timeout_seconds s),
              ra_result_size_limit_bytes = so_result_size_limit_bytes s\<rparr>)
       [0..<so_group_size s]"

text \<open>A group that an earlier run created for the same occurrence is returned again.\<close>

definition existing_group :: "source_row \<Rightarrow> group_row \<Rightarrow> string \<Rightarrow> db \<Rightarrow> error + created_group \<times> db" where
  "existing_group s g key d =
     (let rows = order_by a_group_index (filter (\<lambda>r. a_group_id r = g_group_id g) (assignments d)) in
      if length rows \<noteq> so_group_size s then Inl ConflictError
      else and_then (fold_step (\<lambda>r acc. and_then (decode_assignment r) (\<lambda>x. Inr (acc @ [x]))) rows []) (\<lambda>xs.
        Inr (\<lparr>cg_group_id = g_group_id g, cg_creation_key = key, cg_sequence = g_sequence g,
              cg_source_id = so_source_id s, cg_source_cursor = so_cursor s, cg_assignments = xs\<rparr>,
             advance_source (so_source_id s) d)))"

definition new_group :: "repository \<Rightarrow> source_row \<Rightarrow> policy_manifest \<Rightarrow> json \<Rightarrow> string \<Rightarrow> (nat \<Rightarrow> id) \<Rightarrow> time \<Rightarrow> db
    \<Rightarrow> error + created_group \<times> db" where
  "new_group R s policy task key fresh now d =
     and_then (allocate_group_sequence d) (\<lambda>(sequence, d1).
     let xs = source_assignments s policy task fresh now in
     if \<not> list_all RolloutAssignment xs then Inl ValueError
     else and_then (insert_group \<lparr>g_group_id = fresh 0, g_policy_id = pm_policy_id policy, g_kind = so_kind s,
         g_environment = so_environment s, g_task_json = task, g_sampling_json = so_sampling_json s,
         g_group_size = so_group_size s, g_state = Collecting, g_created_at = now, g_creation_key = key,
         g_sequence = sequence, g_source_id = Some (so_source_id s)\<rparr> d1) (\<lambda>d2.
     and_then (insert_assignments R (so_max_attempts s) xs d2) (\<lambda>d3.
     Inr (\<lparr>cg_group_id = fresh 0, cg_creation_key = key, cg_sequence = sequence, cg_source_id = so_source_id s,
           cg_source_cursor = so_cursor s, cg_assignments = xs\<rparr>, advance_source (so_source_id s) d3))))"

definition create_next_group_in :: "repository \<Rightarrow> rollout_kind option \<Rightarrow> (nat \<Rightarrow> id) \<Rightarrow> time \<Rightarrow> db
    \<Rightarrow> error + created_group option \<times> db" where
  "create_next_group_in R kind fresh now d =
     (case next_source kind d of
        None \<Rightarrow> Inr (None, d)
      | Some s \<Rightarrow>
          and_then (active_policy R d) (\<lambda>policy.
          if so_tasks_json s = [] then Inl ZeroDivisionError
          else let task = so_tasks_json s ! (so_cursor s mod length (so_tasks_json s));
                   key = creation_key_of (so_source_id s) (so_cursor s)
            in and_then (case find (\<lambda>g. g_creation_key g = key) (rollout_groups d) of
                  Some g \<Rightarrow> existing_group s g key d
                | None \<Rightarrow> new_group R s policy task key fresh now d)
              (\<lambda>(created, d1). Inr (Some created, d1))))"

definition create_next_group :: "repository \<Rightarrow> rollout_kind option \<Rightarrow> (nat \<Rightarrow> id) \<Rightarrow> time \<Rightarrow> db
    \<Rightarrow> (error + created_group option) \<times> db" where
  "create_next_group R kind fresh now = transaction (create_next_group_in R kind fresh now)"

text \<open>The inputs that all assignments of a group share.\<close>

definition group_inputs where
  "group_inputs R x =
     (ra_source_id x, ra_group_id x, ra_group_size x, ra_kind x, ra_environment x, ra_task_data x, ra_sampling x,
      pm_policy_id (ra_policy x), manifest_digest R (ra_policy x), ra_created_at x, ra_deadline_at x,
      ra_result_size_limit_bytes x)"

definition validate_group :: "repository \<Rightarrow> rollout_assignment list \<Rightarrow> error + rollout_assignment" where
  "validate_group R xs =
     (case xs of
        [] \<Rightarrow> Inl ValueError
      | first # _ \<Rightarrow>
          if length xs \<noteq> ra_group_size first \<or> sort (map ra_group_index xs) \<noteq> [0..<ra_group_size first]
          then Inl ValueError
          else if list_ex (\<lambda>x. group_inputs R x \<noteq> group_inputs R first) xs then Inl ValueError
          else if length (remdups (map ra_assignment_id xs)) \<noteq> length xs then Inl ValueError
          else Inr first)"

definition create_group_in :: "repository \<Rightarrow> rollout_assignment list \<Rightarrow> nat \<Rightarrow> db \<Rightarrow> error + unit \<times> db" where
  "create_group_in R xs max_attempts d =
     (if max_attempts < 1 then Inl ValueError
      else and_then (validate_group R xs) (\<lambda>first.
        case policy_at d (pm_policy_id (ra_policy first)) of
          None \<Rightarrow> Inl ConflictError
        | Some p \<Rightarrow>
            if p_manifest_digest p \<noteq> manifest_digest R (ra_policy first) then Inl ConflictError
            else and_then (allocate_group_sequence d) (\<lambda>(sequence, d1).
              and_then (insert_group \<lparr>g_group_id = ra_group_id first, g_policy_id = pm_policy_id (ra_policy first),
                  g_kind = ra_kind first, g_environment = ra_environment first, g_task_json = ra_task_data first,
                  g_sampling_json = ra_sampling first, g_group_size = ra_group_size first, g_state = Collecting,
                  g_created_at = ra_created_at first, g_creation_key = ''manual:'' @ ra_group_id first,
                  g_sequence = sequence, g_source_id = None\<rparr> d1) (\<lambda>d2.
              and_then (insert_assignments R max_attempts (order_by ra_group_index xs) d2) (\<lambda>d3. Inr ((), d3))))))"

definition create_group :: "repository \<Rightarrow> rollout_assignment list \<Rightarrow> nat \<Rightarrow> db \<Rightarrow> (error + unit) \<times> db" where
  "create_group R xs max_attempts = transaction (create_group_in R xs max_attempts)"

section \<open>Leasing with generation\<close>

text \<open>Four transactions: lease, test, create, lease again; the clock is read by each.\<close>

definition lease_or_create_next_compatible :: "repository \<Rightarrow> lease_request \<Rightarrow> time \<Rightarrow> id \<Rightarrow> id \<Rightarrow> (nat \<Rightarrow> id)
    \<Rightarrow> time \<Rightarrow> time \<Rightarrow> time \<Rightarrow> time \<Rightarrow> db \<Rightarrow> (error + assignment_lease option) \<times> db" where
  "lease_or_create_next_compatible R req duration lease_id1 lease_id2 fresh t1 t2 t3 t4 d =
     (case lease_next_compatible R req duration lease_id1 t1 d of
        (Inl e, d1) \<Rightarrow> (Inl e, d1)
      | (Inr lease, d1) \<Rightarrow>
          if lease \<noteq> None \<or> \<not> lease_request_can_generate req t2 d1 then (Inr lease, d1)
          else (case create_next_group R None fresh t3 d1 of
              (Inl e, d2) \<Rightarrow> (Inl e, d2)
            | (Inr None, d2) \<Rightarrow> (Inr None, d2)
            | (Inr (Some _), d2) \<Rightarrow> lease_next_compatible R req duration lease_id2 t4 d2))"

text \<open>\<open>CoordinatorScheduler\<close>: the constructor checks its settings and stores them; \<open>try_lease\<close> is
  the call above with the duration of the scheduler.\<close>

record coordinator_scheduler =
  cs_lease_duration_seconds :: time
  cs_loaded_preference_seconds :: time
  cs_max_policy_lag :: int

definition CoordinatorScheduler :: "time \<Rightarrow> time \<Rightarrow> int \<Rightarrow> time \<Rightarrow> db \<Rightarrow> (error + coordinator_scheduler) \<times> db" where
  "CoordinatorScheduler duration preference lag now d =
     (if duration \<le> 0 \<or> preference < 0 \<or> lag < 0 then (Inl ValueError, d)
      else case configure_scheduler lag preference now d of
        (Inl e, d1) \<Rightarrow> (Inl e, d1)
      | (Inr _, d1) \<Rightarrow> (Inr \<lparr>cs_lease_duration_seconds = duration, cs_loaded_preference_seconds = preference,
                             cs_max_policy_lag = lag\<rparr>, d1))"

definition try_lease :: "coordinator_scheduler \<Rightarrow> repository \<Rightarrow> lease_request \<Rightarrow> id \<Rightarrow> id \<Rightarrow> (nat \<Rightarrow> id)
    \<Rightarrow> time \<Rightarrow> time \<Rightarrow> time \<Rightarrow> time \<Rightarrow> db \<Rightarrow> (error + assignment_lease option) \<times> db" where
  "try_lease cs R req = lease_or_create_next_compatible R req (cs_lease_duration_seconds cs)"

end
