(* ===== verification/Invariant.thy ===== *)
theory Invariant
  imports Lifecycle
begin

text \<open>
  The invariant of the coordinator database that ties assignments, leases, outcomes,
  results and cancellations together, the lookup equations of every statement, and the rule
  \<open>core_local\<close>: a change that touches one assignment only needs the invariant checked there.
  \<open>core\<close> is what holds between the statements of a transition; the group states are only right
  again after \<open>recompute_group\<close>, so they are tracked separately (\<open>groups_ok_except\<close>).
\<close>

section \<open>The invariant\<close>

definition keys :: "db \<Rightarrow> bool" where
  "keys d \<longleftrightarrow> distinct (map a_assignment_id (assignments d)) \<and>
     distinct (map l_lease_id (lease_attempts d)) \<and>
     distinct (map (\<lambda>l. (l_assignment_id l, l_attempt l)) (lease_attempts d)) \<and>
     distinct (map g_group_id (rollout_groups d))"

text \<open>The denormalised columns of an assignment row agree with its JSON document.\<close>

definition columns_ok :: "assignment_row \<Rightarrow> bool" where
  "columns_ok r \<longleftrightarrow>
     (let j = a_assignment_json r in
      ra_assignment_id j = a_assignment_id r \<and> ra_group_id j = a_group_id r \<and>
      ra_group_index j = a_group_index r \<and> ra_deadline_at j = a_deadline_at r \<and>
      ra_created_at j \<le> a_available_at r \<and> RolloutAssignment j)"

text \<open>A leased assignment names its one active lease, and only a leased one does.\<close>

definition current_ok :: "db \<Rightarrow> assignment_row \<Rightarrow> bool" where
  "current_ok d r \<longleftrightarrow>
     (case a_current_lease_id r of
        None \<Rightarrow> a_state r \<noteq> Leased
      | Some l \<Rightarrow> a_state r = Leased \<and>
          (\<exists>ls. lease_at d l = Some ls \<and> l_assignment_id ls = a_assignment_id r \<and>
                l_state ls = L_active \<and> l_attempt ls = a_attempt_count r))"

definition attempts_ok :: "assignment_row \<Rightarrow> bool" where
  "attempts_ok r \<longleftrightarrow>
     a_attempt_count r \<le> a_max_attempts r \<and>
     (a_state r \<in> {Pending, Retry_wait} \<longrightarrow> a_attempt_count r < a_max_attempts r) \<and>
     (a_state r = Pending \<longrightarrow> a_attempt_count r = 0) \<and>
     (a_state r = Leased \<longrightarrow> 0 < a_attempt_count r)"

text \<open>Exactly the terminal assignments have an outcome row; exactly the succeeded ones a result.\<close>

definition outcome_ok :: "db \<Rightarrow> assignment_row \<Rightarrow> bool" where
  "outcome_ok d r \<longleftrightarrow>
     (case outcome_at d (a_assignment_id r) of
        None \<Rightarrow> \<not> terminal (a_state r)
      | Some o' \<Rightarrow> terminal (a_state r) \<and> (o_outcome o' = Out_result \<longleftrightarrow> a_state r = Succeeded)) \<and>
     (result_at d (a_assignment_id r) \<noteq> None \<longleftrightarrow> a_state r = Succeeded)"

text \<open>A cancelled assignment never waits for a worker; its current lease is cancelled too.\<close>

definition cancellation_ok :: "db \<Rightarrow> assignment_row \<Rightarrow> bool" where
  "cancellation_ok d r \<longleftrightarrow>
     (case cancellation_at d (a_assignment_id r) of
        None \<Rightarrow> True
      | Some c \<Rightarrow> a_state r \<notin> {Pending, Retry_wait} \<and> (ca_terminal c \<longleftrightarrow> terminal (a_state r)) \<and>
          (case a_current_lease_id r of None \<Rightarrow> True | Some l \<Rightarrow> lease_cancellation_at d l \<noteq> None))"

definition assignment_ok :: "db \<Rightarrow> assignment_row \<Rightarrow> bool" where
  "assignment_ok d r \<longleftrightarrow> columns_ok r \<and> current_ok d r \<and> attempts_ok r \<and> outcome_ok d r \<and>
     cancellation_ok d r \<and> group_at d (a_group_id r) \<noteq> None"

text \<open>An active lease is the current lease of its assignment; attempts are numbered up to the count.\<close>

definition lease_ok :: "db \<Rightarrow> lease_row \<Rightarrow> bool" where
  "lease_ok d ls \<longleftrightarrow>
     (\<exists>r. assignment_at d (l_assignment_id ls) = Some r \<and> l_attempt ls \<le> a_attempt_count r \<and>
       (l_state ls = L_active \<longrightarrow> a_current_lease_id r = Some (l_lease_id ls)) \<and>
       l_issued_at ls < l_expires_at ls \<and> ra_created_at (a_assignment_json r) \<le> l_issued_at ls \<and>
       0 < l_attempt ls \<and>
       (case a_deadline_at r of None \<Rightarrow> True | Some t \<Rightarrow> l_expires_at ls \<le> t))"

definition lease_cancellation_ok :: "db \<Rightarrow> lease_cancellation_row \<Rightarrow> bool" where
  "lease_cancellation_ok d c \<longleftrightarrow>
     lease_pair d (cl_assignment_id c) (cl_lease_id c) \<and> cancellation_at d (cl_assignment_id c) \<noteq> None"

definition core :: "db \<Rightarrow> bool" where
  "core d \<longleftrightarrow> keys d \<and>
     (\<forall>a. assignment_at d a = None \<longrightarrow>
        outcome_at d a = None \<and> result_at d a = None \<and> cancellation_at d a = None) \<and>
     (\<forall>a r. assignment_at d a = Some r \<longrightarrow> assignment_ok d r) \<and>
     (\<forall>l ls. lease_at d l = Some ls \<longrightarrow> lease_ok d ls) \<and>
     (\<forall>l c. lease_cancellation_at d l = Some c \<longrightarrow> lease_cancellation_ok d c)"

definition group_ok :: "db \<Rightarrow> group_row \<Rightarrow> bool" where
  "group_ok d g \<longleftrightarrow>
     (g_state g = Ready \<longleftrightarrow>
        (\<forall>a r. assignment_at d a = Some r \<longrightarrow> a_group_id r = g_group_id g \<longrightarrow> terminal (a_state r)))"

definition groups_ok_except :: "id set \<Rightarrow> db \<Rightarrow> bool" where
  "groups_ok_except G d \<longleftrightarrow> (\<forall>g gr. group_at d g = Some gr \<longrightarrow> g \<notin> G \<longrightarrow> group_ok d gr)"

definition consistent :: "db \<Rightarrow> bool" where
  "consistent d \<longleftrightarrow> core d \<and> groups_ok_except {} d"

section \<open>Automation\<close>

lemmas at_defs = policy_at_def worker_at_def session_at_def group_at_def assignment_at_def lease_at_def
  result_at_def failure_at_def outcome_at_def source_at_def cancellation_at_def lease_cancellation_at_def
  request_at_def batch_at_def processed_group_at_def lease_pair_def

lemmas ok_defs = columns_ok_def current_ok_def attempts_ok_def outcome_ok_def cancellation_ok_def
  assignment_ok_def lease_ok_def lease_cancellation_ok_def

lemmas statement_defs = update_assignment_def update_lease_state_def set_group_state_def
  set_cancellation_terminal_def deliver_cancellation_def fail_assignment_def

lemma at_update_assignment:
  assumes "\<And>r. a_assignment_id (f r) = a_assignment_id r"
  shows "assignment_at (update_assignment a f d) x =
    (if x = a then map_option f (assignment_at d a) else assignment_at d x)"
  by (simp add: assignment_at_def update_assignment_def row_at_update_key assms)

lemma update_assignment_frame [row_simps]:
  "policy_at (update_assignment a f d) = policy_at d" "worker_at (update_assignment a f d) = worker_at d"
  "session_at (update_assignment a f d) = session_at d" "group_at (update_assignment a f d) = group_at d"
  "lease_at (update_assignment a f d) = lease_at d" "result_at (update_assignment a f d) = result_at d"
  "failure_at (update_assignment a f d) = failure_at d" "outcome_at (update_assignment a f d) = outcome_at d"
  "cancellation_at (update_assignment a f d) = cancellation_at d"
  "lease_cancellation_at (update_assignment a f d) = lease_cancellation_at d"
  "request_at (update_assignment a f d) = request_at d" "lease_pair (update_assignment a f d) = lease_pair d"
  by (simp_all add: at_defs update_assignment_def fun_eq_iff)

lemma at_update_lease_state [row_simps]:
  "lease_at (update_lease_state l st d) x =
    (if x = l then map_option (\<lambda>r. r\<lparr>l_state := st\<rparr>) (lease_at d l) else lease_at d x)"
  by (simp add: lease_at_def update_lease_state_def row_at_update_key)

lemma update_lease_state_frame [row_simps]:
  "policy_at (update_lease_state l st d) = policy_at d" "worker_at (update_lease_state l st d) = worker_at d"
  "session_at (update_lease_state l st d) = session_at d" "group_at (update_lease_state l st d) = group_at d"
  "assignment_at (update_lease_state l st d) = assignment_at d" "result_at (update_lease_state l st d) = result_at d"
  "failure_at (update_lease_state l st d) = failure_at d" "outcome_at (update_lease_state l st d) = outcome_at d"
  "cancellation_at (update_lease_state l st d) = cancellation_at d"
  "lease_cancellation_at (update_lease_state l st d) = lease_cancellation_at d"
  "request_at (update_lease_state l st d) = request_at d"
  by (simp_all add: at_defs update_lease_state_def fun_eq_iff)

lemma lease_pair_update_lease_state [row_simps]: "lease_pair (update_lease_state l st d) = lease_pair d"
  by (auto simp: lease_pair_def fun_eq_iff row_simps split: option.split)

lemma at_set_group_state [row_simps]:
  "group_at (set_group_state g st d) x =
    (if x = g then map_option (\<lambda>r. r\<lparr>g_state := st\<rparr>) (group_at d g) else group_at d x)"
  by (simp add: group_at_def set_group_state_def row_at_update_key)

lemma set_group_state_frame [row_simps]:
  "policy_at (set_group_state g st d) = policy_at d" "worker_at (set_group_state g st d) = worker_at d"
  "session_at (set_group_state g st d) = session_at d" "lease_at (set_group_state g st d) = lease_at d"
  "assignment_at (set_group_state g st d) = assignment_at d" "result_at (set_group_state g st d) = result_at d"
  "failure_at (set_group_state g st d) = failure_at d" "outcome_at (set_group_state g st d) = outcome_at d"
  "cancellation_at (set_group_state g st d) = cancellation_at d"
  "lease_cancellation_at (set_group_state g st d) = lease_cancellation_at d"
  "request_at (set_group_state g st d) = request_at d" "lease_pair (set_group_state g st d) = lease_pair d"
  by (simp_all add: at_defs set_group_state_def fun_eq_iff)

lemma at_set_cancellation_terminal [row_simps]:
  "cancellation_at (set_cancellation_terminal a d) x =
    (if x = a then map_option (\<lambda>r. r\<lparr>ca_terminal := True\<rparr>) (cancellation_at d a) else cancellation_at d x)"
  by (simp add: cancellation_at_def set_cancellation_terminal_def row_at_update_key)

lemma set_cancellation_terminal_frame [row_simps]:
  "policy_at (set_cancellation_terminal a d) = policy_at d" "worker_at (set_cancellation_terminal a d) = worker_at d"
  "session_at (set_cancellation_terminal a d) = session_at d" "group_at (set_cancellation_terminal a d) = group_at d"
  "lease_at (set_cancellation_terminal a d) = lease_at d" "assignment_at (set_cancellation_terminal a d) = assignment_at d"
  "result_at (set_cancellation_terminal a d) = result_at d" "failure_at (set_cancellation_terminal a d) = failure_at d"
  "outcome_at (set_cancellation_terminal a d) = outcome_at d"
  "lease_cancellation_at (set_cancellation_terminal a d) = lease_cancellation_at d"
  "request_at (set_cancellation_terminal a d) = request_at d" "lease_pair (set_cancellation_terminal a d) = lease_pair d"
  by (simp_all add: at_defs set_cancellation_terminal_def fun_eq_iff)

lemma at_deliver_cancellation:
  "lease_cancellation_at (deliver_cancellation l t d) x =
    (if x = l then map_option (\<lambda>r. r\<lparr>cl_delivered_at :=
        (case cl_delivered_at r of None \<Rightarrow> Some t | Some x \<Rightarrow> Some x)\<rparr>) (lease_cancellation_at d l)
     else lease_cancellation_at d x)"
  by (simp add: lease_cancellation_at_def deliver_cancellation_def row_at_update_key)

lemma assignment_at_id: "assignment_at d a = Some r \<Longrightarrow> a_assignment_id r = a"
  unfolding assignment_at_def by (rule row_at_SomeD)

lemma lease_at_id: "lease_at d l = Some r \<Longrightarrow> l_lease_id r = l"
  unfolding lease_at_def by (rule row_at_SomeD)

lemma group_at_id: "group_at d g = Some r \<Longrightarrow> g_group_id r = g"
  unfolding group_at_def by (rule row_at_SomeD)

lemma lease_cancellation_at_id: "lease_cancellation_at d l = Some c \<Longrightarrow> cl_lease_id c = l"
  unfolding lease_cancellation_at_def by (rule row_at_SomeD)

lemma mem_assignments_iff: "keys d \<Longrightarrow> r \<in> set (assignments d) \<longleftrightarrow> assignment_at d (a_assignment_id r) = Some r"
  by (simp add: keys_def assignment_at_def mem_iff_row_at [of a_assignment_id])

lemma mem_leases_iff: "keys d \<Longrightarrow> r \<in> set (lease_attempts d) \<longleftrightarrow> lease_at d (l_lease_id r) = Some r"
  by (simp add: keys_def lease_at_def mem_iff_row_at [of l_lease_id])

lemma mem_groups_iff: "keys d \<Longrightarrow> r \<in> set (rollout_groups d) \<longleftrightarrow> group_at d (g_group_id r) = Some r"
  by (simp add: keys_def group_at_def mem_iff_row_at [of g_group_id])

section \<open>Elementary transitions\<close>

lemma keys_update_assignment [simp]:
  assumes "\<And>r. a_assignment_id (f r) = a_assignment_id r"
  shows "keys (update_assignment a f d) = keys d"
  by (simp add: keys_def update_assignment_def map_key_update_where [where key = a_assignment_id] assms)

lemma keys_statements [simp]:
  "keys (update_lease_state l st d) = keys d"
  "keys (set_group_state g gst d) = keys d"
  "keys (set_cancellation_terminal a d) = keys d"
  "keys (deliver_cancellation l t d) = keys d"
  by (simp_all add: keys_def statement_defs)

section \<open>Writing one table\<close>

text \<open>A write to one table keeps the lookups in the others.\<close>

lemma write_runs [row_simps]:
  "policy_at (d\<lparr>runs := v\<rparr>) = policy_at d" "worker_at (d\<lparr>runs := v\<rparr>) = worker_at d"
  "session_at (d\<lparr>runs := v\<rparr>) = session_at d" "group_at (d\<lparr>runs := v\<rparr>) = group_at d"
  "assignment_at (d\<lparr>runs := v\<rparr>) = assignment_at d" "lease_at (d\<lparr>runs := v\<rparr>) = lease_at d"
  "result_at (d\<lparr>runs := v\<rparr>) = result_at d" "failure_at (d\<lparr>runs := v\<rparr>) = failure_at d"
  "outcome_at (d\<lparr>runs := v\<rparr>) = outcome_at d" "source_at (d\<lparr>runs := v\<rparr>) = source_at d"
  "cancellation_at (d\<lparr>runs := v\<rparr>) = cancellation_at d" "lease_cancellation_at (d\<lparr>runs := v\<rparr>) = lease_cancellation_at d"
  "request_at (d\<lparr>runs := v\<rparr>) = request_at d" "batch_at (d\<lparr>runs := v\<rparr>) = batch_at d"
  "processed_group_at (d\<lparr>runs := v\<rparr>) = processed_group_at d" "lease_pair (d\<lparr>runs := v\<rparr>) = lease_pair d"
  by (simp_all add: at_defs fun_eq_iff)

lemma write_policies [row_simps]:
  "worker_at (d\<lparr>policies := v\<rparr>) = worker_at d" "session_at (d\<lparr>policies := v\<rparr>) = session_at d"
  "group_at (d\<lparr>policies := v\<rparr>) = group_at d" "assignment_at (d\<lparr>policies := v\<rparr>) = assignment_at d"
  "lease_at (d\<lparr>policies := v\<rparr>) = lease_at d" "result_at (d\<lparr>policies := v\<rparr>) = result_at d"
  "failure_at (d\<lparr>policies := v\<rparr>) = failure_at d" "outcome_at (d\<lparr>policies := v\<rparr>) = outcome_at d"
  "source_at (d\<lparr>policies := v\<rparr>) = source_at d" "cancellation_at (d\<lparr>policies := v\<rparr>) = cancellation_at d"
  "lease_cancellation_at (d\<lparr>policies := v\<rparr>) = lease_cancellation_at d" "request_at (d\<lparr>policies := v\<rparr>) = request_at d"
  "batch_at (d\<lparr>policies := v\<rparr>) = batch_at d" "processed_group_at (d\<lparr>policies := v\<rparr>) = processed_group_at d"
  "lease_pair (d\<lparr>policies := v\<rparr>) = lease_pair d"
  by (simp_all add: at_defs fun_eq_iff)

lemma write_workers [row_simps]:
  "policy_at (d\<lparr>workers := v\<rparr>) = policy_at d" "session_at (d\<lparr>workers := v\<rparr>) = session_at d"
  "group_at (d\<lparr>workers := v\<rparr>) = group_at d" "assignment_at (d\<lparr>workers := v\<rparr>) = assignment_at d"
  "lease_at (d\<lparr>workers := v\<rparr>) = lease_at d" "result_at (d\<lparr>workers := v\<rparr>) = result_at d"
  "failure_at (d\<lparr>workers := v\<rparr>) = failure_at d" "outcome_at (d\<lparr>workers := v\<rparr>) = outcome_at d"
  "source_at (d\<lparr>workers := v\<rparr>) = source_at d" "cancellation_at (d\<lparr>workers := v\<rparr>) = cancellation_at d"
  "lease_cancellation_at (d\<lparr>workers := v\<rparr>) = lease_cancellation_at d" "request_at (d\<lparr>workers := v\<rparr>) = request_at d"
  "batch_at (d\<lparr>workers := v\<rparr>) = batch_at d" "processed_group_at (d\<lparr>workers := v\<rparr>) = processed_group_at d"
  "lease_pair (d\<lparr>workers := v\<rparr>) = lease_pair d"
  by (simp_all add: at_defs fun_eq_iff)

lemma write_worker_sessions [row_simps]:
  "policy_at (d\<lparr>worker_sessions := v\<rparr>) = policy_at d" "worker_at (d\<lparr>worker_sessions := v\<rparr>) = worker_at d"
  "group_at (d\<lparr>worker_sessions := v\<rparr>) = group_at d" "assignment_at (d\<lparr>worker_sessions := v\<rparr>) = assignment_at d"
  "lease_at (d\<lparr>worker_sessions := v\<rparr>) = lease_at d" "result_at (d\<lparr>worker_sessions := v\<rparr>) = result_at d"
  "failure_at (d\<lparr>worker_sessions := v\<rparr>) = failure_at d" "outcome_at (d\<lparr>worker_sessions := v\<rparr>) = outcome_at d"
  "source_at (d\<lparr>worker_sessions := v\<rparr>) = source_at d" "cancellation_at (d\<lparr>worker_sessions := v\<rparr>) = cancellation_at d"
  "lease_cancellation_at (d\<lparr>worker_sessions := v\<rparr>) = lease_cancellation_at d" "request_at (d\<lparr>worker_sessions := v\<rparr>) = request_at d"
  "batch_at (d\<lparr>worker_sessions := v\<rparr>) = batch_at d" "processed_group_at (d\<lparr>worker_sessions := v\<rparr>) = processed_group_at d"
  "lease_pair (d\<lparr>worker_sessions := v\<rparr>) = lease_pair d"
  by (simp_all add: at_defs fun_eq_iff)

lemma write_rollout_groups [row_simps]:
  "policy_at (d\<lparr>rollout_groups := v\<rparr>) = policy_at d" "worker_at (d\<lparr>rollout_groups := v\<rparr>) = worker_at d"
  "session_at (d\<lparr>rollout_groups := v\<rparr>) = session_at d" "assignment_at (d\<lparr>rollout_groups := v\<rparr>) = assignment_at d"
  "lease_at (d\<lparr>rollout_groups := v\<rparr>) = lease_at d" "result_at (d\<lparr>rollout_groups := v\<rparr>) = result_at d"
  "failure_at (d\<lparr>rollout_groups := v\<rparr>) = failure_at d" "outcome_at (d\<lparr>rollout_groups := v\<rparr>) = outcome_at d"
  "source_at (d\<lparr>rollout_groups := v\<rparr>) = source_at d" "cancellation_at (d\<lparr>rollout_groups := v\<rparr>) = cancellation_at d"
  "lease_cancellation_at (d\<lparr>rollout_groups := v\<rparr>) = lease_cancellation_at d" "request_at (d\<lparr>rollout_groups := v\<rparr>) = request_at d"
  "batch_at (d\<lparr>rollout_groups := v\<rparr>) = batch_at d" "processed_group_at (d\<lparr>rollout_groups := v\<rparr>) = processed_group_at d"
  "lease_pair (d\<lparr>rollout_groups := v\<rparr>) = lease_pair d"
  by (simp_all add: at_defs fun_eq_iff)

lemma write_assignments [row_simps]:
  "policy_at (d\<lparr>assignments := v\<rparr>) = policy_at d" "worker_at (d\<lparr>assignments := v\<rparr>) = worker_at d"
  "session_at (d\<lparr>assignments := v\<rparr>) = session_at d" "group_at (d\<lparr>assignments := v\<rparr>) = group_at d"
  "lease_at (d\<lparr>assignments := v\<rparr>) = lease_at d" "result_at (d\<lparr>assignments := v\<rparr>) = result_at d"
  "failure_at (d\<lparr>assignments := v\<rparr>) = failure_at d" "outcome_at (d\<lparr>assignments := v\<rparr>) = outcome_at d"
  "source_at (d\<lparr>assignments := v\<rparr>) = source_at d" "cancellation_at (d\<lparr>assignments := v\<rparr>) = cancellation_at d"
  "lease_cancellation_at (d\<lparr>assignments := v\<rparr>) = lease_cancellation_at d" "request_at (d\<lparr>assignments := v\<rparr>) = request_at d"
  "batch_at (d\<lparr>assignments := v\<rparr>) = batch_at d" "processed_group_at (d\<lparr>assignments := v\<rparr>) = processed_group_at d"
  "lease_pair (d\<lparr>assignments := v\<rparr>) = lease_pair d"
  by (simp_all add: at_defs fun_eq_iff)

lemma write_lease_attempts [row_simps]:
  "policy_at (d\<lparr>lease_attempts := v\<rparr>) = policy_at d" "worker_at (d\<lparr>lease_attempts := v\<rparr>) = worker_at d"
  "session_at (d\<lparr>lease_attempts := v\<rparr>) = session_at d" "group_at (d\<lparr>lease_attempts := v\<rparr>) = group_at d"
  "assignment_at (d\<lparr>lease_attempts := v\<rparr>) = assignment_at d" "result_at (d\<lparr>lease_attempts := v\<rparr>) = result_at d"
  "failure_at (d\<lparr>lease_attempts := v\<rparr>) = failure_at d" "outcome_at (d\<lparr>lease_attempts := v\<rparr>) = outcome_at d"
  "source_at (d\<lparr>lease_attempts := v\<rparr>) = source_at d" "cancellation_at (d\<lparr>lease_attempts := v\<rparr>) = cancellation_at d"
  "lease_cancellation_at (d\<lparr>lease_attempts := v\<rparr>) = lease_cancellation_at d" "request_at (d\<lparr>lease_attempts := v\<rparr>) = request_at d"
  "batch_at (d\<lparr>lease_attempts := v\<rparr>) = batch_at d" "processed_group_at (d\<lparr>lease_attempts := v\<rparr>) = processed_group_at d"
  by (simp_all add: at_defs fun_eq_iff)

lemma write_accepted_results [row_simps]:
  "policy_at (d\<lparr>accepted_results := v\<rparr>) = policy_at d" "worker_at (d\<lparr>accepted_results := v\<rparr>) = worker_at d"
  "session_at (d\<lparr>accepted_results := v\<rparr>) = session_at d" "group_at (d\<lparr>accepted_results := v\<rparr>) = group_at d"
  "assignment_at (d\<lparr>accepted_results := v\<rparr>) = assignment_at d" "lease_at (d\<lparr>accepted_results := v\<rparr>) = lease_at d"
  "failure_at (d\<lparr>accepted_results := v\<rparr>) = failure_at d" "outcome_at (d\<lparr>accepted_results := v\<rparr>) = outcome_at d"
  "source_at (d\<lparr>accepted_results := v\<rparr>) = source_at d" "cancellation_at (d\<lparr>accepted_results := v\<rparr>) = cancellation_at d"
  "lease_cancellation_at (d\<lparr>accepted_results := v\<rparr>) = lease_cancellation_at d" "request_at (d\<lparr>accepted_results := v\<rparr>) = request_at d"
  "batch_at (d\<lparr>accepted_results := v\<rparr>) = batch_at d" "processed_group_at (d\<lparr>accepted_results := v\<rparr>) = processed_group_at d"
  "lease_pair (d\<lparr>accepted_results := v\<rparr>) = lease_pair d"
  by (simp_all add: at_defs fun_eq_iff)

lemma write_failures [row_simps]:
  "policy_at (d\<lparr>failures := v\<rparr>) = policy_at d" "worker_at (d\<lparr>failures := v\<rparr>) = worker_at d"
  "session_at (d\<lparr>failures := v\<rparr>) = session_at d" "group_at (d\<lparr>failures := v\<rparr>) = group_at d"
  "assignment_at (d\<lparr>failures := v\<rparr>) = assignment_at d" "lease_at (d\<lparr>failures := v\<rparr>) = lease_at d"
  "result_at (d\<lparr>failures := v\<rparr>) = result_at d" "outcome_at (d\<lparr>failures := v\<rparr>) = outcome_at d"
  "source_at (d\<lparr>failures := v\<rparr>) = source_at d" "cancellation_at (d\<lparr>failures := v\<rparr>) = cancellation_at d"
  "lease_cancellation_at (d\<lparr>failures := v\<rparr>) = lease_cancellation_at d" "request_at (d\<lparr>failures := v\<rparr>) = request_at d"
  "batch_at (d\<lparr>failures := v\<rparr>) = batch_at d" "processed_group_at (d\<lparr>failures := v\<rparr>) = processed_group_at d"
  "lease_pair (d\<lparr>failures := v\<rparr>) = lease_pair d"
  by (simp_all add: at_defs fun_eq_iff)

lemma write_assignment_outcomes [row_simps]:
  "policy_at (d\<lparr>assignment_outcomes := v\<rparr>) = policy_at d" "worker_at (d\<lparr>assignment_outcomes := v\<rparr>) = worker_at d"
  "session_at (d\<lparr>assignment_outcomes := v\<rparr>) = session_at d" "group_at (d\<lparr>assignment_outcomes := v\<rparr>) = group_at d"
  "assignment_at (d\<lparr>assignment_outcomes := v\<rparr>) = assignment_at d" "lease_at (d\<lparr>assignment_outcomes := v\<rparr>) = lease_at d"
  "result_at (d\<lparr>assignment_outcomes := v\<rparr>) = result_at d" "failure_at (d\<lparr>assignment_outcomes := v\<rparr>) = failure_at d"
  "source_at (d\<lparr>assignment_outcomes := v\<rparr>) = source_at d" "cancellation_at (d\<lparr>assignment_outcomes := v\<rparr>) = cancellation_at d"
  "lease_cancellation_at (d\<lparr>assignment_outcomes := v\<rparr>) = lease_cancellation_at d" "request_at (d\<lparr>assignment_outcomes := v\<rparr>) = request_at d"
  "batch_at (d\<lparr>assignment_outcomes := v\<rparr>) = batch_at d" "processed_group_at (d\<lparr>assignment_outcomes := v\<rparr>) = processed_group_at d"
  "lease_pair (d\<lparr>assignment_outcomes := v\<rparr>) = lease_pair d"
  by (simp_all add: at_defs fun_eq_iff)

lemma write_scheduler_state [row_simps]:
  "policy_at (d\<lparr>scheduler_state := v\<rparr>) = policy_at d" "worker_at (d\<lparr>scheduler_state := v\<rparr>) = worker_at d"
  "session_at (d\<lparr>scheduler_state := v\<rparr>) = session_at d" "group_at (d\<lparr>scheduler_state := v\<rparr>) = group_at d"
  "assignment_at (d\<lparr>scheduler_state := v\<rparr>) = assignment_at d" "lease_at (d\<lparr>scheduler_state := v\<rparr>) = lease_at d"
  "result_at (d\<lparr>scheduler_state := v\<rparr>) = result_at d" "failure_at (d\<lparr>scheduler_state := v\<rparr>) = failure_at d"
  "outcome_at (d\<lparr>scheduler_state := v\<rparr>) = outcome_at d" "source_at (d\<lparr>scheduler_state := v\<rparr>) = source_at d"
  "cancellation_at (d\<lparr>scheduler_state := v\<rparr>) = cancellation_at d" "lease_cancellation_at (d\<lparr>scheduler_state := v\<rparr>) = lease_cancellation_at d"
  "request_at (d\<lparr>scheduler_state := v\<rparr>) = request_at d" "batch_at (d\<lparr>scheduler_state := v\<rparr>) = batch_at d"
  "processed_group_at (d\<lparr>scheduler_state := v\<rparr>) = processed_group_at d" "lease_pair (d\<lparr>scheduler_state := v\<rparr>) = lease_pair d"
  by (simp_all add: at_defs fun_eq_iff)

lemma write_scheduler_sources [row_simps]:
  "policy_at (d\<lparr>scheduler_sources := v\<rparr>) = policy_at d" "worker_at (d\<lparr>scheduler_sources := v\<rparr>) = worker_at d"
  "session_at (d\<lparr>scheduler_sources := v\<rparr>) = session_at d" "group_at (d\<lparr>scheduler_sources := v\<rparr>) = group_at d"
  "assignment_at (d\<lparr>scheduler_sources := v\<rparr>) = assignment_at d" "lease_at (d\<lparr>scheduler_sources := v\<rparr>) = lease_at d"
  "result_at (d\<lparr>scheduler_sources := v\<rparr>) = result_at d" "failure_at (d\<lparr>scheduler_sources := v\<rparr>) = failure_at d"
  "outcome_at (d\<lparr>scheduler_sources := v\<rparr>) = outcome_at d" "cancellation_at (d\<lparr>scheduler_sources := v\<rparr>) = cancellation_at d"
  "lease_cancellation_at (d\<lparr>scheduler_sources := v\<rparr>) = lease_cancellation_at d" "request_at (d\<lparr>scheduler_sources := v\<rparr>) = request_at d"
  "batch_at (d\<lparr>scheduler_sources := v\<rparr>) = batch_at d" "processed_group_at (d\<lparr>scheduler_sources := v\<rparr>) = processed_group_at d"
  "lease_pair (d\<lparr>scheduler_sources := v\<rparr>) = lease_pair d"
  by (simp_all add: at_defs fun_eq_iff)

lemma write_assignment_cancellations [row_simps]:
  "policy_at (d\<lparr>assignment_cancellations := v\<rparr>) = policy_at d" "worker_at (d\<lparr>assignment_cancellations := v\<rparr>) = worker_at d"
  "session_at (d\<lparr>assignment_cancellations := v\<rparr>) = session_at d" "group_at (d\<lparr>assignment_cancellations := v\<rparr>) = group_at d"
  "assignment_at (d\<lparr>assignment_cancellations := v\<rparr>) = assignment_at d" "lease_at (d\<lparr>assignment_cancellations := v\<rparr>) = lease_at d"
  "result_at (d\<lparr>assignment_cancellations := v\<rparr>) = result_at d" "failure_at (d\<lparr>assignment_cancellations := v\<rparr>) = failure_at d"
  "outcome_at (d\<lparr>assignment_cancellations := v\<rparr>) = outcome_at d" "source_at (d\<lparr>assignment_cancellations := v\<rparr>) = source_at d"
  "lease_cancellation_at (d\<lparr>assignment_cancellations := v\<rparr>) = lease_cancellation_at d" "request_at (d\<lparr>assignment_cancellations := v\<rparr>) = request_at d"
  "batch_at (d\<lparr>assignment_cancellations := v\<rparr>) = batch_at d" "processed_group_at (d\<lparr>assignment_cancellations := v\<rparr>) = processed_group_at d"
  "lease_pair (d\<lparr>assignment_cancellations := v\<rparr>) = lease_pair d"
  by (simp_all add: at_defs fun_eq_iff)

lemma write_lease_cancellations [row_simps]:
  "policy_at (d\<lparr>lease_cancellations := v\<rparr>) = policy_at d" "worker_at (d\<lparr>lease_cancellations := v\<rparr>) = worker_at d"
  "session_at (d\<lparr>lease_cancellations := v\<rparr>) = session_at d" "group_at (d\<lparr>lease_cancellations := v\<rparr>) = group_at d"
  "assignment_at (d\<lparr>lease_cancellations := v\<rparr>) = assignment_at d" "lease_at (d\<lparr>lease_cancellations := v\<rparr>) = lease_at d"
  "result_at (d\<lparr>lease_cancellations := v\<rparr>) = result_at d" "failure_at (d\<lparr>lease_cancellations := v\<rparr>) = failure_at d"
  "outcome_at (d\<lparr>lease_cancellations := v\<rparr>) = outcome_at d" "source_at (d\<lparr>lease_cancellations := v\<rparr>) = source_at d"
  "cancellation_at (d\<lparr>lease_cancellations := v\<rparr>) = cancellation_at d" "request_at (d\<lparr>lease_cancellations := v\<rparr>) = request_at d"
  "batch_at (d\<lparr>lease_cancellations := v\<rparr>) = batch_at d" "processed_group_at (d\<lparr>lease_cancellations := v\<rparr>) = processed_group_at d"
  "lease_pair (d\<lparr>lease_cancellations := v\<rparr>) = lease_pair d"
  by (simp_all add: at_defs fun_eq_iff)

lemma write_lease_requests [row_simps]:
  "policy_at (d\<lparr>lease_requests := v\<rparr>) = policy_at d" "worker_at (d\<lparr>lease_requests := v\<rparr>) = worker_at d"
  "session_at (d\<lparr>lease_requests := v\<rparr>) = session_at d" "group_at (d\<lparr>lease_requests := v\<rparr>) = group_at d"
  "assignment_at (d\<lparr>lease_requests := v\<rparr>) = assignment_at d" "lease_at (d\<lparr>lease_requests := v\<rparr>) = lease_at d"
  "result_at (d\<lparr>lease_requests := v\<rparr>) = result_at d" "failure_at (d\<lparr>lease_requests := v\<rparr>) = failure_at d"
  "outcome_at (d\<lparr>lease_requests := v\<rparr>) = outcome_at d" "source_at (d\<lparr>lease_requests := v\<rparr>) = source_at d"
  "cancellation_at (d\<lparr>lease_requests := v\<rparr>) = cancellation_at d" "lease_cancellation_at (d\<lparr>lease_requests := v\<rparr>) = lease_cancellation_at d"
  "batch_at (d\<lparr>lease_requests := v\<rparr>) = batch_at d" "processed_group_at (d\<lparr>lease_requests := v\<rparr>) = processed_group_at d"
  "lease_pair (d\<lparr>lease_requests := v\<rparr>) = lease_pair d"
  by (simp_all add: at_defs fun_eq_iff)

lemma write_training_batches [row_simps]:
  "policy_at (d\<lparr>training_batches := v\<rparr>) = policy_at d" "worker_at (d\<lparr>training_batches := v\<rparr>) = worker_at d"
  "session_at (d\<lparr>training_batches := v\<rparr>) = session_at d" "group_at (d\<lparr>training_batches := v\<rparr>) = group_at d"
  "assignment_at (d\<lparr>training_batches := v\<rparr>) = assignment_at d" "lease_at (d\<lparr>training_batches := v\<rparr>) = lease_at d"
  "result_at (d\<lparr>training_batches := v\<rparr>) = result_at d" "failure_at (d\<lparr>training_batches := v\<rparr>) = failure_at d"
  "outcome_at (d\<lparr>training_batches := v\<rparr>) = outcome_at d" "source_at (d\<lparr>training_batches := v\<rparr>) = source_at d"
  "cancellation_at (d\<lparr>training_batches := v\<rparr>) = cancellation_at d" "lease_cancellation_at (d\<lparr>training_batches := v\<rparr>) = lease_cancellation_at d"
  "request_at (d\<lparr>training_batches := v\<rparr>) = request_at d" "processed_group_at (d\<lparr>training_batches := v\<rparr>) = processed_group_at d"
  "lease_pair (d\<lparr>training_batches := v\<rparr>) = lease_pair d"
  by (simp_all add: at_defs fun_eq_iff)

lemma write_processed_groups [row_simps]:
  "policy_at (d\<lparr>processed_groups := v\<rparr>) = policy_at d" "worker_at (d\<lparr>processed_groups := v\<rparr>) = worker_at d"
  "session_at (d\<lparr>processed_groups := v\<rparr>) = session_at d" "group_at (d\<lparr>processed_groups := v\<rparr>) = group_at d"
  "assignment_at (d\<lparr>processed_groups := v\<rparr>) = assignment_at d" "lease_at (d\<lparr>processed_groups := v\<rparr>) = lease_at d"
  "result_at (d\<lparr>processed_groups := v\<rparr>) = result_at d" "failure_at (d\<lparr>processed_groups := v\<rparr>) = failure_at d"
  "outcome_at (d\<lparr>processed_groups := v\<rparr>) = outcome_at d" "source_at (d\<lparr>processed_groups := v\<rparr>) = source_at d"
  "cancellation_at (d\<lparr>processed_groups := v\<rparr>) = cancellation_at d" "lease_cancellation_at (d\<lparr>processed_groups := v\<rparr>) = lease_cancellation_at d"
  "request_at (d\<lparr>processed_groups := v\<rparr>) = request_at d" "batch_at (d\<lparr>processed_groups := v\<rparr>) = batch_at d"
  "lease_pair (d\<lparr>processed_groups := v\<rparr>) = lease_pair d"
  by (simp_all add: at_defs fun_eq_iff)

lemma write_processed_rollouts [row_simps]:
  "policy_at (d\<lparr>processed_rollouts := v\<rparr>) = policy_at d" "worker_at (d\<lparr>processed_rollouts := v\<rparr>) = worker_at d"
  "session_at (d\<lparr>processed_rollouts := v\<rparr>) = session_at d" "group_at (d\<lparr>processed_rollouts := v\<rparr>) = group_at d"
  "assignment_at (d\<lparr>processed_rollouts := v\<rparr>) = assignment_at d" "lease_at (d\<lparr>processed_rollouts := v\<rparr>) = lease_at d"
  "result_at (d\<lparr>processed_rollouts := v\<rparr>) = result_at d" "failure_at (d\<lparr>processed_rollouts := v\<rparr>) = failure_at d"
  "outcome_at (d\<lparr>processed_rollouts := v\<rparr>) = outcome_at d" "source_at (d\<lparr>processed_rollouts := v\<rparr>) = source_at d"
  "cancellation_at (d\<lparr>processed_rollouts := v\<rparr>) = cancellation_at d" "lease_cancellation_at (d\<lparr>processed_rollouts := v\<rparr>) = lease_cancellation_at d"
  "request_at (d\<lparr>processed_rollouts := v\<rparr>) = request_at d" "batch_at (d\<lparr>processed_rollouts := v\<rparr>) = batch_at d"
  "processed_group_at (d\<lparr>processed_rollouts := v\<rparr>) = processed_group_at d" "lease_pair (d\<lparr>processed_rollouts := v\<rparr>) = lease_pair d"
  by (simp_all add: at_defs fun_eq_iff)

text \<open>A row appended to a table is found under its key unless an older row has the key.\<close>

lemma append_row [row_simps]:
  "policy_at (d\<lparr>policies := policies d @ [r0]\<rparr>) x =
     (case policy_at d x of None \<Rightarrow> (if p_policy_id r0 = x then Some r0 else None) | Some y \<Rightarrow> Some y)"
  "worker_at (d\<lparr>workers := workers d @ [r1]\<rparr>) x =
     (case worker_at d x of None \<Rightarrow> (if w_worker_id r1 = x then Some r1 else None) | Some y \<Rightarrow> Some y)"
  "session_at (d\<lparr>worker_sessions := worker_sessions d @ [r2]\<rparr>) x =
     (case session_at d x of None \<Rightarrow> (if s_worker_session_id r2 = x then Some r2 else None) | Some y \<Rightarrow> Some y)"
  "group_at (d\<lparr>rollout_groups := rollout_groups d @ [r3]\<rparr>) x =
     (case group_at d x of None \<Rightarrow> (if g_group_id r3 = x then Some r3 else None) | Some y \<Rightarrow> Some y)"
  "assignment_at (d\<lparr>assignments := assignments d @ [r4]\<rparr>) x =
     (case assignment_at d x of None \<Rightarrow> (if a_assignment_id r4 = x then Some r4 else None) | Some y \<Rightarrow> Some y)"
  "lease_at (d\<lparr>lease_attempts := lease_attempts d @ [r5]\<rparr>) x =
     (case lease_at d x of None \<Rightarrow> (if l_lease_id r5 = x then Some r5 else None) | Some y \<Rightarrow> Some y)"
  "result_at (d\<lparr>accepted_results := accepted_results d @ [r6]\<rparr>) x =
     (case result_at d x of None \<Rightarrow> (if r_assignment_id r6 = x then Some r6 else None) | Some y \<Rightarrow> Some y)"
  "failure_at (d\<lparr>failures := failures d @ [r7]\<rparr>) x =
     (case failure_at d x of None \<Rightarrow> (if f_lease_id r7 = x then Some r7 else None) | Some y \<Rightarrow> Some y)"
  "outcome_at (d\<lparr>assignment_outcomes := assignment_outcomes d @ [r8]\<rparr>) x =
     (case outcome_at d x of None \<Rightarrow> (if o_assignment_id r8 = x then Some r8 else None) | Some y \<Rightarrow> Some y)"
  "source_at (d\<lparr>scheduler_sources := scheduler_sources d @ [r9]\<rparr>) x =
     (case source_at d x of None \<Rightarrow> (if so_source_id r9 = x then Some r9 else None) | Some y \<Rightarrow> Some y)"
  "cancellation_at (d\<lparr>assignment_cancellations := assignment_cancellations d @ [r10]\<rparr>) x =
     (case cancellation_at d x of None \<Rightarrow> (if ca_assignment_id r10 = x then Some r10 else None) | Some y \<Rightarrow> Some y)"
  "lease_cancellation_at (d\<lparr>lease_cancellations := lease_cancellations d @ [r11]\<rparr>) x =
     (case lease_cancellation_at d x of None \<Rightarrow> (if cl_lease_id r11 = x then Some r11 else None) | Some y \<Rightarrow> Some y)"
  "request_at (d\<lparr>lease_requests := lease_requests d @ [r12]\<rparr>) x =
     (case request_at d x of None \<Rightarrow> (if q_request_id r12 = x then Some r12 else None) | Some y \<Rightarrow> Some y)"
  "batch_at (d\<lparr>training_batches := training_batches d @ [r13]\<rparr>) n =
     (case batch_at d n of None \<Rightarrow> (if b_step r13 = n then Some r13 else None) | Some y \<Rightarrow> Some y)"
  "processed_group_at (d\<lparr>processed_groups := processed_groups d @ [r14]\<rparr>) x =
     (case processed_group_at d x of None \<Rightarrow> (if pg_group_id r14 = x then Some r14 else None) | Some y \<Rightarrow> Some y)"
  by (simp_all add: at_defs row_at_snoc)

lemma keys_write [simp]:
  "keys (d\<lparr>runs := v1\<rparr>) = keys d" "keys (d\<lparr>policies := v2\<rparr>) = keys d"
  "keys (d\<lparr>workers := v3\<rparr>) = keys d" "keys (d\<lparr>worker_sessions := v4\<rparr>) = keys d"
  "keys (d\<lparr>accepted_results := v5\<rparr>) = keys d" "keys (d\<lparr>failures := v6\<rparr>) = keys d"
  "keys (d\<lparr>assignment_outcomes := v7\<rparr>) = keys d" "keys (d\<lparr>scheduler_state := v8\<rparr>) = keys d"
  "keys (d\<lparr>scheduler_sources := v9\<rparr>) = keys d" "keys (d\<lparr>assignment_cancellations := v10\<rparr>) = keys d"
  "keys (d\<lparr>lease_cancellations := v11\<rparr>) = keys d" "keys (d\<lparr>lease_requests := v12\<rparr>) = keys d"
  "keys (d\<lparr>training_batches := v13\<rparr>) = keys d" "keys (d\<lparr>processed_groups := v14\<rparr>) = keys d"
  "keys (d\<lparr>processed_rollouts := v15\<rparr>) = keys d"
  by (simp_all add: keys_def)

lemma keys_append [simp]:
  "keys (d\<lparr>assignments := assignments d @ [ra]\<rparr>) \<longleftrightarrow> keys d \<and> assignment_at d (a_assignment_id ra) = None"
  "keys (d\<lparr>lease_attempts := lease_attempts d @ [rl]\<rparr>) \<longleftrightarrow> keys d \<and> lease_at d (l_lease_id rl) = None \<and>
     \<not> list_ex (\<lambda>x. l_assignment_id x = l_assignment_id rl \<and> l_attempt x = l_attempt rl) (lease_attempts d)"
  "keys (d\<lparr>rollout_groups := rollout_groups d @ [rg]\<rparr>) \<longleftrightarrow> keys d \<and> group_at d (g_group_id rg) = None"
  by (auto simp: keys_def at_defs row_at_None_iff list_ex_iff image_iff)

section \<open>Local changes\<close>

text \<open>
  A change is local to assignment \<open>a\<close> when the rows of other assignments, and the leases and
  lease cancellations of other assignments, are what they were.
\<close>

definition touches :: "id \<Rightarrow> db \<Rightarrow> db \<Rightarrow> bool" where
  "touches a d d' \<longleftrightarrow>
     (\<forall>x. x \<noteq> a \<longrightarrow> assignment_at d' x = assignment_at d x \<and> outcome_at d' x = outcome_at d x \<and>
        result_at d' x = result_at d x \<and> cancellation_at d' x = cancellation_at d x) \<and>
     (\<forall>g. group_at d g \<noteq> None \<longrightarrow> group_at d' g \<noteq> None) \<and>
     (\<forall>l ls. lease_at d l = Some ls \<longrightarrow> l_assignment_id ls \<noteq> a \<longrightarrow>
        lease_at d' l = Some ls \<and> lease_cancellation_at d' l = lease_cancellation_at d l) \<and>
     (\<forall>l ls. lease_at d' l = Some ls \<longrightarrow> l_assignment_id ls \<noteq> a \<longrightarrow> lease_at d l = Some ls) \<and>
     (\<forall>l c. lease_cancellation_at d' l = Some c \<longrightarrow> cl_assignment_id c \<noteq> a \<longrightarrow> lease_cancellation_at d l = Some c)"

lemma coreD:
  assumes "core d"
  shows "keys d"
    "assignment_at d a = None \<Longrightarrow> outcome_at d a = None"
    "assignment_at d a = None \<Longrightarrow> result_at d a = None"
    "assignment_at d a = None \<Longrightarrow> cancellation_at d a = None"
    "assignment_at d a = Some r \<Longrightarrow> assignment_ok d r"
    "lease_at d l = Some ls \<Longrightarrow> lease_ok d ls"
    "lease_cancellation_at d l = Some c \<Longrightarrow> lease_cancellation_ok d c"
  using assms by (simp_all add: core_def)

lemma touchesD:
  assumes "touches a d d'"
  shows "x \<noteq> a \<Longrightarrow> assignment_at d' x = assignment_at d x"
    "x \<noteq> a \<Longrightarrow> outcome_at d' x = outcome_at d x"
    "x \<noteq> a \<Longrightarrow> result_at d' x = result_at d x"
    "x \<noteq> a \<Longrightarrow> cancellation_at d' x = cancellation_at d x"
    "group_at d g \<noteq> None \<Longrightarrow> group_at d' g \<noteq> None"
    "lease_at d l = Some ls \<Longrightarrow> l_assignment_id ls \<noteq> a \<Longrightarrow> lease_at d' l = Some ls"
    "lease_at d l = Some ls \<Longrightarrow> l_assignment_id ls \<noteq> a \<Longrightarrow> lease_cancellation_at d' l = lease_cancellation_at d l"
    "lease_at d' l = Some ls \<Longrightarrow> l_assignment_id ls \<noteq> a \<Longrightarrow> lease_at d l = Some ls"
    "lease_cancellation_at d' l = Some c \<Longrightarrow> cl_assignment_id c \<noteq> a \<Longrightarrow> lease_cancellation_at d l = Some c"
  using assms unfolding touches_def by blast+

lemma current_lease:
  assumes "current_ok d r" "a_current_lease_id r = Some l"
  obtains ls where "lease_at d l = Some ls" "l_assignment_id ls = a_assignment_id r"
    "l_state ls = L_active" "l_attempt ls = a_attempt_count r" "a_state r = Leased"
  using assms by (auto simp: current_ok_def)

lemma assignment_ok_frame:
  assumes ok: "assignment_ok d r" and t: "touches a d d'" and ne: "a_assignment_id r \<noteq> a"
  shows "assignment_ok d' r"
proof -
  note same = touchesD(2-4) [OF t ne]
  have cur0: "current_ok d r" using ok by (simp add: assignment_ok_def)
  have cur: "current_ok d' r"
  proof (cases "a_current_lease_id r")
    case None
    with cur0 show ?thesis by (simp add: current_ok_def)
  next
    case (Some l)
    from cur0 Some obtain ls where ls: "lease_at d l = Some ls" "l_assignment_id ls = a_assignment_id r"
      "l_state ls = L_active" "l_attempt ls = a_attempt_count r" "a_state r = Leased"
      by (rule current_lease)
    with ne have "lease_at d' l = Some ls" by (intro touchesD(6) [OF t]) simp_all
    with ls Some show ?thesis by (simp add: current_ok_def)
  qed
  have lc: "lease_cancellation_at d' l = lease_cancellation_at d l" if "a_current_lease_id r = Some l" for l
    using current_lease [OF cur0 that] touchesD(7) [OF t] ne by metis
  have "cancellation_ok d' r"
    using ok lc unfolding assignment_ok_def cancellation_ok_def same by (auto split: option.splits)
  with cur ok touchesD(5) [OF t, of "a_group_id r"] show ?thesis
    unfolding assignment_ok_def outcome_ok_def same by blast
qed

lemma core_local:
  assumes c: "core d" and t: "touches a d d'" and k: "keys d'"
    and none: "assignment_at d' a = None \<Longrightarrow> outcome_at d' a = None \<and> result_at d' a = None \<and> cancellation_at d' a = None"
    and asg: "\<And>r. assignment_at d' a = Some r \<Longrightarrow> assignment_ok d' r"
    and lea: "\<And>l ls. lease_at d' l = Some ls \<Longrightarrow> l_assignment_id ls = a \<Longrightarrow> lease_ok d' ls"
    and lec: "\<And>l c. lease_cancellation_at d' l = Some c \<Longrightarrow> cl_assignment_id c = a \<Longrightarrow> lease_cancellation_ok d' c"
  shows "core d'"
  unfolding core_def
proof (intro conjI allI impI)
  show "keys d'" by (rule k)
next
  fix x assume n: "assignment_at d' x = None"
  have "outcome_at d' x = None \<and> result_at d' x = None \<and> cancellation_at d' x = None"
  proof (cases "x = a")
    case True
    with n none show ?thesis by simp
  next
    case False
    with n touchesD(1) [OF t False] have "assignment_at d x = None" by simp
    with coreD(2-4) [OF c, of x] touchesD(2-4) [OF t False] show ?thesis by simp
  qed
  then show "outcome_at d' x = None" "result_at d' x = None" "cancellation_at d' x = None" by blast+
next
  fix x r assume s: "assignment_at d' x = Some r"
  show "assignment_ok d' r"
  proof (cases "x = a")
    case True
    with s asg show ?thesis by simp
  next
    case False
    with s touchesD(1) [OF t False] have s': "assignment_at d x = Some r" by simp
    from assignment_at_id [OF s'] False have "a_assignment_id r \<noteq> a" by simp
    with coreD(5) [OF c s'] t show ?thesis by (rule assignment_ok_frame)
  qed
next
  fix l ls assume s: "lease_at d' l = Some ls"
  show "lease_ok d' ls"
  proof (cases "l_assignment_id ls = a")
    case True
    with s lea show ?thesis by simp
  next
    case False
    with s have "lease_at d l = Some ls" by (rule touchesD(8) [OF t])
    with c have "lease_ok d ls" by (rule coreD)
    then show ?thesis unfolding lease_ok_def touchesD(1) [OF t False] .
  qed
next
  fix l c' assume s: "lease_cancellation_at d' l = Some c'"
  show "lease_cancellation_ok d' c'"
  proof (cases "cl_assignment_id c' = a")
    case True
    with s lec show ?thesis by simp
  next
    case False
    with s have "lease_cancellation_at d l = Some c'" by (rule touchesD(9) [OF t])
    with c have ok: "lease_cancellation_ok d c'" by (rule coreD)
    then obtain ls where "lease_at d (cl_lease_id c') = Some ls" "l_assignment_id ls = cl_assignment_id c'"
      by (auto simp: lease_cancellation_ok_def lease_pair_def split: option.splits)
    with touchesD(6) [OF t, of "cl_lease_id c'" ls] False ok touchesD(4) [OF t False] show ?thesis
      by (simp add: lease_cancellation_ok_def lease_pair_def)
  qed
qed

end
