(* ===== verification/Assignment_Life.thy ===== *)
theory Assignment_Life
  imports Schema
begin

text \<open>
  What the coordinator promises about one assignment, without its tables: an abstract state
  machine over the number of attempts used. \<open>phase\<close> reads the abstract state out of the
  database; the theories of the store show that every operation moves each assignment along
  the steps of this machine only.
\<close>

section \<open>The abstract machine\<close>

text \<open>The first number is the budget of attempts, the second the attempts used.\<close>

datatype phase =
    Absent
  | Waiting nat nat
  | Running nat nat
  | Finished bool nat nat

inductive life :: "phase \<Rightarrow> phase \<Rightarrow> bool" where
  create: "0 < m \<Longrightarrow> life Absent (Waiting m 0)"
| lease: "n < m \<Longrightarrow> life (Waiting m n) (Running m (Suc n))"
| retry: "n < m \<Longrightarrow> life (Running m n) (Waiting m n)"
| succeed: "life (Running m n) (Finished True m n)"
| fail: "life (Running m n) (Finished False m n)"
| abandon: "life (Waiting m n) (Finished False m n)"

inductive_simps life_from_Finished [simp]: "life (Finished b m n) q"
inductive_simps life_from_Waiting: "life (Waiting m n) q"
inductive_simps life_from_Running: "life (Running m n) q"
inductive_cases life_to_AbsentE [elim!]: "life p Absent"
inductive_cases life_to_RunningE: "life p (Running m n)"

abbreviation lives :: "phase \<Rightarrow> phase \<Rightarrow> bool" where
  "lives \<equiv> life\<^sup>*\<^sup>*"

lemma lives_Finished [simp]: "lives (Finished b m n) q \<longleftrightarrow> q = Finished b m n"
proof
  assume "lives (Finished b m n) q"
  then show "q = Finished b m n" by (induction rule: rtranclp_induct) auto
qed simp

text \<open>Steps never change the budget, never lower the number of attempts, and stay in the budget.\<close>

fun used :: "phase \<Rightarrow> nat" where
  "used Absent = 0"
| "used (Waiting m n) = n"
| "used (Running m n) = n"
| "used (Finished b m n) = n"

fun budget :: "phase \<Rightarrow> nat option" where
  "budget Absent = None"
| "budget (Waiting m n) = Some m"
| "budget (Running m n) = Some m"
| "budget (Finished b m n) = Some m"

lemma life_used: "life p q \<Longrightarrow> used p \<le> used q"
  by (auto elim: life.cases)

lemma life_budget: "life p q \<Longrightarrow> p \<noteq> Absent \<Longrightarrow> budget q = budget p"
  by (auto elim: life.cases)

lemma lives_used: "lives p q \<Longrightarrow> used p \<le> used q"
  by (induction rule: rtranclp_induct) (auto dest: life_used)

lemma lives_not_Absent: "lives p q \<Longrightarrow> p \<noteq> Absent \<Longrightarrow> q \<noteq> Absent"
  by (induction rule: rtranclp_induct) auto

lemma lives_budget:
  assumes "lives p q" "p \<noteq> Absent"
  shows "budget q = budget p"
  using assms by (induction rule: rtranclp_induct) (auto simp: life_budget lives_not_Absent)

text \<open>The attempts strictly grow with every new lease.\<close>

inductive leases_taken :: "phase \<Rightarrow> nat \<Rightarrow> phase \<Rightarrow> bool" where
  none: "leases_taken p 0 p"
| other: "leases_taken p k q \<Longrightarrow> life q q' \<Longrightarrow> (\<forall>m n. q' \<noteq> Running m n) \<Longrightarrow> leases_taken p k q'"
| taken: "leases_taken p k q \<Longrightarrow> life q (Running m n) \<Longrightarrow> leases_taken p (Suc k) (Running m n)"

lemma leases_taken_used: "leases_taken p k q \<Longrightarrow> used q = used p + k"
proof (induction rule: leases_taken.induct)
  case (other p k q q')
  from other.hyps(2,3) have "used q' = used q" by (cases rule: life.cases) auto
  with other.IH show ?case by simp
next
  case (taken p k q m n)
  from taken.hyps(2) have "used (Running m n) = Suc (used q)" by (cases rule: life_to_RunningE) auto
  with taken.IH show ?case by simp
qed simp

lemma lives_within_budget:
  assumes "lives Absent q"
  shows "\<forall>m. budget q = Some m \<longrightarrow> used q \<le> m"
  using assms by (induction rule: rtranclp_induct) (auto elim!: life.cases)

lemma leases_bounded:
  assumes "leases_taken Absent k q" "budget q = Some m"
  shows "k \<le> m"
proof -
  have "lives Absent q"
    using assms(1) by (induction Absent k q rule: leases_taken.induct) (auto intro: rtranclp.rtrancl_into_rtrancl)
  with lives_within_budget assms(2) leases_taken_used [OF assms(1)] show ?thesis by auto
qed

section \<open>Reading the phase out of the database\<close>

definition phase :: "db \<Rightarrow> id \<Rightarrow> phase" where
  "phase d a =
     (case assignment_at d a of
        None \<Rightarrow> Absent
      | Some r \<Rightarrow>
          (let m = a_max_attempts r; n = a_attempt_count r in
           case a_state r of
             Pending \<Rightarrow> Waiting m n
           | Retry_wait \<Rightarrow> Waiting m n
           | Leased \<Rightarrow> Running m n
           | Succeeded \<Rightarrow> Finished True m n
           | Failed \<Rightarrow> Finished False m n))"

lemma phase_cong: "assignment_at d' a = assignment_at d a \<Longrightarrow> phase d' a = phase d a"
  by (simp add: phase_def)

end
