(* ===== verification/Lifecycle_Inv.thy ===== *)
theory Lifecycle_Inv
  imports Invariant Assignment_Life
begin

text \<open>
  Each transition of \<open>Lifecycle\<close> keeps the invariant of the coordinator database, and in a
  database that satisfies it no statement of a transition violates a constraint.
\<close>

section \<open>Ending the current attempt\<close>

text \<open>
  The assignment \<open>a\<close> leaves its current lease, if it has one, for a row \<open>r'\<close> that is not
  leased; the lease gets the final state \<open>st\<close>.
\<close>

lemma core_settle:
  assumes c: "core d" and k: "keys d'" and a: "assignment_at d a = Some r"
    and A: "\<And>x. assignment_at d' x = (if x = a then Some r' else assignment_at d x)"
    and O: "\<And>x. x \<noteq> a \<Longrightarrow> outcome_at d' x = outcome_at d x"
    and R: "\<And>x. x \<noteq> a \<Longrightarrow> result_at d' x = result_at d x"
    and C: "\<And>x. x \<noteq> a \<Longrightarrow> cancellation_at d' x = cancellation_at d x"
    and Ca: "cancellation_at d a \<noteq> None \<Longrightarrow> cancellation_at d' a \<noteq> None"
    and G: "group_at d' = group_at d"
    and L: "\<And>x. lease_at d' x = (case lease_at d x of None \<Rightarrow> None
       | Some ls \<Rightarrow> Some (if a_current_lease_id r = Some x then ls\<lparr>l_state := st\<rparr> else ls))"
    and LC: "lease_cancellation_at d' = lease_cancellation_at d"
    and st: "st \<noteq> L_active"
    and same: "columns_ok r'" "a_assignment_id r' = a" "a_group_id r' = a_group_id r" "a_deadline_at r' = a_deadline_at r"
      "a_assignment_json r' = a_assignment_json r" "a_attempt_count r \<le> a_attempt_count r'"
    and new: "a_current_lease_id r' = None" "a_state r' \<noteq> Leased" "attempts_ok r'" "outcome_ok d' r'" "cancellation_ok d' r'"
  shows "core d' \<and> touches a d d'"
proof -
  from c a have ok: "assignment_ok d r" by (rule coreD)
  from a have id: "a_assignment_id r = a" by (rule assignment_at_id)
  have cur: "l_assignment_id ls = a" if "a_current_lease_id r = Some l" "lease_at d l = Some ls" for l ls
    using ok that id by (auto simp: assignment_ok_def current_ok_def)
  have t: "touches a d d'"
    unfolding touches_def using A O R C cur by (auto simp: L G LC split: option.splits if_splits)
  have "core d'"
  proof (rule core_local [OF c t k])
    show "outcome_at d' a = None \<and> result_at d' a = None \<and> cancellation_at d' a = None"
      if "assignment_at d' a = None" using that A by simp
  next
    fix x assume "assignment_at d' a = Some x"
    then have x: "x = r'" using A by simp
    have "current_ok d' r'" using new by (simp add: current_ok_def)
    moreover have "group_at d' (a_group_id r') \<noteq> None" using ok same G by (simp add: assignment_ok_def)
    ultimately show "assignment_ok d' x" using same new by (simp add: x assignment_ok_def)
  next
    fix l ls' assume l: "lease_at d' l = Some ls'" "l_assignment_id ls' = a"
    then obtain ls where ls: "lease_at d l = Some ls" "ls' = (if a_current_lease_id r = Some l then ls\<lparr>l_state := st\<rparr> else ls)"
      by (auto simp: L split: option.splits)
    have "lease_ok d ls" "l_lease_id ls = l" using coreD(6) [OF c ls(1)] lease_at_id [OF ls(1)] .
    moreover have "l_assignment_id ls = a" using l ls by (auto split: if_splits)
    ultimately show "lease_ok d' ls'"
      using a A ls(2) st same(4-6) by (cases "a_deadline_at r") (auto simp: lease_ok_def)
  next
    fix l cl assume "lease_cancellation_at d' l = Some cl" "cl_assignment_id cl = a"
    with coreD(7) [OF c, of l cl] LC Ca show "lease_cancellation_ok d' cl"
      by (auto simp: lease_cancellation_ok_def lease_pair_def L split: option.splits)
  qed
  with t show ?thesis by simp
qed

text \<open>A move of one assignment: the invariant, the other assignments and the abstract step.\<close>

definition moves :: "id \<Rightarrow> db \<Rightarrow> db \<Rightarrow> bool" where
  "moves a d d' \<longleftrightarrow> core d' \<and> touches a d d' \<and> lives (phase d a) (phase d' a) \<and> group_at d' = group_at d \<and>
     map_option a_group_id (assignment_at d' a) = map_option a_group_id (assignment_at d a)"

lemma movesD:
  assumes "moves a d d'"
  shows "core d'" "touches a d d'" "lives (phase d a) (phase d' a)" "group_at d' = group_at d"
    "map_option a_group_id (assignment_at d' a) = map_option a_group_id (assignment_at d a)"
  using assms by (simp_all add: moves_def)

text \<open>The lease \<open>l\<close> has got its final state; nothing else that the invariant reads has changed.\<close>

definition lease_ended :: "id \<Rightarrow> lease_state \<Rightarrow> db \<Rightarrow> db \<Rightarrow> bool" where
  "lease_ended l st d d' \<longleftrightarrow>
     (keys d \<longrightarrow> keys d') \<and> assignment_at d' = assignment_at d \<and> outcome_at d' = outcome_at d \<and>
     result_at d' = result_at d \<and> cancellation_at d' = cancellation_at d \<and> group_at d' = group_at d \<and>
     lease_cancellation_at d' = lease_cancellation_at d \<and> lease_pair d' = lease_pair d \<and>
     (\<forall>x. lease_at d' x = (case lease_at d x of None \<Rightarrow> None
        | Some ls \<Rightarrow> Some (if l = x then ls\<lparr>l_state := st\<rparr> else ls)))"

lemma lease_ended_update [intro]: "lease_ended l st d (update_lease_state l st d)"
  by (auto simp: lease_ended_def row_simps split: option.split)

lemma lease_endedD:
  assumes "lease_ended l st d d'"
  shows "keys d \<Longrightarrow> keys d'" "assignment_at d' = assignment_at d" "outcome_at d' = outcome_at d"
    "result_at d' = result_at d" "cancellation_at d' = cancellation_at d" "group_at d' = group_at d"
    "lease_cancellation_at d' = lease_cancellation_at d" "lease_pair d' = lease_pair d"
    "lease_at d' x = (case lease_at d x of None \<Rightarrow> None
        | Some ls \<Rightarrow> Some (if l = x then ls\<lparr>l_state := st\<rparr> else ls))"
  using assms by (simp_all add: lease_ended_def)

text \<open>A lease that is the current one of an assignment.\<close>

definition running :: "db \<Rightarrow> id \<Rightarrow> assignment_row \<Rightarrow> id \<Rightarrow> bool" where
  "running d a r l \<longleftrightarrow> assignment_at d a = Some r \<and> a_current_lease_id r = Some l"

lemma runningD:
  assumes "core d" "running d a r l"
  shows "assignment_at d a = Some r" "a_current_lease_id r = Some l" "a_assignment_id r = a" "a_state r = Leased"
    "assignment_ok d r" "lease_pair d a l" "outcome_at d a = None" "result_at d a = None"
proof -
  from assms(2) show a: "assignment_at d a = Some r" and l: "a_current_lease_id r = Some l"
    by (simp_all add: running_def)
  from a show id: "a_assignment_id r = a" by (rule assignment_at_id)
  from assms(1) a show ok: "assignment_ok d r" by (rule coreD)
  from ok l have cur: "current_ok d r" by (simp add: assignment_ok_def)
  from cur l show st: "a_state r = Leased" "lease_pair d a l"
    by (auto simp: current_ok_def lease_pair_def id)
  from ok st show "outcome_at d a = None" "result_at d a = None"
    by (auto simp: assignment_ok_def outcome_ok_def id terminal_def split: option.splits)
qed

text \<open>Retry: the current lease ends and the assignment waits again.\<close>

lemma core_retry:
  assumes c: "core d" and run: "running d a r l" and e: "lease_ended l st d d1"
    and st: "st \<noteq> L_active" and nc: "cancellation_at d a = None"
    and n: "a_attempt_count r < a_max_attempts r" and t: "ra_created_at (a_assignment_json r) \<le> t"
  shows "moves a d (update_assignment a (\<lambda>r. r\<lparr>a_state := Retry_wait, a_available_at := t, a_current_lease_id := None\<rparr>) d1)"
    (is "moves a d ?d")
proof -
  note r = runningD [OF c run]
  note e' = lease_endedD [OF e]
  let ?r = "r\<lparr>a_state := Retry_wait, a_available_at := t, a_current_lease_id := None\<rparr>"
  have "core ?d \<and> touches a d ?d"
  proof (rule core_settle [OF c _ r(1), where st = st and r' = ?r])
    show "columns_ok ?r"
      using r(5) t by (simp add: assignment_ok_def columns_ok_def Let_def)
    show "attempts_ok ?r"
      using n by (simp add: attempts_ok_def)
  qed (use c r e' st nc in \<open>simp_all add: core_def at_update_assignment row_simps outcome_ok_def
      cancellation_ok_def terminal_def split: option.split\<close>)
  moreover have "life (phase d a) (phase ?d a)"
    using r n by (simp add: phase_def row_simps at_update_assignment e' life.retry)
  ultimately show ?thesis using r by (simp add: moves_def row_simps at_update_assignment e' r_into_rtranclp)
qed

text \<open>Failure: the assignment ends without a result, and its cancellation, if any, is closed.\<close>

lemma core_failed:
  assumes c: "core d" and k: "keys d'" and a: "assignment_at d a = Some r" and nt: "\<not> terminal (a_state r)"
    and A: "\<And>x. assignment_at d' x = (if x = a then Some (r\<lparr>a_state := Failed, a_current_lease_id := None\<rparr>) else assignment_at d x)"
    and O: "\<And>x. outcome_at d' x = (if x = a then Some ot else outcome_at d x)" and ot: "o_outcome ot \<noteq> Out_result"
    and R: "result_at d' = result_at d"
    and C: "\<And>x. x \<noteq> a \<Longrightarrow> cancellation_at d' x = cancellation_at d x"
    and Ca: "cancellation_at d a \<noteq> None \<Longrightarrow> cancellation_at d' a \<noteq> None"
    and Ct: "\<And>ca. cancellation_at d' a = Some ca \<Longrightarrow> ca_terminal ca"
    and G: "group_at d' = group_at d"
    and L: "\<And>x. lease_at d' x = (case lease_at d x of None \<Rightarrow> None
       | Some ls \<Rightarrow> Some (if a_current_lease_id r = Some x then ls\<lparr>l_state := st\<rparr> else ls))"
    and LC: "lease_cancellation_at d' = lease_cancellation_at d" and st: "st \<noteq> L_active"
  shows "moves a d d'"
proof -
  from c a have ok: "assignment_ok d r" by (rule coreD)
  from a have id: "a_assignment_id r = a" by (rule assignment_at_id)
  from ok nt have o': "result_at d a = None"
    by (auto simp: assignment_ok_def outcome_ok_def id terminal_def)
  have "core d' \<and> touches a d d'"
  proof (rule core_settle [OF c k a A _ _ C Ca G L LC st])
    show "columns_ok (r\<lparr>a_state := Failed, a_current_lease_id := None\<rparr>)"
      using ok by (simp add: assignment_ok_def columns_ok_def Let_def)
    show "attempts_ok (r\<lparr>a_state := Failed, a_current_lease_id := None\<rparr>)"
      using ok by (simp add: assignment_ok_def attempts_ok_def)
    show "outcome_ok d' (r\<lparr>a_state := Failed, a_current_lease_id := None\<rparr>)"
      using ot o' by (simp add: outcome_ok_def O R id terminal_def)
    show "cancellation_ok d' (r\<lparr>a_state := Failed, a_current_lease_id := None\<rparr>)"
      using Ct by (simp add: cancellation_ok_def id terminal_def split: option.split)
  qed (simp_all add: O R id)
  moreover have "life (phase d a) (phase d' a)"
    using a nt by (cases "a_state r") (simp_all add: phase_def A terminal_def life.fail life.abandon)
  ultimately show ?thesis using a by (simp add: moves_def A G r_into_rtranclp)
qed

text \<open>Success: the result, the outcome and the lease are written in one transaction.\<close>

lemma core_succeeded:
  assumes c: "core d" and k: "keys d'" and a: "assignment_at d a = Some r" and leased: "a_state r = Leased"
    and A: "\<And>x. assignment_at d' x = (if x = a then Some (r\<lparr>a_state := Succeeded, a_current_lease_id := None\<rparr>) else assignment_at d x)"
    and O: "\<And>x. outcome_at d' x = (if x = a then Some ot else outcome_at d x)" and ot: "o_outcome ot = Out_result"
    and R: "\<And>x. result_at d' x = (if x = a then Some rt else result_at d x)"
    and C: "\<And>x. x \<noteq> a \<Longrightarrow> cancellation_at d' x = cancellation_at d x"
    and Ca: "cancellation_at d a \<noteq> None \<Longrightarrow> cancellation_at d' a \<noteq> None"
    and Ct: "\<And>ca. cancellation_at d' a = Some ca \<Longrightarrow> ca_terminal ca"
    and G: "group_at d' = group_at d"
    and L: "\<And>x. lease_at d' x = (case lease_at d x of None \<Rightarrow> None
       | Some ls \<Rightarrow> Some (if a_current_lease_id r = Some x then ls\<lparr>l_state := L_succeeded\<rparr> else ls))"
    and LC: "lease_cancellation_at d' = lease_cancellation_at d"
  shows "moves a d d'"
proof -
  from c a have ok: "assignment_ok d r" by (rule coreD)
  from a have id: "a_assignment_id r = a" by (rule assignment_at_id)
  have "core d' \<and> touches a d d'"
  proof (rule core_settle [OF c k a A _ _ C Ca G L LC])
    show "columns_ok (r\<lparr>a_state := Succeeded, a_current_lease_id := None\<rparr>)"
      using ok by (simp add: assignment_ok_def columns_ok_def Let_def)
    show "attempts_ok (r\<lparr>a_state := Succeeded, a_current_lease_id := None\<rparr>)"
      using ok by (simp add: assignment_ok_def attempts_ok_def)
    show "outcome_ok d' (r\<lparr>a_state := Succeeded, a_current_lease_id := None\<rparr>)"
      using ot by (simp add: outcome_ok_def O R id terminal_def)
    show "cancellation_ok d' (r\<lparr>a_state := Succeeded, a_current_lease_id := None\<rparr>)"
      using Ct by (simp add: cancellation_ok_def id terminal_def split: option.split)
  qed (simp_all add: O R id)
  moreover have "life (phase d a) (phase d' a)"
    using a leased by (simp add: phase_def A life.succeed)
  ultimately show ?thesis using a by (simp add: moves_def A G r_into_rtranclp)
qed

section \<open>Retry or terminal failure\<close>

lemma retry_or_terminal_moves:
  assumes c: "core d" and run: "running d a r l" and e: "lease_ended l st d d1" and st: "st \<noteq> L_active"
    and nc: "cancellation_at d a = None" and now: "ra_created_at (a_assignment_json r) \<le> now"
    and R: "CoordinatorRepository R = Inr R"
    and l: "(case env of None \<Rightarrow> lid | Some e \<Rightarrow> Some (fe_lease_id e)) = Some l"
  shows "\<exists>b d'. retry_or_terminal R r now env dig lid d1 = Inr (b, d') \<and> moves a d d'"
proof (cases "(case env of None \<Rightarrow> True | Some e \<Rightarrow> fe_retryable e) \<and> a_attempt_count r < a_max_attempts r \<and>
    \<not> deadline_passed (a_deadline_at r) (now + retry_delay R (a_attempt_count r))")
  case True
  have "ra_created_at (a_assignment_json r) \<le> now + retry_delay R (a_attempt_count r)"
    using now retry_delay_pos [OF R, of "a_attempt_count r"] by linarith
  from core_retry [OF c run e st nc _ this] True runningD(3) [OF c run] show ?thesis
    by (auto simp: retry_or_terminal_def)
next
  case False
  note r = runningD [OF c run]
  note e' = lease_endedD [OF e]
  define out where "out = (if a_attempt_count r \<ge> a_max_attempts r then Attempts_exhausted
    else if \<not> (case env of None \<Rightarrow> True | Some e \<Rightarrow> fe_retryable e) then Out_failure
    else if deadline_passed (a_deadline_at r) (now + retry_delay R (a_attempt_count r)) then Deadline_exceeded
    else Attempts_exhausted)"
  define ot where "ot = \<lparr>o_assignment_id = a, o_outcome = out, o_lease_id = Some l,
    o_envelope_digest = dig, o_completed_at = now\<rparr>"
  let ?d = "fail_assignment a d1"
  let ?d' = "?d\<lparr>assignment_outcomes := assignment_outcomes ?d @ [ot]\<rparr>"
  have "insert_outcome ot ?d = Inr ?d'"
    using r by (simp add: insert_outcome_def outcome_keys_ok_def ot_def fail_assignment_def row_simps e'
        at_update_assignment)
  then have "retry_or_terminal R r now env dig lid d1 = Inr (True, ?d')"
    using False l r(3) by (auto simp: retry_or_terminal_def out_def ot_def Let_def)
  moreover have "moves a d ?d'"
  proof (rule core_failed [OF c _ r(1), where st = st and ot = ot])
    show "o_outcome ot \<noteq> Out_result"
      by (simp add: ot_def out_def)
  qed (use c r e' st nc in \<open>simp_all add: core_def at_update_assignment row_simps terminal_def
      fail_assignment_def ot_def split: option.split\<close>)
  ultimately show ?thesis by blast
qed

text \<open>The end of a cancelled attempt: the assignment fails and its cancellation is closed.\<close>

lemma cancelled_end_moves:
  assumes c: "core d" and run: "running d a r l" and e: "lease_ended l st d d1" and st: "st \<noteq> L_active"
    and ca: "cancellation_at d a \<noteq> None" and ot: "o_outcome ot \<noteq> Out_result" "o_assignment_id ot = a" "o_lease_id ot = Some l"
  shows "\<exists>d'. insert_outcome ot (set_cancellation_terminal a (fail_assignment a d1)) = Inr d' \<and> moves a d d'"
proof -
  note r = runningD [OF c run]
  note e' = lease_endedD [OF e]
  let ?d = "set_cancellation_terminal a (fail_assignment a d1)"
  let ?d' = "?d\<lparr>assignment_outcomes := assignment_outcomes ?d @ [ot]\<rparr>"
  have "insert_outcome ot ?d = Inr ?d'"
    using r ot by (simp add: insert_outcome_def outcome_keys_ok_def fail_assignment_def row_simps e'
        at_update_assignment)
  moreover have "moves a d ?d'"
    by (rule core_failed [OF c _ r(1), where st = st and ot = ot])
      (use c r e' st ca ot in \<open>auto simp: core_def at_update_assignment row_simps terminal_def
        fail_assignment_def split: option.split\<close>)
  ultimately show ?thesis by blast
qed

section \<open>Expiry\<close>

text \<open>What the select of due leases says of one of its rows, as long as nobody touched the assignment.\<close>

definition due_enabled :: "time \<Rightarrow> assignment_row \<times> lease_row \<times> bool \<Rightarrow> db \<Rightarrow> bool" where
  "due_enabled now due d =
     (case due of (asg, l, cancelled) \<Rightarrow>
        assignment_at d (l_assignment_id l) = Some asg \<and> lease_at d (l_lease_id l) = Some l \<and>
        l_state l = L_active \<and> (l_expires_at l \<le> now \<or> deadline_passed (a_deadline_at asg) now) \<and>
        (cancelled \<longleftrightarrow> lease_cancellation_at d (l_lease_id l) \<noteq> None))"

text \<open>The current lease of an assignment is cancelled exactly when the assignment is.\<close>

lemma current_cancellation:
  assumes c: "core d" and run: "running d a r l"
  shows "lease_cancellation_at d l \<noteq> None \<longleftrightarrow> cancellation_at d a \<noteq> None"
proof
  assume "cancellation_at d a \<noteq> None"
  moreover have "cancellation_ok d r" using runningD(5) [OF c run] by (simp add: assignment_ok_def)
  ultimately show "lease_cancellation_at d l \<noteq> None"
    using runningD(2,3) [OF c run] by (auto simp: cancellation_ok_def)
next
  assume "lease_cancellation_at d l \<noteq> None"
  then obtain cl where cl: "lease_cancellation_at d l = Some cl" by blast
  from coreD(7) [OF c cl] lease_cancellation_at_id [OF cl] runningD(6) [OF c run]
  show "cancellation_at d a \<noteq> None"
    by (auto simp: lease_cancellation_ok_def lease_pair_def split: option.splits)
qed

lemma due_enabledD:
  assumes c: "core d" and e: "due_enabled now (asg, l, cancelled) d"
  shows "running d (l_assignment_id l) asg (l_lease_id l)"
    "ra_created_at (a_assignment_json asg) \<le> now"
    "cancelled \<longleftrightarrow> cancellation_at d (l_assignment_id l) \<noteq> None"
proof -
  from e have at: "assignment_at d (l_assignment_id l) = Some asg" "lease_at d (l_lease_id l) = Some l"
    and due: "l_state l = L_active" "l_expires_at l \<le> now \<or> deadline_passed (a_deadline_at asg) now"
    and canc: "cancelled \<longleftrightarrow> lease_cancellation_at d (l_lease_id l) \<noteq> None"
    by (auto simp: due_enabled_def)
  have ok: "lease_ok d l" using c at(2) by (rule coreD)
  from ok at(1) due(1) show run: "running d (l_assignment_id l) asg (l_lease_id l)"
    by (simp add: lease_ok_def running_def)
  from ok at(1) due(2) show "ra_created_at (a_assignment_json asg) \<le> now"
    by (auto simp: lease_ok_def deadline_passed_def split: option.splits)
  from current_cancellation [OF c run] canc show "cancelled \<longleftrightarrow> cancellation_at d (l_assignment_id l) \<noteq> None"
    by simp
qed

lemma expire_one_moves:
  assumes c: "core d" and e: "due_enabled now (asg, l, cancelled) d" and R: "CoordinatorRepository R = Inr R"
  shows "\<exists>d'. expire_one R now (asg, l, cancelled) d = Inr d' \<and> moves (l_assignment_id l) d d'"
proof -
  let ?a = "l_assignment_id l" and ?l = "l_lease_id l"
  let ?d1 = "update_lease_state ?l L_expired d"
  note due = due_enabledD [OF c e]
  note r = runningD [OF c due(1)]
  show ?thesis
  proof (cases cancelled)
    case False
    with due(3) have nc: "cancellation_at d ?a = None" by simp
    from retry_or_terminal_moves [OF c due(1) lease_ended_update _ nc due(2) R, where env = None and lid = "Some ?l" and dig = None and st = L_expired] False
    show ?thesis by (auto simp: expire_one_def)
  next
    case True
    with due(3) have ca: "cancellation_at d ?a \<noteq> None" by simp
    define ot where "ot = \<lparr>o_assignment_id = ?a, o_outcome = Out_failure, o_lease_id = Some ?l,
      o_envelope_digest = None, o_completed_at = now\<rparr>"
    from cancelled_end_moves [OF c due(1) lease_ended_update _ ca, of L_expired ot]
    obtain d' where d': "insert_outcome ot (set_cancellation_terminal ?a (fail_assignment ?a ?d1)) = Inr d'"
      "moves ?a d d'" by (auto simp: ot_def)
    have "outcome_at (set_cancellation_terminal ?a (fail_assignment ?a ?d1)) ?a = None"
      using r by (simp add: row_simps fail_assignment_def)
    with d'(1) True r(3) have "expire_one R now (asg, l, cancelled) d = Inr d'"
      by (simp add: expire_one_def insert_outcome_or_ignore_def ot_def)
    with d'(2) show ?thesis by blast
  qed
qed

lemma due_leases_enabled:
  assumes "core d" "due \<in> set (due_leases d now)"
  shows "due_enabled now due d"
proof -
  from assms(2) obtain l where "l \<in> set (lease_attempts d)" "due_lease d now l = Some due"
    by (auto simp: due_leases_def List.map_filter_def)
  with mem_leases_iff coreD(1) [OF assms(1)] show ?thesis
    by (auto simp: due_lease_def due_enabled_def split: option.splits if_splits)
qed

lemma distinct_map_filterI:
  assumes "distinct xs" and "\<And>x y z. x \<in> set xs \<Longrightarrow> y \<in> set xs \<Longrightarrow> f x = Some z \<Longrightarrow> f y = Some z \<Longrightarrow> x = y"
  shows "distinct (List.map_filter f xs)"
  using assms
proof (induction xs)
  case (Cons x xs)
  have "distinct (List.map_filter f xs)" using Cons.IH Cons.prems by (meson distinct.simps(2) list.set_intros(2))
  moreover have "z \<notin> set (List.map_filter f xs)" if "f x = Some z" for z
    using Cons.prems(1) Cons.prems(2) [of x _ z] that by (fastforce simp: List.map_filter_def)
  ultimately show ?case
    by (auto simp: List.map_filter_simps split: option.split)
qed (simp add: List.map_filter_simps)

lemma due_leases_distinct:
  assumes c: "core d"
  shows "distinct (map (\<lambda>(asg, l, cancelled). l_assignment_id l) (due_leases d now))"
proof -
  have eq: "x = y" if "x \<in> set (due_leases d now)" "y \<in> set (due_leases d now)"
    "(case x of (asg, l, cancelled) \<Rightarrow> l_assignment_id l) = (case y of (asg, l, cancelled) \<Rightarrow> l_assignment_id l)" for x y
  proof -
    obtain a l b a' l' b' where xy: "x = (a, l, b)" "y = (a', l', b')" by (metis prod_cases3)
    have e: "due_enabled now (a, l, b) d" "due_enabled now (a', l', b') d"
      using due_leases_enabled [OF c] that xy by auto
    have "a = a'" "l_lease_id l = l_lease_id l'"
      using due_enabledD(1) [OF c e(1)] due_enabledD(1) [OF c e(2)] that(3) xy by (auto simp: running_def)
    with e show ?thesis by (auto simp: xy due_enabled_def)
  qed
  have "distinct (lease_attempts d)"
    using coreD(1) [OF c] by (simp add: keys_def distinct_map)
  then have "distinct (List.map_filter (due_lease d now) (lease_attempts d))"
    by (rule distinct_map_filterI) (auto simp: due_lease_def split: option.splits if_splits)
  then have "distinct (due_leases d now)" by (simp add: due_leases_def order_by_def)
  with eq show ?thesis by (auto simp: distinct_map inj_on_def)
qed

section \<open>Group states\<close>

lemma core_set_group_state [simp]: "core (set_group_state g st d) \<longleftrightarrow> core d"
proof -
  have "assignment_ok (set_group_state g st d) r \<longleftrightarrow> assignment_ok d r" for r
    by (simp add: assignment_ok_def current_ok_def outcome_ok_def cancellation_ok_def row_simps cong: option.case_cong)
  moreover have "lease_ok (set_group_state g st d) ls \<longleftrightarrow> lease_ok d ls" for ls
    by (simp add: lease_ok_def row_simps)
  moreover have "lease_cancellation_ok (set_group_state g st d) cl \<longleftrightarrow> lease_cancellation_ok d cl" for cl
    by (simp add: lease_cancellation_ok_def row_simps)
  ultimately show ?thesis by (simp add: core_def row_simps)
qed

lemma core_recompute_group [simp]: "core (recompute_group g d) \<longleftrightarrow> core d"
  by (simp add: recompute_group_def)

lemma recompute_group_frame [row_simps]:
  "assignment_at (recompute_group g d) = assignment_at d" "lease_at (recompute_group g d) = lease_at d"
  "policy_at (recompute_group g d) = policy_at d" "result_at (recompute_group g d) = result_at d"
  "outcome_at (recompute_group g d) = outcome_at d" "cancellation_at (recompute_group g d) = cancellation_at d"
  "lease_cancellation_at (recompute_group g d) = lease_cancellation_at d"
  "group_at (recompute_group g d) x = None \<longleftrightarrow> group_at d x = None"
  by (auto simp: recompute_group_def row_simps)

lemma phase_recompute_group [simp]: "phase (recompute_group g d) = phase d"
  by (simp add: fun_eq_iff phase_def row_simps)

text \<open>Counting zero open assignments is the statement that all assignments of the group are terminal.\<close>

lemma recompute_group_state:
  assumes "keys d"
  shows "count_where (\<lambda>r. a_group_id r = g \<and> \<not> terminal (a_state r)) (assignments d) = 0 \<longleftrightarrow>
    (\<forall>a r. assignment_at d a = Some r \<longrightarrow> a_group_id r = g \<longrightarrow> terminal (a_state r))"
  using mem_assignments_iff [OF assms] assignment_at_id [of d]
  unfolding count_where_0_iff by metis

lemma group_ok_set_group_state [simp]: "group_ok (set_group_state g st d) gr \<longleftrightarrow> group_ok d gr"
  by (simp add: group_ok_def row_simps)

lemma groups_recompute:
  assumes "keys d" "groups_ok_except (insert g G) d"
  shows "groups_ok_except G (recompute_group g d)"
  unfolding groups_ok_except_def
proof (intro allI impI)
  fix x gr assume at: "group_at (recompute_group g d) x = Some gr" and x: "x \<notin> G"
  show "group_ok (recompute_group g d) gr"
  proof (cases "x = g")
    case False
    with at x assms(2) show ?thesis
      by (auto simp: recompute_group_def groups_ok_except_def row_simps Let_def)
  next
    case True
    with at obtain g0 where g0: "group_at d g = Some g0" "gr = g0\<lparr>g_state :=
        (if count_where (\<lambda>r. a_group_id r = g \<and> \<not> terminal (a_state r)) (assignments d) = 0 then Ready else Collecting)\<rparr>"
      by (auto simp: recompute_group_def Let_def row_simps)
    from group_at_id [OF g0(1)] show ?thesis
      unfolding recompute_group_def Let_def group_ok_set_group_state
      using recompute_group_state [OF assms(1), of g] by (simp add: group_ok_def g0(2))
  qed
qed

lemma recompute_groups_frame:
  "core (fold recompute_group gs d) \<longleftrightarrow> core d" "phase (fold recompute_group gs d) = phase d"
  by (induction gs arbitrary: d) simp_all

lemma groups_fold_recompute:
  assumes "core d" "groups_ok_except (set gs) d"
  shows "groups_ok_except {} (fold recompute_group gs d)"
  using assms
proof (induction gs arbitrary: d)
  case (Cons g gs)
  have "groups_ok_except (set gs) (recompute_group g d)"
    using Cons.prems by (intro groups_recompute) (simp_all add: core_def)
  with Cons.IH [of "recompute_group g d"] Cons.prems(1) show ?case by simp
qed simp

lemma inv_recompute_groups:
  assumes "core d"
  shows "consistent (recompute_groups d)"
proof -
  have "groups_ok_except (set (map g_group_id (order_by g_group_id (rollout_groups d)))) d"
    unfolding groups_ok_except_def group_at_def
  proof (intro allI impI)
    fix g gr assume at: "row_at g_group_id (rollout_groups d) g = Some gr"
      and n: "g \<notin> set (map g_group_id (order_by g_group_id (rollout_groups d)))"
    from row_at_SomeD [OF at] n show "group_ok d gr" by auto
  qed
  from groups_fold_recompute [OF assms this] assms show ?thesis
    by (simp add: consistent_def recompute_groups_def recompute_groups_frame)
qed

lemma phase_recompute_groups [simp]: "phase (recompute_groups d) = phase d"
  by (simp add: recompute_groups_def recompute_groups_frame)

lemma moves_groups:
  assumes "moves a d d'" "groups_ok_except G d" and "\<And>r. assignment_at d a = Some r \<Longrightarrow> a_group_id r \<in> G"
  shows "groups_ok_except G d'"
  unfolding groups_ok_except_def
proof (intro allI impI)
  fix g gr assume at: "group_at d' g = Some gr" and g: "g \<notin> G"
  from at movesD(4) [OF assms(1)] have at0: "group_at d g = Some gr" by simp
  with assms(2) g have ok: "group_ok d gr" by (simp add: groups_ok_except_def)
  from at0 have id: "g_group_id gr = g" by (rule group_at_id)
  have "assignment_at d' x = Some r \<and> a_group_id r = g \<longleftrightarrow> assignment_at d x = Some r \<and> a_group_id r = g" for x r
  proof (cases "x = a")
    case True
    with movesD(5) [OF assms(1)] assms(3) g show ?thesis
      by (cases "assignment_at d a"; cases "assignment_at d' a") auto
  next
    case False
    with touchesD(1) [OF movesD(2) [OF assms(1)]] show ?thesis by simp
  qed
  then show "group_ok d' gr" using ok unfolding group_ok_def id by blast
qed

section \<open>The operations\<close>

text \<open>The invariant and the abstract steps, from a state \<open>d\<close> on.\<close>

definition evolves :: "db \<Rightarrow> db \<Rightarrow> bool" where
  "evolves d d' \<longleftrightarrow> core d' \<and> (\<forall>a. lives (phase d a) (phase d' a))"

lemma evolves_refl: "core d \<Longrightarrow> evolves d d"
  by (simp add: evolves_def)

lemma evolves_trans: "evolves d d' \<Longrightarrow> evolves d' d'' \<Longrightarrow> evolves d d''"
  by (auto simp: evolves_def intro: rtranclp_trans)

lemma moves_evolves: "moves a d d' \<Longrightarrow> evolves d d'"
  unfolding evolves_def using phase_cong touchesD(1) by (metis movesD(1-3) rtranclp.rtrancl_refl)

lemma evolves_recompute_group [simp]: "evolves d (recompute_group g d') \<longleftrightarrow> evolves d d'"
  by (simp add: evolves_def)

lemma overdue_enabled:
  assumes "core d" "asg \<in> set (overdue d now)"
  shows "assignment_at d (a_assignment_id asg) = Some asg" "a_state asg \<in> {Pending, Retry_wait}"
  using assms mem_assignments_iff [OF coreD(1)] by (auto simp: overdue_def)

text \<open>A waiting assignment can be failed: it has no outcome, no cancellation and no lease.\<close>

lemma waitingD:
  assumes "core d" "assignment_at d a = Some r" "a_state r \<in> {Pending, Retry_wait}"
  shows "outcome_at d a = None" "cancellation_at d a = None" "a_current_lease_id r = None" "a_assignment_id r = a"
proof -
  show id: "a_assignment_id r = a" using assms(2) by (rule assignment_at_id)
  have "assignment_ok d r" using assms(1,2) by (rule coreD)
  with assms(3) id show "outcome_at d a = None" "cancellation_at d a = None" "a_current_lease_id r = None"
    by (auto simp: assignment_ok_def outcome_ok_def cancellation_ok_def current_ok_def terminal_def split: option.splits)
qed

lemma terminalize_moves:
  assumes c: "core d" and a: "assignment_at d a = Some r" and w: "a_state r \<in> {Pending, Retry_wait}"
    and o': "out \<noteq> Out_result"
  shows "\<exists>d'. terminalize_without_envelope r out now d = Inr (recompute_group (a_group_id r) d') \<and> moves a d d'"
proof -
  note w' = waitingD [OF c a w]
  define ot where "ot = \<lparr>o_assignment_id = a, o_outcome = out, o_lease_id = None,
    o_envelope_digest = None, o_completed_at = now\<rparr>"
  let ?d = "fail_assignment a d"
  let ?d' = "?d\<lparr>assignment_outcomes := assignment_outcomes ?d @ [ot]\<rparr>"
  have "insert_outcome ot ?d = Inr ?d'"
    using w' a by (simp add: insert_outcome_def outcome_keys_ok_def ot_def fail_assignment_def row_simps
        at_update_assignment)
  then have "terminalize_without_envelope r out now d = Inr (recompute_group (a_group_id r) ?d')"
    using w'(4) by (simp add: terminalize_without_envelope_def ot_def)
  moreover have "moves a d ?d'"
  proof (rule core_failed [OF c _ a, where st = L_expired and ot = ot])
    show "o_outcome ot \<noteq> Out_result" using o' by (simp add: ot_def)
    show "\<not> terminal (a_state r)" using w by (auto simp: terminal_def)
  qed (use c w' a in \<open>simp_all add: core_def at_update_assignment row_simps terminal_def
      fail_assignment_def ot_def split: option.split\<close>)
  ultimately show ?thesis by blast
qed

lemma distinct_assignment_ids:
  assumes "keys d" "distinct xs" "set xs \<subseteq> set (assignments d)"
  shows "distinct (map a_assignment_id xs)"
  using assms by (auto simp: keys_def distinct_map intro: inj_on_subset)

lemma distinct_assignments: "keys d \<Longrightarrow> distinct (assignments d)"
  by (simp add: keys_def distinct_map)

lemma expire_leases_in_total:
  assumes c: "core d" and R: "CoordinatorRepository R = Inr R"
  shows "\<exists>d'. expire_leases_in R now d = Inr (length (due_leases d now), d') \<and> evolves d d' \<and> consistent d'"
proof -
  have "\<exists>d1. fold_step (expire_one R now) (due_leases d now) d = Inr d1 \<and> evolves d d1"
  proof (rule fold_step_total [where Q = "due_enabled now" and P = "evolves d" and
        key = "\<lambda>(asg, l, c). l_assignment_id l", OF evolves_refl [OF c] due_leases_distinct [OF c]])
    show "due_enabled now x d" if "x \<in> set (due_leases d now)" for x using due_leases_enabled [OF c that] .
    fix x s assume s: "evolves d s" "due_enabled now x s"
    obtain asg l b where x: "x = (asg, l, b)" by (metis prod_cases3)
    have cs: "core s" using s(1) by (simp add: evolves_def)
    obtain s' where s': "expire_one R now x s = Inr s'" "moves (l_assignment_id l) s s'"
      using expire_one_moves [OF cs s(2) [unfolded x] R] x by blast
    have "evolves d s'" using s(1) moves_evolves [OF s'(2)] by (rule evolves_trans)
    moreover have "due_enabled now y s'"
      if "due_enabled now y s" "(case y of (asg, l, c) \<Rightarrow> l_assignment_id l) \<noteq> l_assignment_id l" for y
      using that touchesD(1,6,7) [OF movesD(2) [OF s'(2)]] by (auto simp: due_enabled_def split: prod.splits)
    ultimately show "\<exists>s'. expire_one R now x s = Inr s' \<and> evolves d s' \<and>
        (\<forall>y \<in> set (due_leases d now). (case y of (asg, l, c) \<Rightarrow> l_assignment_id l) \<noteq>
          (case x of (asg, l, c) \<Rightarrow> l_assignment_id l) \<longrightarrow> due_enabled now y s \<longrightarrow> due_enabled now y s')"
      using s'(1) x by auto
  qed
  then obtain d1 where d1: "fold_step (expire_one R now) (due_leases d now) d = Inr d1" "evolves d d1" by blast
  have c1: "core d1" using d1(2) by (simp add: evolves_def)
  let ?Q = "\<lambda>asg s. assignment_at s (a_assignment_id asg) = Some asg"
  have "\<exists>d2. fold_step (\<lambda>asg. terminalize_without_envelope asg Deadline_exceeded now) (overdue d1 now) d1 = Inr d2 \<and>
    evolves d d2"
  proof (rule fold_step_total [where Q = ?Q and P = "evolves d" and key = a_assignment_id, OF d1(2)])
    show "distinct (map a_assignment_id (overdue d1 now))"
      using coreD(1) [OF c1] distinct_assignments [OF coreD(1) [OF c1]]
      by (intro distinct_assignment_ids) (auto simp: overdue_def order_by_def)
    show "?Q x d1" if "x \<in> set (overdue d1 now)" for x using overdue_enabled(1) [OF c1 that] .
    fix x s assume x: "x \<in> set (overdue d1 now)" "evolves d s" "?Q x s"
    have "core s" using x(2) by (simp add: evolves_def)
    from terminalize_moves [OF this x(3) overdue_enabled(2) [OF c1 x(1)], of Deadline_exceeded now]
    obtain s' where s': "terminalize_without_envelope x Deadline_exceeded now s = Inr (recompute_group (a_group_id x) s')"
      "moves (a_assignment_id x) s s'" by auto
    have "evolves d s'" using x(2) moves_evolves [OF s'(2)] by (rule evolves_trans)
    with s' touchesD(1) [OF movesD(2) [OF s'(2)]]
    show "\<exists>s'. terminalize_without_envelope x Deadline_exceeded now s = Inr s' \<and> evolves d s' \<and>
      (\<forall>y \<in> set (overdue d1 now). a_assignment_id y \<noteq> a_assignment_id x \<longrightarrow> ?Q y s \<longrightarrow> ?Q y s')"
      by (auto simp: row_simps)
  qed
  then obtain d2 where d2: "fold_step (\<lambda>asg. terminalize_without_envelope asg Deadline_exceeded now) (overdue d1 now) d1 = Inr d2"
    "evolves d d2" by blast
  then have "consistent (recompute_groups d2)" by (simp add: evolves_def inv_recompute_groups)
  with d1(1) d2 show ?thesis by (simp add: expire_leases_in_def evolves_def consistent_def)
qed

section \<open>Cancelling stale work\<close>

text \<open>A running assignment is only marked: its worker learns of it with the next heartbeat.\<close>

lemma core_mark:
  assumes c: "core d" and run: "running d a r l" and k: "keys d'"
    and same: "assignment_at d' = assignment_at d" "outcome_at d' = outcome_at d" "result_at d' = result_at d"
      "lease_at d' = lease_at d" "group_at d' = group_at d"
    and C: "\<And>x. cancellation_at d' x = (if x = a then Some ca else cancellation_at d x)" and ca: "\<not> ca_terminal ca"
    and L: "\<And>x. lease_cancellation_at d' x = (if x = l then Some cl else lease_cancellation_at d x)"
    and cl: "cl_assignment_id cl = a" "cl_lease_id cl = l"
  shows "moves a d d'"
proof -
  note r = runningD [OF c run]
  have la: "l_assignment_id ls = a" if "lease_at d l = Some ls" for ls
    using r(6) that by (simp add: lease_pair_def)
  have t: "touches a d d'"
    unfolding touches_def using same C L cl la by (auto split: if_splits)
  have "core d'"
  proof (rule core_local [OF c t k])
    show "outcome_at d' a = None \<and> result_at d' a = None \<and> cancellation_at d' a = None"
      if "assignment_at d' a = None" using that r(1) same by simp
    show "assignment_ok d' x" if "assignment_at d' a = Some x" for x
    proof -
      have x: "x = r" using that r(1) same by simp
      have "cancellation_ok d' r" using r ca by (simp add: cancellation_ok_def C L terminal_def)
      with r(5) show ?thesis
        by (simp add: x assignment_ok_def current_ok_def outcome_ok_def same cong: option.case_cong)
    qed
    show "lease_ok d' ls" if "lease_at d' x = Some ls" for x ls
      using coreD(6) [OF c, of x ls] that same by (simp add: lease_ok_def)
    show "lease_cancellation_ok d' y" if "lease_cancellation_at d' x = Some y" for x y
      using coreD(7) [OF c, of x y] that same cl r(6) by (auto simp: lease_cancellation_ok_def lease_pair_def L C split: if_splits)
  qed
  with t show ?thesis by (simp add: moves_def same phase_def)
qed

lemma cancel_stale_assignment_moves:
  assumes c: "core d" and a: "assignment_at d a = Some r" and o': "a_state r \<in> {Pending, Retry_wait, Leased}"
  shows "\<exists>d'. cancel_stale_assignment now r d = Inr d' \<and> moves a d d'"
proof (cases "a_state r = Leased")
  case False
  with o' have w: "a_state r \<in> {Pending, Retry_wait}" by simp
  note w' = waitingD [OF c a w]
  define ca where "ca = \<lparr>ca_assignment_id = a, ca_reason = Policy_stale, ca_requested_at = now, ca_terminal = True\<rparr>"
  define ot where "ot = \<lparr>o_assignment_id = a, o_outcome = Out_failure, o_lease_id = None,
    o_envelope_digest = None, o_completed_at = now\<rparr>"
  let ?d1 = "d\<lparr>assignment_cancellations := assignment_cancellations d @ [ca]\<rparr>"
  let ?d = "set_cancellation_terminal a (fail_assignment a ?d1)"
  let ?d' = "?d\<lparr>assignment_outcomes := assignment_outcomes ?d @ [ot]\<rparr>"
  have "insert_cancellation_or_ignore ca d = Inr ?d1"
    using w' a by (simp add: insert_cancellation_or_ignore_def ca_def)
  moreover have "insert_outcome_or_ignore ot ?d = Inr ?d'"
    using w' a by (simp add: insert_outcome_or_ignore_def insert_outcome_def outcome_keys_ok_def ot_def
        fail_assignment_def row_simps at_update_assignment)
  ultimately have "cancel_stale_assignment now r d = Inr ?d'"
    using w' False by (simp add: cancel_stale_assignment_def ca_def ot_def)
  moreover have "moves a d ?d'"
  proof (rule core_failed [OF c _ a, where st = L_expired and ot = ot])
    show "o_outcome ot \<noteq> Out_result" by (simp add: ot_def)
    show "\<not> terminal (a_state r)" using w by (auto simp: terminal_def)
  qed (use c w' a in \<open>auto simp: core_def at_update_assignment row_simps terminal_def
      fail_assignment_def ot_def ca_def split: option.split\<close>)
  ultimately show ?thesis by blast
next
  case True
  have ok: "assignment_ok d r" using c a by (rule coreD)
  with True obtain l where "a_current_lease_id r = Some l"
    by (auto simp: assignment_ok_def current_ok_def split: option.splits)
  with a have run: "running d a r l" by (simp add: running_def)
  note r = runningD [OF c run]
  define ca where "ca = \<lparr>ca_assignment_id = a, ca_reason = Policy_stale, ca_requested_at = now, ca_terminal = False\<rparr>"
  define cl where "cl = \<lparr>cl_lease_id = l, cl_assignment_id = a, cl_reason = Policy_stale, cl_requested_at = now,
    cl_delivered_at = None\<rparr>"
  define d1 where "d1 = (if cancellation_at d a \<noteq> None then d
    else d\<lparr>assignment_cancellations := assignment_cancellations d @ [ca]\<rparr>)"
  define d2 where "d2 = (if lease_cancellation_at d l \<noteq> None then d1
    else d1\<lparr>lease_cancellations := lease_cancellations d1 @ [cl]\<rparr>)"
  have "insert_cancellation_or_ignore ca d = Inr d1"
    using r by (cases "cancellation_at d a") (simp_all add: insert_cancellation_or_ignore_def ca_def d1_def)
  moreover have "insert_lease_cancellation_or_ignore cl d1 = Inr d2"
    using r by (cases "lease_cancellation_at d l"; cases "cancellation_at d a")
      (simp_all add: insert_lease_cancellation_or_ignore_def cl_def d1_def d2_def row_simps)
  ultimately have "cancel_stale_assignment now r d = Inr d2"
    using True r by (simp add: cancel_stale_assignment_def ca_def cl_def)
  moreover have "moves a d d2"
  proof (rule core_mark [OF c run, where
        ca = "case cancellation_at d a of None \<Rightarrow> ca | Some x \<Rightarrow> x" and
        cl = "case lease_cancellation_at d l of None \<Rightarrow> cl | Some x \<Rightarrow> x"])
    show "\<not> ca_terminal (case cancellation_at d a of None \<Rightarrow> ca | Some x \<Rightarrow> x)"
      using r by (auto simp: ca_def assignment_ok_def cancellation_ok_def terminal_def split: option.splits)
    show "cl_lease_id (case lease_cancellation_at d l of None \<Rightarrow> cl | Some x \<Rightarrow> x) = l"
      using lease_cancellation_at_id [of d l] by (auto simp: cl_def split: option.split)
    show "cl_assignment_id (case lease_cancellation_at d l of None \<Rightarrow> cl | Some x \<Rightarrow> x) = a"
      using coreD(7) [OF c, of l] lease_cancellation_at_id [of d l] r(6)
      by (auto simp: cl_def lease_cancellation_ok_def lease_pair_def split: option.splits)
    show "keys d2" using coreD(1) [OF c] by (simp add: d1_def d2_def)
  qed (auto simp: d1_def d2_def row_simps ca_def cl_def split: option.split)
  ultimately show ?thesis by blast
qed

lemma open_assignmentsD:
  assumes "keys d" "asg \<in> set (open_assignments d g)"
  shows "assignment_at d (a_assignment_id asg) = Some asg" "a_state asg \<in> {Pending, Retry_wait, Leased}"
    "a_group_id asg = g"
  using assms mem_assignments_iff [OF assms(1)] by (auto simp: open_assignments_def)

lemma cancel_stale_group_total:
  assumes i: "consistent d"
  shows "\<exists>d'. cancel_stale_group now g d = Inr d' \<and> consistent d' \<and> evolves d d'"
proof -
  let ?as = "open_assignments d (g_group_id g)"
  let ?Q = "\<lambda>asg s. assignment_at s (a_assignment_id asg) = Some asg"
  let ?P = "\<lambda>s. evolves d s \<and> groups_ok_except {g_group_id g} s"
  have c: "core d" and k: "keys d" and g: "groups_ok_except {} d" using i by (simp_all add: consistent_def core_def)
  have "\<exists>d1. fold_step (cancel_stale_assignment now) ?as d = Inr d1 \<and> ?P d1"
  proof (rule fold_step_total [where Q = ?Q and P = ?P and key = a_assignment_id])
    show "?P d" using evolves_refl [OF c] g by (simp add: groups_ok_except_def)
    show "distinct (map a_assignment_id ?as)"
      using k distinct_assignments [OF k]
      by (intro distinct_assignment_ids) (auto simp: open_assignments_def order_by_def)
    show "?Q x d" if "x \<in> set ?as" for x using open_assignmentsD(1) [OF k that] .
    fix x s assume x: "x \<in> set ?as" "?P s" "?Q x s"
    have "core s" using x(2) by (simp add: evolves_def)
    from cancel_stale_assignment_moves [OF this x(3) open_assignmentsD(2) [OF k x(1)]]
    obtain s' where s': "cancel_stale_assignment now x s = Inr s'" "moves (a_assignment_id x) s s'" by blast
    have "evolves d s'" using x(2) moves_evolves [OF s'(2)] by (blast intro: evolves_trans)
    moreover have "groups_ok_except {g_group_id g} s'"
      using x(2,3) open_assignmentsD(3) [OF k x(1)] by (intro moves_groups [OF s'(2)]) auto
    ultimately show "\<exists>s'. cancel_stale_assignment now x s = Inr s' \<and> ?P s' \<and>
        (\<forall>y \<in> set ?as. a_assignment_id y \<noteq> a_assignment_id x \<longrightarrow> ?Q y s \<longrightarrow> ?Q y s')"
      using s'(1) touchesD(1) [OF movesD(2) [OF s'(2)]] by auto
  qed
  then obtain d1 where d1: "fold_step (cancel_stale_assignment now) ?as d = Inr d1" "?P d1" by blast
  have "consistent (recompute_group (g_group_id g) d1)"
    using d1(2) groups_recompute [OF coreD(1), of d1 "g_group_id g" "{}"] by (simp add: consistent_def evolves_def)
  with d1 show ?thesis by (simp add: cancel_stale_group_def)
qed

lemma distinct_groups: "keys d \<Longrightarrow> distinct (rollout_groups d)"
  by (simp add: keys_def distinct_map)

lemma cancel_stale_train_groups_total:
  assumes i: "consistent d" and p: "active_policy_row d \<noteq> None"
  shows "\<exists>d'. cancel_stale_train_groups lag now d = Inr d' \<and> consistent d' \<and> evolves d d'"
proof -
  from p obtain pr where pr: "active_policy_row d = Some pr" by auto
  have "\<exists>d'. fold_step (cancel_stale_group now) (stale_groups (p_policy_version pr) lag d) d = Inr d' \<and>
    consistent d' \<and> evolves d d'"
  proof (rule fold_step_total [where P = "\<lambda>s. consistent s \<and> evolves d s" and Q = "\<lambda>_ _. True" and key = "\<lambda>x. x"])
    show "consistent d \<and> evolves d d" using i by (simp add: consistent_def evolves_refl)
    show "distinct (map (\<lambda>x. x) (stale_groups (p_policy_version pr) lag d))"
      using i distinct_groups [of d] by (simp add: stale_groups_def order_by_def consistent_def core_def)
    fix g s assume "consistent s \<and> evolves d s"
    with cancel_stale_group_total [of s now g] evolves_trans [of d s]
    show "\<exists>s'. cancel_stale_group now g s = Inr s' \<and> (consistent s' \<and> evolves d s') \<and>
      (\<forall>y \<in> set (stale_groups (p_policy_version pr) lag d). y \<noteq> g \<longrightarrow> True \<longrightarrow> True)" by blast
  qed simp
  with pr show ?thesis by (simp add: cancel_stale_train_groups_def)
qed

text \<open>The run is initialised and the scheduler row is there.\<close>

definition run_ok :: "db \<Rightarrow> bool" where
  "run_ok d \<longleftrightarrow> active_policy_row d \<noteq> None \<and> scheduler_state d \<noteq> None"

lemma reconcile_total:
  assumes "consistent d" "run_ok d"
  shows "\<exists>d'. reconcile_stale_work now d = Inr d' \<and> consistent d' \<and> evolves d d'"
  using assms cancel_stale_train_groups_total [of d]
  by (auto simp: run_ok_def reconcile_stale_work_def scheduler_settings_def consistent_def evolves_refl split: option.split)

section \<open>Tables the lifecycle does not write\<close>

text \<open>Neither reconciliation nor expiry writes the run, its policies, the workers or the scheduler.\<close>

definition configuration where
  "configuration d = (runs d, policies d, workers d, worker_sessions d, scheduler_state d, scheduler_sources d,
     accepted_results d, failures d, lease_requests d, training_batches d, processed_groups d, processed_rollouts d)"

lemma configuration_statements [simp]:
  "configuration (update_assignment a f d) = configuration d"
  "configuration (update_lease_state l st d) = configuration d"
  "configuration (set_group_state g gst d) = configuration d"
  "configuration (set_cancellation_terminal a d) = configuration d"
  "configuration (fail_assignment a d) = configuration d"
  "configuration (recompute_group g d) = configuration d"
  by (simp_all add: configuration_def statement_defs recompute_group_def Let_def)

lemma configuration_insert:
  "insert_outcome ot d = Inr d' \<Longrightarrow> configuration d' = configuration d"
  "insert_outcome_or_ignore ot d = Inr d' \<Longrightarrow> configuration d' = configuration d"
  "insert_cancellation_or_ignore ca d = Inr d' \<Longrightarrow> configuration d' = configuration d"
  "insert_lease_cancellation_or_ignore cl d = Inr d' \<Longrightarrow> configuration d' = configuration d"
  by (auto simp: insert_outcome_def insert_outcome_or_ignore_def insert_cancellation_or_ignore_def
      insert_lease_cancellation_or_ignore_def and_then_eq_Inr configuration_def split: if_splits)

lemma configuration_retry:
  "retry_or_terminal R asg now env dig l d = Inr (b, d') \<Longrightarrow> configuration d' = configuration d"
  by (auto simp: retry_or_terminal_def and_then_eq_Inr Let_def dest: configuration_insert split: if_splits)

lemma configuration_fold:
  assumes "fold_step f xs d = Inr d'" and "\<And>x s s'. f x s = Inr s' \<Longrightarrow> configuration s' = configuration s"
  shows "configuration d' = configuration d"
  by (rule fold_step_invariant [OF assms(1), where P = "\<lambda>s. configuration s = configuration d"]) (simp_all add: assms(2))

lemma configuration_fold_recompute: "configuration (fold recompute_group gs d) = configuration d"
  by (induction gs arbitrary: d) simp_all

lemma configuration_expire_one: "expire_one R now due d = Inr d' \<Longrightarrow> configuration d' = configuration d"
  by (auto simp: expire_one_def and_then_eq_Inr Let_def dest: configuration_insert configuration_retry
      split: prod.splits if_splits)

lemma configuration_terminalize: "terminalize_without_envelope r out now d = Inr d' \<Longrightarrow> configuration d' = configuration d"
  by (auto simp: terminalize_without_envelope_def and_then_eq_Inr dest: configuration_insert)

lemma configuration_expire: "expire_leases_in R now d = Inr (n, d') \<Longrightarrow> configuration d' = configuration d"
proof -
  assume "expire_leases_in R now d = Inr (n, d')"
  then obtain d1 d2 where d1: "fold_step (expire_one R now) (due_leases d now) d = Inr d1"
    and d2: "fold_step (\<lambda>asg. terminalize_without_envelope asg Deadline_exceeded now) (overdue d1 now) d1 = Inr d2"
    and d': "d' = recompute_groups d2"
    by (auto simp: expire_leases_in_def and_then_eq_Inr Let_def)
  have "configuration d1 = configuration d"
    by (rule configuration_fold [OF d1]) (rule configuration_expire_one)
  moreover have "configuration d2 = configuration d1"
    by (rule configuration_fold [OF d2]) (rule configuration_terminalize)
  ultimately show "configuration d' = configuration d"
    by (simp add: d' recompute_groups_def configuration_fold_recompute)
qed

lemma configuration_cancel_assignment: "cancel_stale_assignment now r d = Inr d' \<Longrightarrow> configuration d' = configuration d"
  by (auto simp: cancel_stale_assignment_def and_then_eq_Inr Let_def dest!: configuration_insert
      split: if_splits option.splits)

lemma configuration_cancel_group: "cancel_stale_group now g d = Inr d' \<Longrightarrow> configuration d' = configuration d"
  using configuration_fold [of "cancel_stale_assignment now" _ d, OF _ configuration_cancel_assignment]
  by (auto simp: cancel_stale_group_def and_then_eq_Inr)

lemma configuration_cancel_groups:
  "fold_step (cancel_stale_group now) gs d = Inr d' \<Longrightarrow> configuration d' = configuration d"
  by (erule configuration_fold) (rule configuration_cancel_group)

lemma configuration_reconcile: "reconcile_stale_work now d = Inr d' \<Longrightarrow> configuration d' = configuration d"
  by (auto simp: reconcile_stale_work_def and_then_eq_Inr cancel_stale_train_groups_def split: option.splits
      dest: configuration_cancel_groups)

lemma run_ok_configuration: "configuration d' = configuration d \<Longrightarrow> run_ok d' = run_ok d"
  by (simp add: run_ok_def active_policy_row_def configuration_def policy_at_def cong: option.case_cong)

text \<open>\<open>expire_leases\<close> never fails in a database that satisfies the invariant.\<close>

lemma expire_leases_total:
  assumes i: "consistent d" and r: "run_ok d" and R: "CoordinatorRepository R = Inr R"
  shows "\<exists>n d'. expire_leases R now d = (Inr n, d') \<and> consistent d' \<and> run_ok d' \<and> evolves d d'"
proof -
  obtain d1 where d1: "reconcile_stale_work now d = Inr d1" "consistent d1" "evolves d d1"
    using reconcile_total [OF i r] by blast
  then have "core d1" by (simp add: consistent_def)
  then obtain d2 where d2: "expire_leases_in R now d1 = Inr (length (due_leases d1 now), d2)" "evolves d1 d2" "consistent d2"
    using expire_leases_in_total [OF _ R] by blast
  have "run_ok d2"
    using r configuration_reconcile [OF d1(1)] configuration_expire [OF d2(1)] run_ok_configuration by metis
  with d1 d2 evolves_trans [OF d1(3) d2(2)] show ?thesis by (simp add: expire_leases_def transaction_def)
qed

end
