(* ===== verification/Leasing_Inv.thy ===== *)
theory Leasing_Inv
  imports Leasing Lifecycle_Inv
begin

text \<open>
  Every worker operation of \<open>Leasing\<close> keeps the invariant of the coordinator database and moves
  each assignment along the steps of \<open>Assignment_Life\<close> only.
\<close>

section \<open>Operations that leave the life of assignments alone\<close>

definition life_tables where
  "life_tables d = (assignments d, lease_attempts d, rollout_groups d, accepted_results d,
     assignment_outcomes d, assignment_cancellations d, lease_cancellations d)"

lemma life_tables_at:
  assumes "life_tables d' = life_tables d"
  shows "assignment_at d' = assignment_at d" "lease_at d' = lease_at d" "group_at d' = group_at d"
    "result_at d' = result_at d" "outcome_at d' = outcome_at d" "cancellation_at d' = cancellation_at d"
    "lease_cancellation_at d' = lease_cancellation_at d" "keys d' = keys d"
  using assms by (simp_all add: life_tables_def at_defs keys_def fun_eq_iff)

lemma inv_frame:
  assumes "life_tables d' = life_tables d"
  shows "consistent d' = consistent d" "phase d' = phase d" "core d' = core d"
proof -
  note same = life_tables_at [OF assms]
  have pair: "lease_pair d' = lease_pair d" by (simp add: lease_pair_def fun_eq_iff same)
  show "phase d' = phase d" by (simp add: phase_def fun_eq_iff same)
  have "assignment_ok d' r \<longleftrightarrow> assignment_ok d r" for r
    by (simp add: assignment_ok_def current_ok_def outcome_ok_def cancellation_ok_def same cong: option.case_cong)
  moreover have "lease_ok d' ls \<longleftrightarrow> lease_ok d ls" for ls
    by (simp add: lease_ok_def same)
  moreover have "lease_cancellation_ok d' cl \<longleftrightarrow> lease_cancellation_ok d cl" for cl
    by (simp add: lease_cancellation_ok_def same pair)
  moreover have "group_ok d' gr \<longleftrightarrow> group_ok d gr" for gr
    by (simp add: group_ok_def same)
  ultimately show "consistent d' = consistent d" "core d' = core d"
    by (simp_all add: consistent_def core_def groups_ok_except_def same)
qed

text \<open>What every operation promises: the invariant, and steps of the abstract machine.\<close>

definition advances :: "db \<Rightarrow> db \<Rightarrow> bool" where
  "advances d d' \<longleftrightarrow> consistent d' \<and> (\<forall>a. lives (phase d a) (phase d' a))"

lemma advances_refl: "consistent d \<Longrightarrow> advances d d"
  by (simp add: advances_def)

lemma advances_trans: "advances d d' \<Longrightarrow> advances d' d'' \<Longrightarrow> advances d d''"
  by (auto simp: advances_def intro: rtranclp_trans)

lemma advances_inv: "advances d d' \<Longrightarrow> consistent d'"
  by (simp add: advances_def)

lemma advances_frame: "advances d d' \<Longrightarrow> life_tables d'' = life_tables d' \<Longrightarrow> advances d d''"
  using inv_frame [of d'' d'] by (simp add: advances_def)

lemma advances_evolves: "consistent d' \<Longrightarrow> evolves d d' \<Longrightarrow> advances d d'"
  by (simp add: advances_def evolves_def)

lemma life_tables_session [simp]: "life_tables (update_session s f d) = life_tables d"
  by (simp add: life_tables_def update_session_def)

lemma life_tables_worker [simp]: "life_tables (insert_worker w d) = life_tables d"
  by (cases "worker_at d (w_worker_id w)") (simp_all add: life_tables_def insert_worker_def)

lemma life_tables_inserts:
  "insert_session sr d = Inr d' \<Longrightarrow> life_tables d' = life_tables d"
  "insert_request qr d = Inr d' \<Longrightarrow> life_tables d' = life_tables d"
  "complete_request q st l t d = Inr d' \<Longrightarrow> life_tables d' = life_tables d"
  unfolding insert_session_def insert_request_def complete_request_def Let_def
  by (elim and_then_InrE; auto simp: life_tables_def simp del: guard_eq_Inr)+

lemma reconcile_advances:
  assumes "consistent d" "reconcile_stale_work now d = Inr d'"
  shows "advances d d'"
proof -
  obtain s where s: "scheduler_state d = Some s"
    using assms(2) by (auto simp: reconcile_stale_work_def scheduler_settings_def split: option.splits)
  show ?thesis
  proof (cases "ss_max_policy_lag s")
    case None
    with assms s show ?thesis by (simp add: reconcile_stale_work_def scheduler_settings_def advances_refl)
  next
    case (Some lag)
    with assms(2) s have "cancel_stale_train_groups lag now d = Inr d'"
      by (simp add: reconcile_stale_work_def scheduler_settings_def)
    moreover from this have "active_policy_row d \<noteq> None"
      by (auto simp: cancel_stale_train_groups_def split: option.splits)
    ultimately show ?thesis
      using cancel_stale_train_groups_total [OF assms(1), of lag now] by (auto intro: advances_evolves)
  qed
qed

lemma cancel_stale_advances:
  assumes "consistent d" "cancel_stale_train_groups lag now d = Inr d'"
  shows "advances d d'"
proof -
  have "active_policy_row d \<noteq> None" using assms(2) by (auto simp: cancel_stale_train_groups_def split: option.splits)
  from cancel_stale_train_groups_total [OF assms(1) this, of lag now] assms(2) show ?thesis
    by (auto intro: advances_evolves)
qed

lemma expire_in_advances:
  assumes "consistent d" "expire_leases_in R now d = Inr (n, d')" "CoordinatorRepository R = Inr R"
  shows "advances d d'"
proof -
  have "core d" using assms(1) by (simp add: consistent_def)
  from expire_leases_in_total [OF this assms(3), of now] assms(2) show ?thesis
    by (auto intro: advances_evolves)
qed

section \<open>Ending an attempt\<close>

lemma moves_frame:
  assumes "moves a d d1" "life_tables d2 = life_tables d1"
  shows "moves a d d2"
  using assms(1) unfolding moves_def touches_def life_tables_at [OF assms(2)] inv_frame(2,3) [OF assms(2)] .

text \<open>After a move the group of the assignment is counted again.\<close>

lemma moves_recompute:
  assumes "consistent d" "moves a d d1" "assignment_at d a = Some r"
  shows "advances d (recompute_group (a_group_id r) d1)"
proof -
  have "groups_ok_except {a_group_id r} d1"
    using assms by (intro moves_groups [OF assms(2)]) (auto simp: consistent_def groups_ok_except_def)
  with groups_recompute [of d1 "a_group_id r" "{}"] coreD(1) [OF movesD(1) [OF assms(2)]]
  have "consistent (recompute_group (a_group_id r) d1)"
    by (simp add: consistent_def movesD(1) [OF assms(2)])
  then show ?thesis using moves_evolves [OF assms(2)] by (intro advances_evolves) simp_all
qed

section \<open>Granting and extending a lease\<close>

lemma moves_inv:
  assumes "consistent d" "moves a d d'"
    and t: "map_option (\<lambda>r. terminal (a_state r)) (assignment_at d' a) = map_option (\<lambda>r. terminal (a_state r)) (assignment_at d a)"
  shows "advances d d'"
proof -
  have "group_ok d' gr" if "group_at d' g = Some gr" for g gr
  proof -
    have ok: "group_ok d gr" using assms(1) that movesD(4) [OF assms(2)] by (simp add: consistent_def groups_ok_except_def)
    have "(\<forall>r. assignment_at d' x = Some r \<longrightarrow> a_group_id r = g_group_id gr \<longrightarrow> terminal (a_state r)) \<longleftrightarrow>
      (\<forall>r. assignment_at d x = Some r \<longrightarrow> a_group_id r = g_group_id gr \<longrightarrow> terminal (a_state r))" for x
    proof (cases "x = a")
      case True
      with t movesD(5) [OF assms(2)] show ?thesis
        by (cases "assignment_at d a"; cases "assignment_at d' a") auto
    next
      case False
      with touchesD(1) [OF movesD(2) [OF assms(2)]] show ?thesis by simp
    qed
    with ok show ?thesis unfolding group_ok_def by blast
  qed
  then have "consistent d'" using movesD(1) [OF assms(2)] by (simp add: consistent_def groups_ok_except_def)
  then show ?thesis using moves_evolves [OF assms(2)] by (rule advances_evolves)
qed

lemma grant_lease_moves:
  assumes c: "core d" and a: "assignment_at d a = Some r" and w: "a_state r \<in> {Pending, Retry_wait}"
    and av: "a_available_at r \<le> now" and dl: "\<not> deadline_passed (a_deadline_at r) now" and dur: "0 < duration"
    and g: "grant_lease r worker session l now duration d = Inr (lr, d')"
  shows "moves a d d'" "assignment_at d' a = Some (r\<lparr>a_state := Leased, a_attempt_count := a_attempt_count r + 1,
      a_current_lease_id := Some l\<rparr>)"
    "lr = \<lparr>l_lease_id = l, l_assignment_id = a, l_attempt = a_attempt_count r + 1, l_worker_id = worker,
      l_worker_session_id = session, l_issued_at = now, l_expires_at = cap_at (a_deadline_at r) (now + duration),
      l_state = L_active, l_last_renew_sent_at = None\<rparr>"
    "lease_at d' l = Some lr"
proof -
  note w' = waitingD [OF c a w]
  have ok: "assignment_ok d r" using c a by (rule coreD)
  let ?r = "r\<lparr>a_state := Leased, a_attempt_count := a_attempt_count r + 1, a_current_lease_id := Some l\<rparr>"
  show lr: "lr = \<lparr>l_lease_id = l, l_assignment_id = a, l_attempt = a_attempt_count r + 1, l_worker_id = worker,
      l_worker_session_id = session, l_issued_at = now, l_expires_at = cap_at (a_deadline_at r) (now + duration),
      l_state = L_active, l_last_renew_sent_at = None\<rparr>"
    using g w'(4) by (auto simp: grant_lease_def and_then_eq_Inr Let_def)
  from g w'(4) have new: "lease_at d l = None"
    and fresh: "\<not> list_ex (\<lambda>x. l_assignment_id x = a \<and> l_attempt x = a_attempt_count r + 1) (lease_attempts d)"
    and "d' = update_assignment a
      (\<lambda>r'. r'\<lparr>a_state := Leased, a_attempt_count := a_attempt_count r + 1, a_current_lease_id := Some l\<rparr>)
      (d\<lparr>lease_attempts := lease_attempts d @ [lr]\<rparr>)"
    by (auto simp: grant_lease_def and_then_eq_Inr Let_def insert_lease_def set_current_lease_def)
  note d' = this(3)
  have A: "assignment_at d' x = (if x = a then Some ?r else assignment_at d x)" for x
    using a by (simp add: d' row_simps at_update_assignment)
  then show "assignment_at d' a = Some ?r" by simp
  have L: "lease_at d' x = (if x = l then Some lr else lease_at d x)" for x
    using new by (simp add: d' row_simps lr split: option.split)
  then show "lease_at d' l = Some lr" by simp
  have same: "outcome_at d' = outcome_at d" "result_at d' = result_at d" "cancellation_at d' = cancellation_at d"
    "group_at d' = group_at d" "lease_cancellation_at d' = lease_cancellation_at d"
    by (simp_all add: d' row_simps)
  have noLC: "lease_cancellation_at d l = None"
  proof (rule ccontr)
    assume "lease_cancellation_at d l \<noteq> None"
    then obtain cl where cl: "lease_cancellation_at d l = Some cl" by blast
    from coreD(7) [OF c cl] lease_cancellation_at_id [OF cl] new show False
      by (simp add: lease_cancellation_ok_def lease_pair_def)
  qed
  have t: "touches a d d'"
    unfolding touches_def using A L same new lr by (auto split: if_splits)
  have "core d'"
  proof (rule core_local [OF c t])
    show "keys d'" using coreD(1) [OF c] new fresh by (simp add: d' lr)
    show "outcome_at d' a = None \<and> result_at d' a = None \<and> cancellation_at d' a = None"
      if "assignment_at d' a = None" using that A by simp
    show "assignment_ok d' x" if "assignment_at d' a = Some x" for x
    proof -
      have x: "x = ?r" using that A by simp
      have "columns_ok ?r" using ok by (simp add: assignment_ok_def columns_ok_def Let_def)
      moreover have "current_ok d' ?r" using w'(4) L lr by (simp add: current_ok_def)
      moreover have "attempts_ok ?r" using ok w by (auto simp: assignment_ok_def attempts_ok_def)
      moreover have "outcome_ok d' ?r"
        using ok w w' by (auto simp: assignment_ok_def outcome_ok_def same terminal_def)
      moreover have "cancellation_ok d' ?r" using w' by (simp add: cancellation_ok_def same)
      ultimately show ?thesis using ok by (simp add: x assignment_ok_def same)
    qed
    show "lease_ok d' ls" if at: "lease_at d' x = Some ls" and la: "l_assignment_id ls = a" for x ls
    proof (cases "x = l")
      case True
      with at L have ls: "ls = lr" by simp
      have cr: "ra_created_at (a_assignment_json r) \<le> now"
        using ok av by (auto simp: assignment_ok_def columns_ok_def Let_def)
      have ex: "now < cap_at (a_deadline_at r) (now + duration)" using dl dur by (intro cap_at_greater) simp_all
      have "case a_deadline_at r of None \<Rightarrow> True | Some t \<Rightarrow> cap_at (a_deadline_at r) (now + duration) \<le> t"
        by (simp add: cap_at_le split: option.split)
      with cr ex show ?thesis unfolding ls by (simp add: lr lease_ok_def A cong: option.case_cong)
    next
      case False
      with at L have at0: "lease_at d x = Some ls" by simp
      from coreD(6) [OF c at0] la a w'(3) show ?thesis
        by (auto simp: lease_ok_def A)
    qed
    show "lease_cancellation_ok d' cl" if cl: "lease_cancellation_at d' x = Some cl" for x cl
    proof -
      from cl same have cl0: "lease_cancellation_at d x = Some cl" by simp
      with noLC lease_cancellation_at_id [OF cl0] have "cl_lease_id cl \<noteq> l" by auto
      with coreD(7) [OF c cl0] show ?thesis by (simp add: lease_cancellation_ok_def lease_pair_def same L)
    qed
  qed
  moreover have "life (phase d a) (phase d' a)"
    using a w ok by (auto simp: phase_def A assignment_ok_def attempts_ok_def life.lease)
  ultimately show "moves a d d'" using t a by (simp add: moves_def A same r_into_rtranclp)
qed

lemma expiry_frame:
  assumes "update_lease_expiry l t sent d = Inr d'"
  shows "assignment_at d' = assignment_at d" "group_at d' = group_at d" "result_at d' = result_at d"
    "outcome_at d' = outcome_at d" "cancellation_at d' = cancellation_at d"
    "lease_cancellation_at d' = lease_cancellation_at d" "keys d' = keys d"
    "lease_at d' x = (if x = l then map_option (\<lambda>r. r\<lparr>l_expires_at := t,
       l_last_renew_sent_at := (case sent of None \<Rightarrow> l_last_renew_sent_at r | Some x \<Rightarrow> Some x)\<rparr>) (lease_at d l)
     else lease_at d x)"
    "case lease_at d l of None \<Rightarrow> True | Some r \<Rightarrow> l_issued_at r < t"
proof -
  let ?f = "\<lambda>r. r\<lparr>l_expires_at := t,
    l_last_renew_sent_at := (case sent of None \<Rightarrow> l_last_renew_sent_at r | Some x \<Rightarrow> Some x)\<rparr>"
  have d': "d' = d\<lparr>lease_attempts := update_where (\<lambda>r. l_lease_id r = l) ?f (lease_attempts d)\<rparr>"
    and g: "case lease_at d l of None \<Rightarrow> True | Some r \<Rightarrow> l_issued_at r < t"
    using assms by (simp_all add: update_lease_expiry_def and_then_eq_Inr)
  show "case lease_at d l of None \<Rightarrow> True | Some r \<Rightarrow> l_issued_at r < t" by (rule g)
  show "lease_at d' x = (if x = l then map_option ?f (lease_at d l) else lease_at d x)"
    by (simp add: d' lease_at_def row_at_update_key)
qed (use assms in \<open>auto simp: update_lease_expiry_def and_then_eq_Inr row_simps keys_def simp del: guard_eq_Inr\<close>)

lemma update_lease_expiry_moves:
  assumes c: "core d" and l: "lease_at d l = Some lr" and a: "assignment_at d (l_assignment_id lr) = Some ar"
    and t: "case a_deadline_at ar of None \<Rightarrow> True | Some x \<Rightarrow> t \<le> x"
    and u: "update_lease_expiry l t sent d = Inr d'"
  shows "moves (l_assignment_id lr) d d'"
proof -
  let ?a = "l_assignment_id lr"
  note same = expiry_frame [OF u]
  have t': "touches ?a d d'"
    unfolding touches_def using l by (auto simp: same split: if_splits)
  have "core d'"
  proof (rule core_local [OF c t'])
    show "keys d'" using coreD(1) [OF c] by (simp add: same)
    show "outcome_at d' ?a = None \<and> result_at d' ?a = None \<and> cancellation_at d' ?a = None"
      if "assignment_at d' ?a = None" using that a by (simp add: same)
    show "assignment_ok d' x" if "assignment_at d' ?a = Some x" for x
    proof -
      have ok: "assignment_ok d x" using coreD(5) [OF c] that by (simp add: same(1))
      have "current_ok d' x"
      proof (cases "a_current_lease_id x")
        case None
        with ok show ?thesis by (simp add: assignment_ok_def current_ok_def)
      next
        case (Some y)
        from ok have "current_ok d x" by (simp add: assignment_ok_def)
        then obtain ls where "lease_at d y = Some ls" "l_assignment_id ls = a_assignment_id x"
          "l_state ls = L_active" "l_attempt ls = a_attempt_count x" "a_state x = Leased"
          using Some by (rule current_lease)
        with Some show ?thesis by (auto simp: current_ok_def same(8))
      qed
      with ok show ?thesis
        unfolding assignment_ok_def outcome_ok_def cancellation_ok_def same(2-6) by blast
    qed
    show "lease_ok d' ls" if "lease_at d' x = Some ls" for x ls
    proof (cases "x = l")
      case False
      with that same have "lease_at d x = Some ls" by simp
      with coreD(6) [OF c] have "lease_ok d ls" by blast
      then show ?thesis by (simp add: lease_ok_def same(1))
    next
      case True
      with that l same(8) [of x] have ls: "ls = lr\<lparr>l_expires_at := t,
          l_last_renew_sent_at := (case sent of None \<Rightarrow> l_last_renew_sent_at lr | Some x \<Rightarrow> Some x)\<rparr>" by simp
      have "l_issued_at lr < t" using same(9) l by simp
      with coreD(6) [OF c l] a t show ?thesis
        by (simp add: ls lease_ok_def same(1) cong: option.case_cong)
    qed
    show "lease_cancellation_ok d' cl" if "lease_cancellation_at d' x = Some cl" for x cl
    proof -
      have "lease_pair d' = lease_pair d"
        using l by (auto simp: lease_pair_def fun_eq_iff same(8) split: option.split)
      with coreD(7) [OF c, of x cl] that show ?thesis
        by (simp add: lease_cancellation_ok_def same(5,6))
    qed
  qed
  with t' show ?thesis by (simp add: moves_def same phase_def)
qed

lemma update_lease_expiry_advances:
  assumes "consistent d" "lease_at d l = Some lr" "assignment_at d (l_assignment_id lr) = Some ar"
    "case a_deadline_at ar of None \<Rightarrow> True | Some x \<Rightarrow> t \<le> x" "update_lease_expiry l t sent d = Inr d'"
  shows "advances d d'"
proof -
  have "core d" using assms(1) by (simp add: consistent_def)
  from moves_inv [OF assms(1) update_lease_expiry_moves [OF this assms(2-5)]] show ?thesis
    by (simp add: expiry_frame [OF assms(5)])
qed

lemma renewed_expiry_deadline:
  "case a_deadline_at ar of None \<Rightarrow> True | Some x \<Rightarrow> renewed_expiry now duration lr ar \<le> x"
  by (simp add: renewed_expiry_def cap_at_def split: option.split)

lemma deliver_frame [row_simps]:
  "assignment_at (deliver_cancellation l t d) = assignment_at d" "lease_at (deliver_cancellation l t d) = lease_at d"
  "group_at (deliver_cancellation l t d) = group_at d" "result_at (deliver_cancellation l t d) = result_at d"
  "outcome_at (deliver_cancellation l t d) = outcome_at d" "policy_at (deliver_cancellation l t d) = policy_at d"
  "cancellation_at (deliver_cancellation l t d) = cancellation_at d"
  "session_at (deliver_cancellation l t d) = session_at d" "lease_pair (deliver_cancellation l t d) = lease_pair d"
  "phase (deliver_cancellation l t d) = phase d"
  by (simp_all add: at_defs deliver_cancellation_def fun_eq_iff phase_def)

lemma inv_deliver [simp]: "consistent d \<Longrightarrow> consistent (deliver_cancellation l t d)"
proof -
  assume i: "consistent d"
  let ?d = "deliver_cancellation l t d"
  have c: "core d" and g: "groups_ok_except {} d" using i by (simp_all add: consistent_def)
  have none: "lease_cancellation_at ?d x = None \<longleftrightarrow> lease_cancellation_at d x = None" for x
    by (auto simp: at_deliver_cancellation)
  have "assignment_ok ?d r" if "assignment_ok d r" for r
    using that by (auto simp: assignment_ok_def current_ok_def outcome_ok_def cancellation_ok_def none row_simps
        split: option.splits)
  moreover have "lease_ok ?d ls = lease_ok d ls" for ls
    by (simp add: lease_ok_def row_simps)
  moreover have "lease_cancellation_ok ?d cl" if "lease_cancellation_at ?d x = Some cl" for x cl
    using that coreD(7) [OF c] by (auto simp: at_deliver_cancellation lease_cancellation_ok_def row_simps split: if_splits)
  ultimately have "core ?d" using c by (auto simp: core_def row_simps)
  then show "consistent ?d" using g by (simp add: consistent_def groups_ok_except_def group_ok_def row_simps)
qed

lemma deliver_advances [simp]: "consistent d \<Longrightarrow> advances d (deliver_cancellation l t d)"
  by (simp add: advances_def row_simps)

section \<open>The operations\<close>

lemma transaction_advances:
  assumes "consistent d" "\<And>a d'. body d = Inr (a, d') \<Longrightarrow> advances d d'"
  shows "advances d (snd (transaction body d))"
  using assms advances_refl by (intro transaction_keeps [where P = "advances d"]) auto

lemma insert_session_advances:
  assumes "consistent d" "insert_session s (insert_worker w d) = Inr d'"
  shows "advances d d'"
  using advances_frame [OF advances_refl [OF assms(1)]] life_tables_inserts(1) [OF assms(2)] by simp

lemma insert_request_advances:
  assumes "consistent d" "insert_request q d = Inr d'"
  shows "advances d (update_session s f d')"
  using advances_frame [OF advances_refl [OF assms(1)]] life_tables_inserts(2) [OF assms(2)] by simp

lemma complete_request_advances:
  assumes "advances d d'" "complete_request q st l t d' = Inr d''"
  shows "advances d d''"
  using advances_frame [OF assms(1)] life_tables_inserts(3) [OF assms(2)] by simp

lemma register_worker_advances: "consistent d \<Longrightarrow> advances d (snd (register_worker reg now d))"
  unfolding register_worker_def
  by (rule transaction_advances)
    (auto simp: and_then_eq_Inr split: if_splits option.splits intro: advances_refl insert_session_advances)

lemma validate_lease_request_advances: "consistent d \<Longrightarrow> advances d (snd (validate_lease_request R req now d))"
  unfolding validate_lease_request_def
  by (rule transaction_advances)
    (auto simp: and_then_eq_Inr Let_def split: if_splits option.splits intro: advances_refl insert_request_advances)

lemma mark_lease_request_no_work_advances: "consistent d \<Longrightarrow> advances d (snd (mark_lease_request_no_work q now d))"
  unfolding mark_lease_request_no_work_def
  by (rule transaction_advances)
    (auto simp: and_then_eq_Inr split: if_splits intro: advances_refl complete_request_advances)

lemma associate_offered_lease_advances:
  "consistent d \<Longrightarrow> advances d (snd (associate_offered_lease req offered now t d))"
  unfolding associate_offered_lease_def
  by (rule transaction_advances)
    (auto simp: and_then_eq_Inr split: if_splits intro: advances_refl complete_request_advances)

lemma associate_offered_leases_advances:
  "consistent d \<Longrightarrow> advances d (snd (associate_offered_leases req offered clock t d))"
  unfolding associate_offered_leases_def
  by (rule transaction_advances)
    (auto simp: and_then_eq_Inr split: if_splits list.splits intro: advances_refl complete_request_advances)

text \<open>A lease that is still the current one is referenced, so it cannot be deleted.\<close>

lemma delete_current_lease:
  assumes "consistent d" "lease_at d l \<noteq> None" "assignment_at d a = Some r" "a_current_lease_id r = Some l"
  shows "delete_lease l d = Inl IntegrityError"
proof -
  have "r \<in> set (assignments d)" using assms(3) unfolding assignment_at_def by (rule row_at_SomeD)
  then have "lease_referenced d l" using assms(4) by (auto simp: lease_referenced_def list_ex_iff)
  with assms(2) show ?thesis by (auto simp: delete_lease_def and_then_eq_Inl)
qed

lemma release_unoffered_lease_advances: "consistent d \<Longrightarrow> advances d (snd (release_unoffered_lease l now d))"
  unfolding release_unoffered_lease_def
  by (rule transaction_advances)
    (auto simp: and_then_eq_Inr the_assignment_def delete_current_lease split: if_splits option.splits
      intro: advances_refl)

text \<open>The rows a heartbeat has read stay valid for the ids it has not reached yet.\<close>

lemma heartbeat_lease_advances:
  assumes d0: "\<And>l' lr ar. l' \<in> L \<Longrightarrow> reported_lease d0 l' = Some (lr, ar) \<Longrightarrow>
      lease_at d l' = Some lr \<and> assignment_at d (l_assignment_id lr) = Some ar"
    and l: "l \<in> L" and i: "consistent d" and h: "heartbeat_lease d0 now duration l (rs, ss, d) = Inr (rs', ss', d')"
  shows "advances d d' \<and> (\<forall>l' lr ar. l' \<in> L - {l} \<longrightarrow> reported_lease d0 l' = Some (lr, ar) \<longrightarrow>
      lease_at d' l' = Some lr \<and> assignment_at d' (l_assignment_id lr) = Some ar)"
proof -
  define d1 where "d1 = (if lease_cancellation_at d0 l \<noteq> None then deliver_cancellation l now d else d)"
  have 1: "advances d d1" "lease_at d1 = lease_at d" "assignment_at d1 = assignment_at d"
    using i by (simp_all add: d1_def advances_refl row_simps)
  show ?thesis
  proof (cases "must_stop d0 now l")
    case True
    with h have "d' = d1" by (simp add: heartbeat_lease_def d1_def)
    with 1 d0 show ?thesis by auto
  next
    case False
    then obtain lr ar where r: "reported_lease d0 l = Some (lr, ar)"
      by (auto simp: must_stop_def split: option.splits)
    with h False have u: "update_lease_expiry l (renewed_expiry now duration lr ar) None d1 = Inr d'"
      unfolding heartbeat_lease_def d1_def Let_def by (auto simp: and_then_eq_Inr)
    have "lease_at d1 l = Some lr" "assignment_at d1 (l_assignment_id lr) = Some ar"
      using d0 [OF l r] 1 by simp_all
    then have "advances d1 d'"
      using update_lease_expiry_advances [OF advances_inv [OF 1(1)] _ _ renewed_expiry_deadline u] by blast
    with 1(1) have "advances d d'" by (rule advances_trans)
    with d0 expiry_frame(1,8) [OF u] 1 show ?thesis by auto
  qed
qed

lemma heartbeat_fold_advances:
  assumes "fold_step (heartbeat_lease d0 now duration) ls (rs, ss, d) = Inr (rs', ss', d')" "consistent d" "distinct ls"
    "\<And>l lr ar. l \<in> set ls \<Longrightarrow> reported_lease d0 l = Some (lr, ar) \<Longrightarrow>
      lease_at d l = Some lr \<and> assignment_at d (l_assignment_id lr) = Some ar"
  shows "advances d d'"
  using assms
proof (induction ls arbitrary: rs ss d)
  case Nil
  then show ?case by (simp add: advances_refl)
next
  case (Cons l ls)
  from Cons.prems(1) obtain rs1 ss1 d1 where 1: "heartbeat_lease d0 now duration l (rs, ss, d) = Inr (rs1, ss1, d1)"
    and 2: "fold_step (heartbeat_lease d0 now duration) ls (rs1, ss1, d1) = Inr (rs', ss', d')"
    by (auto simp: and_then_eq_Inr)
  have *: "advances d d1 \<and> (\<forall>l' lr ar. l' \<in> set (l # ls) - {l} \<longrightarrow> reported_lease d0 l' = Some (lr, ar) \<longrightarrow>
      lease_at d1 l' = Some lr \<and> assignment_at d1 (l_assignment_id lr) = Some ar)"
    by (rule heartbeat_lease_advances [OF Cons.prems(4) _ Cons.prems(2) 1]) simp_all
  from * have a: "advances d d1" and keep: "\<forall>l' lr ar. l' \<in> set (l # ls) - {l} \<longrightarrow> reported_lease d0 l' = Some (lr, ar) \<longrightarrow>
      lease_at d1 l' = Some lr \<and> assignment_at d1 (l_assignment_id lr) = Some ar" by blast+
  have "advances d1 d'"
    by (rule Cons.IH [OF 2 advances_inv [OF a]]) (use Cons.prems(3) keep in auto)
  with a show ?case by (rule advances_trans)
qed

lemma reported_leaseD:
  "reported_lease d l = Some (lr, ar) \<Longrightarrow> lease_at d l = Some lr \<and> assignment_at d (l_assignment_id lr) = Some ar"
  by (auto simp: reported_lease_def split: option.splits)

lemma record_heartbeat_advances:
  assumes "consistent d" "WorkerHeartbeat hb"
  shows "advances d (snd (record_heartbeat hb duration now d))"
  unfolding record_heartbeat_def
proof (rule transaction_advances [OF assms(1)], goal_cases)
  case (1 a d')
  then obtain rs ss d1 d2 where r: "reconcile_stale_work now d = Inr d1"
    and f: "fold_step (heartbeat_lease d1 now duration) (hb_active_lease_ids hb) ([], [], d1) = Inr (rs, ss, d2)"
    and d': "d' = update_session (hb_worker_session_id hb)
      (\<lambda>r. r\<lparr>s_last_seen_at := now, s_last_heartbeat_sent_at := Some (hb_sent_at hb)\<rparr>) d2"
    by (auto simp: and_then_eq_Inr split: if_splits)
  have 1: "advances d d1" using assms(1) r by (rule reconcile_advances)
  have "distinct (hb_active_lease_ids hb)"
    using assms(2) by (simp add: WorkerHeartbeat_def validate_sorted_unique_iff)
  with f have "advances d1 d2"
    by (rule heartbeat_fold_advances [OF _ advances_inv [OF 1]]) (blast dest: reported_leaseD)
  with 1 have "advances d d2" by (rule advances_trans)
  then show ?case by (rule advances_frame) (simp add: d')
qed

lemma grant_lease_advances:
  assumes i: "consistent d" and a: "assignment_at d a = Some r" and w: "a_state r \<in> {Pending, Retry_wait}"
    and av: "a_available_at r \<le> now" and dl: "\<not> deadline_passed (a_deadline_at r) now" and dur: "0 < duration"
    and g: "grant_lease r worker session l now duration d = Inr (lr, d')"
  shows "advances d d'"
proof -
  have c: "core d" using i by (simp add: consistent_def)
  note m = grant_lease_moves [OF c a w av dl dur g]
  show ?thesis using w by (intro moves_inv [OF i m(1)]) (auto simp: a m(2) terminal_def)
qed

lemma choose_candidate_mem: "choose_candidate p now loaded cs = Some r \<Longrightarrow> r \<in> set cs"
  by (auto simp: choose_candidate_def find_Some_iff split: list.splits if_splits option.splits)

lemma candidatesD:
  assumes "consistent d" "r \<in> set (candidates d now)"
  shows "assignment_at d (a_assignment_id r) = Some r" "leasable d now r"
  using assms mem_assignments_iff [of d] by (auto simp: candidates_def consistent_def core_def)

text \<open>What the body of \<open>lease_next_compatible\<close> has done when it reaches the choice of a candidate.\<close>

lemma lease_pendingD:
  assumes "lease_pending R req duration lease_id now d = Inr (ans, d')" "consistent d" "CoordinatorRepository R = Inr R"
  shows "\<exists>d2 s preference. advances d d2 \<and> session_at d2 (lq_worker_session_id req) = Some s \<and>
    s_worker_id s = lq_worker_id req \<and> grant_next s preference req duration lease_id now d2 = Inr (ans, d')"
proof -
  from assms(1) obtain n d1 d2 s lag preference where
    1: "expire_leases_in R now d = Inr (n, d1)" "compatible_session (lq_worker_id req) (lq_worker_session_id req) d1 = Inr s"
      "cancel_stale_train_groups lag now d1 = Inr d2" "grant_next s preference req duration lease_id now d2 = Inr (ans, d')"
  proof -
    from assms(1) obtain n d1 s and settings :: scheduler_row where 1: "expire_leases_in R now d = Inr (n, d1)"
      "compatible_session (lq_worker_id req) (lq_worker_session_id req) d1 = Inr s"
      "(case (ss_max_policy_lag settings, ss_loaded_policy_preference_seconds settings) of
         (Some lag, Some preference) \<Rightarrow>
           and_then (cancel_stale_train_groups lag now d1) (grant_next s preference req duration lease_id now)
       | _ \<Rightarrow> Inl InvalidStateError) = Inr (ans, d')"
      by (auto simp: lease_pending_def and_then_eq_Inr)
    with that show thesis
      by (cases "ss_max_policy_lag settings"; cases "ss_loaded_policy_preference_seconds settings")
        (auto simp: and_then_eq_Inr)
  qed
  have a1: "advances d d1" using expire_in_advances [OF assms(2) 1(1) assms(3)] .
  have a2: "advances d1 d2" using cancel_stale_advances [OF advances_inv [OF a1] 1(3)] .
  have "configuration d2 = configuration d1"
    using 1(3) configuration_cancel_groups by (auto simp: cancel_stale_train_groups_def split: option.splits)
  then have "session_at d2 = session_at d1" by (simp add: configuration_def session_at_def)
  with 1(2) have "session_at d2 (lq_worker_session_id req) = Some s" "s_worker_id s = lq_worker_id req"
    by (auto simp: compatible_session_def split: option.splits if_splits)
  with advances_trans [OF a1 a2] 1(4) show ?thesis by blast
qed

lemma grant_nextD:
  assumes "grant_next s preference req duration lease_id now d = Inr (Granted lr ar, d')"
  shows "active_count d (lq_worker_id req) (lq_worker_session_id req) now < wc_inference_slots (s_capabilities_json s)"
    "choose_candidate preference now (lq_loaded_policy_ids req) (candidates d now) = Some ar"
    "\<exists>d1. grant_lease ar (lq_worker_id req) (lq_worker_session_id req) lease_id now duration d = Inr (lr, d1) \<and>
      complete_request (lq_request_id req) Rq_leased (Some lease_id) now d1 = Inr d'"
  using assms by (auto simp: grant_next_def and_then_eq_Inr split: if_splits option.splits)

lemma grant_next_advances:
  assumes "consistent d" "0 < duration" "grant_next s preference req duration lease_id now d = Inr (ans, d')"
  shows "advances d d'"
proof (cases ans)
  case (Granted lr ar)
  note g = grant_nextD [OF assms(3) [unfolded Granted]]
  obtain d1 where d1: "grant_lease ar (lq_worker_id req) (lq_worker_session_id req) lease_id now duration d = Inr (lr, d1)"
    "complete_request (lq_request_id req) Rq_leased (Some lease_id) now d1 = Inr d'" using g(3) by blast
  note ar = candidatesD [OF assms(1) choose_candidate_mem [OF g(2)]]
  have "advances d d1"
    using grant_lease_advances [OF assms(1) ar(1) _ _ _ assms(2) d1(1)] ar(2) by (simp add: leasable_def)
  then show ?thesis using d1(2) by (rule complete_request_advances)
qed (use assms advances_refl in \<open>auto simp: grant_next_def and_then_eq_Inr split: if_splits option.splits\<close>)

lemma lease_next_in_advances:
  assumes "consistent d" "CoordinatorRepository R = Inr R" "0 < duration"
    and b: "lease_next_in R req duration lease_id now d = Inr (ans, d')"
  shows "advances d d'"
proof -
  from b consider "d' = d" | "lease_pending R req duration lease_id now d = Inr (ans, d')"
  proof -
    from b obtain dp :: disposition where "(case dp_state dp of
         Rq_leased \<Rightarrow> Inr (Already (dp_lease dp), d)
       | Rq_no_work \<Rightarrow> Inr (No_lease, d)
       | Rq_pending \<Rightarrow> lease_pending R req duration lease_id now d) = Inr (ans, d')"
      by (auto simp: lease_next_in_def and_then_eq_Inr)
    with that show thesis by (cases "dp_state dp") auto
  qed
  then show ?thesis
  proof cases
    case 1
    with assms(1) show ?thesis by (simp add: advances_refl)
  next
    case 2
    from lease_pendingD [OF this assms(1,2)] obtain d2 s preference where
      "advances d d2" "grant_next s preference req duration lease_id now d2 = Inr (ans, d')" by blast
    with grant_next_advances [OF advances_inv assms(3)] advances_trans show ?thesis by meson
  qed
qed

lemma lease_next_compatible_advances:
  assumes "consistent d" "CoordinatorRepository R = Inr R"
  shows "advances d (snd (lease_next_compatible R req duration lease_id now d))"
proof (cases "duration \<le> 0")
  case False
  then have "advances d (snd (transaction (lease_next_in R req duration lease_id now) d))"
    using lease_next_in_advances [OF assms, of duration req lease_id now]
    by (intro transaction_advances [OF assms(1)]) simp
  then show ?thesis
    using False by (auto simp: lease_next_compatible_def split: sum.split prod.split)
qed (simp add: lease_next_compatible_def advances_refl assms)

lemma expire_leases_advances:
  assumes "consistent d" "CoordinatorRepository R = Inr R"
  shows "advances d (snd (expire_leases R now d))"
  unfolding expire_leases_def
proof (rule transaction_advances [OF assms(1)], goal_cases)
  case (1 n d')
  then obtain d1 where "reconcile_stale_work now d = Inr d1" "expire_leases_in R now d1 = Inr (n, d')"
    by (auto simp: and_then_eq_Inr)
  with assms reconcile_advances expire_in_advances advances_inv advances_trans show ?case by meson
qed

lemma create_lease_in_advances:
  assumes "consistent d" "0 < duration" "create_lease_in a worker session lease_id duration now d = Inr (ans, d')"
  shows "advances d d'"
proof -
  from assms(3) obtain asg where asg: "assignment_at d a = Some asg" "a_state asg \<in> {Pending, Retry_wait}"
    "a_available_at asg \<le> now"
    and how: "(deadline_passed (a_deadline_at asg) now \<and> terminalize_without_envelope asg Deadline_exceeded now d = Inr d')
      \<or> (\<not> deadline_passed (a_deadline_at asg) now \<and>
          (\<exists>lr. grant_lease asg worker session lease_id now duration d = Inr (lr, d')))"
    by (auto simp: create_lease_in_def and_then_eq_Inr the_assignment_def split: if_splits option.splits)
  have c: "core d" using assms(1) by (simp add: consistent_def)
  from how show ?thesis
  proof
    assume "\<not> deadline_passed (a_deadline_at asg) now \<and>
      (\<exists>lr. grant_lease asg worker session lease_id now duration d = Inr (lr, d'))"
    with grant_lease_advances [OF assms(1) asg _ assms(2)] show ?thesis by blast
  next
    assume "deadline_passed (a_deadline_at asg) now \<and> terminalize_without_envelope asg Deadline_exceeded now d = Inr d'"
    with terminalize_moves [OF c asg(1,2), of Deadline_exceeded now] obtain d1
      where d1: "d' = recompute_group (a_group_id asg) d1" "moves a d d1" by auto
    from moves_recompute [OF assms(1) d1(2) asg(1)] show ?thesis by (simp add: d1(1))
  qed
qed

lemma create_lease_advances:
  assumes "consistent d" "CoordinatorRepository R = Inr R"
  shows "advances d (snd (create_lease R a worker session lease_id duration now0 now d))"
proof (cases "duration \<le> 0")
  case False
  obtain r d1 where e: "expire_leases R now0 d = (r, d1)" by (cases "expire_leases R now0 d")
  with expire_leases_advances [OF assms, of now0] have 1: "advances d d1" by simp
  have "advances d1 (snd (transaction (create_lease_in a worker session lease_id duration now) d1))"
    using create_lease_in_advances [OF advances_inv [OF 1], of duration a worker session lease_id now] False
    by (intro transaction_advances [OF advances_inv [OF 1]]) simp
  with 1 have "advances d (snd (transaction (create_lease_in a worker session lease_id duration now) d1))"
    by (rule advances_trans)
  with 1 e False show ?thesis
    by (auto simp: create_lease_def split: sum.split prod.split create_answer.split)
qed (simp add: create_lease_def advances_refl assms)

lemma renew_lease_inD:
  assumes r: "renew_lease_in l worker session duration expected sent_at ack now d = Inr (ans, d')"
  obtains d1 lease where "reconcile_stale_work now d = Inr d1" "lease_at d1 l = Some lease"
    "d' = deliver_cancellation l now d1 \<and> ack \<and> (\<exists>c. lease_cancellation_at d1 l = Some c \<and> ans = Stopped (cl_reason c)) \<or>
     (\<exists>asg. assignment_at d1 (l_assignment_id lease) = Some asg \<and> lease_cancellation_at d1 l = None \<and>
        l_state lease = L_active \<and> now < l_expires_at lease \<and> \<not> deadline_passed (a_deadline_at asg) now \<and>
        ans = Renewed (lease\<lparr>l_expires_at := renewed_expiry now duration lease asg\<rparr>) asg \<and>
        update_lease_expiry l (renewed_expiry now duration lease asg) sent_at d1 = Inr d')"
    "l_worker_id lease = worker" "l_worker_session_id lease = session"
proof -
  from r obtain d1 where d1: "reconcile_stale_work now d = Inr d1"
    by (auto simp: renew_lease_in_def and_then_eq_Inr)
  with r obtain lease where lease: "lease_at d1 l = Some lease"
    by (auto simp: renew_lease_in_def split: option.splits)
  show thesis
    by (rule that [OF d1 lease])
      (use r d1 lease in \<open>auto simp: renew_lease_in_def and_then_eq_Inr the_assignment_def Let_def
        split: if_splits option.splits\<close>)
qed

lemma renew_lease_advances:
  assumes "consistent d"
  shows "advances d (snd (renew_lease l worker session duration expected sent_at ack now d))"
proof (cases "duration \<le> 0")
  case False
  have "advances d d'" if r: "renew_lease_in l worker session duration expected sent_at ack now d = Inr (ans, d')" for ans d'
  proof -
    from r obtain d1 lease where d1: "reconcile_stale_work now d = Inr d1" and lease: "lease_at d1 l = Some lease"
      and how: "d' = deliver_cancellation l now d1 \<or> (\<exists>asg. assignment_at d1 (l_assignment_id lease) = Some asg \<and>
        update_lease_expiry l (renewed_expiry now duration lease asg) sent_at d1 = Inr d')"
      by (rule renew_lease_inD) blast
    have 1: "advances d d1" using assms d1 by (rule reconcile_advances)
    from how have "advances d1 d'"
      using update_lease_expiry_advances [OF advances_inv [OF 1] lease _ renewed_expiry_deadline]
        deliver_advances [OF advances_inv [OF 1]] by blast
    with 1 show ?thesis by (rule advances_trans)
  qed
  then have "advances d (snd (transaction (renew_lease_in l worker session duration expected sent_at ack now) d))"
    by (intro transaction_advances [OF assms])
  with False show ?thesis
    by (auto simp: renew_lease_def split: sum.split prod.split renew_answer.split)
qed (simp add: renew_lease_def advances_refl assms)

end
