(* ===== verification/Acceptance_Inv.thy ===== *)
theory Acceptance_Inv
  imports Acceptance Leasing_Inv
begin

text \<open>
  Accepting results and failures, claiming results and recovery keep the invariant, and move
  each assignment along the steps of \<open>Assignment_Life\<close> only.
\<close>

section \<open>Statements on results\<close>

lemma result_at_set_processing:
  "result_at (set_processing P st d) a = None \<longleftrightarrow> result_at d a = None"
  by (simp add: result_at_def set_processing_def row_at_update_where)

lemma set_processing_frame [row_simps]:
  "assignment_at (set_processing P st d) = assignment_at d" "lease_at (set_processing P st d) = lease_at d"
  "group_at (set_processing P st d) = group_at d" "outcome_at (set_processing P st d) = outcome_at d"
  "cancellation_at (set_processing P st d) = cancellation_at d"
  "lease_cancellation_at (set_processing P st d) = lease_cancellation_at d"
  "keys (set_processing P st d) = keys d" "lease_pair (set_processing P st d) = lease_pair d"
  "phase (set_processing P st d) = phase d"
  by (simp_all add: at_defs set_processing_def keys_def phase_def fun_eq_iff)

lemma set_processing_inv [simp]: "consistent (set_processing P st d) \<longleftrightarrow> consistent d"
proof -
  have "assignment_ok (set_processing P st d) r \<longleftrightarrow> assignment_ok d r" for r
    unfolding assignment_ok_def current_ok_def outcome_ok_def cancellation_ok_def set_processing_frame
      result_at_set_processing ..
  moreover have "lease_ok (set_processing P st d) ls \<longleftrightarrow> lease_ok d ls" for ls
    by (simp add: lease_ok_def row_simps)
  moreover have "lease_cancellation_ok (set_processing P st d) cl \<longleftrightarrow> lease_cancellation_ok d cl" for cl
    by (simp add: lease_cancellation_ok_def row_simps)
  moreover have "group_ok (set_processing P st d) g \<longleftrightarrow> group_ok d g" for g
    by (simp add: group_ok_def row_simps)
  ultimately show ?thesis
    unfolding consistent_def core_def groups_ok_except_def set_processing_frame result_at_set_processing by simp
qed

lemma set_processing_advances: "advances d d' \<Longrightarrow> advances d (set_processing P st d')"
  by (simp add: advances_def row_simps)

lemma claim_pending_results_advances:
  assumes "consistent d"
  shows "advances d (snd (claim_pending_results limit d))"
  unfolding claim_pending_results_def
proof (rule transaction_advances [OF assms], goal_cases)
  case (1 a d')
  have "advances d (fold (\<lambda>r. set_processing (\<lambda>x. r_assignment_id x = r_assignment_id r) Proc_processing) rows d')"
    if "advances d d'" for rows d'
    using that by (induction rows arbitrary: d') (simp_all add: set_processing_advances)
  with 1 advances_refl [OF assms] show ?case by (auto simp: Let_def split: if_splits)
qed

lemma mark_result_processed_advances:
  assumes "consistent d"
  shows "advances d (snd (mark_result_processed a d))"
  unfolding mark_result_processed_def
  by (rule transaction_advances [OF assms])
    (auto simp: Let_def split: if_splits intro: set_processing_advances advances_refl assms)

section \<open>Envelopes\<close>

lemma validate_active_envelopeD:
  assumes "validate_active_envelope a l attempt worker session now d = Inr asg"
  shows "running d a asg l" "a_state asg = Leased"
    "\<exists>lease. lease_at d l = Some lease \<and> l_assignment_id lease = a \<and> l_attempt lease = attempt \<and>
       l_worker_id lease = worker \<and> l_worker_session_id lease = session \<and> l_state lease = L_active \<and>
       now < l_expires_at lease \<and> \<not> deadline_passed (a_deadline_at asg) now"
  using assms
  by (auto simp: validate_active_envelope_def the_assignment_def running_def and_then_eq_Inr split: option.splits if_splits)

lemma store_result_advances:
  assumes i: "consistent d" and s: "store_result env dig path n now d = Inr (rec, d')"
  shows "advances d d'"
proof (cases "ar_duplicate rec")
  case True
  with s have "d' = d"
    by (auto simp: store_result_def and_then_eq_Inr split: option.splits)
  with i show ?thesis by (simp add: advances_refl)
next
  case False
  let ?a = "re_assignment_id env" and ?l = "re_lease_id env"
  define rt where "rt = \<lparr>r_assignment_id = ?a, r_lease_id = ?l, r_envelope_digest = dig,
    r_artifact_path = path, r_size_bytes = n, r_accepted_at = now, r_processing_state = Proc_pending\<rparr>"
  define ot where "ot = \<lparr>o_assignment_id = ?a, o_outcome = Out_result, o_lease_id = Some ?l,
    o_envelope_digest = Some dig, o_completed_at = now\<rparr>"
  from s have nd: "existing_terminal ?a ?l dig d = Inr None"
  proof -
    from s obtain x where x: "existing_terminal ?a ?l dig d = Inr x"
      by (auto simp: store_result_def and_then_eq_Inr)
    moreover have "x = None"
      using x s False
      by (cases x) (auto simp: store_result_def existing_terminal_def split: option.splits if_splits)
    ultimately show ?thesis by simp
  qed
  with s obtain asg d1 d2 where v: "validate_result_envelope env now d = Inr asg"
    and d1: "insert_result rt d = Inr d1" and d2: "insert_outcome ot d1 = Inr d2"
    and d': "d' = recompute_group (a_group_id asg) (set_cancellation_terminal ?a
       (update_assignment ?a (\<lambda>r. r\<lparr>a_state := Succeeded, a_current_lease_id := None\<rparr>)
         (update_lease_state ?l L_succeeded d2)))"
    by (auto simp: store_result_def and_then_eq_Inr rt_def ot_def)
  have c: "core d" using i by (simp add: consistent_def)
  from v have run: "running d ?a asg ?l"
    by (auto simp: validate_result_envelope_def and_then_eq_Inr split: if_splits dest: validate_active_envelopeD)
  note r = runningD [OF c run]
  have e1: "d1 = d\<lparr>accepted_results := accepted_results d @ [rt]\<rparr>"
    using d1 by (auto simp: insert_result_def and_then_eq_Inr simp del: guard_eq_Inr)
  have e2: "d2 = d1\<lparr>assignment_outcomes := assignment_outcomes d1 @ [ot]\<rparr>"
    using d2 by (auto simp: insert_outcome_def and_then_eq_Inr simp del: guard_eq_Inr)
  have f1: "result_at d1 x = (if x = ?a then Some rt else result_at d x)" "assignment_at d1 = assignment_at d"
    "lease_at d1 = lease_at d" "outcome_at d1 = outcome_at d" "cancellation_at d1 = cancellation_at d"
    "group_at d1 = group_at d" "lease_cancellation_at d1 = lease_cancellation_at d" "keys d1 = keys d" for x
    using r(8) by (simp_all add: e1 row_simps rt_def split: option.split)
  have f2: "outcome_at d2 x = (if x = ?a then Some ot else outcome_at d x)" "assignment_at d2 = assignment_at d"
    "lease_at d2 = lease_at d" "result_at d2 = result_at d1" "cancellation_at d2 = cancellation_at d"
    "group_at d2 = group_at d" "lease_cancellation_at d2 = lease_cancellation_at d" "keys d2 = keys d" for x
    using r(7) by (simp_all add: e2 row_simps f1 ot_def split: option.split)
  let ?d = "set_cancellation_terminal ?a
       (update_assignment ?a (\<lambda>r. r\<lparr>a_state := Succeeded, a_current_lease_id := None\<rparr>)
         (update_lease_state ?l L_succeeded d2))"
  have "moves ?a d ?d"
    by (rule core_succeeded [OF c _ r(1,4), where ot = ot and rt = rt])
      (use c r in \<open>auto simp: coreD(1) at_update_assignment row_simps f1 f2 ot_def split: option.split\<close>)
  from moves_recompute [OF i this r(1)] show ?thesis by (simp add: d')
qed

lemma accept_result_db:
  "fst (snd (accept_result R env t now (d, sp))) = d \<or>
   (\<exists>dig path n. fst (snd (accept_result R env t now (d, sp))) = snd (transaction (store_result env dig path n now) d))"
  unfolding accept_result_def Let_def
  by (cases "stored_as_json d (re_assignment_id env)")
    (simp_all only: prod.case if_True if_False case_prod_beta split: sum.split option.split, simp_all, blast+)

lemma accept_result_advances:
  assumes "consistent d"
  shows "advances d (fst (snd (accept_result R env t now (d, sp))))"
proof -
  have "advances d (snd (transaction (store_result env dig path n now) d))" for dig path n
    using store_result_advances [OF assms, where dig = dig and path = path and n = n]
    by (intro transaction_advances [OF assms]) simp
  with accept_result_db advances_refl [OF assms] show ?thesis by metis
qed

text \<open>A failure ends the attempt; the clock must not be behind the lease's own issue time.\<close>

lemma end_attempt_moves:
  assumes c: "core d" and run: "running d (fe_assignment_id env) asg (fe_lease_id env)"
    and now: "ra_created_at (a_assignment_json asg) \<le> now" and R: "CoordinatorRepository R = Inr R"
  shows "\<exists>b d'. end_attempt R env dig asg now d = Inr (b, d') \<and> moves (fe_assignment_id env) d d'"
proof -
  let ?a = "fe_assignment_id env" and ?l = "fe_lease_id env"
  note r = runningD [OF c run]
  have iff: "lease_cancellation_at d ?l \<noteq> None \<longleftrightarrow> cancellation_at d ?a \<noteq> None"
    using current_cancellation [OF c run] .
  show ?thesis
  proof (cases "lease_cancellation_at d ?l = None")
    case True
    with iff have "cancellation_at d ?a = None" by simp
    from retry_or_terminal_moves [OF c run lease_ended_update _ this now R, where env = "Some env" and
        st = L_failed and dig = "Some dig" and lid = "Some ?l"] True
    show ?thesis by (simp add: end_attempt_def Let_def)
  next
    case False
    with iff have "cancellation_at d ?a \<noteq> None" by simp
    from cancelled_end_moves [OF c run lease_ended_update _ this, of L_failed
        "\<lparr>o_assignment_id = ?a, o_outcome = Out_failure, o_lease_id = Some ?l, o_envelope_digest = Some dig,
          o_completed_at = now\<rparr>"] False
    show ?thesis by (auto simp: end_attempt_def and_then_eq_Inr Let_def)
  qed
qed

lemma store_failure_advances:
  assumes i: "consistent d" and R: "CoordinatorRepository R = Inr R"
    and clock: "\<And>l. lease_at d (fe_lease_id env) = Some l \<Longrightarrow> l_issued_at l \<le> now"
    and s: "store_failure R env dig now d = Inr (rec, d')"
  shows "advances d d'"
proof -
  from s obtain dup where dup: "existing_failure env dig d = Inr dup"
    by (auto simp: store_failure_def and_then_eq_Inr)
  show ?thesis
  proof (cases dup)
    case (Some x)
    with s dup i show ?thesis by (simp add: store_failure_def advances_refl)
  next
    case None
    with s dup obtain asg b d1 d2 fr where
      v: "validate_active_envelope (fe_assignment_id env) (fe_lease_id env) (fe_attempt env) (fe_worker_id env)
           (fe_worker_session_id env) now d = Inr asg"
      and e: "end_attempt R env dig asg now d = Inr (b, d1)" and f: "insert_failure fr d1 = Inr d2"
      and d': "d' = recompute_group (a_group_id asg) d2"
      by (auto simp: store_failure_def and_then_eq_Inr)
    have c: "core d" using i by (simp add: consistent_def)
    have run: "running d (fe_assignment_id env) asg (fe_lease_id env)" using v by (rule validate_active_envelopeD)
    from validate_active_envelopeD(3) [OF v] obtain lease where lease: "lease_at d (fe_lease_id env) = Some lease"
      "l_assignment_id lease = fe_assignment_id env" by blast
    have "ra_created_at (a_assignment_json asg) \<le> l_issued_at lease"
      using coreD(6) [OF c lease(1)] lease(2) runningD(1) [OF c run] by (simp add: lease_ok_def)
    with clock [OF lease(1)] have now: "ra_created_at (a_assignment_json asg) \<le> now" by simp
    from end_attempt_moves [OF c run now R, of dig] e have m: "moves (fe_assignment_id env) d d1" by auto
    have "life_tables d2 = life_tables d1"
      using f by (auto simp: insert_failure_def and_then_eq_Inr life_tables_def simp del: guard_eq_Inr)
    from moves_recompute [OF i moves_frame [OF m this] runningD(1) [OF c run]] show ?thesis by (simp add: d')
  qed
qed

lemma accept_failure_advances:
  assumes "consistent d" "CoordinatorRepository R = Inr R"
    "\<And>l. lease_at d (fe_lease_id env) = Some l \<Longrightarrow> l_issued_at l \<le> now"
  shows "advances d (snd (accept_failure R env now d))"
proof -
  have "advances d (snd (transaction (store_failure R env dig now) d))" for dig
    using store_failure_advances [OF assms, where dig = dig] by (intro transaction_advances [OF assms(1)]) simp
  then show ?thesis
    using advances_refl [OF assms(1)] by (simp add: accept_failure_def Let_def split: sum.split option.split)
qed

section \<open>Recovery\<close>

lemma recover_advances:
  assumes "consistent d" "CoordinatorRepository R = Inr R"
  shows "advances d (fst (snd (recover R now (d, sp))))"
proof -
  let ?d1 = "set_processing (\<lambda>r. r_processing_state r = Proc_processing) Proc_pending d"
  have 1: "advances d ?d1" using assms(1) by (simp add: set_processing_advances advances_refl)
  have 2: "advances d (snd (expire_leases R now ?d1))"
    using 1 expire_leases_advances [OF advances_inv [OF 1] assms(2)] by (rule advances_trans)
  then have 3: "advances d (recompute_groups (snd (expire_leases R now ?d1)))"
    using inv_recompute_groups by (simp add: advances_def consistent_def)
  let ?d = "fst (snd (recover R now (d, sp)))"
  have "?d = d \<or> ?d = snd (expire_leases R now ?d1) \<or> ?d = recompute_groups (snd (expire_leases R now ?d1))"
    by (auto simp: recover_def Let_def split: sum.split prod.split)
  with 2 3 advances_refl [OF assms(1)] show ?thesis by metis
qed

end
