(* ===== verification/Group_Store_Inv.thy ===== *)
theory Group_Store_Inv
  imports Group_Store Acceptance_Inv
begin

text \<open>
  The operations on policies, sources and groups keep the invariant of the coordinator
  database; new assignments start their life in the abstract machine. The choice of sources is
  fair: the virtual finish times of two enabled sources never differ by more than the cost of
  one group.
\<close>

section \<open>Policies\<close>

lemma life_tables_run [simp]:
  "life_tables (d\<lparr>policies := ps\<rparr>) = life_tables d" "life_tables (d\<lparr>runs := r\<rparr>) = life_tables d"
  "life_tables (d\<lparr>scheduler_state := s\<rparr>) = life_tables d" "life_tables (d\<lparr>scheduler_sources := ss\<rparr>) = life_tables d"
  by (simp_all add: life_tables_def)

lemma life_tables_policy:
  "insert_policy p d = Inr d' \<Longrightarrow> life_tables d' = life_tables d"
  "insert_run r d = Inr d' \<Longrightarrow> life_tables d' = life_tables d"
  "set_active_policy q d = Inr d' \<Longrightarrow> life_tables d' = life_tables d"
  "insert_source s d = Inr d' \<Longrightarrow> life_tables d' = life_tables d"
  unfolding insert_policy_def insert_run_def set_active_policy_def insert_source_def
  by (elim and_then_InrE; auto simp: life_tables_def simp del: guard_eq_Inr)+

lemma record_policy_in_life: "record_policy_in R m p d = Inr d' \<Longrightarrow> life_tables d' = life_tables d"
  by (auto simp: record_policy_in_def and_then_eq_Inr split: if_splits option.splits dest: life_tables_policy)

lemma initialize_run_advances: "consistent d \<Longrightarrow> advances d (snd (initialize_run R base d))"
  unfolding initialize_run_def
proof (rule transaction_advances, assumption, goal_cases)
  case (1 a d')
  have "life_tables d' = life_tables d"
    using 1(2) by (auto simp: and_then_eq_Inr split: if_splits option.splits dest!: life_tables_policy)
  then show ?case by (rule advances_frame [OF advances_refl [OF 1(1)]])
qed

lemma record_policy_advances: "consistent d \<Longrightarrow> advances d (snd (record_policy R m path d))"
  unfolding record_policy_def
  by (rule transaction_advances, assumption)
    (auto simp: and_then_eq_Inr dest!: record_policy_in_life intro: advances_frame [OF advances_refl])

lemma switch_policy_advances:
  assumes "consistent d" "switch_policy p v now d = Inr d'"
  shows "advances d d'"
proof -
  from assms(2) obtain d1 where d1: "set_active_policy p d = Inr d1" "reconcile_stale_work now d1 = Inr d'"
    by (auto simp: switch_policy_def and_then_eq_Inr split: option.splits if_splits)
  have 1: "advances d d1" using advances_refl [OF assms(1)] life_tables_policy(3) [OF d1(1)] by (rule advances_frame)
  from 1 reconcile_advances [OF advances_inv [OF 1] d1(2)] show ?thesis by (rule advances_trans)
qed

lemma record_and_activate_advances: "consistent d \<Longrightarrow> advances d (snd (record_and_activate_policy R m path now d))"
  unfolding record_and_activate_policy_def
proof (rule transaction_advances, assumption, goal_cases)
  case (1 a d')
  then obtain v p d1 where d1: "record_policy_in R v p d = Inr d1"
    "switch_policy (pm_policy_id v) (pm_policy_version v) now d1 = Inr d'"
    by (auto simp: and_then_eq_Inr)
  have "advances d d1" using advances_refl [OF 1(1)] record_policy_in_life [OF d1(1)] by (rule advances_frame)
  with switch_policy_advances [OF advances_inv d1(2)] show ?case by (blast intro: advances_trans)
qed

lemma activate_policy_advances: "consistent d \<Longrightarrow> advances d (snd (activate_policy R p now d))"
  unfolding activate_policy_def
  by (rule transaction_advances, assumption)
    (auto simp: and_then_eq_Inr split: option.splits intro: switch_policy_advances)

lemma configure_scheduler_advances: "consistent d \<Longrightarrow> advances d (snd (configure_scheduler lag pref now d))"
  unfolding configure_scheduler_def
proof (rule transaction_advances, assumption, goal_cases)
  case (1 a d')
  let ?d1 = "d\<lparr>scheduler_state := map_option (\<lambda>s. s\<lparr>ss_max_policy_lag := Some (nat lag),
      ss_loaded_policy_preference_seconds := Some pref\<rparr>) (scheduler_state d)\<rparr>"
  have a: "advances d ?d1" by (rule advances_frame [OF advances_refl [OF 1(1)]]) simp
  from 1(2) have "reconcile_stale_work now ?d1 = Inr d'" by (auto simp: and_then_eq_Inr split: if_splits)
  with a reconcile_advances advances_inv advances_trans show ?case by meson
qed

section \<open>New groups\<close>

lemma insert_assignment_evolves:
  assumes c: "core d" and ins: "insert_assignment_row r d = Inr d'"
    and r: "columns_ok r" "a_state r = Pending" "a_attempt_count r = 0" "a_current_lease_id r = None"
  shows "evolves d d'" "assignment_at d (a_assignment_id r) = None" "group_at d' = group_at d"
    "assignment_at d' x = (if x = a_assignment_id r then Some r else assignment_at d x)"
proof -
  let ?a = "a_assignment_id r"
  from ins have new: "assignment_at d ?a = None" and max: "0 < a_max_attempts r"
    and g: "group_at d (a_group_id r) \<noteq> None" and d': "d' = d\<lparr>assignments := assignments d @ [r]\<rparr>"
    by (auto simp: insert_assignment_row_def and_then_eq_Inr split: option.splits)
  show "assignment_at d ?a = None" by (rule new)
  have A: "assignment_at d' x = (if x = ?a then Some r else assignment_at d x)" for x
    using new by (simp add: d' row_simps split: option.split)
  then show "assignment_at d' x = (if x = ?a then Some r else assignment_at d x)" .
  show G: "group_at d' = group_at d" by (simp add: d' row_simps)
  have same: "outcome_at d' = outcome_at d" "result_at d' = result_at d" "cancellation_at d' = cancellation_at d"
    "lease_at d' = lease_at d" "lease_cancellation_at d' = lease_cancellation_at d"
    by (simp_all add: d' row_simps)
  have t: "touches ?a d d'" unfolding touches_def using A same G by auto
  have noL: "l_assignment_id ls \<noteq> ?a" if "lease_at d l = Some ls" for l ls
    using coreD(6) [OF c that] new by (auto simp: lease_ok_def)
  have "core d'"
  proof (rule core_local [OF c t])
    show "keys d'" using coreD(1) [OF c] new by (simp add: d')
    show "assignment_ok d' x" if "assignment_at d' ?a = Some x" for x
      using that A r max g coreD(2-4) [OF c new]
      by (simp add: assignment_ok_def current_ok_def attempts_ok_def outcome_ok_def cancellation_ok_def same G terminal_def)
    show "lease_ok d' ls" if "lease_at d' l = Some ls" "l_assignment_id ls = ?a" for l ls
      using that noL by (simp add: same)
    show "lease_cancellation_ok d' cl" if "lease_cancellation_at d' l = Some cl" "cl_assignment_id cl = ?a" for l cl
      using that coreD(7) [OF c, of l cl] noL
      by (auto simp: same lease_cancellation_ok_def lease_pair_def split: option.splits)
  qed (use A in simp)
  moreover have "lives (phase d y) (phase d' y)" for y
  proof (cases "y = ?a")
    case True
    then show ?thesis using new A r max by (simp add: phase_def life.create r_into_rtranclp)
  next
    case False
    then show ?thesis by (simp add: phase_def A)
  qed
  ultimately show "evolves d d'" by (simp add: evolves_def)
qed

text \<open>All assignments of the list belong to group \<open>g\<close>, which is still open afterwards.\<close>

definition has_open :: "db \<Rightarrow> id \<Rightarrow> bool" where
  "has_open d g \<longleftrightarrow> (\<exists>a r. assignment_at d a = Some r \<and> a_group_id r = g \<and> \<not> terminal (a_state r))"

lemma columns_ok_row_of: "RolloutAssignment x \<Longrightarrow> columns_ok (assignment_row_of R n x)"
  by (simp add: columns_ok_def assignment_row_of_def)

lemma insert_assignments_evolves:
  assumes "insert_assignments R n xs d = Inr d'" "core d" "groups_ok_except {g} d"
    and "\<And>x. x \<in> set xs \<Longrightarrow> RolloutAssignment x \<and> ra_group_id x = g"
  shows "evolves d d' \<and> groups_ok_except {g} d' \<and> group_at d' = group_at d \<and> (has_open d g \<or> xs \<noteq> [] \<longrightarrow> has_open d' g)"
  using assms
proof (induction xs arbitrary: d)
  case Nil
  then show ?case by (simp add: insert_assignments_def evolves_refl)
next
  case (Cons x xs)
  let ?r = "assignment_row_of R n x"
  from Cons.prems(1) obtain d1 where 1: "insert_assignment_row ?r d = Inr d1" "insert_assignments R n xs d1 = Inr d'"
    by (auto simp: insert_assignments_def and_then_eq_Inr)
  have x: "RolloutAssignment x" "ra_group_id x = g" using Cons.prems(4) by simp_all
  note e = insert_assignment_evolves [OF Cons.prems(2) 1(1) columns_ok_row_of [OF x(1)]]
  have r: "a_state ?r = Pending" "a_attempt_count ?r = 0" "a_current_lease_id ?r = None" "a_group_id ?r = g"
    by (simp_all add: assignment_row_of_def x(2))
  note e = e [OF r(1-3)]
  have new: "has_open d1 g"
    unfolding has_open_def using e(4) r by (auto simp: terminal_def)
  have "groups_ok_except {g} d1"
    unfolding groups_ok_except_def
  proof (intro allI impI)
    fix h gr assume h: "group_at d1 h = Some gr" "h \<notin> {g}"
    with Cons.prems(3) e(3) have ok: "group_ok d gr" by (simp add: groups_ok_except_def)
    have "g_group_id gr = h" using h(1) by (rule group_at_id)
    with h(2) r(4) e(2,4) have "assignment_at d1 a = Some y \<and> a_group_id y = g_group_id gr \<longleftrightarrow>
        assignment_at d a = Some y \<and> a_group_id y = g_group_id gr" for a y by auto
    with ok show "group_ok d1 gr" unfolding group_ok_def by blast
  qed
  moreover have "core d1" using e(1) by (simp add: evolves_def)
  ultimately have "evolves d1 d' \<and> groups_ok_except {g} d' \<and> group_at d' = group_at d1 \<and> (has_open d1 g \<or> xs \<noteq> [] \<longrightarrow> has_open d' g)"
    using Cons.prems(4) by (intro Cons.IH [OF 1(2)]) auto
  with e(1,3) new show ?case by (auto intro: evolves_trans)
qed

lemma insert_group_frame:
  assumes "insert_group gr d = Inr d'"
  shows "assignment_at d' = assignment_at d" "lease_at d' = lease_at d" "outcome_at d' = outcome_at d"
    "result_at d' = result_at d" "cancellation_at d' = cancellation_at d"
    "lease_cancellation_at d' = lease_cancellation_at d" "lease_pair d' = lease_pair d" "phase d' = phase d"
    "keys d' = keys d" "group_at d (g_group_id gr) = None"
    "group_at d' x = (if x = g_group_id gr then Some gr else group_at d x)"
proof -
  from assms have d': "d' = d\<lparr>rollout_groups := rollout_groups d @ [gr]\<rparr>" and new: "group_at d (g_group_id gr) = None"
    by (auto simp: insert_group_def and_then_eq_Inr)
  show "group_at d (g_group_id gr) = None" by (rule new)
  show "group_at d' x = (if x = g_group_id gr then Some gr else group_at d x)"
    using new by (simp add: d' row_simps split: option.split)
qed (use assms in \<open>auto simp: insert_group_def and_then_eq_Inr row_simps phase_def fun_eq_iff\<close>)

lemma insert_group_core:
  assumes "insert_group gr d = Inr d'" "consistent d"
  shows "core d'" "groups_ok_except {g_group_id gr} d'"
proof -
  note same = insert_group_frame [OF assms(1)]
  have c: "core d" using assms(2) by (simp add: consistent_def)
  have "assignment_ok d' r" if "assignment_ok d r" for r
  proof -
    have "group_at d' (a_group_id r) \<noteq> None" using that by (simp add: assignment_ok_def same(11))
    with that show ?thesis
      unfolding assignment_ok_def current_ok_def outcome_ok_def cancellation_ok_def same(1-8) by blast
  qed
  moreover have "lease_ok d' ls = lease_ok d ls" for ls by (simp add: lease_ok_def same(1))
  moreover have "lease_cancellation_ok d' cl = lease_cancellation_ok d cl" for cl
    by (simp add: lease_cancellation_ok_def same(5,7))
  ultimately show "core d'" using c unfolding core_def same(1-9) by blast
  have "group_ok d' g = group_ok d g" for g by (simp add: group_ok_def same(1))
  then show "groups_ok_except {g_group_id gr} d'"
    using assms(2) by (simp add: consistent_def groups_ok_except_def same(11))
qed

text \<open>A new group with at least one assignment satisfies the invariant again.\<close>

lemma new_group_inv:
  assumes i: "consistent d" and g: "insert_group gr d = Inr d1" and st: "g_state gr = Collecting"
    and xs: "insert_assignments R n xs d1 = Inr d2" "xs \<noteq> []"
    and ok: "\<And>x. x \<in> set xs \<Longrightarrow> RolloutAssignment x \<and> ra_group_id x = g_group_id gr"
  shows "advances d d2"
proof -
  note same = insert_group_frame [OF g]
  note 1 = insert_group_core [OF g i]
  have 2: "evolves d1 d2" "groups_ok_except {g_group_id gr} d2" "group_at d2 = group_at d1" "has_open d2 (g_group_id gr)"
    using insert_assignments_evolves [OF xs(1) 1 ok] xs(2) by auto
  have "group_ok d2 gr"
    using 2(4) st unfolding group_ok_def has_open_def by auto
  have "group_ok d2 x" if "group_at d2 g = Some x" for g x
  proof (cases "g = g_group_id gr")
    case True
    with that 2(3) same(11) \<open>group_ok d2 gr\<close> show ?thesis by simp
  next
    case False
    with that 2(2) show ?thesis by (simp add: groups_ok_except_def)
  qed
  then have "groups_ok_except {} d2" by (simp add: groups_ok_except_def)
  moreover have "evolves d d2" using 1(1) 2(1) by (simp add: evolves_def same(8))
  ultimately show ?thesis by (intro advances_evolves) (simp_all add: consistent_def evolves_def)
qed

lemma allocate_life: "allocate_group_sequence d = Inr (n, d') \<Longrightarrow> life_tables d' = life_tables d"
  by (auto simp: allocate_group_sequence_def split: option.splits)

lemma advance_source_life [simp]: "life_tables (advance_source s d) = life_tables d"
  by (simp add: advance_source_def update_source_def)

lemma new_group_advances:
  assumes i: "consistent d" and n: "new_group R s policy task key fresh now d = Inr (cg, d')" and size: "0 < so_group_size s"
  shows "advances d d'"
proof -
  let ?xs = "source_assignments s policy task fresh now"
  from n obtain q d1 gr d2 d3 where 1: "allocate_group_sequence d = Inr (q, d1)" "list_all RolloutAssignment ?xs"
    and gr: "insert_group gr d1 = Inr d2" "g_state gr = Collecting" "g_group_id gr = fresh 0"
    and xs: "insert_assignments R (so_max_attempts s) ?xs d2 = Inr d3" and d': "d' = advance_source (so_source_id s) d3"
    by (auto simp: new_group_def and_then_eq_Inr Let_def split: if_splits)
  have a: "advances d d1" using advances_refl [OF i] allocate_life [OF 1(1)] by (rule advances_frame)
  have "?xs \<noteq> []" using size by (simp add: source_assignments_def)
  moreover have "RolloutAssignment x \<and> ra_group_id x = g_group_id gr" if "x \<in> set ?xs" for x
    using 1(2) gr(3) that by (auto simp: list_all_iff source_assignments_def)
  ultimately have "advances d1 d3" using new_group_inv [OF advances_inv [OF a] gr(1,2) xs] by blast
  with a have "advances d d3" by (rule advances_trans)
  then show ?thesis by (rule advances_frame) (simp add: d')
qed

lemma existing_group_advances:
  "consistent d \<Longrightarrow> existing_group s g key d = Inr (cg, d') \<Longrightarrow> advances d d'"
  by (auto simp: existing_group_def and_then_eq_Inr Let_def split: if_splits intro: advances_frame [OF advances_refl])

text \<open>The \<open>CHECK\<close> on sources: group sizes and weights are positive.\<close>

definition sources_ok :: "db \<Rightarrow> bool" where
  "sources_ok d \<longleftrightarrow>
     distinct (map so_source_id (scheduler_sources d)) \<and>
     (\<forall>s \<in> set (scheduler_sources d). 0 < so_group_size s \<and> 0 < so_weight s)"

lemma next_sourceD:
  assumes "next_source kind d = Some s"
  shows "s \<in> set (scheduler_sources d)" "so_enabled s" "\<And>k. kind = Some k \<Longrightarrow> so_kind s = k"
    "\<And>t. t \<in> set (scheduler_sources d) \<Longrightarrow> so_enabled t \<Longrightarrow> (\<And>k. kind = Some k \<Longrightarrow> so_kind t = k) \<Longrightarrow>
      (so_virtual_finish s, so_source_id s) \<le> (so_virtual_finish t, so_source_id t)"
proof -
  let ?P = "\<lambda>s. so_enabled s \<and> (case kind of None \<Rightarrow> True | Some k \<Rightarrow> so_kind s = k)"
  let ?k = "\<lambda>s. (so_virtual_finish s, so_source_id s)"
  obtain rest where o': "order_by ?k (filter ?P (scheduler_sources d)) = s # rest"
    using assms by (auto simp: next_source_def split: list.splits)
  have se: "set (s # rest) = set (filter ?P (scheduler_sources d))"
    by (simp only: o' [symmetric] set_order_by)
  have so: "sorted (map ?k (s # rest))"
    using sorted_order_by [of ?k "filter ?P (scheduler_sources d)"] by (simp only: o')
  from se have "s \<in> set (filter ?P (scheduler_sources d))" by auto
  then show "s \<in> set (scheduler_sources d)" "so_enabled s" "\<And>k. kind = Some k \<Longrightarrow> so_kind s = k"
    by auto
  show "?k s \<le> ?k t" if "t \<in> set (scheduler_sources d)" "so_enabled t" "\<And>k. kind = Some k \<Longrightarrow> so_kind t = k" for t
  proof -
    have "t \<in> set (filter ?P (scheduler_sources d))" using that by (auto split: option.split)
    then have "t \<in> set (s # rest)" by (simp only: se)
    with so show ?thesis by (auto simp del: less_eq_prod_simp)
  qed
qed

lemma create_next_group_advances:
  assumes i: "consistent d" and s: "sources_ok d"
  shows "advances d (snd (create_next_group R kind fresh now d))"
  unfolding create_next_group_def
proof (rule transaction_advances [OF i], goal_cases)
  case (1 a d')
  show ?case
  proof (cases "next_source kind d")
    case None
    with 1 i show ?thesis by (simp add: create_next_group_in_def advances_refl)
  next
    case (Some src)
    have size: "0 < so_group_size src" using next_sourceD(1) [OF Some] s by (auto simp: sources_ok_def)
    from 1 Some show ?thesis
      using new_group_advances [OF i _ size] existing_group_advances [OF i]
      by (auto simp: create_next_group_in_def and_then_eq_Inr Let_def split: if_splits option.splits)
  qed
qed

lemma create_group_advances:
  assumes i: "consistent d" and ok: "list_all RolloutAssignment xs"
  shows "advances d (snd (create_group R xs n d))"
  unfolding create_group_def
proof (rule transaction_advances [OF i], goal_cases)
  case (1 a d')
  then obtain first q d1 gr d2 where v: "validate_group R xs = Inr first" and q: "allocate_group_sequence d = Inr (q, d1)"
    and gr: "insert_group gr d1 = Inr d2" "g_state gr = Collecting" "g_group_id gr = ra_group_id first"
    and xs: "insert_assignments R n (order_by ra_group_index xs) d2 = Inr d'"
    by (auto simp: create_group_in_def and_then_eq_Inr split: if_splits option.splits)
  have a: "advances d d1" using advances_refl [OF i] allocate_life [OF q] by (rule advances_frame)
  have ne: "xs \<noteq> []" and g: "\<And>x. x \<in> set xs \<Longrightarrow> ra_group_id x = ra_group_id first"
    using v by (auto simp: validate_group_def group_inputs_def list_ex_iff split: list.splits if_splits)
  have "order_by ra_group_index xs \<noteq> []" using ne by (metis set_order_by set_empty)
  moreover have "RolloutAssignment x \<and> ra_group_id x = g_group_id gr" if "x \<in> set (order_by ra_group_index xs)" for x
    using that ok g gr(3) by (simp add: list_all_iff)
  ultimately have "advances d1 d'" using new_group_inv [OF advances_inv [OF a] gr(1,2) xs] by blast
  with a show ?case by (rule advances_trans)
qed

section \<open>Sources\<close>

definition source_tables where
  "source_tables d = scheduler_sources d"

lemma sources_ok_frame: "scheduler_sources d' = scheduler_sources d \<Longrightarrow> sources_ok d' = sources_ok d"
  by (simp add: sources_ok_def)

lemma register_source_ok:
  assumes "sources_ok d"
  shows "sources_ok (snd (register_scheduler_source s d))"
  unfolding register_scheduler_source_def
proof (rule transaction_keeps [where P = sources_ok, OF assms], goal_cases)
  case (1 a d')
  show ?case
  proof (cases "source_at d (es_source_id s)")
    case (Some r)
    with 1 assms show ?thesis by (simp split: if_splits)
  next
    case None
    with 1 obtain r where r: "insert_source r d = Inr d'" by (auto simp: and_then_eq_Inr)
    then have "source_at d (so_source_id r) = None" "0 < so_group_size r" "0 < so_weight r"
      "d' = d\<lparr>scheduler_sources := scheduler_sources d @ [r]\<rparr>"
      by (auto simp: insert_source_def and_then_eq_Inr)
    with assms show ?thesis by (simp add: sources_ok_def source_at_def row_at_None_iff)
  qed
qed

lemma register_source_advances: "consistent d \<Longrightarrow> advances d (snd (register_scheduler_source s d))"
  unfolding register_scheduler_source_def
  by (rule transaction_advances, assumption)
    (auto simp: and_then_eq_Inr split: option.splits if_splits dest!: life_tables_policy
      intro: advances_refl advances_frame [OF advances_refl])

text \<open>The sources after a group was created: the chosen one has moved on, or nothing has changed.\<close>

lemma advance_source_sources:
  "scheduler_sources (advance_source s d) = update_where (\<lambda>r. so_source_id r = s)
     (\<lambda>r. r\<lparr>so_cursor := so_cursor r + 1, so_virtual_finish := so_virtual_finish r + source_cost r\<rparr>) (scheduler_sources d)"
  by (simp add: advance_source_def update_source_def)

lemma sources_ok_advance: "sources_ok d \<Longrightarrow> sources_ok (advance_source s d)"
  by (auto simp: sources_ok_def advance_source_sources set_update_where)

lemma insert_assignments_sources:
  assumes "insert_assignments R n xs d = Inr d'"
  shows "scheduler_sources d' = scheduler_sources d"
  by (rule fold_step_invariant [OF assms [unfolded insert_assignments_def], where P = "\<lambda>s. scheduler_sources s = scheduler_sources d"])
    (auto simp: insert_assignment_row_def and_then_eq_Inr simp del: guard_eq_Inr)

lemma new_group_sources:
  "new_group R s policy task key fresh now d = Inr (cg, d') \<Longrightarrow>
     scheduler_sources d' = scheduler_sources (advance_source (so_source_id s) d)"
  by (auto simp: new_group_def and_then_eq_Inr Let_def allocate_group_sequence_def insert_group_def
      advance_source_sources dest!: insert_assignments_sources split: if_splits option.splits simp del: guard_eq_Inr)

lemma create_next_group_sources:
  assumes "create_next_group_in R kind fresh now d = Inr (cg, d')"
  shows "case next_source kind d of None \<Rightarrow> d' = d
    | Some s \<Rightarrow> scheduler_sources d' = scheduler_sources (advance_source (so_source_id s) d)"
  using assms
  by (auto simp: create_next_group_in_def and_then_eq_Inr Let_def existing_group_def
      split: option.splits if_splits dest!: new_group_sources)

text \<open>Weighted fairness: no enabled source is ahead of another by more than its own cost.\<close>

definition fair :: "db \<Rightarrow> bool" where
  "fair d \<longleftrightarrow> (\<forall>s \<in> set (scheduler_sources d). \<forall>t \<in> set (scheduler_sources d).
     so_enabled s \<longrightarrow> so_enabled t \<longrightarrow> so_virtual_finish s \<le> so_virtual_finish t + source_cost s)"

lemma fair_frame: "scheduler_sources d' = scheduler_sources d \<Longrightarrow> fair d' = fair d"
  by (simp add: fair_def)

lemma fair_advance:
  assumes n: "next_source None d = Some c" and f: "fair d" and ok: "sources_ok d"
  shows "fair (advance_source (so_source_id c) d)"
proof -
  let ?f = "\<lambda>r. r\<lparr>so_cursor := so_cursor r + 1, so_virtual_finish := so_virtual_finish r + source_cost r\<rparr>"
  let ?g = "\<lambda>r. if so_source_id r = so_source_id c then ?f r else r"
  have c: "c \<in> set (scheduler_sources d)" "so_enabled c" using next_sourceD [OF n] by auto
  have least: "so_virtual_finish c \<le> so_virtual_finish t" if "t \<in> set (scheduler_sources d)" "so_enabled t" for t
    using next_sourceD(4) [OF n that] by auto
  have is_c: "r = c" if "r \<in> set (scheduler_sources d)" "so_source_id r = so_source_id c" for r
    using ok that c by (auto simp: sources_ok_def distinct_map inj_on_def)
  have cost: "0 < source_cost r" if "r \<in> set (scheduler_sources d)" for r
    using ok that by (auto simp: sources_ok_def source_cost_def)
  have gcost: "source_cost (?g r) = source_cost r" for r by (simp add: source_cost_def)
  have "so_virtual_finish (?g s) \<le> so_virtual_finish (?g t) + source_cost s"
    if s: "s \<in> set (scheduler_sources d)" "so_enabled s" and t: "t \<in> set (scheduler_sources d)" "so_enabled t" for s t
  proof -
    have fs: "so_virtual_finish s \<le> so_virtual_finish t + source_cost s" using f s t by (simp add: fair_def)
    show ?thesis
    proof (cases "so_source_id s = so_source_id c")
      case True
      with is_c s(1) have "s = c" by simp
      with least [OF t] cost [OF t(1)] cost [OF c(1)] show ?thesis by (auto simp: is_c [OF t(1)])
    next
      case False
      with fs cost [OF t(1)] show ?thesis by simp
    qed
  qed
  note main = this
  show ?thesis
    unfolding fair_def advance_source_sources set_update_where
  proof (intro ballI impI)
    fix x y assume "x \<in> ?g ` set (scheduler_sources d)" "y \<in> ?g ` set (scheduler_sources d)"
      and en: "so_enabled x" "so_enabled y"
    then obtain s t where s: "x = ?g s" "s \<in> set (scheduler_sources d)" and t: "y = ?g t" "t \<in> set (scheduler_sources d)"
      by blast
    have "so_enabled s" "so_enabled t" using en s(1) t(1) by (simp_all split: if_splits)
    from main [OF s(2) this(1) t(2) this(2)] show "so_virtual_finish x \<le> so_virtual_finish y + source_cost x"
      by (simp only: s(1) t(1) gcost)
  qed
qed

lemma create_next_group_fair:
  assumes "fair d" "sources_ok d"
  shows "fair (snd (create_next_group R None fresh now d))" "sources_ok (snd (create_next_group R kind fresh now d))"
proof -
  show "fair (snd (create_next_group R None fresh now d))"
    unfolding create_next_group_def
  proof (rule transaction_keeps [where P = fair, OF assms(1)])
    fix a d' assume "create_next_group_in R None fresh now d = Inr (a, d')"
    note src = create_next_group_sources [OF this]
    show "fair d'"
    proof (cases "next_source None d")
      case None
      with src assms show ?thesis by simp
    next
      case (Some s)
      with src have "scheduler_sources d' = scheduler_sources (advance_source (so_source_id s) d)" by simp
      from fair_frame [OF this] fair_advance [OF Some assms] show ?thesis by simp
    qed
  qed
  show "sources_ok (snd (create_next_group R kind fresh now d))"
    unfolding create_next_group_def
  proof (rule transaction_keeps [where P = sources_ok, OF assms(2)])
    fix a d' assume "create_next_group_in R kind fresh now d = Inr (a, d')"
    note src = create_next_group_sources [OF this]
    show "sources_ok d'"
    proof (cases "next_source kind d")
      case None
      with src assms show ?thesis by simp
    next
      case (Some s)
      with src have "scheduler_sources d' = scheduler_sources (advance_source (so_source_id s) d)" by simp
      from sources_ok_frame [OF this] sources_ok_advance [OF assms(2)] show ?thesis by simp
    qed
  qed
qed

text \<open>A source that registers late starts at the least finish time, so it cannot claim the past.\<close>

lemma fold_min_le: "x \<in> set (v # vs) \<Longrightarrow> fold min vs v \<le> (x :: rat)"
  unfolding Min.set_eq_fold [symmetric] by (intro Min_le) simp_all

lemma fold_min_mem: "fold min vs v \<in> set (v # vs :: rat list)"
  unfolding Min.set_eq_fold [symmetric] by (intro Min_in) simp_all

lemma least_finish_le:
  "s \<in> set (scheduler_sources d) \<Longrightarrow> so_enabled s \<Longrightarrow> least_finish d \<le> so_virtual_finish s"
proof -
  assume "s \<in> set (scheduler_sources d)" "so_enabled s"
  then have mem: "so_virtual_finish s \<in> set (map so_virtual_finish (filter so_enabled (scheduler_sources d)))" by auto
  then obtain v vs where v: "map so_virtual_finish (filter so_enabled (scheduler_sources d)) = v # vs"
    by (cases "map so_virtual_finish (filter so_enabled (scheduler_sources d))") auto
  with mem have "fold min vs v \<le> so_virtual_finish s" by (intro fold_min_le) simp
  with v show ?thesis by (simp add: least_finish_def)
qed

lemma least_finish_mem:
  assumes "s \<in> set (scheduler_sources d)" "so_enabled s"
  obtains t where "t \<in> set (scheduler_sources d)" "so_enabled t" "least_finish d = so_virtual_finish t"
proof -
  obtain v vs where v: "map so_virtual_finish (filter so_enabled (scheduler_sources d)) = v # vs"
    using assms by (cases "map so_virtual_finish (filter so_enabled (scheduler_sources d))")
      (auto simp: filter_empty_conv)
  then have "least_finish d \<in> set (map so_virtual_finish (filter so_enabled (scheduler_sources d)))"
    using fold_min_mem [of vs v] by (simp add: least_finish_def)
  with that show thesis by auto
qed

lemma register_source_fair:
  assumes "fair d"
  shows "fair (snd (register_scheduler_source spec d))"
  unfolding register_scheduler_source_def
proof (rule transaction_keeps [where P = fair, OF assms], goal_cases)
  case (1 a d')
  show ?case
  proof (cases "source_at d (es_source_id spec)")
    case (Some r)
    with 1 assms show ?thesis by (simp split: if_splits)
  next
    case None
    with 1 obtain r where r: "insert_source r d = Inr d'" and vf: "so_virtual_finish r = least_finish d"
      by (auto simp: and_then_eq_Inr)
    then have d': "scheduler_sources d' = scheduler_sources d @ [r]" and w: "0 < so_group_size r" "0 < so_weight r"
      by (auto simp: insert_source_def and_then_eq_Inr)
    have cost: "0 < source_cost r" using w by (simp add: source_cost_def)
    have "so_virtual_finish s \<le> so_virtual_finish r + source_cost s"
      if s: "s \<in> set (scheduler_sources d)" "so_enabled s" for s
    proof -
      obtain t where "t \<in> set (scheduler_sources d)" "so_enabled t" "least_finish d = so_virtual_finish t"
        using s by (rule least_finish_mem)
      with assms s vf show ?thesis by (auto simp: fair_def)
    qed
    moreover have "so_virtual_finish r \<le> so_virtual_finish s + source_cost r"
      if s: "s \<in> set (scheduler_sources d)" "so_enabled s" for s
      using least_finish_le [OF s] vf cost by simp
    ultimately show ?thesis using assms cost by (auto simp: fair_def d')
  qed
qed

section \<open>Leasing with generation\<close>

lemma lease_or_create_advances:
  assumes "consistent d" "CoordinatorRepository R = Inr R" "\<And>d'. advances d d' \<Longrightarrow> sources_ok d'"
  shows "advances d (snd (lease_or_create_next_compatible R req duration l1 l2 fresh t1 t2 t3 t4 d))"
proof -
  obtain r1 d1 where 1: "lease_next_compatible R req duration l1 t1 d = (r1, d1)" by fastforce
  obtain r2 d2 where 2: "create_next_group R None fresh t3 d1 = (r2, d2)" by fastforce
  obtain r3 d3 where 3: "lease_next_compatible R req duration l2 t4 d2 = (r3, d3)" by fastforce
  have a1: "advances d d1" using lease_next_compatible_advances [OF assms(1,2), of req duration l1 t1] 1 by simp
  have "advances d1 d2"
    using create_next_group_advances [OF advances_inv [OF a1] assms(3) [OF a1], of R None fresh t3] 2 by simp
  with a1 have a2: "advances d d2" by (rule advances_trans)
  have "advances d2 d3"
    using lease_next_compatible_advances [OF advances_inv [OF a2] assms(2), of req duration l2 t4] 3 by simp
  with a2 have a3: "advances d d3" by (rule advances_trans)
  show ?thesis
    using a1 a2 a3 1 2 3 by (auto simp: lease_or_create_next_compatible_def split: sum.split option.split)
qed

end
