(* ===== verification/Quiet.thy ===== *)
theory Quiet
  imports Group_Store_Inv
begin

text \<open>
  Worker operations, envelopes and expiry write neither the run, nor its policies, nor the
  scheduler's sources and settings. Together with the theories before, this gives the
  invariant of the whole repository for every operation.
\<close>

definition quiet_tables where
  "quiet_tables d = (runs d, policies d, scheduler_state d, scheduler_sources d,
     training_batches d, processed_groups d, processed_rollouts d)"

lemma quiet_configuration: "configuration d' = configuration d \<Longrightarrow> quiet_tables d' = quiet_tables d"
  by (simp add: configuration_def quiet_tables_def)

lemma quiet_statements [simp]:
  "quiet_tables (update_session s f d) = quiet_tables d"
  "quiet_tables (update_assignment a g d) = quiet_tables d"
  "quiet_tables (deliver_cancellation l t d) = quiet_tables d"
  "quiet_tables (update_lease_state l st d) = quiet_tables d"
  "quiet_tables (set_cancellation_terminal a d) = quiet_tables d"
  "quiet_tables (fail_assignment a d) = quiet_tables d"
  "quiet_tables (set_group_state gi gs d) = quiet_tables d"
  "quiet_tables (recompute_group gi d) = quiet_tables d"
  "quiet_tables (set_processing P ps d) = quiet_tables d"
  by (simp_all add: quiet_tables_def update_session_def statement_defs recompute_group_def Let_def set_processing_def)

lemma quiet_worker [simp]: "quiet_tables (insert_worker w d) = quiet_tables d"
  by (cases "worker_at d (w_worker_id w)") (simp_all add: quiet_tables_def insert_worker_def)

lemma quiet_inserts:
  "insert_session sr d = Inr d' \<Longrightarrow> quiet_tables d' = quiet_tables d"
  "insert_request qr d = Inr d' \<Longrightarrow> quiet_tables d' = quiet_tables d"
  "complete_request q st ol t d = Inr d' \<Longrightarrow> quiet_tables d' = quiet_tables d"
  "update_lease_expiry l t sent d = Inr d' \<Longrightarrow> quiet_tables d' = quiet_tables d"
  "delete_lease l d = Inr d' \<Longrightarrow> quiet_tables d' = quiet_tables d"
  "insert_lease lr d = Inr d' \<Longrightarrow> quiet_tables d' = quiet_tables d"
  "set_current_lease ca cn l d = Inr d' \<Longrightarrow> quiet_tables d' = quiet_tables d"
  "insert_result rr d = Inr d' \<Longrightarrow> quiet_tables d' = quiet_tables d"
  "insert_failure fr d = Inr d' \<Longrightarrow> quiet_tables d' = quiet_tables d"
  "insert_outcome ot d = Inr d' \<Longrightarrow> quiet_tables d' = quiet_tables d"
  unfolding insert_session_def insert_request_def complete_request_def Let_def update_lease_expiry_def
    delete_lease_def insert_lease_def set_current_lease_def insert_result_def insert_failure_def insert_outcome_def
  by (elim and_then_InrE; auto simp: quiet_tables_def update_assignment_def simp del: guard_eq_Inr)+

lemma quiet_cancel:
  "cancel_stale_train_groups lag now d = Inr d' \<Longrightarrow> quiet_tables d' = quiet_tables d"
  by (rule quiet_configuration)
    (auto simp: cancel_stale_train_groups_def split: option.splits dest: configuration_cancel_groups)

lemmas quiet_steps = quiet_inserts quiet_cancel
  quiet_configuration [OF configuration_reconcile] quiet_configuration [OF configuration_expire]
  quiet_configuration [OF configuration_retry] quiet_configuration [OF configuration_terminalize]

text \<open>An operation is quiet when its transaction body is.\<close>

lemma quiet_transaction:
  assumes "\<And>a d'. body d = Inr (a, d') \<Longrightarrow> quiet_tables d' = quiet_tables d"
  shows "quiet_tables (snd (transaction body d)) = quiet_tables d"
  using assms by (intro transaction_keeps [where P = "\<lambda>s. quiet_tables s = quiet_tables d"]) auto

lemma quiet_register_worker: "quiet_tables (snd (register_worker reg now d)) = quiet_tables d"
  unfolding register_worker_def
  by (rule quiet_transaction) (auto simp: and_then_eq_Inr split: if_splits option.splits dest: quiet_steps)

lemma quiet_validate_lease_request: "quiet_tables (snd (validate_lease_request R req now d)) = quiet_tables d"
  unfolding validate_lease_request_def
  by (rule quiet_transaction) (auto simp: and_then_eq_Inr Let_def split: if_splits option.splits dest: quiet_steps)

lemma quiet_mark_no_work: "quiet_tables (snd (mark_lease_request_no_work q now d)) = quiet_tables d"
  unfolding mark_lease_request_no_work_def
  by (rule quiet_transaction) (auto simp: and_then_eq_Inr split: if_splits dest: quiet_steps)

lemma quiet_associate: "quiet_tables (snd (associate_offered_lease req offered now t d)) = quiet_tables d"
  unfolding associate_offered_lease_def
  by (rule quiet_transaction) (auto simp: and_then_eq_Inr split: if_splits dest: quiet_steps)

lemma quiet_associate_batch: "quiet_tables (snd (associate_offered_leases req offered clock t d)) = quiet_tables d"
  unfolding associate_offered_leases_def
  by (rule quiet_transaction) (auto simp: and_then_eq_Inr split: if_splits list.splits dest: quiet_steps)

lemma quiet_release: "quiet_tables (snd (release_unoffered_lease l now d)) = quiet_tables d"
  unfolding release_unoffered_lease_def
  by (rule quiet_transaction) (auto simp: and_then_eq_Inr split: if_splits option.splits dest: quiet_steps)

lemma quiet_heartbeat_lease:
  "heartbeat_lease d0 now duration l (rs, ss, d) = Inr (rs', ss', d') \<Longrightarrow> quiet_tables d' = quiet_tables d"
  by (auto simp: heartbeat_lease_def and_then_eq_Inr Let_def split: if_splits option.splits dest!: quiet_steps)

lemma quiet_heartbeat_fold:
  "fold_step (heartbeat_lease d0 now duration) ls (rs, ss, d) = Inr (rs', ss', d') \<Longrightarrow> quiet_tables d' = quiet_tables d"
  by (drule fold_step_invariant [where P = "\<lambda>s. quiet_tables (snd (snd s)) = quiet_tables d"])
    (auto dest: quiet_heartbeat_lease)

lemma quiet_record_heartbeat: "quiet_tables (snd (record_heartbeat hb duration now d)) = quiet_tables d"
  unfolding record_heartbeat_def
  by (rule quiet_transaction)
    (auto simp: and_then_eq_Inr split: if_splits dest!: quiet_heartbeat_fold dest: quiet_steps)

lemma quiet_grant: "grant_lease asg w s l now dur d = Inr (lr, d') \<Longrightarrow> quiet_tables d' = quiet_tables d"
  by (auto simp: grant_lease_def and_then_eq_Inr Let_def dest!: quiet_steps)

lemma quiet_grant_next: "grant_next s pref req dur l now d = Inr (ans, d') \<Longrightarrow> quiet_tables d' = quiet_tables d"
  by (auto simp: grant_next_def and_then_eq_Inr split: if_splits option.splits dest!: quiet_grant quiet_steps)

lemma quiet_lease_pending:
  assumes "lease_pending R req dur l now d = Inr (ans, d')"
  shows "quiet_tables d' = quiet_tables d"
proof -
  from assms obtain n d1 s and settings :: scheduler_row where 1: "expire_leases_in R now d = Inr (n, d1)"
    "(case (ss_max_policy_lag settings, ss_loaded_policy_preference_seconds settings) of
       (Some lag, Some preference) \<Rightarrow>
         and_then (cancel_stale_train_groups lag now d1) (grant_next s preference req dur l now)
     | _ \<Rightarrow> Inl InvalidStateError) = Inr (ans, d')"
    by (auto simp: lease_pending_def and_then_eq_Inr)
  have "quiet_tables d1 = quiet_tables d" using 1(1) by (auto dest: quiet_steps)
  moreover have "quiet_tables d' = quiet_tables d1"
    using 1(2) by (cases "ss_max_policy_lag settings"; cases "ss_loaded_policy_preference_seconds settings")
      (auto simp: and_then_eq_Inr dest!: quiet_grant_next quiet_cancel)
  ultimately show ?thesis by simp
qed

lemma quiet_lease_next_in:
  assumes "lease_next_in R req dur l now d = Inr (ans, d')"
  shows "quiet_tables d' = quiet_tables d"
proof -
  from assms obtain dp :: disposition where "(case dp_state dp of
       Rq_leased \<Rightarrow> Inr (Already (dp_lease dp), d)
     | Rq_no_work \<Rightarrow> Inr (No_lease, d)
     | Rq_pending \<Rightarrow> lease_pending R req dur l now d) = Inr (ans, d')"
    by (auto simp: lease_next_in_def and_then_eq_Inr)
  then show ?thesis by (cases "dp_state dp") (auto dest: quiet_lease_pending)
qed

lemma quiet_lease_next: "quiet_tables (snd (lease_next_compatible R req dur l now d)) = quiet_tables d"
proof -
  have "quiet_tables (snd (transaction (lease_next_in R req dur l now) d)) = quiet_tables d"
    by (rule quiet_transaction) (rule quiet_lease_next_in)
  then show ?thesis by (auto simp: lease_next_compatible_def split: sum.split prod.split)
qed

lemma quiet_expire_leases: "quiet_tables (snd (expire_leases R now d)) = quiet_tables d"
  unfolding expire_leases_def
  by (rule quiet_transaction) (auto simp: and_then_eq_Inr dest!: quiet_steps)

lemma quiet_create_lease_in:
  "create_lease_in a w s l dur now d = Inr (ans, d') \<Longrightarrow> quiet_tables d' = quiet_tables d"
  by (auto simp: create_lease_in_def and_then_eq_Inr split: if_splits dest: quiet_steps quiet_grant)

lemma quiet_create_lease: "quiet_tables (snd (create_lease R a w s l dur t0 now d)) = quiet_tables d"
proof -
  obtain r d1 where e: "expire_leases R t0 d = (r, d1)" by fastforce
  with quiet_expire_leases [of R t0 d] have 1: "quiet_tables d1 = quiet_tables d" by simp
  have "quiet_tables (snd (transaction (create_lease_in a w s l dur now) d1)) = quiet_tables d1"
    by (rule quiet_transaction) (rule quiet_create_lease_in)
  with 1 e show ?thesis by (auto simp: create_lease_def split: sum.split prod.split create_answer.split)
qed

lemma quiet_renew_lease_in:
  "renew_lease_in l w s dur ex sent ack now d = Inr (ans, d') \<Longrightarrow> quiet_tables d' = quiet_tables d"
  by (erule renew_lease_inD) (auto dest!: quiet_steps)

lemma quiet_renew_lease: "quiet_tables (snd (renew_lease l w s dur ex sent ack now d)) = quiet_tables d"
proof -
  have "quiet_tables (snd (transaction (renew_lease_in l w s dur ex sent ack now) d)) = quiet_tables d"
    by (rule quiet_transaction) (rule quiet_renew_lease_in)
  then show ?thesis by (auto simp: renew_lease_def split: sum.split prod.split renew_answer.split)
qed

lemma quiet_store_result: "store_result env dig path n now d = Inr (r, d') \<Longrightarrow> quiet_tables d' = quiet_tables d"
  by (auto simp: store_result_def and_then_eq_Inr split: option.splits dest!: quiet_steps)

lemma quiet_accept_result: "quiet_tables (fst (snd (accept_result R env t now (d, sp)))) = quiet_tables d"
proof -
  let ?d = "fst (snd (accept_result R env t now (d, sp)))"
  have "?d = d \<or> (\<exists>dig path n. ?d = snd (transaction (store_result env dig path n now) d))"
    by (rule accept_result_db)
  moreover have "quiet_tables (snd (transaction (store_result env dig path n now) d)) = quiet_tables d" for dig path n
    by (rule quiet_transaction) (rule quiet_store_result)
  ultimately show ?thesis by metis
qed

lemma quiet_end_attempt: "end_attempt R env dig asg now d = Inr (b, d') \<Longrightarrow> quiet_tables d' = quiet_tables d"
  by (auto simp: end_attempt_def and_then_eq_Inr Let_def split: if_splits dest!: quiet_steps)

lemma quiet_store_failure: "store_failure R env dig now d = Inr (r, d') \<Longrightarrow> quiet_tables d' = quiet_tables d"
  by (auto simp: store_failure_def and_then_eq_Inr split: option.splits dest!: quiet_end_attempt quiet_steps)

lemma quiet_accept_failure: "quiet_tables (snd (accept_failure R env now d)) = quiet_tables d"
proof -
  have "quiet_tables (snd (transaction (store_failure R env dig now) d)) = quiet_tables d" for dig
    by (rule quiet_transaction) (rule quiet_store_failure)
  then show ?thesis by (simp add: accept_failure_def Let_def split: sum.split option.split)
qed

lemma quiet_claim: "quiet_tables (snd (claim_pending_results n d)) = quiet_tables d"
  unfolding claim_pending_results_def
proof (rule quiet_transaction, goal_cases)
  case (1 a d')
  have "quiet_tables (fold (\<lambda>r. set_processing (\<lambda>x. r_assignment_id x = r_assignment_id r) Proc_processing) rows d0)
    = quiet_tables d0" for rows d0
    by (induction rows arbitrary: d0) simp_all
  with 1 show ?case by (auto simp: Let_def split: if_splits)
qed

lemma quiet_mark_processed: "quiet_tables (snd (mark_result_processed a d)) = quiet_tables d"
  unfolding mark_result_processed_def by (rule quiet_transaction) (auto simp: Let_def split: if_splits)

lemma quiet_recompute_groups: "quiet_tables (recompute_groups d) = quiet_tables d"
  unfolding recompute_groups_def by (rule quiet_configuration) (rule configuration_fold_recompute)

lemma quiet_recover: "quiet_tables (fst (snd (recover R now (d, sp)))) = quiet_tables d"
proof -
  let ?d1 = "set_processing (\<lambda>r. r_processing_state r = Proc_processing) Proc_pending d"
  let ?d = "fst (snd (recover R now (d, sp)))"
  have "?d = d \<or> ?d = snd (expire_leases R now ?d1) \<or> ?d = recompute_groups (snd (expire_leases R now ?d1))"
    by (auto simp: recover_def Let_def split: sum.split prod.split)
  with quiet_expire_leases [of R now ?d1] quiet_recompute_groups show ?thesis by (metis quiet_statements(9))
qed

text \<open>What a quiet operation keeps.\<close>

lemma quiet_keeps:
  assumes "quiet_tables d' = quiet_tables d"
  shows "policies_ok d' = policies_ok d" "active_version d' = active_version d"
    "sources_ok d' = sources_ok d" "fair d' = fair d"
proof -
  have e: "runs d' = runs d" "policies d' = policies d" "scheduler_sources d' = scheduler_sources d"
    using assms by (simp_all add: quiet_tables_def)
  have t: "run_tables d' = run_tables d" using e by (simp add: run_tables_def)
  show "policies_ok d' = policies_ok d" "active_version d' = active_version d"
    using policies_ok_frame [OF t] active_version_frame [OF t] .
  show "sources_ok d' = sources_ok d" "fair d' = fair d"
    using sources_ok_frame [OF e(3)] fair_frame [OF e(3)] .
qed

end
