(* ===== verification/Batch_Store.thy ===== *)
theory Batch_Store
  imports Acceptance_Inv
begin

text \<open>
  Processed groups and training batches in \<open>CoordinatorRepository\<close>: recording the output of a
  finished group, listing the rollouts that wait for a batch, discarding some of them, and
  recording the batches of the trainer. A processed rollout is consumed at most once: the
  abstract machine \<open>rollout_life\<close> says so, and the operations refine it.
\<close>

section \<open>Processed groups\<close>

text \<open>\<open>Path.relative_to\<close> of absolute, normalised paths.\<close>

definition relative_to :: "string \<Rightarrow> string \<Rightarrow> error + string" where
  "relative_to base path =
     (if path = base then Inr ''.''
      else if take (Suc (length base)) path = base @ ''/'' then Inr (drop (Suc (length base)) path)
      else Inl ValueError)"

text \<open>\<open>run_root / path\<close> for a stored relative path.\<close>

definition under_root :: "repository \<Rightarrow> string \<Rightarrow> string" where
  "under_root R p = (if p = ''.'' then run_root R else run_root R @ ''/'' @ p)"

definition insert_rollouts :: "id \<Rightarrow> nat list \<Rightarrow> db \<Rightarrow> error + db" where
  "insert_rollouts g token_counts =
     fold_step (\<lambda>(ordinal, n). insert_processed_rollout
         \<lparr>pr_group_id = g, pr_ordinal = ordinal, pr_token_count = n, pr_batch_step = None,
          pr_batch_ordinal = None, pr_discarded = False\<rparr>) (enumerate 0 token_counts)"

text \<open>\<open>WHERE assignment_id IN (SELECT assignment_id FROM assignments WHERE group_id = ?)\<close>.\<close>

definition result_of_group :: "db \<Rightarrow> id \<Rightarrow> result_row \<Rightarrow> bool" where
  "result_of_group d g r \<longleftrightarrow> list_ex (\<lambda>x. a_assignment_id x = r_assignment_id r \<and> a_group_id x = g) (assignments d)"

definition record_processed_group_in :: "id \<Rightarrow> digest \<Rightarrow> digest \<Rightarrow> string \<Rightarrow> nat \<Rightarrow> nat list \<Rightarrow> time \<Rightarrow> db
    \<Rightarrow> error + unit \<times> db" where
  "record_processed_group_in g input_digest artifact_digest path size_bytes token_counts now d =
     (case processed_group_at d g of
        Some existing \<Rightarrow>
          if (pg_input_digest existing, pg_artifact_digest existing, pg_artifact_path existing, pg_size_bytes existing,
              pg_rollout_count existing) \<noteq> (input_digest, artifact_digest, path, size_bytes, length token_counts)
          then Inl ConflictError else Inr ((), d)
      | None \<Rightarrow>
          (case group_at d g of
             None \<Rightarrow> Inl InvalidStateError
           | Some gr \<Rightarrow>
               if g_state gr \<noteq> Ready then Inl InvalidStateError
               else and_then (insert_processed_group
                   \<lparr>pg_group_id = g, pg_input_digest = input_digest, pg_artifact_digest = artifact_digest,
                    pg_artifact_path = path, pg_size_bytes = size_bytes, pg_rollout_count = length token_counts,
                    pg_processed_at = now\<rparr> d) (\<lambda>d1.
                 and_then (insert_rollouts g token_counts d1) (\<lambda>d2.
                 Inr ((), set_processing (result_of_group d2 g) Proc_processed d2)))))"

definition record_processed_group :: "repository \<Rightarrow> id \<Rightarrow> digest \<Rightarrow> digest \<Rightarrow> string \<Rightarrow> nat \<Rightarrow> nat list \<Rightarrow> time \<Rightarrow> db
    \<Rightarrow> (error + unit) \<times> db" where
  "record_processed_group R g input_digest artifact_digest path size_bytes token_counts now d =
     (case relative_to (run_root R) path of
        Inl e \<Rightarrow> (Inl e, d)
      | Inr p \<Rightarrow> transaction (record_processed_group_in g input_digest artifact_digest p size_bytes token_counts now) d)"

record pending_rollout =
  pp_group_id :: id
  pp_ordinal :: nat
  pp_token_count :: nat
  pp_artifact_path :: string
  pp_artifact_digest :: digest
  pp_size_bytes :: nat

definition available :: "processed_rollout_row \<Rightarrow> bool" where
  "available r \<longleftrightarrow> pr_batch_step r = None \<and> \<not> pr_discarded r"

text \<open>The joins with \<open>processed_groups\<close> and \<open>rollout_groups\<close>, ordered by the group's sequence.\<close>

definition joined_rollout :: "repository \<Rightarrow> db \<Rightarrow> processed_rollout_row \<Rightarrow> (nat \<times> pending_rollout) option" where
  "joined_rollout R d r =
     (case (processed_group_at d (pr_group_id r), group_at d (pr_group_id r)) of
        (Some p, Some g) \<Rightarrow> Some (g_sequence g,
          \<lparr>pp_group_id = pr_group_id r, pp_ordinal = pr_ordinal r, pp_token_count = pr_token_count r,
           pp_artifact_path = under_root R (pg_artifact_path p), pp_artifact_digest = pg_artifact_digest p,
           pp_size_bytes = pg_size_bytes p\<rparr>)
      | _ \<Rightarrow> None)"

definition pending_processed_rollouts :: "repository \<Rightarrow> db \<Rightarrow> pending_rollout list" where
  "pending_processed_rollouts R d =
     map snd (order_by (\<lambda>(s, p). (s, pp_ordinal p, pp_group_id p))
       (List.map_filter (joined_rollout R d) (filter available (processed_rollouts d))))"

record processed_group_record =
  gr_group_id :: id
  gr_artifact_digest :: digest
  gr_artifact_path :: string
  gr_size_bytes :: nat

definition processed_group_records :: "repository \<Rightarrow> db \<Rightarrow> processed_group_record list" where
  "processed_group_records R d =
     map (\<lambda>p. \<lparr>gr_group_id = pg_group_id p, gr_artifact_digest = pg_artifact_digest p,
           gr_artifact_path = under_root R (pg_artifact_path p), gr_size_bytes = pg_size_bytes p\<rparr>)
       (order_by (\<lambda>p. (pg_processed_at p, pg_group_id p)) (processed_groups d))"

section \<open>Discarding and batching\<close>

definition rollout_key :: "processed_rollout_row \<Rightarrow> id \<times> nat" where
  "rollout_key r = (pr_group_id r, pr_ordinal r)"

text \<open>The statements run one member at a time; the row counts are summed up.\<close>

definition discard_one :: "id \<times> nat \<Rightarrow> nat \<times> db \<Rightarrow> nat \<times> db" where
  "discard_one m s =
     (case s of (updated, d) \<Rightarrow>
        let P = (\<lambda>r. rollout_key r = m \<and> available r) in
        (updated + count_where P (processed_rollouts d),
         d\<lparr>processed_rollouts := update_where P (\<lambda>r. r\<lparr>pr_discarded := True\<rparr>) (processed_rollouts d)\<rparr>))"

definition discard_processed_rollouts :: "(id \<times> nat) list \<Rightarrow> db \<Rightarrow> (error + unit) \<times> db" where
  "discard_processed_rollouts members =
     transaction (\<lambda>d.
       if members = [] then Inl ValueError
       else case fold discard_one members (0, d) of
         (updated, d1) \<Rightarrow> if updated \<noteq> length members then Inl ConflictError else Inr ((), d1))"

text \<open>\<open>COALESCE(MAX(step), 0) + 1\<close>.\<close>

definition next_training_batch_step :: "db \<Rightarrow> nat" where
  "next_training_batch_step d = fold max (map b_step (training_batches d)) 0 + 1"

definition assign_member :: "nat \<Rightarrow> nat \<times> id \<times> nat \<Rightarrow> db \<Rightarrow> error + db" where
  "assign_member step om d =
     (case om of (ordinal, m) \<Rightarrow>
        let P = (\<lambda>r. rollout_key r = m \<and> pr_batch_step r = None) in
        and_then (guard (batch_at d step \<noteq> None \<and>
            list_all (\<lambda>r. P r \<longrightarrow> \<not> pr_discarded r \<and>
              \<not> list_ex (\<lambda>x. x \<noteq> r \<and> pr_batch_step x = Some step \<and> pr_batch_ordinal x = Some ordinal) (processed_rollouts d))
              (processed_rollouts d)) IntegrityError)
          (\<lambda>_. Inr (d\<lparr>processed_rollouts := update_where P
             (\<lambda>r. r\<lparr>pr_batch_step := Some step, pr_batch_ordinal := Some ordinal\<rparr>) (processed_rollouts d)\<rparr>)))"

definition record_training_batch_in :: "nat \<Rightarrow> digest \<Rightarrow> string \<Rightarrow> nat \<Rightarrow> nat \<Rightarrow> (id \<times> nat) list \<Rightarrow> time \<Rightarrow> db
    \<Rightarrow> error + unit \<times> db" where
  "record_training_batch_in step artifact_digest path size_bytes sample_count members now d =
     (case batch_at d step of
        Some existing \<Rightarrow>
          if (b_artifact_digest existing, b_artifact_path existing, b_size_bytes existing, b_sample_count existing)
             \<noteq> (artifact_digest, path, size_bytes, sample_count)
          then Inl ConflictError else Inr ((), d)
      | None \<Rightarrow>
          if step \<noteq> next_training_batch_step d then Inl InvalidStateError
          else if count_where (\<lambda>r. available r \<and> rollout_key r \<in> set members) (processed_rollouts d)
              \<noteq> length members then Inl ConflictError
          else and_then (insert_batch
              \<lparr>b_step = step, b_artifact_digest = artifact_digest, b_artifact_path = path, b_size_bytes = size_bytes,
               b_sample_count = sample_count, b_created_at = now\<rparr> d) (\<lambda>d1.
            and_then (fold_step (assign_member step) (enumerate 0 members) d1) (\<lambda>d2. Inr ((), d2))))"

definition record_training_batch :: "repository \<Rightarrow> nat \<Rightarrow> digest \<Rightarrow> string \<Rightarrow> nat \<Rightarrow> nat \<Rightarrow> (id \<times> nat) list \<Rightarrow> time \<Rightarrow> db
    \<Rightarrow> (error + unit) \<times> db" where
  "record_training_batch R step artifact_digest path size_bytes sample_count members now d =
     (if members = [] \<or> sample_count < 1 then (Inl ValueError, d)
      else case relative_to (run_root R) path of
        Inl e \<Rightarrow> (Inl e, d)
      | Inr p \<Rightarrow> transaction (record_training_batch_in step artifact_digest p size_bytes sample_count members now) d)"

record training_batch_record =
  tb_step :: nat
  tb_artifact_digest :: digest
  tb_artifact_path :: string
  tb_size_bytes :: nat
  tb_sample_count :: nat

definition training_batch_records :: "repository \<Rightarrow> int \<Rightarrow> db \<Rightarrow> error + training_batch_record list" where
  "training_batch_records R after_step d =
     (if after_step < 0 then Inl ValueError
      else Inr (map (\<lambda>b. \<lparr>tb_step = b_step b, tb_artifact_digest = b_artifact_digest b,
             tb_artifact_path = under_root R (b_artifact_path b), tb_size_bytes = b_size_bytes b,
             tb_sample_count = b_sample_count b\<rparr>)
           (order_by b_step (filter (\<lambda>b. after_step < int (b_step b)) (training_batches d)))))"

section \<open>The life of a processed rollout\<close>

datatype rollout_phase = Unprocessed | Available nat | Batched nat nat nat | Discarded nat

inductive rollout_life :: "rollout_phase \<Rightarrow> rollout_phase \<Rightarrow> bool" where
  process: "rollout_life Unprocessed (Available n)"
| batch: "0 < step \<Longrightarrow> rollout_life (Available n) (Batched n step ordinal)"
| discard: "rollout_life (Available n) (Discarded n)"

inductive_simps rollout_life_end [simp]: "rollout_life (Batched n s i) q" "rollout_life (Discarded n) q"

definition row_phase :: "processed_rollout_row \<Rightarrow> rollout_phase" where
  "row_phase r =
     (case (pr_batch_step r, pr_batch_ordinal r) of
        (Some s, Some i) \<Rightarrow> Batched (pr_token_count r) s i
      | _ \<Rightarrow> if pr_discarded r then Discarded (pr_token_count r) else Available (pr_token_count r))"

definition rollout_phase_of :: "db \<Rightarrow> id \<times> nat \<Rightarrow> rollout_phase" where
  "rollout_phase_of d m =
     (case row_at rollout_key (processed_rollouts d) m of None \<Rightarrow> Unprocessed | Some r \<Rightarrow> row_phase r)"

text \<open>Batches are numbered from 1 without a gap; a rollout has one row, and the columns agree.\<close>

definition rollout_ok :: "nat \<Rightarrow> processed_rollout_row \<Rightarrow> bool" where
  "rollout_ok n r \<longleftrightarrow>
     (case pr_batch_step r of
        None \<Rightarrow> pr_batch_ordinal r = None
      | Some s \<Rightarrow> pr_batch_ordinal r \<noteq> None \<and> \<not> pr_discarded r \<and> 0 < s \<and> s \<le> n)"

definition batches_ok :: "db \<Rightarrow> bool" where
  "batches_ok d \<longleftrightarrow>
     map b_step (training_batches d) = map Suc [0..<length (training_batches d)] \<and>
     distinct (map rollout_key (processed_rollouts d)) \<and>
     (\<forall>r \<in> set (processed_rollouts d). rollout_ok (length (training_batches d)) r)"

definition consumes :: "db \<Rightarrow> db \<Rightarrow> bool" where
  "consumes d d' \<longleftrightarrow> batches_ok d' \<and> (\<forall>m. rollout_life\<^sup>*\<^sup>* (rollout_phase_of d m) (rollout_phase_of d' m))"

definition batch_tables where
  "batch_tables d = (training_batches d, processed_groups d, processed_rollouts d)"

lemma consumes_refl: "batches_ok d \<Longrightarrow> consumes d d"
  by (simp add: consumes_def)

lemma consumes_trans: "consumes d d' \<Longrightarrow> consumes d' d'' \<Longrightarrow> consumes d d''"
  unfolding consumes_def by (meson rtranclp_trans)

lemma consumes_frame: "batches_ok d \<Longrightarrow> batch_tables d' = batch_tables d \<Longrightarrow> consumes d d'"
  by (simp add: consumes_def batches_ok_def rollout_ok_def rollout_phase_of_def batch_tables_def cong: option.case_cong)


lemma rollout_key_simps [simp]:
  "rollout_key (r\<lparr>pr_discarded := b\<rparr>) = rollout_key r"
  "rollout_key (r\<lparr>pr_batch_step := s, pr_batch_ordinal := i\<rparr>) = rollout_key r"
  by (simp_all add: rollout_key_def)

lemma consumes_batches: "consumes d d' \<Longrightarrow> batches_ok d'"
  by (simp add: consumes_def)

text \<open>A change of some rows, each along the abstract machine.\<close>

lemma consumes_update:
  assumes ok: "batches_ok d"
    and f: "\<And>r. r \<in> set (processed_rollouts d) \<Longrightarrow> P r \<Longrightarrow> rollout_ok (length (training_batches d)) (f r) \<and> rollout_life (row_phase r) (row_phase (f r))"
    and key: "\<And>r. rollout_key (f r) = rollout_key r"
  shows "consumes d (d\<lparr>processed_rollouts := update_where P f (processed_rollouts d)\<rparr>)" (is "consumes d ?d")
proof -
  have "rollout_ok (length (training_batches d)) r" if "r \<in> set (processed_rollouts ?d)" for r
    using that f ok by (auto simp: batches_ok_def set_update_where split: if_splits)
  then have "batches_ok ?d" using ok by (simp add: batches_ok_def key)
  moreover have "rollout_life\<^sup>*\<^sup>* (rollout_phase_of d m) (rollout_phase_of ?d m)" for m
    using f row_at_SomeD(2) [of rollout_key "processed_rollouts d" m]
    by (auto simp: rollout_phase_of_def row_at_update_where key split: option.split)
  ultimately show ?thesis by (simp add: consumes_def)
qed

lemma consumes_process:
  assumes ok: "batches_ok d" and new: "row_at rollout_key (processed_rollouts d) (rollout_key r) = None"
    and r: "pr_batch_step r = None" "pr_batch_ordinal r = None" "\<not> pr_discarded r"
  shows "consumes d (d\<lparr>processed_rollouts := processed_rollouts d @ [r]\<rparr>)" (is "consumes d ?d")
proof -
  have "batches_ok ?d"
    using ok new r by (auto simp: batches_ok_def rollout_ok_def row_at_None_iff cong: option.case_cong)
  moreover have "rollout_life\<^sup>*\<^sup>* (rollout_phase_of d m) (rollout_phase_of ?d m)" for m
    using r new by (auto simp: rollout_phase_of_def row_at_snoc row_phase_def split: option.split intro: rollout_life.intros)
  ultimately show ?thesis by (simp add: consumes_def)
qed

lemma insert_rollout_consumes:
  assumes "batches_ok d" "insert_processed_rollout r d = Inr d'"
    and "pr_batch_step r = None" "pr_batch_ordinal r = None" "\<not> pr_discarded r"
  shows "consumes d d'"
proof -
  have "rollout_key r \<notin> rollout_key ` set (processed_rollouts d)" "d' = d\<lparr>processed_rollouts := processed_rollouts d @ [r]\<rparr>"
    using assms(2) by (auto simp: insert_processed_rollout_def and_then_eq_Inr list_ex_iff rollout_key_def)
  with consumes_process [OF assms(1) _ assms(3-5)] show ?thesis by (simp add: row_at_None_iff)
qed

lemma insert_rollouts_consumes:
  assumes "batches_ok d" "insert_rollouts g ns d = Inr d'"
  shows "consumes d d'"
proof (rule fold_step_invariant [OF assms(2) [unfolded insert_rollouts_def], where P = "consumes d"])
  fix x s s' assume s: "consumes d s" and x: "(case x of (ordinal, n) \<Rightarrow> insert_processed_rollout
    \<lparr>pr_group_id = g, pr_ordinal = ordinal, pr_token_count = n, pr_batch_step = None,
     pr_batch_ordinal = None, pr_discarded = False\<rparr>) s = Inr s'"
  obtain i n where "x = (i, n)" by (cases x)
  with x have "consumes s s'" using insert_rollout_consumes [OF consumes_batches [OF s]] by simp
  with s show "consumes d s'" by (rule consumes_trans)
qed (rule consumes_refl [OF assms(1)])

lemma record_processed_group_consumes:
  assumes "batches_ok d"
  shows "consumes d (snd (record_processed_group R g di da path n ns now d))"
proof -
  have "consumes d d'" if r: "record_processed_group_in g di da p n ns now d = Inr (u, d')" for p u d'
  proof (cases "processed_group_at d g")
    case (Some e)
    with r show ?thesis using assms by (auto simp: record_processed_group_in_def split: if_splits intro: consumes_refl)
  next
    case None
    with r obtain row d1 d2 where 1: "insert_processed_group row d = Inr d1" and 2: "insert_rollouts g ns d1 = Inr d2"
      and d': "d' = set_processing (result_of_group d2 g) Proc_processed d2"
      by (auto simp: record_processed_group_in_def and_then_eq_Inr split: option.splits if_splits)
    have d1: "d1 = d\<lparr>processed_groups := processed_groups d @ [row]\<rparr>"
      using 1 by (auto simp: insert_processed_group_def and_then_eq_Inr)
    have ok: "batches_ok d1" using assms by (simp add: d1 batches_ok_def rollout_ok_def)
    have "consumes d1 d2" using ok 2 by (rule insert_rollouts_consumes)
    then show ?thesis
      by (simp add: d' d1 consumes_def batches_ok_def rollout_ok_def rollout_phase_of_def set_processing_def)
  qed
  then show ?thesis
    using consumes_refl [OF assms] by (auto simp: record_processed_group_def transaction_def split: sum.split prod.split)
qed

lemma discard_one_consumes:
  assumes "batches_ok d"
  shows "consumes d (snd (discard_one m (n, d)))"
  unfolding discard_one_def Let_def prod.case snd_conv
  by (rule consumes_update [OF assms])
    (use assms in \<open>auto simp: available_def rollout_ok_def row_phase_def batches_ok_def intro: rollout_life.intros\<close>)

lemma discard_consumes:
  assumes "batches_ok d"
  shows "consumes d (snd (discard_processed_rollouts members d))"
proof -
  have "consumes d (snd (fold discard_one ms s))" if "consumes d (snd s)" for ms s
    using that
  proof (induction ms arbitrary: s)
    case (Cons m ms)
    have "consumes (snd s) (snd (discard_one m s))"
      using discard_one_consumes [of "snd s" m "fst s"] Cons.prems by (simp add: consumes_def)
    with Cons show ?case by (simp add: consumes_trans)
  qed simp
  from this [of "(0, d)" members] consumes_refl [OF assms] show ?thesis
    by (auto simp: discard_processed_rollouts_def transaction_def split: sum.split prod.split)
qed

lemma next_step_length:
  assumes "batches_ok d"
  shows "next_training_batch_step d = Suc (length (training_batches d))"
proof -
  have "fold max (map Suc [0..<n]) 0 = n" for n
    by (induction n) auto
  with assms show ?thesis by (simp add: next_training_batch_step_def batches_ok_def)
qed

lemma assign_member_consumes:
  assumes "batches_ok d" "0 < step" "step \<le> length (training_batches d)" "assign_member step (i, m) d = Inr d'"
  shows "consumes d d'" "training_batches d' = training_batches d"
proof -
  let ?P = "\<lambda>r. rollout_key r = m \<and> pr_batch_step r = None"
  have P: "\<not> pr_discarded r" if "r \<in> set (processed_rollouts d)" "?P r" for r
    using assms(4) that by (auto simp: assign_member_def and_then_eq_Inr list_all_iff)
  have d': "d' = d\<lparr>processed_rollouts := update_where ?P
      (\<lambda>r. r\<lparr>pr_batch_step := Some step, pr_batch_ordinal := Some i\<rparr>) (processed_rollouts d)\<rparr>"
    using assms(4) by (auto simp: assign_member_def and_then_eq_Inr)
  show "training_batches d' = training_batches d" by (simp add: d')
  show "consumes d d'" unfolding d'
    by (rule consumes_update [OF assms(1)])
      (use P assms(2,3) in \<open>auto simp: rollout_ok_def row_phase_def intro: rollout_life.intros\<close>)
qed

lemma insert_batch_consumes:
  assumes "batches_ok d" "b_step b = next_training_batch_step d" "insert_batch b d = Inr d'"
  shows "consumes d d'" "length (training_batches d') = b_step b"
proof -
  have d': "d' = d\<lparr>training_batches := training_batches d @ [b]\<rparr>"
    using assms(3) by (auto simp: insert_batch_def and_then_eq_Inr)
  note n = next_step_length [OF assms(1)]
  show "length (training_batches d') = b_step b" using n assms(2) by (simp add: d')
  have "batches_ok d'"
    using assms(1) n assms(2) by (auto simp: d' batches_ok_def rollout_ok_def split: option.splits)
  then show "consumes d d'" by (simp add: consumes_def d' rollout_phase_of_def)
qed

lemma record_training_batch_consumes:
  assumes ok: "batches_ok d"
  shows "consumes d (snd (record_training_batch R step da path n k members now d))"
proof -
  have "consumes d d'" if r: "record_training_batch_in step da p n k members now d = Inr (u, d')" for p u d'
  proof (cases "batch_at d step")
    case (Some e)
    with r show ?thesis using ok by (auto simp: record_training_batch_in_def split: if_splits intro: consumes_refl)
  next
    case None
    define b where "b = \<lparr>b_step = step, b_artifact_digest = da, b_artifact_path = p, b_size_bytes = n,
      b_sample_count = k, b_created_at = now\<rparr>"
    with None r obtain d1 where b: "b_step b = next_training_batch_step d" "b_step b = step" "insert_batch b d = Inr d1"
      and 2: "fold_step (assign_member step) (enumerate 0 members) d1 = Inr d'"
      by (auto simp: record_training_batch_in_def and_then_eq_Inr split: if_splits)
    note i = insert_batch_consumes [OF ok b(1,3)]
    have step: "0 < step" "step = length (training_batches d1)" using b i(2) next_step_length [OF ok] by simp_all
    have "consumes d d' \<and> length (training_batches d') = step"
    proof (rule fold_step_invariant [OF 2])
      fix x s s' assume s: "consumes d s \<and> length (training_batches s) = step" and x: "assign_member step x s = Inr s'"
      then have "consumes s s'" "training_batches s' = training_batches s"
        using assign_member_consumes [of s step "fst x" "snd x" s'] step by (simp_all add: consumes_def)
      with s show "consumes d s' \<and> length (training_batches s') = step" by (auto elim: consumes_trans)
    qed (use i(1) step in simp)
    then show ?thesis by simp
  qed
  then show ?thesis
    using consumes_refl [OF ok] by (auto simp: record_training_batch_def transaction_def split: sum.split prod.split)
qed


section \<open>The life of assignments is untouched\<close>

lemma life_tables_insert_processed:
  "insert_processed_group p d = Inr d' \<Longrightarrow> life_tables d' = life_tables d"
  "insert_processed_rollout r d = Inr d' \<Longrightarrow> life_tables d' = life_tables d"
  "insert_batch b d = Inr d' \<Longrightarrow> life_tables d' = life_tables d"
  "assign_member step x d = Inr d' \<Longrightarrow> life_tables d' = life_tables d"
  unfolding insert_processed_group_def insert_processed_rollout_def insert_batch_def assign_member_def Let_def
  by (auto simp: and_then_eq_Inr life_tables_def split: prod.splits)

lemma life_tables_insert_rollouts: "insert_rollouts g ns d = Inr d' \<Longrightarrow> life_tables d' = life_tables d"
  unfolding insert_rollouts_def
  by (drule fold_step_invariant [where P = "\<lambda>s. life_tables s = life_tables d"])
    (auto dest: life_tables_insert_processed)

lemma life_tables_assign: "fold_step (assign_member step) ms d = Inr d' \<Longrightarrow> life_tables d' = life_tables d"
  by (drule fold_step_invariant [where P = "\<lambda>s. life_tables s = life_tables d"])
    (auto dest: life_tables_insert_processed)

lemma record_processed_group_advances:
  assumes "consistent d"
  shows "advances d (snd (record_processed_group R g di da path n ns now d))"
proof -
  have "advances d d'" if "record_processed_group_in g di da p n ns now d = Inr (u, d')" for p u d'
    using that advances_refl [OF assms]
    by (auto simp: record_processed_group_in_def and_then_eq_Inr split: option.splits if_splits
        dest!: life_tables_insert_processed life_tables_insert_rollouts
        intro!: set_processing_advances intro: advances_frame [OF advances_refl [OF assms]])
  then show ?thesis
    using advances_refl [OF assms]
    by (auto simp: record_processed_group_def transaction_def split: sum.split prod.split)
qed

lemma life_tables_discard: "life_tables (snd (fold discard_one ms s)) = life_tables (snd s)"
proof (induction ms arbitrary: s)
  case (Cons m ms)
  have "life_tables (snd (discard_one m s)) = life_tables (snd s)"
    by (cases s) (simp add: discard_one_def life_tables_def Let_def)
  with Cons show ?case by simp
qed simp

lemma discard_advances:
  assumes "consistent d"
  shows "advances d (snd (discard_processed_rollouts members d))"
  unfolding discard_processed_rollouts_def
proof (rule transaction_advances [OF assms], goal_cases)
  case (1 a d')
  then have "d' = snd (fold discard_one members (0, d))" by (auto split: if_splits prod.splits)
  then show ?case using life_tables_discard [of members "(0, d)"] by (auto intro: advances_frame [OF advances_refl [OF assms]])
qed

lemma record_training_batch_advances:
  assumes "consistent d"
  shows "advances d (snd (record_training_batch R step da path n k members now d))"
proof -
  have "advances d d'" if "record_training_batch_in step da p n k members now d = Inr (u, d')" for p u d'
    using that advances_refl [OF assms]
    by (auto simp: record_training_batch_in_def and_then_eq_Inr split: option.splits if_splits
        dest!: life_tables_insert_processed life_tables_assign intro: advances_frame [OF advances_refl [OF assms]])
  then show ?thesis
    using advances_refl [OF assms]
    by (auto simp: record_training_batch_def transaction_def split: sum.split prod.split)
qed


section \<open>The run, the policies and the sources are untouched\<close>

definition run_part where
  "run_part d = (runs d, policies d, scheduler_sources d)"

lemma run_part_inserts:
  "insert_processed_group p d = Inr d' \<Longrightarrow> run_part d' = run_part d"
  "insert_processed_rollout r d = Inr d' \<Longrightarrow> run_part d' = run_part d"
  "insert_batch b d = Inr d' \<Longrightarrow> run_part d' = run_part d"
  "assign_member step x d = Inr d' \<Longrightarrow> run_part d' = run_part d"
  unfolding insert_processed_group_def insert_processed_rollout_def insert_batch_def assign_member_def Let_def
  by (auto simp: and_then_eq_Inr run_part_def split: prod.splits)

lemma run_part_insert_rollouts: "insert_rollouts g ns d = Inr d' \<Longrightarrow> run_part d' = run_part d"
  unfolding insert_rollouts_def
  by (drule fold_step_invariant [where P = "\<lambda>s. run_part s = run_part d"]) (auto dest: run_part_inserts)

lemma run_part_assign: "fold_step (assign_member step) ms d = Inr d' \<Longrightarrow> run_part d' = run_part d"
  by (drule fold_step_invariant [where P = "\<lambda>s. run_part s = run_part d"]) (auto dest: run_part_inserts)

lemma run_part_discard: "run_part (snd (fold discard_one ms s)) = run_part (snd s)"
proof (induction ms arbitrary: s)
  case (Cons m ms)
  have "run_part (snd (discard_one m s)) = run_part (snd s)"
    by (cases s) (simp add: discard_one_def run_part_def Let_def)
  with Cons show ?case by simp
qed simp

lemma run_part_processing [simp]: "run_part (set_processing P st d) = run_part d"
  by (simp add: run_part_def set_processing_def)

lemma run_part_record_processed: "run_part (snd (record_processed_group R g di da path n ns now d)) = run_part d"
proof -
  have "run_part d' = run_part d" if "record_processed_group_in g di da p n ns now d = Inr (u, d')" for p u d'
    using that by (auto simp: record_processed_group_in_def and_then_eq_Inr split: option.splits if_splits
        dest!: run_part_inserts run_part_insert_rollouts)
  then show ?thesis
    by (auto simp: record_processed_group_def transaction_def split: sum.split prod.split)
qed

lemma run_part_discarded: "run_part (snd (discard_processed_rollouts members d)) = run_part d"
  using run_part_discard [of members "(0, d)"]
  by (auto simp: discard_processed_rollouts_def transaction_def split: sum.split prod.split)

lemma run_part_record_batch: "run_part (snd (record_training_batch R step da path n k members now d)) = run_part d"
proof -
  have "run_part d' = run_part d" if "record_training_batch_in step da p n k members now d = Inr (u, d')" for p u d'
    using that by (auto simp: record_training_batch_in_def and_then_eq_Inr split: option.splits if_splits
        dest!: run_part_inserts run_part_assign)
  then show ?thesis
    by (auto simp: record_training_batch_def transaction_def split: sum.split prod.split)
qed

end
