(* ===== verification/Coordinator.thy ===== *)
theory Coordinator
  imports Quiet Batch_Store
begin

text \<open>
  The coordinator as a whole: a state machine whose steps are the public operations of the
  repository, in any order and with any arguments, and the invariant of its reachable states.
\<close>

section \<open>Invariants of state machines\<close>

locale invariant_system =
  fixes init :: "'s \<Rightarrow> bool" and step :: "'s \<Rightarrow> 's \<Rightarrow> bool" and good :: "'s \<Rightarrow> bool"
  assumes init_good: "init s \<Longrightarrow> good s"
    and step_good: "good s \<Longrightarrow> step s s' \<Longrightarrow> good s'"
begin

lemma good_reachable:
  assumes "step\<^sup>*\<^sup>* s s'" "good s"
  shows "good s'"
  using assms by (induction rule: rtranclp_induct) (auto intro: step_good)

lemma reachable_good: "init s \<Longrightarrow> step\<^sup>*\<^sup>* s s' \<Longrightarrow> good s'"
  by (blast intro: good_reachable init_good)

end

text \<open>A machine whose steps also follow an abstract machine, seen through \<open>view\<close>.\<close>

locale refinement_system = invariant_system +
  fixes view :: "'s \<Rightarrow> 'i \<Rightarrow> 'p" and abstract :: "'p \<Rightarrow> 'p \<Rightarrow> bool"
  assumes step_view: "good s \<Longrightarrow> step s s' \<Longrightarrow> abstract\<^sup>*\<^sup>* (view s i) (view s' i)"
begin

lemma reachable_view:
  assumes "good s" "step\<^sup>*\<^sup>* s s'"
  shows "abstract\<^sup>*\<^sup>* (view s i) (view s' i)"
  using assms(2,1)
proof (induction rule: rtranclp_induct)
  case (step s1 s2)
  have "good s1" using good_reachable [OF step.hyps(1) step.prems] .
  from step_view [OF this step.hyps(2)] step.IH [OF step.prems] show ?case by (meson rtranclp_trans)
qed simp

text \<open>A property that the abstract machine cannot leave is stable.\<close>

lemma stable:
  assumes "good s" "step\<^sup>*\<^sup>* s s'" "P (view s i)" "\<And>p q. P p \<Longrightarrow> abstract p q \<Longrightarrow> P q"
  shows "P (view s' i)"
proof -
  have "abstract\<^sup>*\<^sup>* (view s i) (view s' i)" using reachable_view [OF assms(1,2)] .
  then show ?thesis using assms(3) by (induction rule: rtranclp_induct) (auto intro: assms(4))
qed

end

section \<open>The operations of the repository\<close>

text \<open>
  One rule per public method that writes. What the callers of the repository guarantee are the
  premises: messages and assignments are validated models, and the clock does not read a time
  before a lease was issued when that lease's failure arrives.
\<close>

inductive coordinator_step :: "repository \<Rightarrow> db \<times> spool \<Rightarrow> db \<times> spool \<Rightarrow> bool" for R where
  initialize: "valid_manifest R base \<Longrightarrow> coordinator_step R (d, sp) (snd (initialize_run R base d), sp)"
| record_pol: "coordinator_step R (d, sp) (snd (record_policy R m path d), sp)"
| record_activate: "coordinator_step R (d, sp) (snd (record_and_activate_policy R m path now d), sp)"
| activate: "coordinator_step R (d, sp) (snd (activate_policy R p now d), sp)"
| configure: "coordinator_step R (d, sp) (snd (configure_scheduler lag pref now d), sp)"
| register: "coordinator_step R (d, sp) (snd (register_worker reg now d), sp)"
| heartbeat: "WorkerHeartbeat hb \<Longrightarrow> coordinator_step R (d, sp) (snd (record_heartbeat hb duration now d), sp)"
| validate_request: "coordinator_step R (d, sp) (snd (validate_lease_request R req now d), sp)"
| no_work: "coordinator_step R (d, sp) (snd (mark_lease_request_no_work q now d), sp)"
| associate: "coordinator_step R (d, sp) (snd (associate_offered_lease req offered now t d), sp)"
| associate_batch: "coordinator_step R (d, sp) (snd (associate_offered_leases req leases clock t d), sp)"
| release: "coordinator_step R (d, sp) (snd (release_unoffered_lease l now d), sp)"
| register_source: "coordinator_step R (d, sp) (snd (register_scheduler_source spec d), sp)"
| next_group: "coordinator_step R (d, sp) (snd (create_next_group R None fresh now d), sp)"
| manual_group: "list_all RolloutAssignment xs \<Longrightarrow> coordinator_step R (d, sp) (snd (create_group R xs n d), sp)"
| lease_next: "coordinator_step R (d, sp) (snd (lease_next_compatible R req duration l now d), sp)"
| create: "coordinator_step R (d, sp) (snd (create_lease R a w s l duration now0 now d), sp)"
| renew: "coordinator_step R (d, sp) (snd (renew_lease l w s duration expected sent ack now d), sp)"
| expire: "coordinator_step R (d, sp) (snd (expire_leases R now d), sp)"
| result: "coordinator_step R (d, sp) (snd (accept_result R env t now (d, sp)))"
| failure: "(\<And>lr. lease_at d (fe_lease_id f) = Some lr \<Longrightarrow> l_issued_at lr \<le> now) \<Longrightarrow>
    coordinator_step R (d, sp) (snd (accept_failure R f now d), sp)"
| claim: "coordinator_step R (d, sp) (snd (claim_pending_results n d), sp)"
| processed: "coordinator_step R (d, sp) (snd (mark_result_processed a d), sp)"
| process_group: "coordinator_step R (d, sp) (snd (record_processed_group R g di da path n counts now d), sp)"
| discard: "coordinator_step R (d, sp) (snd (discard_processed_rollouts members d), sp)"
| record_batch: "coordinator_step R (d, sp) (snd (record_training_batch R bstep da path n samples members now d), sp)"
| recovery: "coordinator_step R (d, sp) (snd (recover R now (d, sp)))"

text \<open>The invariant of the repository.\<close>

definition repository_inv :: "db \<Rightarrow> bool" where
  "repository_inv d \<longleftrightarrow> consistent d \<and> policies_ok d \<and> sources_ok d \<and> fair d \<and> batches_ok d"

lemma repository_inv_migrated: "repository_inv migrated_db"
proof -
  have "consistent migrated_db"
    by (simp add: consistent_def core_def keys_def groups_ok_except_def at_defs migrated_db_def)
  then show ?thesis
    by (simp add: repository_inv_def policies_ok_def sources_ok_def fair_def batches_ok_def migrated_db_def)
qed

text \<open>\<open>obeys d d'\<close>: the invariant again, steps of the lives of assignments and of processed rollouts,
  and no return to an older policy.\<close>

definition obeys :: "db \<Rightarrow> db \<Rightarrow> bool" where
  "obeys d d' \<longleftrightarrow> repository_inv d' \<and> advances d d' \<and> consumes d d' \<and>
     (case active_version d of None \<Rightarrow> True
      | Some v \<Rightarrow> (case active_version d' of None \<Rightarrow> False | Some v' \<Rightarrow> v \<le> v'))"

lemma obeysI_same_version:
  assumes "advances d d'" "policies_ok d'" "sources_ok d'" "fair d'" "active_version d' = active_version d"
    "consumes d d'"
  shows "obeys d d'"
  using assms by (auto simp: obeys_def repository_inv_def advances_inv consumes_batches split: option.split)

lemma obeys_quiet:
  assumes "repository_inv d" "advances d d'" "quiet_tables d' = quiet_tables d"
  shows "obeys d d'"
proof -
  have "batch_tables d' = batch_tables d" using assms(3) by (simp add: quiet_tables_def batch_tables_def)
  with quiet_keeps [OF assms(3)] assms(1,2) consumes_frame show ?thesis
    by (intro obeysI_same_version) (simp_all add: repository_inv_def)
qed

lemma obeys_refl: "repository_inv d \<Longrightarrow> obeys d d"
  by (rule obeys_quiet) (simp_all add: repository_inv_def advances_refl)

lemma obeys_transaction:
  assumes "repository_inv d" "\<And>a d'. body d = Inr (a, d') \<Longrightarrow> obeys d d'"
  shows "obeys d (snd (transaction body d))"
  using assms obeys_refl by (intro transaction_keeps [where P = "obeys d"]) auto

section \<open>Policy operations\<close>

definition source_part where
  "source_part d = (scheduler_sources d, batch_tables d)"

lemma source_partD:
  assumes "source_part d' = source_part d"
  shows "sources_ok d' = sources_ok d" "fair d' = fair d" "batches_ok d \<Longrightarrow> consumes d d'" "batches_ok d \<Longrightarrow> batches_ok d'"
  using assms sources_ok_frame [of d' d] fair_frame [of d' d] consumes_frame [of d d'] consumes_batches
  by (auto simp: source_part_def)

lemma run_sources:
  "insert_policy p d = Inr d' \<Longrightarrow> source_part d' = source_part d"
  "insert_run r d = Inr d' \<Longrightarrow> source_part d' = source_part d"
  "set_active_policy q d = Inr d' \<Longrightarrow> source_part d' = source_part d"
  unfolding insert_policy_def insert_run_def set_active_policy_def
  by (elim and_then_InrE; auto simp: source_part_def batch_tables_def simp del: guard_eq_Inr)+

lemma record_policy_in_sources: "record_policy_in R m p d = Inr d' \<Longrightarrow> source_part d' = source_part d"
  by (auto simp: record_policy_in_def and_then_eq_Inr split: if_splits option.splits dest: run_sources)

lemma reconcile_frame:
  assumes "reconcile_stale_work now d = Inr d'"
  shows "policies_ok d' = policies_ok d" "active_version d' = active_version d"
    "source_part d' = source_part d" "policies d' = policies d"
proof -
  have c: "configuration d' = configuration d" using assms by (rule configuration_reconcile)
  then have q: "quiet_tables d' = quiet_tables d" by (rule quiet_configuration)
  show "policies_ok d' = policies_ok d" "active_version d' = active_version d" using quiet_keeps(1,2) [OF q] .
  show "source_part d' = source_part d" "policies d' = policies d"
    using q by (simp_all add: quiet_tables_def source_part_def batch_tables_def)
qed

lemma switch_policy_obeys:
  assumes "consistent d" "policies_ok d" "sources_ok d" "fair d" "batches_ok d" "switch_policy p v now d = Inr d'"
    and row: "\<And>q. policy_at d p = Some q \<Longrightarrow> p_policy_version q = v"
  shows "obeys d d'"
proof -
  from assms(6,2) obtain d1 w where d1: "set_active_policy p d = Inr d1" "reconcile_stale_work now d1 = Inr d'"
    and w: "active_version d = Some w" "w \<le> v" and ok: "policies_ok d1" "policy_at d p \<noteq> None"
    and av: "active_version d1 = map_option p_policy_version (policy_at d p)"
    by (rule switch_policyD)
  note rf = reconcile_frame [OF d1(2)]
  have "source_part d' = source_part d" using rf(3) run_sources(3) [OF d1(1)] by simp
  note src = source_partD [OF this]
  have "active_version d' = Some v" using rf(2) av ok(2) row by auto
  then show ?thesis
    using switch_policy_advances [OF assms(1,6)] rf(1) ok(1) src assms(3-5) w
    by (simp add: obeys_def repository_inv_def advances_inv)
qed

lemma initialize_run_obeys:
  assumes i: "repository_inv d" and v: "valid_manifest R base"
  shows "obeys d (snd (initialize_run R base d))"
proof -
  have "obeys d d'" if d': "snd (initialize_run R base d) = d'" for d'
  proof -
    have "source_part d' = source_part d"
      unfolding d' [symmetric] initialize_run_def
      by (rule transaction_keeps [where P = "\<lambda>s. source_part s = source_part d"])
        (auto simp: and_then_eq_Inr split: if_splits option.splits dest!: run_sources)
    note src = source_partD [OF this]
    have "d' = d" if "runs d \<noteq> None"
      unfolding d' [symmetric] initialize_run_def
      by (rule transaction_keeps [where P = "\<lambda>s. s = d"]) (use that in \<open>auto split: if_splits option.splits\<close>)
    then have av: "active_version d = None \<or> active_version d' = active_version d"
      by (cases "runs d") (auto simp: active_version_def active_policy_row_def)
    show ?thesis
      using i src av initialize_run_ok [OF _ v, of d] initialize_run_advances [of d R base] d'
      by (auto simp: obeys_def repository_inv_def advances_inv split: option.split)
  qed
  then show ?thesis by simp
qed

text \<open>What the store relies on: the verification of an artifact returns a validated manifest.\<close>

definition artifacts_validated :: "repository \<Rightarrow> bool" where
  "artifacts_validated R \<longleftrightarrow> (\<forall>p m v. verify_artifact R p m = Inr v \<longrightarrow> valid_manifest R v)"

lemma prepare_validated:
  "artifacts_validated R \<Longrightarrow> prepare_trained_policy_record R m path = Inr (v, p) \<Longrightarrow> valid_manifest R v"
  by (auto simp: artifacts_validated_def prepare_trained_policy_record_def and_then_eq_Inr split: if_splits option.splits)

lemma record_policy_obeys:
  assumes i: "repository_inv d" and av: "artifacts_validated R"
  shows "obeys d (snd (record_policy R m path d))"
  unfolding record_policy_def
proof (rule obeys_transaction [OF i], goal_cases)
  case (1 a d')
  then obtain v p where r: "record_policy_in R v p d = Inr d'" and v: "valid_manifest R v"
    using prepare_validated [OF av] by (auto simp: and_then_eq_Inr)
  have "advances d d'"
    using i advances_frame [OF advances_refl record_policy_in_life [OF r]] by (simp add: repository_inv_def)
  then show ?case
    using i record_policy_in_ok [OF _ r v] source_partD [OF record_policy_in_sources [OF r]]
    by (intro obeysI_same_version) (simp_all add: repository_inv_def)
qed

lemma record_and_activate_obeys:
  assumes i: "repository_inv d" and av: "artifacts_validated R"
  shows "obeys d (snd (record_and_activate_policy R m path now d))"
  unfolding record_and_activate_policy_def
proof (rule obeys_transaction [OF i], goal_cases)
  case (1 a d')
  then obtain v p d1 where r: "record_policy_in R v p d = Inr d1" and v: "valid_manifest R v"
    and s: "switch_policy (pm_policy_id v) (pm_policy_version v) now d1 = Inr d'"
    using prepare_validated [OF av] by (auto simp: and_then_eq_Inr)
  have a1: "advances d d1"
    using i advances_frame [OF advances_refl record_policy_in_life [OF r]] by (simp add: repository_inv_def)
  have ok: "policies_ok d1" "active_version d1 = active_version d" "sources_ok d1" "fair d1" "batches_ok d1" "consumes d d1"
    using i record_policy_in_ok [OF _ r v] source_partD [OF record_policy_in_sources [OF r]]
    by (simp_all add: repository_inv_def)
  have "obeys d1 d'"
    using switch_policy_obeys [OF advances_inv [OF a1] ok(1,3,4,5) s] policy_row_version [OF ok(1) _ v] by blast
  with a1 ok(2,6) show ?case by (auto simp: obeys_def intro: advances_trans consumes_trans)
qed

lemma activate_policy_obeys:
  assumes i: "repository_inv d"
  shows "obeys d (snd (activate_policy R p now d))"
  unfolding activate_policy_def
proof (rule obeys_transaction [OF i], goal_cases)
  case (1 a d')
  then obtain t where t: "policy_at d p = Some t" "switch_policy p (p_policy_version t) now d = Inr d'"
    by (auto simp: and_then_eq_Inr split: option.splits)
  show ?case
    by (rule switch_policy_obeys [OF _ _ _ _ _ t(2)]) (use i t(1) in \<open>simp_all add: repository_inv_def\<close>)
qed

lemma configure_scheduler_obeys:
  assumes i: "repository_inv d"
  shows "obeys d (snd (configure_scheduler lag pref now d))"
proof -
  have "policies_ok d' \<and> active_version d' = active_version d \<and> source_part d' = source_part d"
    if "snd (configure_scheduler lag pref now d) = d'" for d'
    unfolding that [symmetric] configure_scheduler_def
  proof (rule transaction_keeps [where P = "\<lambda>s. policies_ok s \<and> active_version s = active_version d \<and>
        source_part s = source_part d"], goal_cases)
    case 1
    with i show ?case by (simp add: repository_inv_def)
  next
    case (2 a d')
    let ?d1 = "d\<lparr>scheduler_state := map_option (\<lambda>s. s\<lparr>ss_max_policy_lag := Some (nat lag),
      ss_loaded_policy_preference_seconds := Some pref\<rparr>) (scheduler_state d)\<rparr>"
    from 2 have r: "reconcile_stale_work now ?d1 = Inr d'" by (auto simp: and_then_eq_Inr split: if_splits)
    have t: "run_tables ?d1 = run_tables d" "source_part ?d1 = source_part d"
      by (simp_all add: run_tables_def source_part_def batch_tables_def)
    from reconcile_frame [OF r] policies_ok_frame [OF t(1)] active_version_frame [OF t(1)] t(2) i show ?case
      by (simp add: repository_inv_def)
  qed
  note k = this [OF refl]
  then have "source_part (snd (configure_scheduler lag pref now d)) = source_part d" by blast
  note src = source_partD [OF this]
  show ?thesis
    using i k configure_scheduler_advances [of d lag pref now] src
    by (intro obeysI_same_version) (simp_all add: repository_inv_def)
qed

section \<open>Sources and groups\<close>

definition other_part where
  "other_part d = (run_tables d, batch_tables d)"

lemma run_tables_inserts:
  "insert_source s d = Inr d' \<Longrightarrow> other_part d' = other_part d"
  "insert_group g d = Inr d' \<Longrightarrow> other_part d' = other_part d"
  "insert_assignment_row r d = Inr d' \<Longrightarrow> other_part d' = other_part d"
  unfolding insert_source_def insert_group_def insert_assignment_row_def
  by (elim and_then_InrE; auto simp: other_part_def run_tables_def batch_tables_def simp del: guard_eq_Inr)+

lemma run_tables_allocate: "allocate_group_sequence d = Inr (n, d') \<Longrightarrow> other_part d' = other_part d"
  by (auto simp: other_part_def run_tables_def batch_tables_def allocate_group_sequence_def split: option.splits)

lemma run_tables_insert_assignments: "insert_assignments R n xs d = Inr d' \<Longrightarrow> other_part d' = other_part d"
  unfolding insert_assignments_def
  by (drule fold_step_invariant [where P = "\<lambda>s. other_part s = other_part d"]) (auto dest: run_tables_inserts)

lemma run_tables_advance_source [simp]: "other_part (advance_source s d) = other_part d"
  by (simp add: other_part_def run_tables_def batch_tables_def advance_source_def update_source_def)

lemma run_tables_new_group: "new_group R s p task key fresh now d = Inr (cg, d') \<Longrightarrow> other_part d' = other_part d"
  by (auto simp: new_group_def and_then_eq_Inr Let_def split: if_splits
      dest!: run_tables_inserts run_tables_allocate run_tables_insert_assignments)

lemma run_tables_next_group: "other_part (snd (create_next_group R kind fresh now d)) = other_part d"
  unfolding create_next_group_def
  by (rule transaction_keeps [where P = "\<lambda>s. other_part s = other_part d"])
    (auto simp: create_next_group_in_def and_then_eq_Inr Let_def existing_group_def split: option.splits if_splits
      dest!: run_tables_new_group)

lemma run_tables_create_group: "other_part (snd (create_group R xs n d)) = other_part d"
  unfolding create_group_def
  by (rule transaction_keeps [where P = "\<lambda>s. other_part s = other_part d"])
    (auto simp: create_group_in_def and_then_eq_Inr split: option.splits if_splits
      dest!: run_tables_inserts run_tables_allocate run_tables_insert_assignments)

lemma run_tables_register_source: "other_part (snd (register_scheduler_source s d)) = other_part d"
  unfolding register_scheduler_source_def
  by (rule transaction_keeps [where P = "\<lambda>s. other_part s = other_part d"])
    (auto simp: and_then_eq_Inr split: option.splits if_splits dest!: run_tables_inserts)

lemma create_group_sources: "scheduler_sources (snd (create_group R xs n d)) = scheduler_sources d"
  unfolding create_group_def
  by (rule transaction_keeps [where P = "\<lambda>s. scheduler_sources s = scheduler_sources d"])
    (auto simp: create_group_in_def and_then_eq_Inr allocate_group_sequence_def insert_group_def
      split: option.splits if_splits dest!: insert_assignments_sources simp del: guard_eq_Inr)

lemma obeysI_other_part:
  assumes "repository_inv d" "advances d d'" "other_part d' = other_part d" "sources_ok d'" "fair d'"
  shows "obeys d d'"
proof -
  have t: "run_tables d' = run_tables d" "batch_tables d' = batch_tables d" using assms(3) by (simp_all add: other_part_def)
  show ?thesis
    using assms policies_ok_frame [OF t(1)] active_version_frame [OF t(1)] consumes_frame [OF _ t(2)]
    by (intro obeysI_same_version) (simp_all add: repository_inv_def)
qed

text \<open>An operation on batches.\<close>

lemma obeysI_run_part:
  assumes "repository_inv d" "advances d d'" "run_part d' = run_part d" "consumes d d'"
  shows "obeys d d'"
proof -
  have e: "run_tables d' = run_tables d" "scheduler_sources d' = scheduler_sources d"
    using assms(3) by (simp_all add: run_part_def run_tables_def)
  show ?thesis
    using assms policies_ok_frame [OF e(1)] active_version_frame [OF e(1)] sources_ok_frame [OF e(2)] fair_frame [OF e(2)]
    by (intro obeysI_same_version) (simp_all add: repository_inv_def)
qed

section \<open>Every step\<close>

lemma coordinator_step_obeys:
  assumes s: "coordinator_step R s s'" and i: "repository_inv (fst s)"
    and R: "CoordinatorRepository R = Inr R" and av: "artifacts_validated R"
  shows "obeys (fst s) (fst s')"
proof -
  have consistent: "consistent (fst s)" and src: "sources_ok (fst s)" and f: "fair (fst s)"
    and batches: "batches_ok (fst s)" using i by (simp_all add: repository_inv_def)
  show ?thesis
    using s i consistent src f
  proof (cases rule: coordinator_step.cases)
    case (initialize base d sp)
    with i show ?thesis by (simp add: initialize_run_obeys)
  next
    case (next_group d sp fresh now)
    with i consistent src f show ?thesis
      by (simp add: obeysI_other_part create_next_group_advances create_next_group_fair run_tables_next_group)
  next
    case (manual_group xs d sp n)
    with i consistent src f show ?thesis
      by (simp add: obeysI_other_part create_group_advances run_tables_create_group
          sources_ok_frame [OF create_group_sources] fair_frame [OF create_group_sources])
  next
    case (register_source d sp spec)
    with i consistent src f show ?thesis
      by (simp add: obeysI_other_part register_source_advances run_tables_register_source register_source_ok register_source_fair)
  qed (use i consistent batches R av in \<open>simp_all add: obeys_quiet record_policy_obeys record_and_activate_obeys activate_policy_obeys
      configure_scheduler_obeys
      register_worker_advances quiet_register_worker record_heartbeat_advances quiet_record_heartbeat
      validate_lease_request_advances quiet_validate_lease_request mark_lease_request_no_work_advances quiet_mark_no_work
      associate_offered_lease_advances quiet_associate associate_offered_leases_advances quiet_associate_batch
      release_unoffered_lease_advances quiet_release lease_next_compatible_advances quiet_lease_next
      create_lease_advances quiet_create_lease renew_lease_advances quiet_renew_lease
      expire_leases_advances quiet_expire_leases accept_result_advances quiet_accept_result
      accept_failure_advances quiet_accept_failure claim_pending_results_advances quiet_claim
      mark_result_processed_advances quiet_mark_processed
      obeysI_run_part record_processed_group_advances run_part_record_processed record_processed_group_consumes
      discard_advances run_part_discarded discard_consumes
      record_training_batch_advances run_part_record_batch record_training_batch_consumes recover_advances quiet_recover\<close>)
qed

section \<open>Runs\<close>

text \<open>A step of a coordinator whose repository was constructed and whose artifacts are validated.\<close>

definition coordinator_run :: "repository \<Rightarrow> db \<times> spool \<Rightarrow> db \<times> spool \<Rightarrow> bool" where
  "coordinator_run R s s' \<longleftrightarrow>
     CoordinatorRepository R = Inr R \<and> artifacts_validated R \<and> coordinator_step R s s'"

definition coordinator_start :: "db \<times> spool" where
  "coordinator_start = (migrated_db, empty_spool)"

interpretation coord: refinement_system "\<lambda>s. s = coordinator_start" "coordinator_run R" "\<lambda>s. repository_inv (fst s)"
  "\<lambda>s. phase (fst s)" life for R
proof
  show "repository_inv (fst s)" if "s = coordinator_start" for s
    using that by (simp add: coordinator_start_def repository_inv_migrated)
  show "repository_inv (fst s')" if "repository_inv (fst s)" "coordinator_run R s s'" for s s'
    using coordinator_step_obeys [of R s s'] that by (simp add: coordinator_run_def obeys_def)
  show "lives (phase (fst s) i) (phase (fst s') i)" if "repository_inv (fst s)" "coordinator_run R s s'" for s s' i
    using coordinator_step_obeys [of R s s'] that by (simp add: coordinator_run_def obeys_def advances_def)
qed

text \<open>The version of the active policy never falls.\<close>

definition version_step :: "nat option \<Rightarrow> nat option \<Rightarrow> bool" where
  "version_step v v' \<longleftrightarrow> (case v of None \<Rightarrow> True | Some n \<Rightarrow> (case v' of None \<Rightarrow> False | Some n' \<Rightarrow> n \<le> n'))"

interpretation versions: refinement_system "\<lambda>s. s = coordinator_start" "coordinator_run R" "\<lambda>s. repository_inv (fst s)"
  "\<lambda>s (_ :: unit). active_version (fst s)" version_step for R
proof
  show "version_step\<^sup>*\<^sup>* (active_version (fst s)) (active_version (fst s'))"
    if "repository_inv (fst s)" "coordinator_run R s s'" for s s'
    using coordinator_step_obeys [of R s s'] that
    by (intro r_into_rtranclp) (simp add: coordinator_run_def obeys_def version_step_def)
qed

lemma version_steps: "version_step\<^sup>*\<^sup>* v v' \<Longrightarrow> version_step v v'"
proof (induction rule: rtranclp_induct)
  case base
  then show ?case by (simp add: version_step_def split: option.split)
next
  case (step v1 v2)
  then show ?case by (auto simp: version_step_def split: option.splits)
qed

text \<open>The life of a processed rollout, by its group and its ordinal.\<close>

interpretation rollouts: refinement_system "\<lambda>s. s = coordinator_start" "coordinator_run R" "\<lambda>s. repository_inv (fst s)"
  "\<lambda>s. rollout_phase_of (fst s)" rollout_life for R
proof
  show "rollout_life\<^sup>*\<^sup>* (rollout_phase_of (fst s) i) (rollout_phase_of (fst s') i)"
    if "repository_inv (fst s)" "coordinator_run R s s'" for s s' i
    using coordinator_step_obeys [of R s s'] that by (cases i) (simp add: coordinator_run_def obeys_def consumes_def)
qed

end
