(* ===== verification/Scenario.thy ===== *)
theory Scenario
  imports Coordinator
begin

text \<open>
  A concrete coordinator: a repository with fixed stand-ins for the hash functions and encoders,
  a base policy, two sources, a worker, and a run of the coordinator from the empty database
  through registration, a group, two lease requests, a granted lease and an accepted result. Each
  state of the run is written out, and a lemma computes it from the one before. The documents stay
  folded in these rows, so that \<open>simp\<close> evaluates the operations. The witnesses of the properties
  apply them to the states of this run.
\<close>

section \<open>The repository\<close>

definition hex_digest :: "char \<Rightarrow> digest" where
  "hex_digest c = Sha256 (replicate 64 c)"

definition identity_digest :: "policy_identity \<Rightarrow> digest" where
  "identity_digest p = Sha256 (replicate 63 (CHR ''0'') @ [char_of (48 + pi_policy_version p mod 10)])"

definition result_text :: "result_envelope \<Rightarrow> string" where
  "result_text e = ''result'' @ re_assignment_id e"

definition verify_none :: "string \<Rightarrow> policy_manifest \<Rightarrow> error + policy_manifest" where
  "verify_none p m =
     (if PolicyManifest (\<lambda>_. hex_digest (CHR ''a'')) identity_digest m then Inr m else Inl ArtifactCorruptionError)"

definition the_base_model :: base_model_identity where
  "the_base_model =
     \<lparr>bm_model_name = ''base'', bm_model_revision = replicate 40 (CHR ''a''),
      bm_model_config_digest = hex_digest (CHR ''b''), bm_tokenizer_name = ''tok'',
      bm_tokenizer_revision = replicate 40 (CHR ''b''), bm_tokenizer_digest = hex_digest (CHR ''c''),
      bm_chat_template_digest = hex_digest (CHR ''d''), bm_vocab_size = 100, bm_quantization = ''none''\<rparr>"

definition first_result :: result_envelope where
  "first_result =
     \<lparr>re_assignment_id = ''a0'', re_attempt = 1, re_lease_id = ''l0'', re_worker_id = ''w'',
      re_worker_session_id = ''s'', re_requested_policy_id = expected_policy_id 0 (Sha256 (replicate 64 (CHR ''0''))),
      re_served_policy_id = expected_policy_id 0 (Sha256 (replicate 64 (CHR ''0''))),
      re_requested_policy_digest = hex_digest (CHR ''0''), re_served_policy_digest = hex_digest (CHR ''0''),
      re_completed_at = 14, re_result_digest = hex_digest (CHR ''e''), re_episode = JNull\<rparr>"

definition demo :: repository where
  "demo =
     \<lparr>run_root = ''/run'', retry_base_seconds = 1, retry_max_seconds = 60, hash_adapter = \<lambda>_. hex_digest (CHR ''a''),
      hash_identity = identity_digest, hash_request = \<lambda>q. Sha256 (lq_request_id q),
      hash_failure = \<lambda>f. Sha256 (fe_lease_id f), sha256 = \<lambda>_. hex_digest (CHR ''9''),
      result_bytes = result_text, result_json_bytes = result_text,
      decode_result = \<lambda>_ _. Some first_result,
      relative_path = Some, verify_artifact = verify_none, artifact_intact = \<lambda>_. True\<rparr>"

lemma demo_constructed: "CoordinatorRepository demo = Inr demo"
  by (simp add: CoordinatorRepository_def demo_def)

lemma demo_validated: "artifacts_validated demo"
  by (simp add: artifacts_validated_def valid_manifest_def demo_def verify_none_def)

section \<open>The messages\<close>

definition base_policy :: policy_manifest where
  "base_policy =
     \<lparr>pm_run_id = ''run'', pm_policy_version = 0, pm_base_model = the_base_model, pm_adapter = None,
      pm_created_at = 1, pm_policy_id = expected_policy_id 0 (Sha256 (replicate 64 (CHR ''0''))),
      pm_served_model_name = ''base''\<rparr>"

definition the_worker :: worker_registration where
  "the_worker =
     \<lparr>wr_worker_id = ''w'', wr_worker_session_id = ''s'', wr_registered_at = 2,
      wr_capabilities =
        \<lparr>wc_base_model = the_base_model,
         wc_runtime = \<lparr>rt_aether_rl_version = ''1'', rt_python_version = ''3'', rt_torch_version = ''2'',
                       rt_transformers_version = ''4'', rt_vllm_version = ''0'', rt_cuda_version = None\<rparr>,
         wc_inference_slots = 2, wc_gpu_count = 1, wc_tensor_parallel_size = 1, wc_labels = []\<rparr>\<rparr>"

definition the_source :: environment_source_spec where
  "the_source =
     \<lparr>es_source_id = ''src'', es_kind = Train, es_environment = \<lparr>en_id = ''env'', en_revision = ''1''\<rparr>,
      es_tasks = [JNull], es_sampling = \<lparr>sc_temperature = Some 1, sc_max_tokens = None, sc_rest = JNull\<rparr>,
      es_group_size = 2, es_max_attempts = 2, es_result_size_limit_bytes = 1000,
      es_assignment_timeout_seconds = Some 100, es_weight = 1, es_enabled = True\<rparr>"

definition first_request :: lease_request where
  "first_request =
     \<lparr>lq_request_id = ''q0'', lq_worker_id = ''w'', lq_worker_session_id = ''s'', lq_sent_at = 11,
      lq_loaded_policy_ids = [], lq_available_slots = 1, lq_wait_seconds = 0\<rparr>"

definition second_request :: lease_request where
  "second_request =
     \<lparr>lq_request_id = ''q1'', lq_worker_id = ''w'', lq_worker_session_id = ''s'', lq_sent_at = 12,
      lq_loaded_policy_ids = [], lq_available_slots = 1, lq_wait_seconds = 0\<rparr>"

definition first_heartbeat :: worker_heartbeat where
  "first_heartbeat =
     \<lparr>hb_worker_id = ''w'', hb_worker_session_id = ''s'', hb_sent_at = 13,
      hb_active_lease_ids = [''gone'', ''l0''], hb_loaded_policy_ids = []\<rparr>"

definition first_failure :: failure_envelope where
  "first_failure =
     \<lparr>fe_assignment_id = ''a0'', fe_attempt = 1, fe_lease_id = ''l0'', fe_worker_id = ''w'',
      fe_worker_session_id = ''s'', fe_failed_at = 15, fe_code = ''crash'', fe_message = ''m'',
      fe_retryable = True, fe_details = JNull\<rparr>"

definition the_env :: environment_identity where
  "the_env = \<lparr>en_id = ''env'', en_revision = ''1''\<rparr>"

definition the_sampling :: sampling_config where
  "the_sampling = \<lparr>sc_temperature = Some 1, sc_max_tokens = None, sc_rest = JNull\<rparr>"

definition demo_source :: "id \<Rightarrow> environment_source_spec" where
  "demo_source name =
     \<lparr>es_source_id = name, es_kind = Train, es_environment = the_env, es_tasks = [JNull], es_sampling = the_sampling,
      es_group_size = 2, es_max_attempts = 2, es_result_size_limit_bytes = 1000,
      es_assignment_timeout_seconds = Some 100, es_weight = 1, es_enabled = True\<rparr>"

definition demo_assignment :: "id \<Rightarrow> nat \<Rightarrow> rollout_assignment" where
  "demo_assignment a i =
     \<lparr>ra_assignment_id = a, ra_source_id = ''src'', ra_group_id = ''g0'', ra_group_index = i,
      ra_group_size = 2, ra_kind = Train, ra_environment = the_env, ra_task_data = JNull,
      ra_sampling = the_sampling, ra_policy = base_policy, ra_created_at = 10, ra_deadline_at = Some 110,
      ra_result_size_limit_bytes = 1000\<rparr>"

lemma base_policy_valid: "valid_manifest demo base_policy"
  by code_simp

lemma demo_assignments_valid: "RolloutAssignment (demo_assignment ''a0'' 0)" "RolloutAssignment (demo_assignment ''a1'' 1)"
  by code_simp+

lemma first_heartbeat_valid: "WorkerHeartbeat first_heartbeat"
  by code_simp

section \<open>The run\<close>

definition base_id :: id where
  "base_id = expected_policy_id 0 (Sha256 (replicate 64 (CHR ''0'')))"

definition base_digest :: digest where
  "base_digest = manifest_digest demo base_policy"

definition d_init :: db where
  "d_init = migrated_db
     \<lparr>policies := [\<lparr>p_policy_id = base_id, p_policy_version = 0, p_manifest_digest = base_digest,
                    p_manifest_json = base_policy, p_artifact_path = None, p_created_at = 1\<rparr>],
      runs := Some \<lparr>ru_run_id = ''run'', ru_base_model_json = the_base_model, ru_base_policy_id = base_id,
                   ru_active_policy_id = base_id, ru_created_at = 1\<rparr>\<rparr>"

definition d_conf :: db where
  "d_conf = d_init
     \<lparr>scheduler_state := Some \<lparr>ss_next_group_sequence = 1, ss_max_policy_lag = Some 0,
        ss_loaded_policy_preference_seconds = Some 5\<rparr>\<rparr>"

definition demo_session :: "time option \<Rightarrow> session_row" where
  "demo_session asked =
     \<lparr>s_worker_session_id = ''s'', s_worker_id = ''w'', s_capabilities_json = wr_capabilities the_worker,
      s_registered_at = 2, s_last_seen_at = 2, s_last_heartbeat_sent_at = None,
      s_last_lease_request_sent_at = asked\<rparr>"

definition d_work :: db where
  "d_work = d_conf
     \<lparr>workers := [\<lparr>w_worker_id = ''w'', w_first_registered_at = 2\<rparr>],
      worker_sessions := [demo_session None]\<rparr>"

definition demo_source_row :: "id \<Rightarrow> source_row" where
  "demo_source_row name =
     \<lparr>so_source_id = name, so_kind = Train, so_environment = the_env, so_weight = 1, so_virtual_finish = 0,
      so_cursor = 0, so_tasks_json = [JNull], so_sampling_json = the_sampling, so_group_size = 2, so_max_attempts = 2,
      so_result_size_limit_bytes = 1000, so_assignment_timeout_seconds = Some 100, so_enabled = True\<rparr>"

definition d_src :: db where
  "d_src = d_work\<lparr>scheduler_sources := [demo_source_row ''src'']\<rparr>"

definition d_src2 :: db where
  "d_src2 = d_work\<lparr>scheduler_sources := [demo_source_row ''src'', demo_source_row ''two'']\<rparr>"

definition demo_row :: "id \<Rightarrow> nat \<Rightarrow> assignment_state \<Rightarrow> nat \<Rightarrow> id option \<Rightarrow> assignment_row" where
  "demo_row a i st n l =
     \<lparr>a_assignment_id = a, a_group_id = ''g0'', a_group_index = i, a_assignment_json = demo_assignment a i,
      a_policy_id = base_id, a_policy_manifest_digest = base_digest, a_state = st, a_max_attempts = 2,
      a_attempt_count = n, a_available_at = 10, a_deadline_at = Some 110, a_current_lease_id = l\<rparr>"

definition d_group :: db where
  "d_group = d_src2
     \<lparr>scheduler_state := Some \<lparr>ss_next_group_sequence = 2, ss_max_policy_lag = Some 0,
        ss_loaded_policy_preference_seconds = Some 5\<rparr>,
      rollout_groups := [\<lparr>g_group_id = ''g0'', g_policy_id = base_id, g_kind = Train, g_environment = the_env,
        g_task_json = JNull, g_sampling_json = the_sampling, g_group_size = 2, g_state = Collecting,
        g_created_at = 10, g_creation_key = ''manual:g0'', g_sequence = 1, g_source_id = None\<rparr>],
      assignments := [demo_row ''a0'' 0 Pending 0 None, demo_row ''a1'' 1 Pending 0 None]\<rparr>"

definition pending_request :: "id \<Rightarrow> time \<Rightarrow> request_row" where
  "pending_request q t =
     \<lparr>q_request_id = q, q_worker_session_id = ''s'', q_request_digest = Sha256 q, q_state = Rq_pending,
      q_lease_id = None, q_created_at = t, q_completed_at = None\<rparr>"

definition leased_request :: "id \<Rightarrow> time \<Rightarrow> request_row" where
  "leased_request q t =
     \<lparr>q_request_id = q, q_worker_session_id = ''s'', q_request_digest = Sha256 q, q_state = Rq_leased,
      q_lease_id = Some ''l0'', q_created_at = t, q_completed_at = Some t\<rparr>"

definition d_req :: db where
  "d_req = d_group\<lparr>lease_requests := [pending_request ''q0'' 11], worker_sessions := [demo_session (Some 11)]\<rparr>"

definition demo_lease :: "lease_state \<Rightarrow> lease_row" where
  "demo_lease st =
     \<lparr>l_lease_id = ''l0'', l_assignment_id = ''a0'', l_attempt = 1, l_worker_id = ''w'',
      l_worker_session_id = ''s'', l_issued_at = 11, l_expires_at = 41, l_state = st,
      l_last_renew_sent_at = None\<rparr>"

definition d_lease :: db where
  "d_lease = d_req
     \<lparr>lease_attempts := [demo_lease L_active],
      assignments := [demo_row ''a0'' 0 Leased 1 (Some ''l0''), demo_row ''a1'' 1 Pending 0 None],
      lease_requests := [leased_request ''q0'' 11]\<rparr>"

text \<open>One assignment is leased, its sibling waits, and a second request of the worker is pending.\<close>

definition busy :: db where
  "busy = d_lease
     \<lparr>lease_requests := [leased_request ''q0'' 11, pending_request ''q1'' 12],
      worker_sessions := [demo_session (Some 12)]\<rparr>"

definition d_done :: db where
  "d_done = busy
     \<lparr>accepted_results := [\<lparr>r_assignment_id = ''a0'', r_lease_id = ''l0'', r_envelope_digest = hex_digest (CHR ''9''),
        r_artifact_path = result_path (hex_digest (CHR ''9'')) ''.msgpack'', r_size_bytes = 8, r_accepted_at = 14,
        r_processing_state = Proc_pending\<rparr>],
      assignment_outcomes := [\<lparr>o_assignment_id = ''a0'', o_outcome = Out_result, o_lease_id = Some ''l0'',
        o_envelope_digest = Some (hex_digest (CHR ''9'')), o_completed_at = 14\<rparr>],
      lease_attempts := [demo_lease L_succeeded],
      assignments := [demo_row ''a0'' 0 Succeeded 1 None, demo_row ''a1'' 1 Pending 0 None]\<rparr>"

text \<open>The deadline passes: the sibling is failed, the group is ready, and its output is trained on.\<close>

definition d_ready :: db where
  "d_ready = d_done
     \<lparr>assignments := [demo_row ''a0'' 0 Succeeded 1 None, demo_row ''a1'' 1 Failed 0 None],
      assignment_outcomes := [\<lparr>o_assignment_id = ''a0'', o_outcome = Out_result, o_lease_id = Some ''l0'',
          o_envelope_digest = Some (hex_digest (CHR ''9'')), o_completed_at = 14\<rparr>,
        \<lparr>o_assignment_id = ''a1'', o_outcome = Deadline_exceeded, o_lease_id = None, o_envelope_digest = None,
         o_completed_at = 200\<rparr>],
      rollout_groups := [\<lparr>g_group_id = ''g0'', g_policy_id = base_id, g_kind = Train, g_environment = the_env,
        g_task_json = JNull, g_sampling_json = the_sampling, g_group_size = 2, g_state = Ready,
        g_created_at = 10, g_creation_key = ''manual:g0'', g_sequence = 1, g_source_id = None\<rparr>]\<rparr>"

definition demo_processed :: "nat option \<Rightarrow> processed_rollout_row" where
  "demo_processed step =
     \<lparr>pr_group_id = ''g0'', pr_ordinal = 0, pr_token_count = 7, pr_batch_step = step,
      pr_batch_ordinal = map_option (\<lambda>_. 0) step, pr_discarded = False\<rparr>"

definition d_proc :: db where
  "d_proc = d_ready
     \<lparr>processed_groups := [\<lparr>pg_group_id = ''g0'', pg_input_digest = hex_digest (CHR ''1''),
        pg_artifact_digest = hex_digest (CHR ''2''), pg_artifact_path = ''p'', pg_size_bytes = 5, pg_rollout_count = 1,
        pg_processed_at = 201\<rparr>],
      processed_rollouts := [demo_processed None],
      accepted_results := [\<lparr>r_assignment_id = ''a0'', r_lease_id = ''l0'', r_envelope_digest = hex_digest (CHR ''9''),
        r_artifact_path = result_path (hex_digest (CHR ''9'')) ''.msgpack'', r_size_bytes = 8, r_accepted_at = 14,
        r_processing_state = Proc_processed\<rparr>]\<rparr>"

definition d_batch :: db where
  "d_batch = d_proc
     \<lparr>training_batches := [\<lparr>b_step = 1, b_artifact_digest = hex_digest (CHR ''3''), b_artifact_path = ''b'',
        b_size_bytes = 6, b_sample_count = 1, b_created_at = 202\<rparr>],
      processed_rollouts := [demo_processed (Some 1)]\<rparr>"

definition done_spool :: spool where
  "done_spool = empty_spool\<lparr>results := [result_name (hex_digest (CHR ''9'')) ''.msgpack'' \<mapsto> ''resulta0'']\<rparr>"

section \<open>Each state from the one before\<close>
lemma base_selectors:
  "pm_policy_version base_policy = 0" "pm_run_id base_policy = ''run''" "pm_base_model base_policy = the_base_model"
  "pm_created_at base_policy = 1" "pm_policy_id base_policy = base_id" "pm_adapter base_policy = None"
  by (simp_all add: base_policy_def base_id_def)

lemma demo_selectors:
  "hash_request demo q = Sha256 (lq_request_id q)" "hash_failure demo f = Sha256 (fe_lease_id f)"
  "sha256 demo x = hex_digest (CHR ''9'')" "result_bytes demo e = result_text e" "artifact_intact demo p"
  "retry_base_seconds demo = 1" "retry_max_seconds demo = 60" "run_root demo = ''/run''"
  by (simp_all add: demo_def)

lemma base_digest_val: "base_digest = hex_digest (CHR ''0'')"
  by code_simp

lemmas store_defs = Let_def update_assignment_def transaction_def at_defs row_at_Cons update_where_def and_then_def guard_def

lemma run_init: "initialize_run demo base_policy migrated_db = (Inr (), d_init)"
  by (simp add: initialize_run_def store_defs insert_policy_def insert_run_def d_init_def migrated_db_def base_selectors
   base_digest_def [symmetric])

lemma run_conf: "configure_scheduler 0 5 1 d_init = (Inr (), d_conf)"
  by (simp add: configure_scheduler_def store_defs reconcile_stale_work_def scheduler_settings_def cancel_stale_train_groups_def
    active_policy_row_def stale_groups_def order_by_def d_conf_def d_init_def migrated_db_def)

lemma run_work: "register_worker the_worker 2 d_conf = (Inr \<lparr>rg_worker_id = ''w'', rg_worker_session_id = ''s'', rg_created = True\<rparr>, d_work)"
  by (simp add: register_worker_def store_defs the_run_def insert_session_def insert_worker_def d_work_def
    d_conf_def d_init_def migrated_db_def demo_session_def the_worker_def)

lemma run_src: "register_scheduler_source (demo_source ''src'') d_work = (Inr (), d_src)"
  by (simp add: register_scheduler_source_def store_defs insert_source_def least_finish_def d_src_def d_work_def
    d_conf_def d_init_def migrated_db_def demo_source_def demo_source_row_def)

lemma run_src2: "register_scheduler_source (demo_source ''two'') d_src = (Inr (), d_src2)"
  by (simp add: register_scheduler_source_def store_defs insert_source_def least_finish_def d_src_def d_src2_def d_work_def
    d_conf_def d_init_def migrated_db_def demo_source_def demo_source_row_def)

lemmas state_defs = d_done_def busy_def d_lease_def d_req_def d_group_def d_src2_def d_work_def
    d_conf_def d_init_def migrated_db_def

lemmas row_defs = demo_row_def demo_lease_def demo_session_def pending_request_def leased_request_def

lemma run_group: "create_group demo [demo_assignment ''a0'' 0, demo_assignment ''a1'' 1] 2 d_src2 = (Inr (), d_group)"
  by (simp add: create_group_def create_group_in_def validate_group_def store_defs d_group_def d_src2_def d_work_def
    d_conf_def d_init_def migrated_db_def demo_assignment_def base_selectors base_digest_def [symmetric] allocate_group_sequence_def
    insert_group_def insert_assignments_def insert_assignment_row_def order_by_def group_inputs_def
    assignment_row_of_def demo_row_def upt_rec)

lemma run_req: "validate_lease_request demo first_request 11 d_group = (Inr \<lparr>dp_state = Rq_pending, dp_lease = None\<rparr>, d_req)"
  by (simp add: validate_lease_request_def store_defs compatible_session_def validate_policy_ids_def active_count_def count_where_def
    insert_request_def request_ok_def update_session_def pending_request_def demo_session_def first_request_def demo_selectors
   d_req_def d_group_def d_src2_def d_work_def d_conf_def d_init_def migrated_db_def the_worker_def)

lemma run_grant: "lease_next_in demo first_request 30 ''l0'' 11 d_req = Inr (Granted (demo_lease L_active) (demo_row ''a0'' 0 Pending 0 None), d_lease)"
  by (simp add: lease_next_in_def the_request_def lease_request_disposition_def lease_pending_def store_defs
    expire_leases_in_def due_leases_def overdue_def order_by_def recompute_groups_def recompute_group_def List.map_filter_simps
    set_group_state_def count_where_def terminal_def deadline_passed_def
    compatible_session_def validate_policy_ids_def scheduler_settings_def cancel_stale_train_groups_def active_policy_row_def stale_groups_def
    grant_next_def active_count_def candidates_def leasable_def choose_candidate_def group_sequence_def
    grant_lease_def insert_lease_def set_current_lease_def complete_request_def request_ok_def cap_at_def
    state_defs row_defs first_request_def the_worker_def)

lemma run_lease: "lease_next_compatible demo first_request 30 ''l0'' 11 d_req =
  (Inr (Some \<lparr>al_lease_id = ''l0'', al_attempt = 1, al_worker_id = ''w'', al_worker_session_id = ''s'', al_issued_at = 11,
     al_expires_at = 41, al_assignment = demo_assignment ''a0'' 0\<rparr>), d_lease)"
  using demo_assignments_valid(1)
  by (simp add: lease_next_compatible_def transaction_def run_grant lease_answer_value_def assignment_lease_of_def decode_assignment_def
    AssignmentLease_def validate_expiry_def demo_row_def demo_lease_def demo_assignment_def)

lemma run_req2: "validate_lease_request demo second_request 12 d_lease = (Inr \<lparr>dp_state = Rq_pending, dp_lease = None\<rparr>, busy)"
  by (simp add: validate_lease_request_def store_defs compatible_session_def validate_policy_ids_def active_count_def count_where_def
    insert_request_def request_ok_def update_session_def second_request_def demo_selectors occupies_slot_def deadline_passed_def
   state_defs row_defs the_worker_def)

lemma demo_digest: "Digest (hex_digest (CHR ''9''))" by code_simp

lemma run_result: "accept_result demo first_result 14 14 (busy, empty_spool) =
   (Inr \<lparr>ar_assignment_id = ''a0'', ar_envelope_digest = hex_digest (CHR ''9''), ar_duplicate = False, ar_terminal = True\<rparr>, d_done, done_spool)"
  by (simp add: accept_result_def stored_as_json_def store_defs existing_terminal_def demo_selectors result_text_def
    validate_result_envelope_def validate_active_envelope_def the_assignment_def deadline_passed_def publish_result_def demo_digest
    result_suffixes_def empty_spool_def done_spool_def store_result_def insert_result_def insert_outcome_def outcome_keys_ok_def
    update_lease_state_def set_cancellation_terminal_def recompute_group_def count_where_def set_group_state_def terminal_def
    state_defs row_defs first_result_def base_digest_val base_id_def[symmetric])

lemma run_expire: "expire_leases demo 200 d_done = (Inr 0, d_ready)"
  by (simp add: expire_leases_def store_defs reconcile_stale_work_def scheduler_settings_def cancel_stale_train_groups_def
      active_policy_row_def stale_groups_def order_by_def expire_leases_in_def due_leases_def due_lease_def overdue_def
      List.map_filter_simps deadline_passed_def terminalize_without_envelope_def insert_outcome_def outcome_keys_ok_def
      fail_assignment_def recompute_groups_def recompute_group_def count_where_def terminal_def set_group_state_def
      d_ready_def state_defs row_defs)

lemma run_process:
  "record_processed_group demo ''g0'' (hex_digest (CHR ''1'')) (hex_digest (CHR ''2'')) ''/run/p'' 5 [7] 201 d_ready = (Inr (), d_proc)"
  by (simp add: record_processed_group_def record_processed_group_in_def relative_to_def demo_selectors store_defs
      insert_processed_group_def insert_rollouts_def insert_processed_rollout_def set_processing_def result_of_group_def
      d_proc_def d_ready_def state_defs row_defs demo_processed_def)

lemma run_batch:
  "record_training_batch demo 1 (hex_digest (CHR ''3'')) ''/run/b'' 6 1 [(''g0'', 0)] 202 d_proc = (Inr (), d_batch)"
  by (simp add: record_training_batch_def record_training_batch_in_def relative_to_def demo_selectors store_defs
      next_training_batch_step_def count_where_def available_def rollout_key_def insert_batch_def assign_member_def
      d_batch_def d_proc_def d_ready_def state_defs row_defs demo_processed_def)

section \<open>The run is a run\<close>

abbreviation demo_run where
  "demo_run \<equiv> coordinator_run demo"

lemma demo_runI: "coordinator_step demo s s' \<Longrightarrow> demo_run s s'"
  by (simp add: coordinator_run_def demo_constructed demo_validated)

lemma demo_steps:
  "demo_run coordinator_start (d_init, empty_spool)"
  "demo_run (d_init, empty_spool) (d_conf, empty_spool)"
  "demo_run (d_conf, empty_spool) (d_work, empty_spool)"
  "demo_run (d_work, empty_spool) (d_src, empty_spool)"
  "demo_run (d_src, empty_spool) (d_src2, empty_spool)"
  "demo_run (d_src2, empty_spool) (d_group, empty_spool)"
  "demo_run (d_group, empty_spool) (d_req, empty_spool)"
  "demo_run (d_req, empty_spool) (d_lease, empty_spool)"
  "demo_run (d_lease, empty_spool) (busy, empty_spool)"
  "demo_run (busy, empty_spool) (d_done, done_spool)"
  using coordinator_step.initialize [OF base_policy_valid, of migrated_db empty_spool]
    coordinator_step.configure [of demo d_init empty_spool 0 5 1] coordinator_step.register [of demo d_conf empty_spool the_worker 2]
    coordinator_step.register_source [of demo d_work empty_spool "demo_source ''src''"]
    coordinator_step.register_source [of demo d_src empty_spool "demo_source ''two''"]
    coordinator_step.manual_group [of "[demo_assignment ''a0'' 0, demo_assignment ''a1'' 1]" demo d_src2 empty_spool 2]
    coordinator_step.validate_request [of demo d_group empty_spool first_request 11]
    coordinator_step.lease_next [of demo d_req empty_spool first_request 30 "''l0''" 11]
    coordinator_step.validate_request [of demo d_lease empty_spool second_request 12]
    coordinator_step.result [of demo busy empty_spool first_result 14 14]
  by (simp_all del: One_nat_def add: coordinator_run_def demo_constructed demo_validated coordinator_start_def
      demo_assignments_valid run_init run_conf run_work run_src run_src2 run_group run_req run_lease run_req2 run_result)

lemmas demo_more = converse_rtranclp_into_rtranclp [where r = "coordinator_run demo"]

lemma demo_busy: "demo_run\<^sup>*\<^sup>* coordinator_start (busy, empty_spool)"
  by (rule demo_more [OF demo_steps(1)] demo_more [OF demo_steps(2)] demo_more [OF demo_steps(3)]
      demo_more [OF demo_steps(4)] demo_more [OF demo_steps(5)] demo_more [OF demo_steps(6)] demo_more [OF demo_steps(7)]
      demo_more [OF demo_steps(8)] demo_more [OF demo_steps(9)] rtranclp.rtrancl_refl)+

lemma demo_finish: "demo_run\<^sup>*\<^sup>* (busy, empty_spool) (d_done, done_spool)"
  using demo_steps(10) by blast

lemma demo_reachable: "demo_run\<^sup>*\<^sup>* coordinator_start (d_done, done_spool)"
  using demo_busy demo_finish by (rule rtranclp_trans)

lemma demo_trained: "demo_run\<^sup>*\<^sup>* coordinator_start (d_batch, done_spool)"
proof -
  have "demo_run (d_done, done_spool) (d_ready, done_spool)" "demo_run (d_ready, done_spool) (d_proc, done_spool)"
    "demo_run (d_proc, done_spool) (d_batch, done_spool)"
    using coordinator_step.expire [of demo d_done done_spool 200]
      coordinator_step.process_group [of demo d_ready done_spool "''g0''" "hex_digest (CHR ''1'')" "hex_digest (CHR ''2'')" "''/run/p''" 5 "[7]" 201]
      coordinator_step.record_batch [of demo d_proc done_spool 1 "hex_digest (CHR ''3'')" "''/run/b''" 6 1 "[(''g0'', 0)]" 202]
    by (simp_all del: One_nat_def add: demo_runI run_expire run_process run_batch)
  with demo_reachable show ?thesis by (meson rtranclp.rtrancl_into_rtrancl)
qed

text \<open>The lookups in the busy state that the witnesses need.\<close>

lemma busy_rows:
  "assignment_at busy ''a0'' = Some (demo_row ''a0'' 0 Leased 1 (Some ''l0''))"
  "assignment_at busy ''a1'' = Some (demo_row ''a1'' 1 Pending 0 None)"
  "lease_at busy ''l0'' = Some (demo_lease L_active)"
  "assignment_at d_done ''a0'' = Some (demo_row ''a0'' 0 Succeeded 1 None)"
  "active_version busy = Some 0"
  "scheduler_sources busy = [demo_source_row ''src'', demo_source_row ''two'']"
  by (simp_all add: at_defs row_at_Cons state_defs demo_row_def demo_lease_def active_version_def active_policy_row_def)

end
