(* ===== verification/Coordinator_Properties.thy ===== *)
theory Coordinator_Properties
  imports Scenario
begin

text \<open>
  The properties of the coordinator as a whole: what holds in every state that a repository can
  reach from an empty database, whatever operations are called with whatever arguments. Each
  property has a witness in the run of theory \<open>Scenario\<close>.
\<close>

abbreviation reachable :: "repository \<Rightarrow> db \<times> spool \<Rightarrow> bool" where
  "reachable R s \<equiv> (coordinator_run R)\<^sup>*\<^sup>* coordinator_start s"

lemma run_state_good: "reachable R s \<Longrightarrow> repository_inv (fst s)"
  by (rule coord.reachable_good) simp

lemma reachable_consistent: "reachable R s \<Longrightarrow> consistent (fst s)"
  using run_state_good by (simp add: repository_inv_def)

lemma reachable_core: "reachable R s \<Longrightarrow> core (fst s)"
  using reachable_consistent by (simp add: consistent_def)

section \<open>The invariant and the life of an assignment\<close>



text \<open>C2: between any two points of a run each assignment has moved along the abstract machine:
  created, leased, retried, finished, with the number of attempts counted and never above the
  budget.\<close>

theorem assignments_refine_life:
  assumes "(coordinator_run R)\<^sup>*\<^sup>* coordinator_start s" "(coordinator_run R)\<^sup>*\<^sup>* s s'"
  shows "life\<^sup>*\<^sup>* (phase (fst s) a) (phase (fst s') a) \<and>
    (\<forall>m. budget (phase (fst s') a) = Some m \<longrightarrow> used (phase (fst s') a) \<le> m)"
proof -
  have "lives (phase (fst coordinator_start) a) (phase (fst s') a)"
    using coord.reachable_view [OF run_state_good [OF rtranclp.rtrancl_refl]] assms by (meson rtranclp_trans)
  moreover have "phase (fst coordinator_start) a = Absent"
    by (simp add: phase_def assignment_at_def coordinator_start_def migrated_db_def)
  ultimately have "\<forall>m. budget (phase (fst s') a) = Some m \<longrightarrow> used (phase (fst s') a) \<le> m"
    using lives_within_budget by auto
  moreover have "lives (phase (fst s) a) (phase (fst s') a)"
    by (rule coord.reachable_view [OF run_state_good [OF assms(1)] assms(2)])
  ultimately show ?thesis by blast
qed

lemma assignments_refine_life_witness:
  "life\<^sup>*\<^sup>* (phase busy ''a0'') (phase d_done ''a0'') \<and> used (phase d_done ''a0'') \<le> 2"
  using assignments_refine_life [OF demo_busy demo_finish, of "''a0''"]
  by (simp add: phase_def busy_rows demo_row_def)

text \<open>A finished assignment stays finished, with the same verdict and the same number of
  attempts, whatever happens afterwards.\<close>

theorem finished_is_final:
  assumes "(coordinator_run R)\<^sup>*\<^sup>* coordinator_start s" "(coordinator_run R)\<^sup>*\<^sup>* s s'"
    and "assignment_at (fst s) a = Some r" "terminal (a_state r)"
  shows "\<exists>r'. assignment_at (fst s') a = Some r' \<and> a_state r' = a_state r \<and>
    a_attempt_count r' = a_attempt_count r \<and> a_max_attempts r' = a_max_attempts r"
proof -
  define b where "b = (a_state r = Succeeded)"
  have p: "phase (fst s) a = Finished b (a_max_attempts r) (a_attempt_count r)"
    using assms(3,4) by (auto simp: phase_def terminal_def b_def)
  have "phase (fst s') a = Finished b (a_max_attempts r) (a_attempt_count r)"
    by (rule coord.stable [OF run_state_good [OF assms(1)] assms(2), where P = "\<lambda>q. q = Finished b (a_max_attempts r) (a_attempt_count r)"])
      (simp_all add: p)
  with assms(4) show ?thesis
    by (auto simp: phase_def b_def terminal_def Let_def split: option.splits assignment_state.splits)
qed

lemma finished_is_final_witness:
  "\<exists>r'. assignment_at d_done ''a0'' = Some r' \<and> a_state r' = Succeeded \<and> a_attempt_count r' = 1 \<and> a_max_attempts r' = 2"
  using finished_is_final [OF demo_reachable rtranclp.rtrancl_refl, of "''a0''" "demo_row ''a0'' 0 Succeeded 1 None"]
  by (simp add: busy_rows terminal_def demo_row_def)

text \<open>C4: an assignment is never leased more often than its budget of attempts allows, counting
  all leases it ever had.\<close>

theorem leases_within_budget:
  assumes "(coordinator_run R)\<^sup>*\<^sup>* coordinator_start s" "assignment_at (fst s) a = Some r"
  shows "count_where (\<lambda>l. l_assignment_id l = a) (lease_attempts (fst s)) \<le> a_max_attempts r"
proof -
  let ?ls = "filter (\<lambda>l. l_assignment_id l = a) (lease_attempts (fst s))"
  note c = reachable_core [OF assms(1)]
  have k: "keys (fst s)" using c by (simp add: core_def)
  have "l_attempt l \<in> {1..a_attempt_count r}" if "l \<in> set ?ls" for l
  proof -
    have "lease_at (fst s) (l_lease_id l) = Some l" using that mem_leases_iff [OF k] by auto
    then have "lease_ok (fst s) l" using c by (simp add: core_def)
    with that assms(2) show ?thesis by (auto simp: lease_ok_def)
  qed
  then have sub: "set (map l_attempt ?ls) \<subseteq> {1..a_attempt_count r}" by auto
  have "distinct (map (\<lambda>l. (l_assignment_id l, l_attempt l)) ?ls)"
    using k by (simp add: keys_def distinct_map_filter)
  then have "inj_on l_attempt (set ?ls)" "distinct ?ls"
    by (auto simp: distinct_map inj_on_def)
  then have "distinct (map l_attempt ?ls)" by (simp add: distinct_map)
  then have "length (map l_attempt ?ls) = card (set (map l_attempt ?ls))" using distinct_card by metis
  also have "\<dots> \<le> card {1..a_attempt_count r}" by (rule card_mono [OF _ sub]) simp
  finally have "count_where (\<lambda>l. l_assignment_id l = a) (lease_attempts (fst s)) \<le> a_attempt_count r"
    by (simp add: count_where_def)
  moreover have "a_attempt_count r \<le> a_max_attempts r"
    using coreD(5) [OF c assms(2)] by (simp add: assignment_ok_def attempts_ok_def)
  ultimately show ?thesis by simp
qed

lemma leases_within_budget_witness: "count_where (\<lambda>l. l_assignment_id l = ''a0'') (lease_attempts busy) \<le> 2"
  using leases_within_budget [OF demo_busy, of "''a0''" "demo_row ''a0'' 0 Leased 1 (Some ''l0'')"]
  by (simp add: busy_rows demo_row_def)

text \<open>C5: at most one lease of an assignment is active at a time; it is the current lease of a
  leased assignment, granted to a worker for the assignment's latest attempt.\<close>

theorem one_active_lease:
  assumes "(coordinator_run R)\<^sup>*\<^sup>* coordinator_start s"
    and "lease_at (fst s) l = Some x" "l_state x = L_active"
  shows "(\<exists>r. assignment_at (fst s) (l_assignment_id x) = Some r \<and> a_state r = Leased \<and>
      a_current_lease_id r = Some l \<and> l_attempt x = a_attempt_count r) \<and>
    (\<forall>l' y. lease_at (fst s) l' = Some y \<longrightarrow> l_state y = L_active \<longrightarrow>
      l_assignment_id y = l_assignment_id x \<longrightarrow> l' = l)"
proof -
  note c = reachable_core [OF assms(1)]
  have cur: "\<exists>r. assignment_at (fst s) (l_assignment_id x) = Some r \<and> a_state r = Leased \<and>
      a_current_lease_id r = Some l \<and> l_attempt x = a_attempt_count r"
    if x: "lease_at (fst s) l = Some x" "l_state x = L_active" for l x
  proof -
    obtain r where r: "assignment_at (fst s) (l_assignment_id x) = Some r" "a_current_lease_id r = Some l"
      using coreD(6) [OF c x(1)] lease_at_id [OF x(1)] x(2) by (auto simp: lease_ok_def)
    then have "current_ok (fst s) r" using coreD(5) [OF c] by (simp add: assignment_ok_def)
    with r x show ?thesis by (auto simp: current_ok_def)
  qed
  have "l' = l" if "lease_at (fst s) l' = Some y" "l_state y = L_active" "l_assignment_id y = l_assignment_id x" for l' y
    using cur [OF that(1,2)] cur [OF assms(2,3)] that(3) by auto
  with cur [OF assms(2,3)] show ?thesis by blast
qed

lemma one_active_lease_witness:
  "\<exists>r. assignment_at busy ''a0'' = Some r \<and> a_state r = Leased \<and> a_current_lease_id r = Some ''l0'' \<and> a_attempt_count r = 1"
  using one_active_lease [OF demo_busy, of "''l0''" "demo_lease L_active"] by (auto simp: busy_rows demo_lease_def)

text \<open>An assignment has an outcome row exactly when it is finished, and an accepted result
  exactly when it succeeded; no envelope is ever recorded for an unknown assignment.\<close>

theorem outcomes_match_states:
  assumes "(coordinator_run R)\<^sup>*\<^sup>* coordinator_start s"
  shows "(outcome_at (fst s) a \<noteq> None) = (\<exists>r. assignment_at (fst s) a = Some r \<and> terminal (a_state r)) \<and>
    (result_at (fst s) a \<noteq> None) = (\<exists>r. assignment_at (fst s) a = Some r \<and> a_state r = Succeeded)"
proof (cases "assignment_at (fst s) a")
  case None
  with reachable_core [OF assms] show ?thesis by (simp add: core_def)
next
  case (Some r)
  then have "outcome_ok (fst s) r" "a_assignment_id r = a"
    using coreD(5) [OF reachable_core [OF assms]] assignment_at_id by (auto simp: assignment_ok_def)
  with Some show ?thesis by (auto simp: outcome_ok_def split: option.splits)
qed

lemma outcomes_match_states_witness:
  "(outcome_at d_done ''a0'' \<noteq> None) = (\<exists>r. assignment_at d_done ''a0'' = Some r \<and> terminal (a_state r)) \<and>
   (result_at d_done ''a0'' \<noteq> None) = (\<exists>r. assignment_at d_done ''a0'' = Some r \<and> a_state r = Succeeded)"
  using outcomes_match_states [OF demo_reachable, of "''a0''"] by simp

text \<open>C7: the version of the active policy never falls, and once there is an active policy there
  always is one.\<close>

theorem active_version_monotone:
  assumes "(coordinator_run R)\<^sup>*\<^sup>* coordinator_start s" "(coordinator_run R)\<^sup>*\<^sup>* s s'"
    and "active_version (fst s) = Some v"
  shows "\<exists>v'. active_version (fst s') = Some v' \<and> v \<le> v'"
proof -
  have "version_step\<^sup>*\<^sup>* (active_version (fst s)) (active_version (fst s'))"
    by (rule versions.reachable_view [OF run_state_good [OF assms(1)] assms(2)])
  from version_steps [OF this] assms(3) show ?thesis by (auto simp: version_step_def split: option.splits)
qed

lemma active_version_monotone_witness: "\<exists>v'. active_version d_done = Some v' \<and> 0 \<le> v'"
  using active_version_monotone [OF demo_busy demo_finish, of 0] by (simp add: busy_rows)





end
