(* ===== verification/Worker_Properties.thy ===== *)
theory Worker_Properties
  imports Scenario
begin

text \<open>
  The functional behaviour of the operations that workers drive: heartbeats, renewals, leasing,
  and the release of a lease that could not be offered.
\<close>

section \<open>Heartbeats\<close>

lemma heartbeat_lease_cases:
  assumes "heartbeat_lease d0 now dur l (rs, ss, d) = Inr (rs', ss', d')"
  obtains "must_stop d0 now l" "rs' = rs" "ss' = ss @ [l]" "lease_at d' = lease_at d" "assignment_at d' = assignment_at d"
  | lr ar where "\<not> must_stop d0 now l" "reported_lease d0 l = Some (lr, ar)"
      "rs' = rs @ [\<lparr>lr_assignment_id = l_assignment_id lr, lr_lease_id = l, lr_expires_at = renewed_expiry now dur lr ar\<rparr>]"
      "ss' = ss" "assignment_at d' = assignment_at d"
      "\<And>x. lease_at d' x = (if x = l then map_option (\<lambda>r. r\<lparr>l_expires_at := renewed_expiry now dur lr ar\<rparr>) (lease_at d l)
        else lease_at d x)"
proof -
  define d1 where "d1 = (if lease_cancellation_at d0 l \<noteq> None then deliver_cancellation l now d else d)"
  have 1: "lease_at d1 = lease_at d" "assignment_at d1 = assignment_at d" by (simp_all add: d1_def row_simps)
  show thesis
  proof (cases "must_stop d0 now l")
    case True
    with assms have "rs' = rs" "ss' = ss @ [l]" "d' = d1" by (simp_all add: heartbeat_lease_def d1_def)
    with 1 True show thesis by (intro that(1)) simp_all
  next
    case False
    then obtain lr ar where r: "reported_lease d0 l = Some (lr, ar)" by (auto simp: must_stop_def split: option.splits)
    with assms False have u: "update_lease_expiry l (renewed_expiry now dur lr ar) None d1 = Inr d'"
      and rs: "rs' = rs @ [\<lparr>lr_assignment_id = l_assignment_id lr, lr_lease_id = l,
        lr_expires_at = renewed_expiry now dur lr ar\<rparr>]" "ss' = ss"
      unfolding heartbeat_lease_def d1_def Let_def by (auto simp: and_then_eq_Inr)
    show thesis
      by (rule that(2) [OF False r rs]) (use 1 expiry_frame(1,8) [OF u] in simp_all)
  qed
qed

lemma heartbeat_fold:
  assumes "fold_step (heartbeat_lease d0 now dur) ls (rs, ss, d) = Inr (rs', ss', d')" "distinct ls"
  shows "map lr_lease_id rs' = map lr_lease_id rs @ filter (\<lambda>l. \<not> must_stop d0 now l) ls \<and>
    ss' = ss @ filter (must_stop d0 now) ls \<and> assignment_at d' = assignment_at d \<and>
    (\<forall>x. x \<notin> set ls \<longrightarrow> lease_at d' x = lease_at d x) \<and>
    (\<forall>x \<in> set rs'. x \<in> set rs \<or> (\<exists>lr ar. lr_lease_id x \<in> set ls \<and> \<not> must_stop d0 now (lr_lease_id x) \<and>
       reported_lease d0 (lr_lease_id x) = Some (lr, ar) \<and> lr_assignment_id x = l_assignment_id lr \<and>
       lr_expires_at x = renewed_expiry now dur lr ar \<and>
       lease_at d' (lr_lease_id x) = map_option (\<lambda>r. r\<lparr>l_expires_at := renewed_expiry now dur lr ar\<rparr>) (lease_at d (lr_lease_id x))))"
  using assms
proof (induction ls arbitrary: rs ss d)
  case Nil
  then show ?case by simp
next
  case (Cons l ls)
  from Cons.prems(1) obtain rs1 ss1 d1 where 1: "heartbeat_lease d0 now dur l (rs, ss, d) = Inr (rs1, ss1, d1)"
    and 2: "fold_step (heartbeat_lease d0 now dur) ls (rs1, ss1, d1) = Inr (rs', ss', d')"
    by (auto simp: and_then_eq_Inr)
  from Cons.prems(2) have ls: "l \<notin> set ls" "distinct ls" by simp_all
  note IH = Cons.IH [OF 2 ls(2)]
  from 1 show ?case
  proof (cases rule: heartbeat_lease_cases)
    case 1
    with IH show ?thesis by auto
  next
    case (2 lr ar)
    have "lease_at d' l = map_option (\<lambda>r. r\<lparr>l_expires_at := renewed_expiry now dur lr ar\<rparr>) (lease_at d l)"
      using IH ls(1) 2(6) by simp
    moreover have "lease_at d1 x = lease_at d x" if "x \<in> set ls" for x using that ls(1) 2(6) by auto
    ultimately show ?thesis using IH 2 ls by auto
  qed
qed

lemma record_heartbeatD:
  assumes "record_heartbeat hb dur now d = (Inr (renewals, stops), d')"
  obtains d1 d2 where "0 < dur" "reconcile_stale_work now d = Inr d1"
    "fold_step (heartbeat_lease d1 now dur) (hb_active_lease_ids hb) ([], [], d1) = Inr (renewals, stops, d2)"
    "d' = update_session (hb_worker_session_id hb)
      (\<lambda>r. r\<lparr>s_last_seen_at := now, s_last_heartbeat_sent_at := Some (hb_sent_at hb)\<rparr>) d2"
  using assms
  by (auto simp: record_heartbeat_def transaction_def and_then_eq_Inr split: sum.splits if_splits)


lemma busy_heartbeat:
  "fst (record_heartbeat first_heartbeat 30 13 busy) =
     Inr ([\<lparr>lr_assignment_id = ''a0'', lr_lease_id = ''l0'', lr_expires_at = 43\<rparr>], [''gone''])"
  by (simp add: record_heartbeat_def store_defs reconcile_stale_work_def scheduler_settings_def
      cancel_stale_train_groups_def active_policy_row_def stale_groups_def order_by_def compatible_session_def
      validate_policy_ids_def reported_lease_def heartbeat_lease_def must_stop_def renewed_expiry_def
      update_lease_expiry_def deadline_passed_def cap_at_def first_heartbeat_def state_defs row_defs)


section \<open>Renewals\<close>

text \<open>Cancelling stale work never writes the table of leases.\<close>

lemma cancel_assignment_leases: "cancel_stale_assignment now r d = Inr d' \<Longrightarrow> lease_attempts d' = lease_attempts d"
  by (auto simp: cancel_stale_assignment_def Let_def and_then_eq_Inr insert_cancellation_or_ignore_def
      insert_outcome_or_ignore_def insert_outcome_def insert_lease_cancellation_or_ignore_def statement_defs
      split: if_splits option.splits simp del: guard_eq_Inr)

lemma cancel_group_leases: "cancel_stale_group now g d = Inr d' \<Longrightarrow> lease_attempts d' = lease_attempts d"
proof -
  assume "cancel_stale_group now g d = Inr d'"
  then obtain d1 where 1: "fold_step (cancel_stale_assignment now) (open_assignments d (g_group_id g)) d = Inr d1"
    and d': "d' = recompute_group (g_group_id g) d1"
    by (auto simp: cancel_stale_group_def and_then_eq_Inr)
  have "lease_attempts d1 = lease_attempts d"
    by (rule fold_step_invariant [OF 1]) (auto dest: cancel_assignment_leases)
  then show ?thesis by (simp add: d' recompute_group_def set_group_state_def Let_def)
qed

lemma reconcile_leases:
  assumes "reconcile_stale_work now d = Inr d'"
  shows "lease_at d' = lease_at d"
proof -
  have "lease_attempts d' = lease_attempts d"
  proof (cases "\<exists>s lag. scheduler_state d = Some s \<and> ss_max_policy_lag s = Some lag")
    case True
    with assms obtain v lag where "fold_step (cancel_stale_group now) (stale_groups v lag d) d = Inr d'"
      by (auto simp: reconcile_stale_work_def scheduler_settings_def cancel_stale_train_groups_def split: option.splits)
    then show ?thesis by (rule fold_step_invariant) (auto dest: cancel_group_leases)
  next
    case False
    with assms show ?thesis
      by (auto simp: reconcile_stale_work_def scheduler_settings_def split: option.splits)
  qed
  then show ?thesis by (simp add: lease_at_def fun_eq_iff)
qed

text \<open>C11: a granted renewal leaves the lease with its owner and its attempt, never shortens it,
  ends after the present and not after the assignment's deadline, and what the worker is told is
  what is stored.\<close>

theorem renewal_extends:
  assumes "(coordinator_run R)\<^sup>*\<^sup>* coordinator_start (d, sp)"
    and "renew_lease l w s dur expected sent ack now d = (Inr (Inl lease), d')"
  shows "\<exists>old new. lease_at d l = Some old \<and> lease_at d' l = Some new \<and>
    al_lease_id lease = l \<and> l_worker_id new = w \<and> l_worker_session_id new = s \<and> l_state new = L_active \<and>
    l_attempt new = l_attempt old \<and> l_issued_at new = l_issued_at old \<and>
    al_expires_at lease = l_expires_at new \<and> l_expires_at old \<le> l_expires_at new \<and> now < l_expires_at new \<and>
    (case ra_deadline_at (al_assignment lease) of None \<Rightarrow> True | Some t \<Rightarrow> l_expires_at new \<le> t)"
proof -
  have c: "consistent d" using coord.reachable_good [OF _ assms(1)] by (simp add: repository_inv_def)
  from assms(2) obtain lr ar where dur: "0 < dur"
    and r: "renew_lease_in l w s dur expected sent ack now d = Inr (Renewed lr ar, d')"
    and lease: "assignment_lease_of lr ar = Inr lease"
    by (auto simp: renew_lease_def transaction_def and_then_eq_Inr split: if_splits sum.splits prod.splits renew_answer.splits)
  from r obtain d1 old where d1: "reconcile_stale_work now d = Inr d1" "lease_at d1 l = Some old"
    and st: "l_state old = L_active" "now < l_expires_at old" "\<not> deadline_passed (a_deadline_at ar) now"
    and asg: "assignment_at d1 (l_assignment_id old) = Some ar"
    and lr: "lr = old\<lparr>l_expires_at := renewed_expiry now dur old ar\<rparr>"
    and u: "update_lease_expiry l (renewed_expiry now dur old ar) sent d1 = Inr d'"
    and own: "l_worker_id old = w" "l_worker_session_id old = s"
    by (rule renew_lease_inD) auto
  have a1: "advances d d1" using c d1(1) by (rule reconcile_advances)
  then have core1: "core d1" by (simp add: advances_def consistent_def)
  have "lease_at d1 l = lease_at d l" using reconcile_leases [OF d1(1)] by simp
  with d1(2) have at: "lease_at d l = Some old" by simp
  have dl: "case a_deadline_at ar of None \<Rightarrow> True | Some t \<Rightarrow> l_expires_at old \<le> t"
    using coreD(6) [OF core1 d1(2)] asg by (auto simp: lease_ok_def)
  have j: "ra_deadline_at (a_assignment_json ar) = a_deadline_at ar"
    using coreD(5) [OF core1 asg] by (simp add: assignment_ok_def columns_ok_def Let_def)
  have e: "l_expires_at old \<le> renewed_expiry now dur old ar"
    using dl by (auto simp: renewed_expiry_def cap_at_def split: option.splits)
  define new where "new = old\<lparr>l_expires_at := renewed_expiry now dur old ar,
    l_last_renew_sent_at := (case sent of None \<Rightarrow> l_last_renew_sent_at old | Some x \<Rightarrow> Some x)\<rparr>"
  have new: "lease_at d' l = Some new" using expiry_frame(8) [OF u, of l] d1(2) by (simp add: new_def)
  have "lease = \<lparr>al_lease_id = l_lease_id old, al_attempt = l_attempt old, al_worker_id = l_worker_id old,
      al_worker_session_id = l_worker_session_id old, al_issued_at = l_issued_at old,
      al_expires_at = renewed_expiry now dur old ar, al_assignment = a_assignment_json ar\<rparr>"
    using lease by (auto simp: assignment_lease_of_def lr decode_assignment_def AssignmentLease_def split: if_splits)
  then show ?thesis
    using at new own st e renewed_expiry_deadline [where ar = ar and now = now and duration = dur and lr = old] lease_at_id [OF at]
    by (auto simp: new_def j cong: option.case_cong)
qed

lemma busy_renewal:
  "renew_lease ''l0'' ''w'' ''s'' 60 None (Some 13) False 13 busy =
     (Inr (Inl \<lparr>al_lease_id = ''l0'', al_attempt = 1, al_worker_id = ''w'', al_worker_session_id = ''s'', al_issued_at = 11,
        al_expires_at = 73, al_assignment = demo_assignment ''a0'' 0\<rparr>),
      busy\<lparr>lease_attempts := [(demo_lease L_active)\<lparr>l_expires_at := 73, l_last_renew_sent_at := Some 13\<rparr>]\<rparr>)"
  using demo_assignments_valid(1)
  by (simp add: renew_lease_def renew_lease_in_def store_defs reconcile_stale_work_def scheduler_settings_def
      cancel_stale_train_groups_def active_policy_row_def stale_groups_def order_by_def the_assignment_def
      deadline_passed_def renewed_expiry_def cap_at_def update_lease_expiry_def assignment_lease_of_def
      decode_assignment_def AssignmentLease_def validate_expiry_def demo_assignment_def state_defs row_defs)

lemma renewal_extends_witness:
  "\<exists>old (new :: lease_row). lease_at busy ''l0'' = Some old \<and> l_state new = L_active \<and> l_expires_at new = 73 \<and>
     l_expires_at old \<le> 73"
proof -
  from renewal_extends [OF demo_busy busy_renewal] obtain old and new :: lease_row where
    "lease_at busy ''l0'' = Some old" "l_state new = L_active" "73 = l_expires_at new" "l_expires_at old \<le> l_expires_at new"
    unfolding assignment_lease.select_convs by blast
  then show ?thesis by auto
qed

section \<open>Granting a lease\<close>

text \<open>The order in which assignments are leased: the group's sequence number, then the index in the group.\<close>

definition lease_order :: "db \<Rightarrow> assignment_row \<Rightarrow> nat \<times> nat \<times> id" where
  "lease_order d r = (group_sequence d (a_group_id r), a_group_index r, a_assignment_id r)"

lemma find_first_sorted:
  "find P xs = Some r \<Longrightarrow> sorted (map k xs) \<Longrightarrow> x \<in> set xs \<Longrightarrow> P x \<Longrightarrow> k r \<le> k x"
  by (induction xs) (auto split: if_splits)

lemma candidates_sorted: "sorted (map (lease_order d) (candidates d now))"
  unfolding candidates_def lease_order_def [abs_def] by (rule sorted_order_by)

lemma candidates_iff: "x \<in> set (candidates d now) \<longleftrightarrow> x \<in> set (assignments d) \<and> leasable d now x"
  by (auto simp: candidates_def)

lemma choose_candidate_least:
  assumes "choose_candidate pref now loaded (candidates d now) = Some r"
    and "x \<in> set (assignments d)" "leasable d now x"
  shows "lease_order d r \<le> lease_order d x \<or>
    a_policy_id r \<in> set loaded \<and> (a_policy_id x \<in> set loaded \<longrightarrow> lease_order d r \<le> lease_order d x)"
proof -
  have x: "x \<in> set (candidates d now)" using assms(2,3) by (simp add: candidates_iff)
  then obtain oldest rest where c: "candidates d now = oldest # rest" by (cases "candidates d now") auto
  have old: "lease_order d oldest \<le> lease_order d x"
    using candidates_sorted [of d now] x unfolding c by (auto)
  show ?thesis
  proof (cases "r = oldest")
    case True
    with old show ?thesis by simp
  next
    case False
    then have f: "find (\<lambda>r. a_policy_id r \<in> set loaded) (candidates d now) = Some r"
      using assms(1) unfolding c choose_candidate_def by (auto split: if_splits option.splits)
    then have "a_policy_id r \<in> set loaded" by (auto simp: find_Some_iff)
    with find_first_sorted [OF f candidates_sorted x] show ?thesis by blast
  qed
qed

lemma grant_leaseD:
  assumes "core d" "grant_next s pref req dur lid now d = Inr (Granted lr ar, d')" "0 < dur"
  obtains d1 where "assignment_at d (a_assignment_id ar) = Some ar" "leasable d now ar"
    "lr = \<lparr>l_lease_id = lid, l_assignment_id = a_assignment_id ar, l_attempt = a_attempt_count ar + 1,
      l_worker_id = lq_worker_id req, l_worker_session_id = lq_worker_session_id req, l_issued_at = now,
      l_expires_at = cap_at (a_deadline_at ar) (now + dur), l_state = L_active, l_last_renew_sent_at = None\<rparr>"
    "moves (a_assignment_id ar) d d1" "lease_at d1 lid = Some lr"
    "assignment_at d1 (a_assignment_id ar) = Some (ar\<lparr>a_state := Leased, a_attempt_count := a_attempt_count ar + 1,
      a_current_lease_id := Some lid\<rparr>)"
    "lease_attempts d1 = lease_attempts d @ [lr]" "lease_cancellations d1 = lease_cancellations d"
    "lease_requests d1 = lease_requests d"
    "complete_request (lq_request_id req) Rq_leased (Some lid) now d1 = Inr d'"
proof -
  note g = grant_nextD [OF assms(2)]
  obtain d1 where d1: "grant_lease ar (lq_worker_id req) (lq_worker_session_id req) lid now dur d = Inr (lr, d1)"
    and cr: "complete_request (lq_request_id req) Rq_leased (Some lid) now d1 = Inr d'"
    using g(3) by blast
  have ar: "ar \<in> set (assignments d)" "leasable d now ar"
    using choose_candidate_mem [OF g(2)] by (simp_all add: candidates_iff)
  have at: "assignment_at d (a_assignment_id ar) = Some ar"
    using ar(1) mem_assignments_iff [OF coreD(1) [OF assms(1)]] by blast
  have w: "a_state ar \<in> {Pending, Retry_wait}" "a_available_at ar \<le> now" "\<not> deadline_passed (a_deadline_at ar) now"
    using ar(2) by (simp_all add: leasable_def)
  note m = grant_lease_moves [OF assms(1) at w assms(3) d1]
  have rest: "lease_attempts d1 = lease_attempts d @ [lr]" "lease_cancellations d1 = lease_cancellations d"
    "lease_requests d1 = lease_requests d"
    using d1 by (auto simp: grant_lease_def Let_def and_then_eq_Inr insert_lease_def set_current_lease_def update_assignment_def)
  show thesis by (rule that [OF at ar(2) m(3,1,4,2) rest cr])
qed


lemma busy_grant:
  "\<exists>d'. grant_next (demo_session (Some 12)) 5 second_request 30 ''l1'' 12 busy =
     Inr (Granted \<lparr>l_lease_id = ''l1'', l_assignment_id = ''a1'', l_attempt = 1, l_worker_id = ''w'',
        l_worker_session_id = ''s'', l_issued_at = 12, l_expires_at = 42, l_state = L_active,
        l_last_renew_sent_at = None\<rparr> (demo_row ''a1'' 1 Pending 0 None), d')"
  by (simp add: grant_next_def active_count_def count_where_def occupies_slot_def store_defs deadline_passed_def
      candidates_def leasable_def order_by_def choose_candidate_def grant_lease_def insert_lease_def
      set_current_lease_def complete_request_def request_ok_def cap_at_def second_request_def the_worker_def state_defs row_defs)

lemma busy_ok: "consistent busy"
  using coord.reachable_good [OF _ demo_busy] by (simp add: repository_inv_def)


text \<open>C13: a worker session never holds more leases than its declared inference slots: the lease
  just granted is counted, and the count stays within the capabilities.\<close>

theorem lease_within_capacity:
  assumes "consistent d" "grant_next s pref req dur lid now d = Inr (Granted lr ar, d')" "0 < dur"
  shows "active_count d' (lq_worker_id req) (lq_worker_session_id req) now =
      active_count d (lq_worker_id req) (lq_worker_session_id req) now + 1 \<and>
    active_count d' (lq_worker_id req) (lq_worker_session_id req) now \<le> wc_inference_slots (s_capabilities_json s)"
proof -
  let ?w = "lq_worker_id req" and ?s = "lq_worker_session_id req"
  have c: "core d" using assms(1) by (simp add: consistent_def)
  note free = grant_nextD(1) [OF assms(2)]
  have "active_count d' ?w ?s now = active_count d ?w ?s now + 1"
  proof (rule grant_leaseD [OF c assms(2,3)])
    fix d1
    assume at: "assignment_at d (a_assignment_id ar) = Some ar" and l: "leasable d now ar"
      and lr: "lr = \<lparr>l_lease_id = lid, l_assignment_id = a_assignment_id ar, l_attempt = a_attempt_count ar + 1,
      l_worker_id = lq_worker_id req, l_worker_session_id = lq_worker_session_id req, l_issued_at = now,
      l_expires_at = cap_at (a_deadline_at ar) (now + dur), l_state = L_active, l_last_renew_sent_at = None\<rparr>"
      and m: "moves (a_assignment_id ar) d d1"
      and at1: "assignment_at d1 (a_assignment_id ar) = Some (ar\<lparr>a_state := Leased, a_attempt_count := a_attempt_count ar + 1,
        a_current_lease_id := Some lid\<rparr>)"
      and ls: "lease_attempts d1 = lease_attempts d @ [lr]" "lease_cancellations d1 = lease_cancellations d"
      and la: "lease_at d1 lid = Some lr"
      and cr: "complete_request (lq_request_id req) Rq_leased (Some lid) now d1 = Inr d'"
    note t = life_tables_inserts(3) [OF cr]
    have tabs: "lease_attempts d' = lease_attempts d @ [lr]" "lease_cancellation_at d' = lease_cancellation_at d"
      "assignment_at d' = assignment_at d1"
      using t ls life_tables_at(1) [OF t] by (auto simp: life_tables_def lease_cancellation_at_def fun_eq_iff)
    have dl: "(case assignment_at d' a of None \<Rightarrow> False | Some r \<Rightarrow> \<not> deadline_passed (a_deadline_at r) now) =
        (case assignment_at d a of None \<Rightarrow> False | Some r \<Rightarrow> \<not> deadline_passed (a_deadline_at r) now)" for a
      using at at1 touchesD(1) [OF movesD(2) [OF m]] unfolding tabs(3) by (cases "a = a_assignment_id ar") simp_all
    have occ: "occupies_slot d' ?w ?s now x = occupies_slot d ?w ?s now x" for x
      unfolding occupies_slot_def dl tabs(2) ..
    have none: "lease_cancellation_at d lid = None"
    proof (rule ccontr)
      assume "lease_cancellation_at d lid \<noteq> None"
      then obtain cl where cl: "lease_cancellation_at d lid = Some cl" by blast
      have "lease_at d lid \<noteq> None"
        using coreD(7) [OF c cl] lease_cancellation_at_id [OF cl] by (auto simp: lease_cancellation_ok_def lease_pair_def split: option.splits)
      then have "lid \<in> set (map l_lease_id (lease_attempts d))" by (auto simp: lease_at_def row_at_None_iff)
      moreover have "distinct (map l_lease_id (lease_attempts d1))" using movesD(1) [OF m] by (simp add: core_def keys_def)
      ultimately show False by (simp add: ls lr)
    qed
    have "now < cap_at (a_deadline_at ar) (now + dur)"
      using l assms(3) by (intro cap_at_greater) (simp_all add: leasable_def)
    then have new: "occupies_slot d ?w ?s now lr"
      using none at l by (simp add: occupies_slot_def lr leasable_def)
    have "active_count d' ?w ?s now = length (filter (occupies_slot d ?w ?s now) (lease_attempts d @ [lr]))"
      unfolding active_count_def count_where_def tabs(1) occ ..
    with new show ?thesis by (simp add: active_count_def count_where_def)
  qed
  with free show ?thesis by simp
qed

lemma lease_within_capacity_witness: "\<exists>d'. active_count d' ''w'' ''s'' 12 \<le> 2 \<and> active_count d' ''w'' ''s'' 12 = active_count busy ''w'' ''s'' 12 + 1"
proof -
  obtain d' where g: "grant_next (demo_session (Some 12)) 5 second_request 30 ''l1'' 12 busy =
     Inr (Granted \<lparr>l_lease_id = ''l1'', l_assignment_id = ''a1'', l_attempt = 1, l_worker_id = ''w'',
        l_worker_session_id = ''s'', l_issued_at = 12, l_expires_at = 42, l_state = L_active,
        l_last_renew_sent_at = None\<rparr> (demo_row ''a1'' 1 Pending 0 None), d')"
    using busy_grant by blast
  from lease_within_capacity [OF busy_ok g] show ?thesis
    by (auto simp: second_request_def demo_session_def the_worker_def)
qed

section \<open>Releasing a lease that was not offered\<close>

text \<open>C14: \<open>release_unoffered_lease\<close> never releases an active lease: it deletes the lease row while
  the assignment still refers to it, the foreign key refuses that, and the transaction is rolled
  back, so the caller gets the database error and the lease stays active until it expires.\<close>

theorem release_is_refused:
  assumes "(coordinator_run R)\<^sup>*\<^sup>* coordinator_start (d, sp)"
    and "lease_at d l = Some x" "l_state x = L_active"
  shows "release_unoffered_lease l now d = (Inl IntegrityError, d)"
proof -
  have i: "consistent d" using coord.reachable_good [OF _ assms(1)] by (simp add: repository_inv_def)
  then have c: "core d" by (simp add: consistent_def)
  then obtain r where r: "assignment_at d (l_assignment_id x) = Some r" "a_current_lease_id r = Some l"
    using coreD(6) [OF c assms(2)] lease_at_id [OF assms(2)] assms(3) by (auto simp: lease_ok_def)
  from delete_current_lease [OF i _ r] assms(2,3) r show ?thesis
    by (simp add: release_unoffered_lease_def transaction_def the_assignment_def)
qed

lemma release_is_refused_witness: "release_unoffered_lease ''l0'' 13 busy = (Inl IntegrityError, busy)"
  using release_is_refused [OF demo_busy, of "''l0''" "demo_lease L_active" 13] by (simp add: busy_rows demo_lease_def)

end
