(* ===== verification/Training_Data.thy ===== *)
theory Training_Data
  imports Prelude "HOL-Library.Word"
begin

text \<open>
  The training data that travels from the rollout results to the trainer
  (\<open>transport/types.py\<close>), and the preparation of a single sample (\<open>trainer/batch.py\<close>):
  the checks of its streams and the truncation to the sequence length, which never cuts
  through the placeholder tokens of an image.
\<close>

section \<open>Messages\<close>

type_synonym bytes = "8 word list"

record encoded_tensor =
  et_dtype :: string
  et_shape :: "nat list"
  et_data :: bytes

record routed_experts =
  re_data :: bytes
  re_shape :: "nat list"
  re_dtype :: string

text \<open>The keyword arguments of the model's forward pass: a Python dict, in insertion order.\<close>

type_synonym mm_kwargs = "(string \<times> encoded_tensor) list"

record training_sample =
  ts_token_ids :: "int list"
  ts_mask :: "bool list"
  ts_logprobs :: "rat list"
  ts_temperatures :: "rat list"
  ts_env_name :: string
  ts_ref_logprobs :: "rat list option"
  ts_mm_kwargs :: "mm_kwargs option"
  ts_routed_experts :: "routed_experts option"
  ts_mm_token_type_ids :: "int list option"
  ts_rl_weights :: "rat list option"
  ts_ce_weights :: "rat list option"
  ts_ref_kl_weights :: "rat list option"
  ts_advantages :: "rat list option"
  ts_behavior_policy_id :: "string option"
  ts_behavior_policy_version :: "nat option"
  ts_behavior_policy_digest :: "digest option"

record training_batch =
  batch_examples :: "training_sample list"
  batch_step :: nat
  batch_run_idx :: "nat option"

record micro_batch =
  input_ids :: "int list"
  loss_mask :: "bool list"
  advantages :: "rat list"
  inference_logprobs :: "rat list"
  position_ids :: "nat list"
  sequence_lengths :: "nat list"
  temperatures :: "rat list"
  env_names :: "string list"
  seq_lens :: "nat list"
  ref_logprobs :: "rat list option"
  lora_num_tokens :: "nat list option"
  mb_routed_experts :: "routed_experts option"
  mb_mm_kwargs :: "mm_kwargs option"
  mm_token_type_ids :: "int list option"
  rl_weights :: "rat list option"
  ce_weights :: "rat list option"
  ref_kl_weights :: "rat list option"
  run_id :: "string option"
  run_step :: "nat option"

section \<open>Routed experts and tensors\<close>

text \<open>\<open>itemsize\<close> is \<open>np.dtype(_).itemsize\<close>; a shape has three entries, or indexing it raises.\<close>

definition routed_experts_row_size :: "(string \<Rightarrow> nat) \<Rightarrow> routed_experts \<Rightarrow> error + nat" where
  "routed_experts_row_size itemsize re =
     (if length (re_shape re) < 3 then Inl IndexError
      else Inr (re_shape re ! 1 * re_shape re ! 2 * itemsize (re_dtype re)))"

definition slice_routed_experts :: "(string \<Rightarrow> nat) \<Rightarrow> routed_experts \<Rightarrow> nat \<Rightarrow> error + routed_experts" where
  "slice_routed_experts itemsize re seq_len =
     and_then (routed_experts_row_size itemsize re) (\<lambda>row_size.
       Inr \<lparr>re_data = take (seq_len * row_size) (re_data re),
            re_shape = [seq_len, re_shape re ! 1, re_shape re ! 2], re_dtype = re_dtype re\<rparr>)"

definition slice_encoded :: "(string \<Rightarrow> nat) \<Rightarrow> encoded_tensor \<Rightarrow> nat \<Rightarrow> encoded_tensor" where
  "slice_encoded itemsize t n_rows =
     (let row = prod_list (tl (et_shape t))
      in \<lparr>et_dtype = et_dtype t, et_shape = n_rows # tl (et_shape t),
          et_data = take (n_rows * row * itemsize (et_dtype t)) (et_data t)\<rparr>)"

section \<open>Truncation at image boundaries\<close>

definition placeholders :: "int list \<Rightarrow> nat" where
  "placeholders ids = length (filter (\<lambda>t. t \<noteq> 0) ids)"

text \<open>The loop that counts the images whose tokens all survive: their tokens and their number.\<close>

fun whole_images :: "nat \<Rightarrow> nat list \<Rightarrow> nat \<Rightarrow> nat \<times> nat" where
  "whole_images surviving [] acc = (acc, 0)"
| "whole_images surviving (n # ns) acc =
     (if acc + n > surviving then (acc, 0)
      else case whole_images surviving ns (acc + n) of (tokens, kept) \<Rightarrow> (tokens, Suc kept))"

text \<open>The position of the first placeholder with \<open>seen\<close> placeholders before it.\<close>

fun placeholder_position :: "nat \<Rightarrow> int list \<Rightarrow> nat option" where
  "placeholder_position seen [] = None"
| "placeholder_position seen (t # ts) =
     (if t = 0 then map_option Suc (placeholder_position seen ts)
      else case seen of 0 \<Rightarrow> Some 0 | Suc n \<Rightarrow> map_option Suc (placeholder_position n ts))"

text \<open>The grid of an image, as \<open>numpy\<close> decodes it, and the tokens it takes up.\<close>

definition tokens_per_image :: "nat list list \<Rightarrow> nat \<Rightarrow> nat \<Rightarrow> error + nat list" where
  "tokens_per_image grid total_patches total_tokens =
     (let ppt = (if total_tokens \<noteq> 0 then total_patches div total_tokens else 1)
      in if grid \<noteq> [] \<and> ppt = 0 then Inl ZeroDivisionError
         else Inr (map (\<lambda>g. prod_list g div ppt) grid))"

definition cut_point :: "int list \<Rightarrow> nat \<Rightarrow> nat list \<Rightarrow> nat" where
  "cut_point ids seq_len tokens =
     (let surviving = placeholders (take seq_len ids)
      in case whole_images surviving tokens 0 of (acc, kept) \<Rightarrow>
           if acc = surviving then seq_len
           else case placeholder_position acc ids of None \<Rightarrow> seq_len | Some i \<Rightarrow> i)"

definition truncate_mm :: "(string \<Rightarrow> nat) \<Rightarrow> (encoded_tensor \<Rightarrow> nat list list) \<Rightarrow> int list \<Rightarrow> mm_kwargs \<Rightarrow> nat
    \<Rightarrow> error + nat \<times> mm_kwargs option" where
  "truncate_mm itemsize decode_grid ids kwargs seq_len =
     (case (map_of kwargs ''image_grid_thw'', map_of kwargs ''pixel_values'') of
        (Some grid_tensor, Some pixels) \<Rightarrow>
          (case et_shape pixels of
             [] \<Rightarrow> Inl IndexError
           | total_patches # _ \<Rightarrow>
               let grid = decode_grid grid_tensor in
               and_then (tokens_per_image grid total_patches (placeholders ids)) (\<lambda>tokens.
               let kept = snd (whole_images (placeholders (take seq_len ids)) tokens 0);
                   kept_patches = sum_list (take kept (map prod_list grid))
               in Inr (cut_point ids seq_len tokens,
                       if kept = 0 then None
                       else Some (map (\<lambda>(k, t). (k, slice_encoded itemsize t
                         (if k = ''image_grid_thw'' then kept else kept_patches))) kwargs))))
      | _ \<Rightarrow> Inl KeyError)"

section \<open>Preparing a sample\<close>

definition multimodal_sample_error :: "training_sample \<Rightarrow> bool" where
  "multimodal_sample_error s \<longleftrightarrow>
     (case ts_mm_token_type_ids s of
        Some ids \<Rightarrow> length ids \<noteq> length (ts_token_ids s)
      | None \<Rightarrow> (case ts_mm_kwargs s of None \<Rightarrow> False | Some kwargs \<Rightarrow> map_of kwargs ''image_grid_thw'' \<noteq> None))"

definition has_rl_members :: "training_sample \<Rightarrow> bool" where
  "has_rl_members s \<longleftrightarrow>
     (case ts_rl_weights s of
        None \<Rightarrow> list_ex (\<lambda>m. m) (ts_mask s)
      | Some ws \<Rightarrow> list_ex (\<lambda>(m, w). m \<and> w \<noteq> 0) (zip (ts_mask s) ws))"

text \<open>The whole sample as a micro batch, before the length is looked at.\<close>

definition full_batch :: "training_sample \<Rightarrow> micro_batch" where
  "full_batch s =
     \<lparr>input_ids = ts_token_ids s, loss_mask = ts_mask s,
      advantages = (case ts_advantages s of Some as \<Rightarrow> as | None \<Rightarrow> replicate (length (ts_token_ids s)) 0),
      inference_logprobs = ts_logprobs s, position_ids = [0..<length (ts_token_ids s)],
      sequence_lengths = [length (ts_token_ids s)], temperatures = ts_temperatures s,
      env_names = replicate (length (ts_token_ids s)) (ts_env_name s), seq_lens = [length (ts_token_ids s)],
      ref_logprobs = ts_ref_logprobs s, lora_num_tokens = None, mb_routed_experts = ts_routed_experts s,
      mb_mm_kwargs = ts_mm_kwargs s, mm_token_type_ids = ts_mm_token_type_ids s, rl_weights = ts_rl_weights s,
      ce_weights = ts_ce_weights s, ref_kl_weights = ts_ref_kl_weights s, run_id = None, run_step = None\<rparr>"

definition truncate_batch :: "(string \<Rightarrow> nat) \<Rightarrow> nat \<Rightarrow> mm_kwargs option \<Rightarrow> micro_batch \<Rightarrow> error + micro_batch" where
  "truncate_batch itemsize limit kwargs b =
     and_then (case mb_routed_experts b of
                 None \<Rightarrow> Inr None
               | Some re \<Rightarrow> and_then (slice_routed_experts itemsize re limit) (\<lambda>re. Inr (Some re))) (\<lambda>re.
     Inr (b\<lparr>input_ids := take limit (input_ids b), loss_mask := take limit (loss_mask b),
            inference_logprobs := take limit (inference_logprobs b), position_ids := take limit (position_ids b),
            advantages := take limit (advantages b), temperatures := take limit (temperatures b),
            ref_logprobs := map_option (take limit) (ref_logprobs b), rl_weights := map_option (take limit) (rl_weights b),
            ce_weights := map_option (take limit) (ce_weights b), ref_kl_weights := map_option (take limit) (ref_kl_weights b),
            mb_routed_experts := re, mm_token_type_ids := map_option (take limit) (mm_token_type_ids b),
            env_names := take limit (env_names b), mb_mm_kwargs := kwargs,
            sequence_lengths := [length (take limit (input_ids b))], seq_lens := [length (take limit (input_ids b))]\<rparr>))"

definition option_all :: "('a \<Rightarrow> bool) \<Rightarrow> 'a option \<Rightarrow> bool" where
  "option_all P x = (case x of None \<Rightarrow> True | Some y \<Rightarrow> P y)"

lemma option_all_simps [simp]: "option_all P None" "option_all P (Some x) = P x"
  by (simp_all add: option_all_def)

text \<open>The assertions at the end of \<open>prepare_sample\<close>.\<close>

definition streams_match :: "micro_batch \<Rightarrow> bool" where
  "streams_match b \<longleftrightarrow>
     (let n = length (input_ids b) in
      length (advantages b) = n \<and> length (loss_mask b) = n \<and> length (position_ids b) = n \<and>
      length (inference_logprobs b) = n \<and> length (temperatures b) = n \<and>
      option_all (\<lambda>xs. length xs = n) (ref_logprobs b) \<and> option_all (\<lambda>xs. length xs = n) (rl_weights b) \<and>
      option_all (\<lambda>xs. length xs = n) (ce_weights b) \<and> option_all (\<lambda>xs. length xs = n) (ref_kl_weights b))"

definition check_routed_experts :: "(string \<Rightarrow> nat) \<Rightarrow> micro_batch \<Rightarrow> error + unit" where
  "check_routed_experts itemsize b =
     (case mb_routed_experts b of
        None \<Rightarrow> Inr ()
      | Some re \<Rightarrow>
          (case re_shape re of
             [] \<Rightarrow> Inl IndexError
           | rows # _ \<Rightarrow>
               if rows \<noteq> length (input_ids b) then Inl AssertionError
               else and_then (routed_experts_row_size itemsize re) (\<lambda>row_size.
                 guard (length (re_data re) = length (input_ids b) * row_size) AssertionError)))"

definition prepare_sample :: "(string \<Rightarrow> nat) \<Rightarrow> (encoded_tensor \<Rightarrow> nat list list) \<Rightarrow> training_sample \<Rightarrow> nat
    \<Rightarrow> error + micro_batch" where
  "prepare_sample itemsize decode_grid s seq_len =
     (if multimodal_sample_error s then Inl ValueError
      else if ts_advantages s = None \<and> has_rl_members s then Inl ValueError
      else if ts_env_name s = ''all'' then Inl AssertionError
      else and_then
        (if length (ts_token_ids s) > seq_len then
           and_then (case (ts_mm_token_type_ids s, ts_mm_kwargs s) of
                       (Some ids, Some kwargs) \<Rightarrow> truncate_mm itemsize decode_grid ids kwargs seq_len
                     | _ \<Rightarrow> Inr (seq_len, ts_mm_kwargs s)) (\<lambda>(limit, kwargs).
           truncate_batch itemsize limit kwargs (full_batch s))
         else Inr (full_batch s)) (\<lambda>b.
        and_then (guard (streams_match b) AssertionError) (\<lambda>_.
        and_then (check_routed_experts itemsize b) (\<lambda>_.
        and_then (guard (length (env_names b) = length (input_ids b)) AssertionError) (\<lambda>_.
        Inr b)))))"

section \<open>The cut\<close>

lemma placeholders_Cons [simp]: "placeholders (t # ts) = (if t = 0 then placeholders ts else Suc (placeholders ts))"
  by (simp add: placeholders_def)

lemma placeholders_Nil [simp]: "placeholders [] = 0"
  by (simp add: placeholders_def)

lemma whole_images_sum:
  "whole_images surviving ns acc = (tokens, kept) \<Longrightarrow>
     tokens = acc + sum_list (take kept ns) \<and> kept \<le> length ns \<and> (acc \<le> surviving \<longrightarrow> tokens \<le> surviving)"
proof (induction ns arbitrary: acc tokens kept)
  case (Cons n ns)
  obtain tokens' kept' where w: "whole_images surviving ns (acc + n) = (tokens', kept')" by fastforce
  from Cons.IH [OF w] Cons.prems w show ?case by (auto split: if_splits)
qed simp

text \<open>A placeholder past the first \<open>seen\<close> lies where a prefix with more of them ends, and not before.\<close>

lemma placeholder_position_prefix:
  assumes "seen < placeholders (take n ids)"
  shows "\<exists>i. placeholder_position seen ids = Some i \<and> i < n \<and> placeholders (take i ids) = seen"
  using assms
proof (induction ids arbitrary: seen n)
  case Nil
  then show ?case by simp
next
  case (Cons t ts)
  then obtain m where n: "n = Suc m" by (cases n) auto
  show ?case
  proof (cases "t = 0")
    case True
    with Cons.prems n Cons.IH [of seen m] show ?thesis by auto
  next
    case t: False
    show ?thesis
    proof (cases seen)
      case 0
      with t n show ?thesis by simp
    next
      case (Suc k)
      with t n Cons.prems Cons.IH [of k m] show ?thesis by auto
    qed
  qed
qed

lemma cut_point_ok:
  assumes "whole_images (placeholders (take seq_len ids)) tokens 0 = (acc, kept)"
  shows "cut_point ids seq_len tokens \<le> seq_len \<and> placeholders (take (cut_point ids seq_len tokens) ids) = acc"
proof -
  have "acc \<le> placeholders (take seq_len ids)" using whole_images_sum [OF assms] by simp
  then consider "acc = placeholders (take seq_len ids)" | "acc < placeholders (take seq_len ids)" by linarith
  then show ?thesis
  proof cases
    case 1
    then show ?thesis by (simp add: cut_point_def assms)
  next
    case 2
    then obtain i where "placeholder_position acc ids = Some i" "i < seq_len" "placeholders (take i ids) = acc"
      using placeholder_position_prefix by blast
    with 2 show ?thesis by (simp add: cut_point_def assms)
  qed
qed

lemma truncate_mmD:
  assumes "truncate_mm itemsize decode_grid ids kwargs seq_len = Inr (limit, kwargs')"
  obtains grid_tensor pixels tokens kept where "map_of kwargs ''image_grid_thw'' = Some grid_tensor"
    "map_of kwargs ''pixel_values'' = Some pixels"
    "tokens_per_image (decode_grid grid_tensor) (hd (et_shape pixels)) (placeholders ids) = Inr tokens"
    "whole_images (placeholders (take seq_len ids)) tokens 0 = (placeholders (take limit ids), kept)"
    "limit = cut_point ids seq_len tokens" "limit \<le> seq_len" "kwargs' = None \<longleftrightarrow> kept = 0"
proof -
  from assms obtain grid_tensor pixels tokens where *: "map_of kwargs ''image_grid_thw'' = Some grid_tensor"
    "map_of kwargs ''pixel_values'' = Some pixels"
    "tokens_per_image (decode_grid grid_tensor) (hd (et_shape pixels)) (placeholders ids) = Inr tokens"
    "limit = cut_point ids seq_len tokens"
    "kwargs' = None \<longleftrightarrow> snd (whole_images (placeholders (take seq_len ids)) tokens 0) = 0"
    by (auto simp: truncate_mm_def and_then_eq_Inr Let_def split: option.splits list.splits if_splits)
  moreover obtain acc kept where w: "whole_images (placeholders (take seq_len ids)) tokens 0 = (acc, kept)" by fastforce
  with cut_point_ok [OF w] *(4) have "acc = placeholders (take limit ids)" "limit \<le> seq_len" by simp_all
  ultimately show ?thesis using that w by auto
qed

section \<open>Prepared samples\<close>

text \<open>All streams of a micro batch have one entry per token.\<close>

definition aligned :: "micro_batch \<Rightarrow> bool" where
  "aligned b \<longleftrightarrow>
     streams_match b \<and> length (env_names b) = length (input_ids b) \<and>
     option_all (\<lambda>ids. length ids = length (input_ids b)) (mm_token_type_ids b) \<and>
     sum_list (sequence_lengths b) = length (input_ids b) \<and> sum_list (seq_lens b) = length (input_ids b) \<and>
     option_all (\<lambda>re. re_shape re \<noteq> [] \<and> hd (re_shape re) = length (input_ids b)) (mb_routed_experts b)"

text \<open>What a prepared sample keeps of its source: a prefix of every stream.\<close>

definition prefix_of :: "nat \<Rightarrow> training_sample \<Rightarrow> micro_batch \<Rightarrow> bool" where
  "prefix_of limit s b \<longleftrightarrow>
     input_ids b = take limit (ts_token_ids s) \<and> loss_mask b = take limit (ts_mask s) \<and>
     inference_logprobs b = take limit (ts_logprobs s) \<and> temperatures b = take limit (ts_temperatures s) \<and>
     advantages b = take limit (case ts_advantages s of Some as \<Rightarrow> as | None \<Rightarrow> replicate (length (ts_token_ids s)) 0) \<and>
     ref_logprobs b = map_option (take limit) (ts_ref_logprobs s) \<and>
     rl_weights b = map_option (take limit) (ts_rl_weights s) \<and> ce_weights b = map_option (take limit) (ts_ce_weights s) \<and>
     ref_kl_weights b = map_option (take limit) (ts_ref_kl_weights s) \<and>
     mm_token_type_ids b = map_option (take limit) (ts_mm_token_type_ids s) \<and>
     position_ids b = [0..<length (input_ids b)] \<and> sequence_lengths b = [length (input_ids b)] \<and>
     seq_lens b = [length (input_ids b)] \<and> env_names b = replicate (length (input_ids b)) (ts_env_name s)"

lemma truncate_batch_prefix:
  assumes "truncate_batch itemsize limit kwargs (full_batch s) = Inr b"
  shows "prefix_of limit s b" "mb_mm_kwargs b = kwargs"
  using assms by (auto simp: truncate_batch_def and_then_eq_Inr prefix_of_def full_batch_def take_upt min_def)

lemma prepare_sample_prefix:
  assumes "prepare_sample itemsize decode_grid s seq_len = Inr b"
  obtains limit where "length (input_ids b) \<le> seq_len" "prefix_of limit s b"
proof (cases "length (ts_token_ids s) > seq_len")
  case True
  with assms obtain limit kwargs where t: "truncate_batch itemsize limit kwargs (full_batch s) = Inr b"
    and c: "(case (ts_mm_token_type_ids s, ts_mm_kwargs s) of
        (Some ids, Some kwargs) \<Rightarrow> truncate_mm itemsize decode_grid ids kwargs seq_len
      | _ \<Rightarrow> Inr (seq_len, ts_mm_kwargs s)) = Inr (limit, kwargs)"
    by (auto simp: prepare_sample_def and_then_eq_Inr split: if_splits)
  have "limit \<le> seq_len" using c by (auto split: option.splits elim: truncate_mmD)
  moreover have p: "prefix_of limit s b" by (rule truncate_batch_prefix [OF t])
  moreover have "input_ids b = take limit (ts_token_ids s)" using p unfolding prefix_of_def by blast
  ultimately show ?thesis using that [of limit] by simp
next
  case False
  with assms have b: "b = full_batch s" and m: "streams_match b" "\<not> multimodal_sample_error s"
    by (auto simp: prepare_sample_def and_then_eq_Inr split: if_splits)
  have opt: "option_all (\<lambda>xs. length xs = n) x \<Longrightarrow> map_option (take n) x = x" for n and x :: "'a list option"
    by (cases x) auto
  have "prefix_of (length (ts_token_ids s)) s b"
    using m by (auto simp: b prefix_of_def full_batch_def streams_match_def Let_def opt multimodal_sample_error_def split: option.splits)
  with False b that show ?thesis by (auto simp: full_batch_def)
qed

lemma prepare_sample_aligned:
  assumes "prepare_sample itemsize decode_grid s seq_len = Inr b"
  shows "aligned b"
proof -
  obtain limit where p: "prefix_of limit s b" using prepare_sample_prefix [OF assms] by blast
  have "streams_match b" "length (env_names b) = length (input_ids b)" "\<not> multimodal_sample_error s"
    and re: "check_routed_experts itemsize b = Inr ()"
    using assms by (auto simp: prepare_sample_def and_then_eq_Inr split: if_splits)
  moreover from re have "option_all (\<lambda>re. re_shape re \<noteq> [] \<and> hd (re_shape re) = length (input_ids b)) (mb_routed_experts b)"
    by (auto simp: check_routed_experts_def split: option.splits list.splits if_splits)
  ultimately show ?thesis using p
    by (auto simp: aligned_def prefix_of_def multimodal_sample_error_def option_all_def split: option.splits)
qed

lemma map_of_map_keyed: "map_of (map (\<lambda>(k, t). (k, f k t)) xs) k = map_option (f k) (map_of xs k)"
  by (induction xs) auto

lemma sum_list_div:
  fixes f :: "'a \<Rightarrow> nat"
  shows "(\<And>x. x \<in> set xs \<Longrightarrow> p dvd f x) \<Longrightarrow> p * sum_list (map (\<lambda>x. f x div p) xs) = sum_list (map f xs)"
  by (induction xs) (auto simp: distrib_left)

section \<open>Properties\<close>

text \<open>C19: the truncation of a multimodal sample keeps whole images: the cut is within the
  sequence length, the rows of pixels that are kept are those of the first images, as many of them
  as grid rows are kept, and they are exactly the patches of the placeholder tokens before the cut.\<close>

theorem truncated_images_whole:
  assumes "truncate_mm itemsize decode_grid ids kwargs seq_len = Inr (limit, Some kwargs')"
    and "map_of kwargs ''image_grid_thw'' = Some grid" "map_of kwargs ''pixel_values'' = Some pixels"
    and "per_token = hd (et_shape pixels) div placeholders ids" "placeholders ids \<noteq> 0"
    and "\<And>g. g \<in> set (decode_grid grid) \<Longrightarrow> per_token dvd prod_list g"
  shows "limit \<le> seq_len \<and> (\<exists>grid' pixels'.
    map_of kwargs' ''image_grid_thw'' = Some grid' \<and> map_of kwargs' ''pixel_values'' = Some pixels' \<and>
    hd (et_shape pixels') = per_token * placeholders (take limit ids) \<and>
    hd (et_shape pixels') = sum_list (map prod_list (take (hd (et_shape grid')) (decode_grid grid))))"
proof -
  obtain tokens kept where tokens: "tokens_per_image (decode_grid grid) (hd (et_shape pixels)) (placeholders ids) = Inr tokens"
    and w: "whole_images (placeholders (take seq_len ids)) tokens 0 = (placeholders (take limit ids), kept)"
    and limit: "limit \<le> seq_len"
    by (rule truncate_mmD [OF assms(1)]) (use assms(2,3) in auto)
  have t: "tokens = map (\<lambda>g. prod_list g div per_token) (decode_grid grid)"
    using tokens assms(4,5) by (auto simp: tokens_per_image_def Let_def split: if_splits)
  have "per_token * placeholders (take limit ids) = per_token * sum_list (take kept tokens)"
    using whole_images_sum [OF w] by simp
  also have "\<dots> = sum_list (map prod_list (take kept (decode_grid grid)))"
    unfolding t take_map using assms(6) by (intro sum_list_div) (meson in_set_takeD)
  finally have "per_token * placeholders (take limit ids) = sum_list (map prod_list (take kept (decode_grid grid)))" .
  moreover have "kwargs' = map (\<lambda>(k, t). (k, slice_encoded itemsize t
      (if k = ''image_grid_thw'' then kept else sum_list (take kept (map prod_list (decode_grid grid)))))) kwargs"
    using assms(1-3) tokens w by (auto simp: truncate_mm_def Let_def and_then_eq_Inr split: list.splits if_splits)
  ultimately show ?thesis
    using assms(2,3) limit by (simp add: map_of_map_keyed slice_encoded_def Let_def take_map)
qed

text \<open>C20: a prepared sample fits the sequence length, its streams are prefixes of the streams of the
  rollout, all cut at the same token, and all of them are aligned with the tokens.\<close>

theorem prepared_sample_aligned:
  assumes "prepare_sample itemsize decode_grid s seq_len = Inr b"
  shows "aligned b \<and> length (input_ids b) \<le> seq_len \<and> (\<exists>limit. prefix_of limit s b)"
  using prepare_sample_aligned [OF assms] prepare_sample_prefix [OF assms] by blast

text \<open>Two images of two tokens each and a text token between them; the second does not fit.\<close>

definition two_images :: mm_kwargs where
  "two_images = [(''pixel_values'', \<lparr>et_dtype = ''u1'', et_shape = [16, 1], et_data = [0, 1, 2, 3, 4, 5, 6, 7, 8, 9, 10, 11, 12, 13, 14, 15]\<rparr>),
                 (''image_grid_thw'', \<lparr>et_dtype = ''u1'', et_shape = [2, 3], et_data = [1, 2, 4, 1, 2, 4]\<rparr>)]"

definition two_grids :: "encoded_tensor \<Rightarrow> nat list list" where
  "two_grids t = [[1, 2, 4], [1, 2, 4]]"

definition one_byte :: "string \<Rightarrow> nat" where
  "one_byte d = 1"

lemma two_images_cut:
  "truncate_mm one_byte two_grids [1, 1, 0, 1, 1] two_images 4 =
     Inr (3, Some [(''pixel_values'', \<lparr>et_dtype = ''u1'', et_shape = [8, 1], et_data = [0, 1, 2, 3, 4, 5, 6, 7]\<rparr>),
                   (''image_grid_thw'', \<lparr>et_dtype = ''u1'', et_shape = [1, 3], et_data = [1, 2, 4]\<rparr>)])"
  by code_simp

lemma truncated_images_whole_witness: "(8 :: nat) = 4 * placeholders (take 3 [1, 1, 0, 1, 1])"
  using truncated_images_whole [OF two_images_cut, of _ _ 4]
  by (simp add: two_images_def two_grids_def)

definition short_sample :: training_sample where
  "short_sample = \<lparr>ts_token_ids = [5, 6, 7], ts_mask = [False, True, True], ts_logprobs = [0, -1, -2],
     ts_temperatures = [1, 1, 1], ts_env_name = ''env'', ts_ref_logprobs = None, ts_mm_kwargs = None,
     ts_routed_experts = None, ts_mm_token_type_ids = None, ts_rl_weights = None, ts_ce_weights = Some [0, 1, 1],
     ts_ref_kl_weights = None, ts_advantages = Some [0, 1, 1], ts_behavior_policy_id = None,
     ts_behavior_policy_version = None, ts_behavior_policy_digest = None\<rparr>"

lemma short_sample_prepared:
  "prepare_sample one_byte two_grids short_sample 2 =
     Inr \<lparr>input_ids = [5, 6], loss_mask = [False, True], advantages = [0, 1], inference_logprobs = [0, -1],
       position_ids = [0, 1], sequence_lengths = [2], temperatures = [1, 1], env_names = [''env'', ''env''],
       seq_lens = [2], ref_logprobs = None, lora_num_tokens = None, mb_routed_experts = None, mb_mm_kwargs = None,
       mm_token_type_ids = None, rl_weights = None, ce_weights = Some [0, 1], ref_kl_weights = None,
       run_id = None, run_step = None\<rparr>"
  by (simp add: prepare_sample_def multimodal_sample_error_def has_rl_members_def short_sample_def full_batch_def
      truncate_batch_def streams_match_def check_routed_experts_def numeral_2_eq_2 upt_rec)

lemma prepared_sample_aligned_witness: "\<exists>b. aligned b \<and> input_ids b = [5, 6]"
  using prepared_sample_aligned [OF short_sample_prepared] by (metis micro_batch.select_convs(1))

end
