(* ===== verification/Partition.thy ===== *)
theory Partition
  imports Prelude
begin

text \<open>
  Balanced partitioning of packed micro batches (\<open>trainer/utils.py\<close>): the largest differencing
  method of Karmarkar and Karp over \<open>_KKState\<close> values, followed by a hill climb that swaps two
  items as long as this lowers the heaviest load, or the spread of the loads. The result is a
  partition into parts of equal size, its loads differ by no more than two weights do, and no
  single swap improves it.
\<close>

section \<open>Weighted sets\<close>

datatype weighted_set = Weighted_Set (ws_total: int) (ws_items: "nat list")

definition empty_set :: weighted_set where
  "empty_set = Weighted_Set 0 []"

definition ws_add :: "nat \<Rightarrow> int \<Rightarrow> weighted_set \<Rightarrow> weighted_set" where
  "ws_add idx weight s = Weighted_Set (ws_total s + weight) (ws_items s @ [idx])"

definition ws_merge :: "weighted_set \<Rightarrow> weighted_set \<Rightarrow> weighted_set" where
  "ws_merge s other = Weighted_Set (ws_total s + ws_total other) (ws_items s @ ws_items other)"

definition ws_less :: "weighted_set \<Rightarrow> weighted_set \<Rightarrow> bool" where
  "ws_less s other =
     (if ws_total s \<noteq> ws_total other then ws_total s < ws_total other else ws_items s < ws_items other)"

text \<open>\<open>__lt__\<close> is a linear order, so the sorting functions of the library apply to the sets.\<close>

instantiation weighted_set :: linorder
begin

definition less_weighted_set :: "weighted_set \<Rightarrow> weighted_set \<Rightarrow> bool" where
  "less_weighted_set s t = ws_less s t"

definition less_eq_weighted_set :: "weighted_set \<Rightarrow> weighted_set \<Rightarrow> bool" where
  "less_eq_weighted_set s t \<longleftrightarrow> ws_less s t \<or> s = t"

instance
proof
  fix x y z :: weighted_set
  show "x < y \<longleftrightarrow> x \<le> y \<and> \<not> y \<le> x" and "x \<le> y \<Longrightarrow> y \<le> z \<Longrightarrow> x \<le> z" and "x \<le> x" and "x \<le> y \<Longrightarrow> y \<le> x \<Longrightarrow> x = y"
    by (auto simp: less_weighted_set_def less_eq_weighted_set_def ws_less_def split: if_splits)
  show "x \<le> y \<or> y \<le> x"
    by (cases x; cases y) (auto simp: less_eq_weighted_set_def ws_less_def)
qed

end

lemma less_eq_total: "s \<le> t \<Longrightarrow> ws_total s \<le> ws_total t"
  by (auto simp: less_eq_weighted_set_def ws_less_def split: if_splits)

text \<open>\<open>list.sort(reverse=True)\<close>; equal sets are the same value, so stability plays no role.\<close>

definition sort_desc :: "weighted_set list \<Rightarrow> weighted_set list" where
  "sort_desc sets = rev (sort sets)"

lemma mset_sort_desc [simp]: "mset (sort_desc sets) = mset sets"
  by (simp add: sort_desc_def)

lemma set_sort_desc [simp]: "set (sort_desc sets) = set sets"
  by (simp add: sort_desc_def)

lemma length_sort_desc [simp]: "length (sort_desc sets) = length sets"
  by (simp add: sort_desc_def)

section \<open>The differencing method\<close>

type_synonym kk_state = "weighted_set list"

definition kk_new :: "(nat \<times> int) list \<Rightarrow> nat \<Rightarrow> kk_state" where
  "kk_new items k =
     sort_desc (fold (\<lambda>(set_idx, idx, weight) sets. sets[set_idx := ws_add idx weight (sets ! set_idx)])
       (enumerate 0 items) (replicate k empty_set))"

definition spread :: "kk_state \<Rightarrow> int" where
  "spread s = ws_total (hd s) - ws_total (last s)"

definition kk_merge :: "kk_state \<Rightarrow> kk_state \<Rightarrow> kk_state" where
  "kk_merge s other =
     (let k = length s in sort_desc (map (\<lambda>i. ws_merge (s ! i) (other ! (k - 1 - i))) [0..<k]))"

definition kk_partitions :: "kk_state \<Rightarrow> nat list list" where
  "kk_partitions s = map (\<lambda>ws. sort (ws_items ws)) s"

definition kk_less :: "kk_state \<Rightarrow> kk_state \<Rightarrow> bool" where
  "kk_less s other = (if spread s \<noteq> spread other then spread s > spread other else ws_less (hd other) (hd s))"

text \<open>
  \<open>heapq.heappop\<close>: a least state and the rest of the heap. Two states of the loop never compare
  equal, since their first sets hold different items, so the layout of the heap cannot be seen.
\<close>

fun heappop :: "kk_state list \<Rightarrow> kk_state \<times> kk_state list" where
  "heappop [] = ([], [])"
| "heappop [s] = (s, [])"
| "heappop (s # t # heap) =
     (case heappop (t # heap) of (least, rest) \<Rightarrow> if kk_less least s then (least, s # rest) else (s, t # heap))"

lemma heappop_mset: "heap \<noteq> [] \<Longrightarrow> heappop heap = (s, rest) \<Longrightarrow> mset heap = add_mset s (mset rest)"
  by (induction heap arbitrary: s rest rule: heappop.induct) (auto split: prod.splits if_splits)

lemma heappop_length: "heap \<noteq> [] \<Longrightarrow> length (snd (heappop heap)) = length heap - 1"
  using heappop_mset [of heap "fst (heappop heap)" "snd (heappop heap)"]
  by (metis add_diff_cancel_left' plus_1_eq_Suc prod.collapse size_add_mset size_mset)

lemma kk_less_total: "hd s \<noteq> hd t \<Longrightarrow> kk_less s t \<or> kk_less t s"
  by (auto simp: kk_less_def simp flip: less_weighted_set_def)

function kk_reduce :: "kk_state list \<Rightarrow> kk_state" where
  "kk_reduce states =
     (if length states > 1 then
        let (state, rest) = heappop states; (other, rest') = heappop rest
        in kk_reduce (rest' @ [kk_merge state other])
      else hd states)"
  by pat_completeness auto

termination
proof (relation "measure length")
  fix states :: "kk_state list" and x state rest y other rest'
  assume s: "1 < length states" and x: "x = heappop states" "(state, rest) = x"
    and y: "y = heappop rest" "(other, rest') = y"
  from s x heappop_length [of states] have 1: "length rest = length states - 1" by (metis length_0_conv not_one_less_zero snd_conv)
  with s have "rest \<noteq> []" by auto
  with y heappop_length [of rest] have "length rest' = length rest - 1" by (metis snd_conv)
  with 1 s show "(rest' @ [kk_merge state other], states) \<in> measure length" by simp
qed simp

declare kk_reduce.simps [simp del]

fun chunks :: "nat \<Rightarrow> 'a list \<Rightarrow> 'a list list" where
  "chunks k xs = (if k = 0 \<or> xs = [] then [] else take k xs # chunks k (drop k xs))"

declare chunks.simps [simp del]

definition karmarkar_karp :: "int list \<Rightarrow> nat \<Rightarrow> error + nat list list" where
  "karmarkar_karp weights num_partitions =
     (if length weights < num_partitions then Inl AssertionError
      else if num_partitions = 0 then Inl ZeroDivisionError
      else if length weights mod num_partitions \<noteq> 0 then Inl AssertionError
      else let weighted_indices = sort (zip weights [0..<length weights]);
               states = map (\<lambda>c. kk_new (map (\<lambda>(weight, idx). (idx, weight)) c) num_partitions)
                 (chunks num_partitions weighted_indices)
           in Inr (kk_partitions (kk_reduce states)))"

section \<open>The hill climb\<close>

definition partition_loads :: "int list \<Rightarrow> nat list list \<Rightarrow> int list" where
  "partition_loads weights partitions = map (\<lambda>p. sum_list (map (\<lambda>i. weights ! i) p)) partitions"

definition score :: "int list \<Rightarrow> int \<times> int" where
  "score loads = (Max (set loads), Max (set loads) - Min (set loads))"

text \<open>A swap names two parts and a position in each; they are tried in the order of the four loops.\<close>

type_synonym swap = "nat \<times> nat \<times> nat \<times> nat"

definition candidate_swaps :: "nat list list \<Rightarrow> swap list" where
  "candidate_swaps partitions =
     [(left_rank, right_rank, left_pos, right_pos).
        left_rank \<leftarrow> [0..<length partitions], right_rank \<leftarrow> [Suc left_rank..<length partitions],
        left_pos \<leftarrow> [0..<length (partitions ! left_rank)], right_pos \<leftarrow> [0..<length (partitions ! right_rank)]]"

fun swap_loads :: "int list \<Rightarrow> nat list list \<Rightarrow> int list \<Rightarrow> swap \<Rightarrow> int list" where
  "swap_loads weights partitions loads (left_rank, right_rank, left_pos, right_pos) =
     (let left_idx = partitions ! left_rank ! left_pos; right_idx = partitions ! right_rank ! right_pos
      in loads[left_rank := loads ! left_rank - weights ! left_idx + weights ! right_idx,
               right_rank := loads ! right_rank - weights ! right_idx + weights ! left_idx])"

definition try_swap :: "int list \<Rightarrow> nat list list \<Rightarrow> int list \<Rightarrow> swap
    \<Rightarrow> (int \<times> int) \<times> (swap \<times> int list) option \<Rightarrow> (int \<times> int) \<times> (swap \<times> int list) option" where
  "try_swap weights partitions loads c best =
     (let new_loads = swap_loads weights partitions loads c
      in if score new_loads < fst best then (score new_loads, Some (c, new_loads)) else best)"

definition best_swap :: "int list \<Rightarrow> nat list list \<Rightarrow> int list \<Rightarrow> (swap \<times> int list) option" where
  "best_swap weights partitions loads =
     snd (fold (try_swap weights partitions loads) (candidate_swaps partitions) (score loads, None))"

fun apply_swap :: "nat list list \<Rightarrow> swap \<Rightarrow> nat list list" where
  "apply_swap partitions (left_rank, right_rank, left_pos, right_pos) =
     partitions[left_rank := (partitions ! left_rank)[left_pos := partitions ! right_rank ! right_pos],
                right_rank := (partitions ! right_rank)[right_pos := partitions ! left_rank ! left_pos]]"

lemma best_swap_fold:
  assumes "fold (try_swap W ps loads) cs best = best'"
  shows "fst best' \<le> fst best \<and> (\<forall>c \<in> set cs. fst best' \<le> score (swap_loads W ps loads c)) \<and>
    (best' = best \<or> (\<exists>c \<in> set cs. best' = (score (swap_loads W ps loads c), Some (c, swap_loads W ps loads c)) \<and>
       fst best' < fst best))"
  using assms
proof (induction cs arbitrary: best)
  case Nil
  then show ?case by simp
next
  case (Cons c cs)
  show ?case
    using Cons.IH [of "try_swap W ps loads c best"] Cons.prems
    by (auto simp: try_swap_def Let_def simp del: swap_loads.simps split: if_splits) 
qed

lemma best_swap_SomeD:
  assumes "best_swap W ps loads = Some (c, nl)"
  shows "c \<in> set (candidate_swaps ps)" "nl = swap_loads W ps loads c" "score nl < score loads"
  using assms best_swap_fold [OF refl, of W ps loads "candidate_swaps ps" "(score loads, None)"]
  by (auto simp: best_swap_def simp del: swap_loads.simps)

lemma best_swap_NoneD:
  assumes "best_swap W ps loads = None" "c \<in> set (candidate_swaps ps)"
  shows "score loads \<le> score (swap_loads W ps loads c)"
  using assms best_swap_fold [OF refl, of W ps loads "candidate_swaps ps" "(score loads, None)"]
  by (auto simp: best_swap_def simp del: swap_loads.simps)

lemma candidate_swaps_iff:
  "(l, r, i, j) \<in> set (candidate_swaps ps) \<longleftrightarrow>
     l < r \<and> r < length ps \<and> i < length (ps ! l) \<and> j < length (ps ! r)"
  by (auto simp: candidate_swaps_def image_iff)

lemma sum_list_update_int:
  "k < length xs \<Longrightarrow> sum_list (xs[k := x]) = sum_list xs - xs ! k + (x :: int)"
  by (induction xs arbitrary: k) (auto split: nat.split)

lemma swap_loads_sum:
  assumes "c \<in> set (candidate_swaps ps)" "length ps \<le> length loads"
  shows "sum_list (swap_loads W ps loads c) = sum_list loads"
proof -
  obtain l r i j where c: "c = (l, r, i, j)" by (cases c)
  with assms show ?thesis by (simp add: candidate_swaps_iff Let_def sum_list_update_int)
qed

lemma swap_loads_length [simp]: "length (swap_loads W ps loads c) = length loads"
  by (cases c) (simp add: Let_def)

lemma sum_le_Max: "loads \<noteq> [] \<Longrightarrow> sum_list loads \<le> int (length loads) * Max (set loads)"
proof -
  have "sum_list xs \<le> int (length xs) * m" if "\<And>x. x \<in> set xs \<Longrightarrow> x \<le> m" for xs and m :: int
    using that by (induction xs) (auto simp: algebra_simps add_mono)
  then show ?thesis by simp
qed

text \<open>
  The climb stops: the sum of the loads is the same after every swap, so the heaviest load cannot
  fall below the average, and while it stays, the spread falls.
\<close>

definition climb_order :: "((int list \<times> nat list list \<times> int list) \<times> int list \<times> nat list list \<times> int list) set" where
  "climb_order = inv_image (less_than <*lex*> less_than)
     (\<lambda>(W, ps, loads). (nat (int (length loads) * Max (set loads) - sum_list loads), nat (Max (set loads) - Min (set loads))))"

lemma wf_climb_order: "wf climb_order"
  unfolding climb_order_def by (intro wf_inv_image wf_lex_prod wf_less_than)

lemma climb_decreases:
  assumes "best_swap W ps loads = Some (c, nl)" "loads \<noteq> []" "length ps \<le> length loads"
  shows "((W', ps', nl), (W, ps, loads)) \<in> climb_order"
proof -
  note b = best_swap_SomeD [OF assms(1)]
  have sum: "sum_list nl = sum_list loads" and len: "length nl = length loads"
    using swap_loads_sum [OF b(1) assms(3)] b(2) by simp_all
  with assms(2) have nl: "nl \<noteq> []" by auto
  from b(3) have "Max (set nl) < Max (set loads) \<or>
      Max (set nl) = Max (set loads) \<and> Max (set nl) - Min (set nl) < Max (set loads) - Min (set loads)"
    by (auto simp: score_def)
  then show ?thesis
  proof
    assume "Max (set nl) < Max (set loads)"
    then have "int (length loads) * Max (set nl) < int (length loads) * Max (set loads)"
      using assms(2) by simp
    with sum_le_Max [OF nl] show ?thesis by (simp add: climb_order_def sum len)
  next
    assume *: "Max (set nl) = Max (set loads) \<and> Max (set nl) - Min (set nl) < Max (set loads) - Min (set loads)"
    have "Min (set nl) \<le> Max (set nl)" using nl by (meson List.finite_set Max_ge Min_in set_empty)
    with * show ?thesis by (simp add: climb_order_def sum len)
  qed
qed

function refine_loop :: "int list \<Rightarrow> nat list list \<Rightarrow> int list \<Rightarrow> error + nat list list" where
  "refine_loop weights partitions loads =
     (if loads = [] then Inl ValueError
      else if length loads < length partitions then Inl IndexError
      else case best_swap weights partitions loads of
        None \<Rightarrow> Inr partitions
      | Some (c, new_loads) \<Rightarrow> refine_loop weights (apply_swap partitions c) new_loads)"
  by pat_completeness auto

termination
  by (relation climb_order) (auto intro: wf_climb_order climb_decreases)

declare refine_loop.simps [simp del]

definition refine_by_swapping :: "int list \<Rightarrow> nat list list \<Rightarrow> error + nat list list" where
  "refine_by_swapping weights partitions = refine_loop weights partitions (partition_loads weights partitions)"

definition balanced_partition :: "int list \<Rightarrow> nat \<Rightarrow> error + nat list list" where
  "balanced_partition weights num_partitions =
     and_then (karmarkar_karp weights num_partitions) (refine_by_swapping weights)"

section \<open>The states of the differencing method\<close>

text \<open>The items of a state, the weights they stand for, and how far two of its totals are apart.\<close>

definition kk_items :: "kk_state \<Rightarrow> nat multiset" where
  "kk_items s = (\<Sum>x\<in>#mset s. mset (ws_items x))"

definition kk_ok :: "int list \<Rightarrow> nat \<Rightarrow> int \<Rightarrow> kk_state \<Rightarrow> bool" where
  "kk_ok W k B s \<longleftrightarrow> length s = k \<and> sorted_wrt (\<ge>) s \<and>
     (\<forall>x \<in> set s. ws_total x = sum_list (map ((!) W) (ws_items x))) \<and>
     (\<exists>m. \<forall>x \<in> set s. length (ws_items x) = m) \<and>
     (\<forall>x \<in> set s. \<forall>y \<in> set s. ws_total x - ws_total y \<le> B)"

lemma sorted_sort_desc: "sorted_wrt (\<ge>) (sort_desc sets)"
  by (simp add: sort_desc_def sorted_wrt_rev)

lemma kk_items_sort_desc [simp]: "kk_items (sort_desc s) = kk_items s"
  by (simp add: kk_items_def)

lemma kk_items_Cons [simp]: "kk_items (x # s) = mset (ws_items x) + kk_items s"
  by (simp add: kk_items_def)

lemma kk_items_Nil [simp]: "kk_items [] = {#}"
  by (simp add: kk_items_def)

lemma fold_place:
  "fold (\<lambda>(set_idx, idx, weight) sets. sets[set_idx := ws_add idx weight (sets ! set_idx)])
     (enumerate (length placed) items) (placed @ replicate (length items) empty_set) =
   placed @ map (\<lambda>(idx, w). Weighted_Set w [idx]) items"
proof (induction items arbitrary: placed)
  case Nil
  then show ?case by simp
next
  case (Cons x items)
  obtain idx w where x: "x = (idx, w)" by (cases x)
  from Cons.IH [of "placed @ [Weighted_Set w [idx]]"] show ?case
    by (simp add: x ws_add_def empty_set_def)
qed

lemma kk_new_eq:
  assumes "length items = k"
  shows "kk_new items k = sort_desc (map (\<lambda>(idx, w). Weighted_Set w [idx]) items)"
  using fold_place [of "[]" items] assms by (simp add: kk_new_def)

lemma kk_new_ok:
  assumes "length items = k" and W: "\<And>idx w. (idx, w) \<in> set items \<Longrightarrow> w = W ! idx \<and> lo \<le> w \<and> w \<le> hi"
  shows "kk_ok W k (hi - lo) (kk_new items k)"
proof -
  have each: "ws_total x = sum_list (map ((!) W) (ws_items x)) \<and> length (ws_items x) = 1 \<and> lo \<le> ws_total x \<and> ws_total x \<le> hi"
    if "x \<in> set (kk_new items k)" for x
    using that W by (auto simp: kk_new_eq [OF assms(1)])
  have "ws_total x - ws_total y \<le> hi - lo" if "x \<in> set (kk_new items k)" "y \<in> set (kk_new items k)" for x y
    using each [OF that(1)] each [OF that(2)] by linarith
  moreover have "\<exists>m. \<forall>x \<in> set (kk_new items k). length (ws_items x) = m" using each by blast
  ultimately show ?thesis
    using each assms(1) sorted_sort_desc unfolding kk_ok_def by (simp add: kk_new_eq [OF assms(1)])
qed

lemma kk_new_items: "length items = k \<Longrightarrow> kk_items (kk_new items k) = mset (map fst items)"
proof -
  have "kk_items (map (\<lambda>(idx, w). Weighted_Set w [idx]) items) = mset (map fst items)"
    by (induction items) auto
  then show "length items = k \<Longrightarrow> ?thesis" by (simp add: kk_new_eq)
qed

text \<open>
  Merging the heaviest set of one state with the lightest of the other keeps the totals within
  the larger of the two spreads: the differences of the two states have opposite signs.
\<close>

lemma merged_total_diff:
  assumes s: "kk_ok W k B s" and t: "kk_ok W k B t" and ij: "i < k" "j < k"
  shows "ws_total (s ! i) + ws_total (t ! (k - 1 - i)) - (ws_total (s ! j) + ws_total (t ! (k - 1 - j))) \<le> B"
proof -
  have le: "ws_total (x ! b) \<le> ws_total (x ! a)" and B: "ws_total (x ! a) - ws_total (x ! b) \<le> B"
    if "kk_ok W k B x" "a < k" "b < k" "a \<le> b" for x a b
  proof -
    have len: "length x = k" and desc: "sorted_wrt (\<ge>) x" and tot: "\<forall>y \<in> set x. \<forall>z \<in> set x. ws_total y - ws_total z \<le> B"
      using that(1) unfolding kk_ok_def by blast+
    show "ws_total (x ! b) \<le> ws_total (x ! a)"
      using desc len that(3,4) less_eq_total sorted_wrt_nth_less [of "(\<ge>)" x a b] by (cases "a = b") simp_all
    show "ws_total (x ! a) - ws_total (x ! b) \<le> B"
      using tot len that(2,3) by simp
  qed
  have rev: "k - 1 - a < k" if "a < k" for a using that by simp
  show ?thesis
  proof (cases "i \<le> j")
    case True
    then have "k - 1 - j \<le> k - 1 - i" by simp
    with True B [OF s ij] le [OF t rev [OF ij(2)] rev [OF ij(1)]] show ?thesis by linarith
  next
    case False
    then have "k - 1 - i \<le> k - 1 - j" "j \<le> i" using ij by simp_all
    with B [OF t rev [OF ij(1)] rev [OF ij(2)]] le [OF s ij(2) ij(1)] show ?thesis by linarith
  qed
qed

lemma set_kk_merge:
  "length s = k \<Longrightarrow> set (kk_merge s t) = (\<lambda>i. ws_merge (s ! i) (t ! (k - 1 - i))) ` {..<k}"
  by (auto simp: kk_merge_def Let_def)

lemma kk_merge_ok:
  assumes s: "kk_ok W k B s" and t: "kk_ok W k B t"
  shows "kk_ok W k B (kk_merge s t)"
proof -
  have len: "length s = k" "length t = k" using s t by (simp_all add: kk_ok_def)
  note merged = set_kk_merge [OF len(1), of t]
  obtain m n where m: "\<forall>x \<in> set s. length (ws_items x) = m" and n: "\<forall>x \<in> set t. length (ws_items x) = n"
    using s t unfolding kk_ok_def by blast
  have "length (ws_items x) = m + n" if "x \<in> set (kk_merge s t)" for x
    using that m n len by (auto simp: merged ws_merge_def)
  then have "\<exists>m. \<forall>x \<in> set (kk_merge s t). length (ws_items x) = m" by blast
  moreover have "ws_total x = sum_list (map ((!) W) (ws_items x))" if "x \<in> set (kk_merge s t)" for x
    using that s t len by (auto simp: merged ws_merge_def kk_ok_def)
  moreover have "ws_total x - ws_total y \<le> B" if "x \<in> set (kk_merge s t)" "y \<in> set (kk_merge s t)" for x y
    using that merged_total_diff [OF s t] by (auto simp: merged ws_merge_def)
  moreover have "length (kk_merge s t) = k" "sorted_wrt (\<ge>) (kk_merge s t)"
    using len(1) sorted_sort_desc by (simp_all add: kk_merge_def Let_def)
  ultimately show ?thesis unfolding kk_ok_def by blast
qed

lemma kk_merge_items:
  assumes "length s = k" "length t = k"
  shows "kk_items (kk_merge s t) = kk_items s + kk_items t"
proof -
  have "map (\<lambda>i. ws_merge (s ! i) (t ! (k - 1 - i))) [0..<k] = map2 ws_merge s (rev t)"
    using assms by (intro nth_equalityI) (auto simp: rev_nth)
  moreover have "kk_items (map2 ws_merge xs ys) = kk_items xs + kk_items ys" if "length xs = length ys" for xs ys
    using that by (induction xs ys rule: list_induct2) (auto simp: ws_merge_def)
  moreover have "kk_items (rev t) = kk_items t" by (simp add: kk_items_def)
  ultimately show ?thesis using assms by (simp add: kk_merge_def Let_def)
qed

lemma kk_reduce_ok:
  assumes "states \<noteq> []" "\<And>s. s \<in> set states \<Longrightarrow> kk_ok W k B s"
  shows "kk_ok W k B (kk_reduce states) \<and> kk_items (kk_reduce states) = (\<Sum>s\<in>#mset states. kk_items s)"
  using assms
proof (induction states rule: kk_reduce.induct)
  case (1 states)
  show ?case
  proof (cases "length states > 1")
    case False
    with 1(2) obtain s where "states = [s]" by (cases states) auto
    with 1 show ?thesis by (simp add: kk_reduce.simps [of "[s]"])
  next
    case True
    obtain s r where s: "heappop states = (s, r)" by fastforce
    obtain t r' where t: "heappop r = (t, r')" by fastforce
    have m: "mset states = add_mset s (mset r)" by (rule heappop_mset [OF 1(2) s])
    with True have "r \<noteq> []" by (metis One_nat_def length_Suc_conv less_irrefl list.size(3) size_add_mset size_mset)
    then have m': "mset r = add_mset t (mset r')" using t by (rule heappop_mset)
    from m m' have ok: "kk_ok W k B s" "kk_ok W k B t" "\<And>x. x \<in> set r' \<Longrightarrow> kk_ok W k B x"
      using 1(3) by (metis set_mset_mset insert_iff set_mset_add_mset_insert)+
    then have "length s = k" "length t = k" by (simp_all add: kk_ok_def)
    moreover have "kk_ok W k B (kk_reduce (r' @ [kk_merge s t])) \<and>
        kk_items (kk_reduce (r' @ [kk_merge s t])) = (\<Sum>x\<in>#mset (r' @ [kk_merge s t]). kk_items x)"
      using ok kk_merge_ok [OF ok(1,2)] by (intro 1(1) [OF True s [symmetric] refl t [symmetric] refl]) auto
    ultimately show ?thesis
      using True s t m m' by (simp add: kk_reduce.simps [of states] kk_merge_items add.commute add.left_commute)
  qed
qed

lemma chunks_concat: "0 < k \<Longrightarrow> concat (chunks k xs) = xs"
  by (induction k xs rule: chunks.induct) (subst chunks.simps, auto)

lemma chunks_length: "0 < k \<Longrightarrow> k dvd length xs \<Longrightarrow> c \<in> set (chunks k xs) \<Longrightarrow> length c = k"
proof (induction k xs rule: chunks.induct)
  case (1 k xs)
  from 1(4) 1(2) have xs: "xs \<noteq> []" by (subst (asm) chunks.simps) (auto split: if_splits)
  with 1(3) have k: "k \<le> length xs" by (simp add: dvd_imp_le)
  from 1(4) xs 1(2) have "c = take k xs \<or> c \<in> set (chunks k (drop k xs))" by (subst (asm) chunks.simps) auto
  then show ?case
  proof
    assume "c \<in> set (chunks k (drop k xs))"
    moreover have "k dvd length (drop k xs)" using 1(3) k by (simp add: dvd_diff_nat)
    ultimately show ?case using 1(1) [OF _ 1(2)] xs 1(2) by blast
  qed (use k in simp)
qed

lemma chunks_nonempty: "0 < k \<Longrightarrow> xs \<noteq> [] \<Longrightarrow> chunks k xs \<noteq> []"
  by (subst chunks.simps) simp

section \<open>Partitions of the indices\<close>

definition partition_ok :: "int list \<Rightarrow> nat \<Rightarrow> nat list list \<Rightarrow> bool" where
  "partition_ok W k ps \<longleftrightarrow>
     length ps = k \<and> (\<forall>p \<in> set ps. length p = length W div k) \<and> mset (concat ps) = mset [0..<length W]"

lemma weighted_chunks:
  assumes k: "0 < k" "k dvd length W"
    and c: "c \<in> set (chunks k (sort (zip W [0..<length W])))"
  shows "length (map (\<lambda>(w, i). (i, w)) c) = k"
    and "(i, w) \<in> set (map (\<lambda>(w, i). (i, w)) c) \<Longrightarrow> w = W ! i \<and> Min (set W) \<le> w \<and> w \<le> Max (set W)"
proof -
  show "length (map (\<lambda>(w, i). (i, w)) c) = k" using chunks_length [OF k(1) _ c] k(2) by simp
  assume "(i, w) \<in> set (map (\<lambda>(w, i). (i, w)) c)"
  then have "(w, i) \<in> set (concat (chunks k (sort (zip W [0..<length W]))))" using c by auto
  then have "(w, i) \<in> set (zip W [0..<length W])" by (simp add: chunks_concat k(1))
  then show "w = W ! i \<and> Min (set W) \<le> w \<and> w \<le> Max (set W)" by (auto simp: set_zip)
qed

lemma sum_chunk_items:
  assumes "\<And>c. c \<in> set cs \<Longrightarrow> length c = k"
  shows "(\<Sum>s\<in>#mset (map (\<lambda>c. kk_new (map (\<lambda>(w, i). (i, w)) c) k) cs). kk_items s) = mset (map snd (concat cs))"
  using assms
proof (induction cs)
  case Nil
  then show ?case by simp
next
  case (Cons c cs)
  have "kk_items (kk_new (map (\<lambda>(w, i). (i, w)) c) k) = mset (map fst (map (\<lambda>(w, i). (i, w)) c))"
    using Cons.prems by (intro kk_new_items) simp
  also have "map fst (map (\<lambda>(w, i). (i, w)) c) = map snd c" by (induction c) auto
  finally show ?case using Cons by simp
qed

lemma karmarkar_karp_cases:
  "karmarkar_karp W k =
     (if 0 < k \<and> k \<le> length W \<and> k dvd length W then karmarkar_karp W k
      else Inl (if k = 0 then ZeroDivisionError else AssertionError))"
  by (auto simp: karmarkar_karp_def mod_eq_0_iff_dvd)

lemma karmarkar_karp_total:
  "(\<exists>ps. karmarkar_karp W k = Inr ps) \<longleftrightarrow> 0 < k \<and> k \<le> length W \<and> k dvd length W"
  by (auto simp: karmarkar_karp_def Let_def mod_eq_0_iff_dvd)

lemma mset_concat_partitions: "mset (concat (kk_partitions s)) = kk_items s"
  by (simp add: kk_partitions_def kk_items_def mset_concat o_def flip: sum_mset_sum_list)

lemma sum_list_sort: "sum_list (map f (sort xs)) = sum_list (map (f :: _ \<Rightarrow> int) xs)"
  by (metis mset_map mset_sort sum_mset_sum_list)

lemma kk_state_of:
  assumes "karmarkar_karp W k = Inr ps"
  obtains s where "ps = kk_partitions s" "kk_ok W k (Max (set W) - Min (set W)) s" "kk_items s = mset [0..<length W]"
proof -
  have k: "0 < k" "k \<le> length W" "k dvd length W" using assms karmarkar_karp_total by blast+
  let ?chunks = "chunks k (sort (zip W [0..<length W]))"
  let ?states = "map (\<lambda>c. kk_new (map (\<lambda>(w, i). (i, w)) c) k) ?chunks"
  have "length (sort (zip W [0..<length W])) = length W" by simp
  then have "sort (zip W [0..<length W]) \<noteq> []" using k by fastforce
  then have ne: "?states \<noteq> []" using chunks_nonempty [OF k(1)] by simp
  have "kk_ok W k (Max (set W) - Min (set W)) s" if "s \<in> set ?states" for s
  proof -
    from that obtain c where c: "c \<in> set ?chunks" and s: "s = kk_new (map (\<lambda>(w, i). (i, w)) c) k" by auto
    show ?thesis unfolding s using weighted_chunks [OF k(1,3) c] by (rule kk_new_ok)
  qed
  from kk_reduce_ok [OF ne this] have ok: "kk_ok W k (Max (set W) - Min (set W)) (kk_reduce ?states)"
    and items: "kk_items (kk_reduce ?states) = (\<Sum>s\<in>#mset ?states. kk_items s)" by blast+
  have "length c = k" if "c \<in> set ?chunks" for c
    using chunks_length [OF k(1) _ that] k(3) by simp
  from items sum_chunk_items [OF this] have "kk_items (kk_reduce ?states) = mset (map snd (sort (zip W [0..<length W])))"
    by (simp add: chunks_concat k(1) del: mset_map)
  also have "\<dots> = mset [0..<length W]"
    by (metis map_snd_zip length_upt diff_zero mset_map mset_sort)
  finally have "kk_items (kk_reduce ?states) = mset [0..<length W]" .
  moreover have "ps = kk_partitions (kk_reduce ?states)"
    using assms k by (auto simp: karmarkar_karp_def Let_def split: if_splits)
  ultimately show ?thesis using ok that by blast
qed

lemma karmarkar_karp_ok:
  assumes "karmarkar_karp W k = Inr ps"
  shows "partition_ok W k ps"
    and "x \<in> set (partition_loads W ps) \<Longrightarrow> y \<in> set (partition_loads W ps) \<Longrightarrow> x - y \<le> Max (set W) - Min (set W)"
proof -
  obtain s where ps: "ps = kk_partitions s" and ok: "kk_ok W k (Max (set W) - Min (set W)) s"
    and items: "kk_items s = mset [0..<length W]" by (rule kk_state_of [OF assms])
  obtain m where m: "\<forall>x \<in> set s. length (ws_items x) = m" and len: "length s = k" using ok unfolding kk_ok_def by blast
  have k: "0 < k" using assms karmarkar_karp_total by blast
  have conc: "mset (concat ps) = mset [0..<length W]" using items by (simp add: ps mset_concat_partitions)
  have "length W = length (concat ps)" using mset_eq_length [OF conc] by simp
  also have "\<dots> = sum_list (map (\<lambda>x. length (ws_items x)) s)" by (simp add: ps kk_partitions_def length_concat o_def)
  also have "\<dots> = sum_list (map (\<lambda>x. m) s)" using m by (intro arg_cong [where f = sum_list] map_cong) auto
  also have "\<dots> = m * k" using len by (simp add: sum_list_triv)
  finally have "m = length W div k" using k by simp
  with m len conc show "partition_ok W k ps" by (auto simp: partition_ok_def ps kk_partitions_def)
  have "partition_loads W ps = map ws_total s"
    using ok by (auto simp: partition_loads_def ps kk_partitions_def kk_ok_def sum_list_sort)
  then show "x \<in> set (partition_loads W ps) \<Longrightarrow> y \<in> set (partition_loads W ps) \<Longrightarrow> x - y \<le> Max (set W) - Min (set W)"
    using ok by (auto simp: kk_ok_def)
qed

section \<open>What a swap keeps\<close>

lemma mset_concat_update:
  "i < length ps \<Longrightarrow> mset (concat (ps[i := q])) + mset (ps ! i) = mset (concat ps) + mset q"
  by (induction ps arbitrary: i) (auto split: nat.split)

lemma mset_update_add: "i < length xs \<Longrightarrow> mset (xs[i := y]) + {#xs ! i#} = mset xs + {#y#}"
  by (simp add: mset_update)

lemma apply_swap_mset:
  assumes "c \<in> set (candidate_swaps ps)"
  shows "mset (concat (apply_swap ps c)) = mset (concat ps)"
proof -
  obtain l r i j where c: "c = (l, r, i, j)" by (cases c)
  with assms have lr: "l < r" "r < length ps" and ij: "i < length (ps ! l)" "j < length (ps ! r)"
    by (simp_all add: candidate_swaps_iff)
  define ps1 where "ps1 = ps[l := (ps ! l)[i := ps ! r ! j]]"
  have ps2: "apply_swap ps c = ps1[r := (ps ! r)[j := ps ! l ! i]]" by (simp add: c ps1_def)
  have r1: "ps1 ! r = ps ! r" using lr by (simp add: ps1_def)
  have a: "mset (concat ps1) + mset (ps ! l) = mset (concat ps) + mset ((ps ! l)[i := ps ! r ! j])"
    unfolding ps1_def using lr by (intro mset_concat_update) simp
  have b: "mset (concat (apply_swap ps c)) + mset (ps ! r) = mset (concat ps1) + mset ((ps ! r)[j := ps ! l ! i])"
    unfolding ps2 using mset_concat_update [of r ps1] lr r1 by (simp add: ps1_def)
  show ?thesis
    using a b mset_update_add [OF ij(1), of "ps ! r ! j"] mset_update_add [OF ij(2), of "ps ! l ! i"]
    by (smt (verit, ccfv_threshold) add.assoc add.commute add_right_cancel)
qed

lemma apply_swap_ok:
  assumes "c \<in> set (candidate_swaps ps)" "partition_ok W k ps"
  shows "partition_ok W k (apply_swap ps c)"
proof -
  obtain l r i j where c: "c = (l, r, i, j)" by (cases c)
  with assms have "\<forall>p \<in> set (apply_swap ps c). length p = length W div k"
    by (auto simp: partition_ok_def candidate_swaps_iff dest!: subsetD [OF set_update_subset_insert] split: if_splits)
  moreover have "length (apply_swap ps c) = length ps" by (simp add: c)
  ultimately show ?thesis using apply_swap_mset [OF assms(1)] assms(2) by (simp add: partition_ok_def)
qed

lemma apply_swap_loads:
  assumes "c \<in> set (candidate_swaps ps)"
  shows "partition_loads W (apply_swap ps c) = swap_loads W ps (partition_loads W ps) c"
proof -
  obtain l r i j where c: "c = (l, r, i, j)" by (cases c)
  with assms show ?thesis
    by (simp add: candidate_swaps_iff partition_loads_def Let_def map_update sum_list_update_int)
qed

text \<open>A swap that lowers the score does not widen the spread.\<close>

lemma swap_spread:
  assumes c: "c \<in> set (candidate_swaps ps)" and len: "length loads = length ps"
    and lt: "score (swap_loads W ps loads c) < score loads"
  shows "Max (set (swap_loads W ps loads c)) - Min (set (swap_loads W ps loads c)) \<le> Max (set loads) - Min (set loads)"
proof (cases "Max (set (swap_loads W ps loads c)) < Max (set loads)")
  case False
  with lt show ?thesis by (auto simp: score_def)
next
  case True
  obtain l r i j where cc: "c = (l, r, i, j)" by (cases c)
  define nl where "nl = swap_loads W ps loads c"
  define \<delta> where "\<delta> = W ! (ps ! l ! i) - W ! (ps ! r ! j)"
  have lr: "l < r" "r < length loads" using c len by (simp_all add: cc candidate_swaps_iff)
  have nl: "nl = loads[l := loads ! l - \<delta>, r := loads ! r + \<delta>]" by (simp add: nl_def cc Let_def \<delta>_def algebra_simps)
  have ne: "loads \<noteq> []" using lr by auto
  have low: "Min (set loads) \<le> loads ! p" if "p < length loads" for p using that by simp
  have below: "nl ! p < Max (set loads)" if "p < length loads" for p
    using that True Max_ge [of "set nl" "nl ! p"] by (simp add: nl_def del: Max_ge)
  obtain p where p: "p < length loads" "loads ! p = Max (set loads)"
    using Max_in [of "set loads"] ne by (metis List.finite_set in_set_conv_nth set_empty)
  have "p = l \<or> p = r" using below [OF p(1)] p lr by (auto simp: nl nth_list_update split: if_splits)
  moreover have "loads ! l - \<delta> < Max (set loads)" "loads ! r + \<delta> < Max (set loads)"
    using below [of l] below [of r] lr by (simp_all add: nl)
  moreover have "Min (set loads) \<le> loads ! l" "Min (set loads) \<le> loads ! r" using low lr by simp_all
  ultimately have "Min (set loads) \<le> loads ! l - \<delta> \<and> Min (set loads) \<le> loads ! r + \<delta>"
    using p(2) by fastforce
  then have "Min (set loads) \<le> x" if "x \<in> set nl" for x
    using that by (auto simp: nl dest!: subsetD [OF set_update_subset_insert])
  moreover have "nl \<noteq> []" using ne by (simp add: nl)
  ultimately have "Min (set loads) \<le> Min (set nl)" by simp
  with True show ?thesis unfolding nl_def by linarith
qed

text \<open>What holds of every partition that the climb can reach from a start, and when it stops.\<close>

lemma refine_loop_ok:
  assumes "refine_loop W ps loads = Inr ps'" "loads = partition_loads W ps"
  shows "(partition_ok W k ps \<longrightarrow> partition_ok W k ps') \<and>
    score (partition_loads W ps') \<le> score loads \<and>
    Max (set (partition_loads W ps')) - Min (set (partition_loads W ps')) \<le> Max (set loads) - Min (set loads) \<and>
    (\<forall>c \<in> set (candidate_swaps ps'). score (partition_loads W ps') \<le> score (partition_loads W (apply_swap ps' c)))"
  using assms
proof (induction W ps loads rule: refine_loop.induct)
  case (1 W ps loads)
  from 1(2) have ne: "loads \<noteq> []" "\<not> length loads < length ps" by (subst (asm) refine_loop.simps; auto split: if_splits)+
  show ?case
  proof (cases "best_swap W ps loads")
    case None
    with 1(2) ne have [simp]: "ps' = ps" by (simp add: refine_loop.simps [of W ps loads])
    show ?thesis using best_swap_NoneD [OF None] 1(3) by (simp add: apply_swap_loads)
  next
    case (Some b)
    then obtain c nl where b: "best_swap W ps loads = Some (c, nl)" by (cases b) auto
    note best = best_swap_SomeD [OF b]
    have loop: "refine_loop W (apply_swap ps c) nl = Inr ps'"
      using 1(2) ne b by (simp add: refine_loop.simps [of W ps loads])
    have nl: "nl = partition_loads W (apply_swap ps c)"
      using best(1,2) 1(3) by (simp add: apply_swap_loads)
    have "length loads = length ps" using 1(3) by (simp add: partition_loads_def)
    from swap_spread [OF best(1) this] best(2,3)
    have "Max (set nl) - Min (set nl) \<le> Max (set loads) - Min (set loads)" by simp
    with 1(1) [OF ne b refl loop nl] best(3) apply_swap_ok [OF best(1)] show ?thesis by force
  qed
qed

lemma refine_loop_total:
  assumes "loads \<noteq> []" "length loads = length ps"
  shows "\<exists>ps'. refine_loop W ps loads = Inr ps'"
  using assms
proof (induction W ps loads rule: refine_loop.induct)
  case (1 W ps loads)
  show ?case
  proof (cases "best_swap W ps loads")
    case (Some b)
    then obtain c nl where b: "best_swap W ps loads = Some (c, nl)" by (cases b) auto
    obtain l r i j where c: "c = (l, r, i, j)" by (cases c)
    have "nl \<noteq> []" "length nl = length (apply_swap ps c)"
      using best_swap_SomeD(2) [OF b] 1(2,3) by (auto simp: c Let_def)
    with 1(1) [OF _ _ b refl] 1(2,3) b show ?thesis by (simp add: refine_loop.simps [of W ps loads])
  qed (use 1 in \<open>simp add: refine_loop.simps [of W ps loads]\<close>)
qed

lemma balanced_partitionD:
  assumes "balanced_partition W k = Inr ps"
  obtains qs where "karmarkar_karp W k = Inr qs" "refine_loop W qs (partition_loads W qs) = Inr ps"
  using assms by (auto simp: balanced_partition_def refine_by_swapping_def and_then_eq_Inr)

lemma balanced_partition_ok:
  assumes "balanced_partition W k = Inr ps"
  shows "partition_ok W k ps"
proof -
  obtain qs where "karmarkar_karp W k = Inr qs" "refine_loop W qs (partition_loads W qs) = Inr ps"
    by (rule balanced_partitionD [OF assms])
  then show ?thesis using karmarkar_karp_ok(1) refine_loop_ok by blast
qed

lemma balanced_partition_total:
  assumes "0 < k" "k \<le> length W" "k dvd length W"
  shows "\<exists>ps. balanced_partition W k = Inr ps"
proof -
  obtain qs where qs: "karmarkar_karp W k = Inr qs" using assms karmarkar_karp_total by blast
  then have "length qs = k" using karmarkar_karp_ok(1) by (simp add: partition_ok_def)
  then have "\<exists>ps. refine_by_swapping W qs = Inr ps"
    using assms(1) unfolding refine_by_swapping_def by (intro refine_loop_total) (auto simp: partition_loads_def)
  with qs show ?thesis by (simp add: balanced_partition_def)
qed

section \<open>Properties\<close>

text \<open>C15: \<open>balanced_partition\<close> returns exactly when the number of weights is a positive multiple of
  the number of parts; otherwise it raises. In particular the hill climb always ends.\<close>

theorem balanced_partition_returns:
  "balanced_partition W k =
     (if 0 < k \<and> k \<le> length W \<and> k dvd length W then Inr (projr (balanced_partition W k))
      else Inl (if k = 0 then ZeroDivisionError else AssertionError))"
  using karmarkar_karp_cases [of W k] balanced_partition_total [of k W]
  by (auto simp: balanced_partition_def)

text \<open>The result has the requested number of parts, all of the same size, and every index
  occurs in exactly one of them.\<close>

theorem balanced_partition_covers:
  assumes "balanced_partition W k = Inr ps"
  shows "length ps = k \<and> (\<forall>p \<in> set ps. length p = length W div k) \<and> mset (concat ps) = mset [0..<length W]"
  using balanced_partition_ok [OF assms] unfolding partition_ok_def .

text \<open>C17: the loads of the parts differ by no more than the weights do.\<close>

theorem balanced_partition_spread:
  assumes "balanced_partition W k = Inr ps"
    and "x \<in> set (partition_loads W ps)" "y \<in> set (partition_loads W ps)"
  shows "\<bar>x - y\<bar> \<le> Max (set W) - Min (set W)"
proof -
  obtain qs where qs: "karmarkar_karp W k = Inr qs" and ps: "refine_loop W qs (partition_loads W qs) = Inr ps"
    by (rule balanced_partitionD [OF assms(1)])
  let ?l = "set (partition_loads W qs)"
  have "0 < k" "length qs = k" using qs karmarkar_karp_total karmarkar_karp_ok(1) partition_ok_def by blast+
  then have "?l \<noteq> {}" by (auto simp: partition_loads_def)
  then have "Max ?l - Min ?l \<le> Max (set W) - Min (set W)"
    by (intro karmarkar_karp_ok(2) [OF qs] Max_in Min_in) auto
  with refine_loop_ok [OF ps refl]
  have "Max (set (partition_loads W ps)) - Min (set (partition_loads W ps)) \<le> Max (set W) - Min (set W)" by force
  moreover have "x \<le> Max (set (partition_loads W ps))" "Min (set (partition_loads W ps)) \<le> y"
    "y \<le> Max (set (partition_loads W ps))" "Min (set (partition_loads W ps)) \<le> x" using assms(2,3) by simp_all
  ultimately show ?thesis by linarith
qed

text \<open>C18: the result is a local optimum: no exchange of two items between two parts lowers the
  heaviest load, or keeps it and narrows the spread; and it is no worse than the partition that the
  differencing method found.\<close>

theorem balanced_partition_optimal:
  assumes "karmarkar_karp W k = Inr qs" "balanced_partition W k = Inr ps" "c \<in> set (candidate_swaps ps)"
  shows "score (partition_loads W ps) \<le> score (partition_loads W (apply_swap ps c)) \<and>
    score (partition_loads W ps) \<le> score (partition_loads W qs)"
proof -
  obtain qs' where "karmarkar_karp W k = Inr qs'" "refine_loop W qs' (partition_loads W qs') = Inr ps"
    by (rule balanced_partitionD [OF assms(2)])
  with refine_loop_ok [of W qs' _ ps] assms(1,3) show ?thesis by force
qed

text \<open>Four weights in two parts: the differencing method already finds the even split.\<close>

lemma four_weights:
  "karmarkar_karp [8, 7, 6, 5] 2 = Inr [[1, 2], [0, 3]]"
  "balanced_partition [8, 7, 6, 5] 2 = Inr [[1, 2], [0, 3]]"
  by code_simp+

lemma balanced_partition_covers_witness:
  "mset (concat [[1, 2], [0, 3]]) = mset [0..<length [8, 7, 6, 5 :: int]]"
  using balanced_partition_covers [OF four_weights(2)] by blast

lemma balanced_partition_spread_witness: "\<bar>(13 :: int) - 13\<bar> \<le> Max (set [8, 7, 6, 5]) - Min (set [8, 7, 6, 5])"
  by (rule balanced_partition_spread [OF four_weights(2)]) (simp_all add: partition_loads_def)

lemma balanced_partition_optimal_witness:
  "score (partition_loads [8, 7, 6, 5] [[1, 2], [0, 3]]) \<le>
   score (partition_loads [8, 7, 6, 5] (apply_swap [[1, 2], [0, 3]] (0, 1, 0, 1)))"
  by (rule balanced_partition_optimal [OF four_weights, THEN conjunct1]) (simp add: candidate_swaps_iff)

end
