(* ===== verification/Packing.thy ===== *)
theory Packing
  imports Training_Data Partition
begin

text \<open>
  Packing prepared samples into micro batches (\<open>trainer/batch.py\<close>): first fit decreasing into
  bins, splitting of bins so that every data rank gets the same number, concatenation of the
  samples of a bin, padding, and distribution over the ranks with text and image batches apart.
  A micro batch is shaped as the trainer expects it in every case: its streams stay aligned.
\<close>

section \<open>Bins\<close>

record micro_batch_bin =
  bin_samples :: "(nat \<times> micro_batch) list"
  bin_length :: nat

definition tokens :: "micro_batch \<Rightarrow> nat" where
  "tokens b = length (input_ids b)"

definition is_multimodal_sample :: "micro_batch \<Rightarrow> bool" where
  "is_multimodal_sample b \<longleftrightarrow> mb_mm_kwargs b \<noteq> None"

definition from_sample :: "nat \<Rightarrow> micro_batch \<Rightarrow> micro_batch_bin" where
  "from_sample lora_idx sample = \<lparr>bin_samples = [(lora_idx, sample)], bin_length = tokens sample\<rparr>"

definition first_sample :: "micro_batch_bin \<Rightarrow> micro_batch" where
  "first_sample b = snd (hd (bin_samples b))"

definition first_lora_idx :: "micro_batch_bin \<Rightarrow> nat" where
  "first_lora_idx b = fst (hd (bin_samples b))"

definition first_multimodal_sample :: "micro_batch_bin \<Rightarrow> micro_batch option" where
  "first_multimodal_sample b = find is_multimodal_sample (map snd (bin_samples b))"

text \<open>Two sets of keyword arguments whose tensors can be concatenated along the first dimension.\<close>

definition compatible_tensors :: "encoded_tensor \<Rightarrow> encoded_tensor \<Rightarrow> bool" where
  "compatible_tensors dst src \<longleftrightarrow>
     et_dtype dst = et_dtype src \<and> 0 < length (et_shape dst) \<and> length (et_shape dst) = length (et_shape src) \<and>
     tl (et_shape dst) = tl (et_shape src)"

definition compatible_kwargs :: "mm_kwargs \<Rightarrow> mm_kwargs \<Rightarrow> bool" where
  "compatible_kwargs dst src \<longleftrightarrow>
     set (map fst dst) = set (map fst src) \<and>
     list_all (\<lambda>(k, t). case map_of src k of None \<Rightarrow> False | Some u \<Rightarrow> compatible_tensors t u) dst"

definition can_add :: "micro_batch_bin \<Rightarrow> micro_batch \<Rightarrow> nat \<Rightarrow> nat \<Rightarrow> bool" where
  "can_add b sample max_seq_len lora_idx =
     (if bin_length b + tokens sample > max_seq_len then False
      else if (mb_routed_experts (first_sample b) = None) \<noteq> (mb_routed_experts sample = None) then False
      else case (first_multimodal_sample b, mb_mm_kwargs sample) of
        (None, None) \<Rightarrow> True
      | (Some existing, Some src) \<Rightarrow>
          first_lora_idx b = lora_idx \<and> (case mb_mm_kwargs existing of None \<Rightarrow> False | Some dst \<Rightarrow> compatible_kwargs dst src)
      | _ \<Rightarrow> first_lora_idx b = lora_idx)"

definition bin_add :: "nat \<Rightarrow> micro_batch \<Rightarrow> micro_batch_bin \<Rightarrow> micro_batch_bin" where
  "bin_add lora_idx sample b =
     b\<lparr>bin_samples := bin_samples b @ [(lora_idx, sample)], bin_length := bin_length b + tokens sample\<rparr>"

definition workload :: "(nat list \<Rightarrow> int) \<Rightarrow> micro_batch_bin \<Rightarrow> int" where
  "workload bin_cost b = bin_cost (map (\<lambda>(_, s). tokens s) (bin_samples b))"

section \<open>Splitting a bin\<close>

text \<open>The two sides with their workloads; a sample goes to the lighter one.\<close>

definition place_lighter :: "(nat list \<Rightarrow> int) \<Rightarrow> nat \<times> micro_batch
    \<Rightarrow> ((nat \<times> micro_batch) list \<times> int) \<times> ((nat \<times> micro_batch) list \<times> int)
    \<Rightarrow> ((nat \<times> micro_batch) list \<times> int) \<times> ((nat \<times> micro_batch) list \<times> int)" where
  "place_lighter bin_cost x sides =
     (case sides of ((left, left_workload), (right, right_workload)) \<Rightarrow>
        let sample_workload = bin_cost [tokens (snd x)] in
        if left_workload \<le> right_workload then ((left @ [x], left_workload + sample_workload), (right, right_workload))
        else ((left, left_workload), (right @ [x], right_workload + sample_workload)))"

definition bin_of :: "(nat \<times> micro_batch) list \<Rightarrow> micro_batch_bin" where
  "bin_of samples = \<lparr>bin_samples = samples, bin_length = sum_list (map (\<lambda>(_, s). tokens s) samples)\<rparr>"

definition split_by_workload :: "(nat list \<Rightarrow> int) \<Rightarrow> micro_batch_bin \<Rightarrow> micro_batch_bin \<times> micro_batch_bin" where
  "split_by_workload bin_cost b =
     (let ranked = order_by (\<lambda>(_, s). - bin_cost [tokens s]) (bin_samples b)
      in case fold (place_lighter bin_cost) ranked (([], 0), ([], 0)) of
           ((left, _), (right, _)) \<Rightarrow> (bin_of left, bin_of right))"

text \<open>The candidates: bins of several samples without images; the heaviest is split, the last of them on a tie.\<close>

definition split_candidates :: "(nat list \<Rightarrow> int) \<Rightarrow> micro_batch_bin list \<Rightarrow> (int \<times> nat) list" where
  "split_candidates bin_cost bins =
     [(workload bin_cost b, i). (i, b) \<leftarrow> enumerate 0 bins,
        length (bin_samples b) > 1 \<and> first_multimodal_sample b = None]"

function expand_bins_by_splitting :: "nat \<Rightarrow> (nat list \<Rightarrow> int) \<Rightarrow> micro_batch_bin list \<Rightarrow> micro_batch_bin list" where
  "expand_bins_by_splitting target_count bin_cost bins =
     (if length bins < target_count then
        (case split_candidates bin_cost bins of
           [] \<Rightarrow> bins
         | c # cs \<Rightarrow>
             let i = snd (fold max cs c); (left, right) = split_by_workload bin_cost (bins ! i)
             in expand_bins_by_splitting target_count bin_cost (bins[i := left] @ [right]))
      else bins)"
  by pat_completeness auto

termination
  by (relation "measure (\<lambda>(target, _, bins). target - length bins)") auto

declare expand_bins_by_splitting.simps [simp del]

section \<open>First fit decreasing\<close>

fun place :: "nat \<Rightarrow> nat \<Rightarrow> micro_batch \<Rightarrow> micro_batch_bin list \<Rightarrow> micro_batch_bin list" where
  "place max_seq_len lora_idx sample [] = [from_sample lora_idx sample]"
| "place max_seq_len lora_idx sample (b # bins) =
     (if can_add b sample max_seq_len lora_idx then bin_add lora_idx sample b # bins
      else b # place max_seq_len lora_idx sample bins)"

definition first_fit :: "nat \<Rightarrow> (nat \<times> micro_batch) list \<Rightarrow> micro_batch_bin list" where
  "first_fit max_seq_len samples =
     fold (\<lambda>(i, s). place max_seq_len i s) (order_by (\<lambda>(i, s). (i, - int (tokens s))) samples) []"

definition pack_bins :: "nat \<Rightarrow> nat \<Rightarrow> (nat list \<Rightarrow> int) \<Rightarrow> (nat \<times> micro_batch) list \<Rightarrow> micro_batch_bin list" where
  "pack_bins max_seq_len num_train_workers bin_cost samples =
     (let bins = first_fit max_seq_len samples in
      if num_train_workers > 1 then
        expand_bins_by_splitting
          (max ((length bins + num_train_workers - 1) div num_train_workers * num_train_workers) num_train_workers)
          bin_cost bins
      else bins)"

section \<open>Materializing a bin\<close>

definition ref_logprobs_fill :: rat where "ref_logprobs_fill = 0"
definition rl_fill :: rat where "rl_fill = 1"
definition ce_fill :: rat where "ce_fill = 0"
definition ref_kl_fill :: rat where "ref_kl_fill = 0"

text \<open>A stream exists as soon as one sample carries it; the others are filled up.\<close>

definition start_stream :: "(micro_batch \<Rightarrow> 'a list option) \<Rightarrow> (nat \<times> micro_batch) list \<Rightarrow> 'a list option" where
  "start_stream stream samples = (if list_ex (\<lambda>(_, s). stream s \<noteq> None) samples then Some [] else None)"

definition extend_stream :: "'a \<Rightarrow> nat \<Rightarrow> 'a list option \<Rightarrow> 'a list option \<Rightarrow> 'a list option" where
  "extend_stream fill n xs acc =
     map_option (\<lambda>ys. ys @ (case xs of Some zs \<Rightarrow> zs | None \<Rightarrow> replicate n fill)) acc"

definition append_routed :: "routed_experts option \<Rightarrow> routed_experts option \<Rightarrow> error + routed_experts option" where
  "append_routed src acc =
     (case (src, acc) of
        (None, _) \<Rightarrow> Inr acc
      | (Some r, None) \<Rightarrow> Inr (Some r)
      | (Some r, Some a) \<Rightarrow>
          if re_dtype a \<noteq> re_dtype r \<or> tl (re_shape a) \<noteq> tl (re_shape r) then Inl AssertionError
          else (case (re_shape a, re_shape r) of
             (n # rest, m # _) \<Rightarrow> Inr (Some (a\<lparr>re_data := re_data a @ re_data r, re_shape := (n + m) # rest\<rparr>))
           | _ \<Rightarrow> Inl IndexError))"

definition append_tensor :: "mm_kwargs \<Rightarrow> string \<times> encoded_tensor \<Rightarrow> mm_kwargs \<Rightarrow> error + mm_kwargs" where
  "append_tensor src kt acc =
     (case map_of src (fst kt) of
        None \<Rightarrow> Inl KeyError
      | Some u \<Rightarrow>
          (case (et_shape (snd kt), et_shape u) of
             (n # rest, m # _) \<Rightarrow>
               Inr (acc @ [(fst kt, (snd kt)\<lparr>et_data := et_data (snd kt) @ et_data u, et_shape := (n + m) # rest\<rparr>)])
           | _ \<Rightarrow> Inl IndexError))"

definition append_kwargs :: "mm_kwargs option \<Rightarrow> mm_kwargs option \<Rightarrow> error + mm_kwargs option" where
  "append_kwargs src acc =
     (case (src, acc) of
        (None, _) \<Rightarrow> Inr acc
      | (Some s, None) \<Rightarrow> Inr (Some s)
      | (Some s, Some a) \<Rightarrow> and_then (fold_step (append_tensor s) a []) (\<lambda>k. Inr (Some k)))"

definition empty_batch :: "(nat \<times> micro_batch) list \<Rightarrow> nat \<Rightarrow> micro_batch" where
  "empty_batch samples num_loras =
     \<lparr>input_ids = [], loss_mask = [], advantages = [], inference_logprobs = [], position_ids = [],
      sequence_lengths = map (\<lambda>(_, s). tokens s) samples, temperatures = [], env_names = [], seq_lens = [],
      ref_logprobs = start_stream ref_logprobs samples, lora_num_tokens = Some (replicate num_loras 0),
      mb_routed_experts = None, mb_mm_kwargs = None, mm_token_type_ids = start_stream mm_token_type_ids samples,
      rl_weights = start_stream rl_weights samples, ce_weights = start_stream ce_weights samples,
      ref_kl_weights = start_stream ref_kl_weights samples, run_id = None, run_step = None\<rparr>"

definition append_sample :: "nat \<times> micro_batch \<Rightarrow> micro_batch \<Rightarrow> error + micro_batch" where
  "append_sample x acc =
     (case x of (lora_idx, s) \<Rightarrow>
      let n = tokens s in
      and_then (append_routed (mb_routed_experts s) (mb_routed_experts acc)) (\<lambda>re.
      and_then (append_kwargs (mb_mm_kwargs s) (mb_mm_kwargs acc)) (\<lambda>kwargs.
      case lora_num_tokens acc of
        None \<Rightarrow> Inl TypeError
      | Some counts \<Rightarrow>
          if length counts \<le> lora_idx then Inl IndexError
          else Inr (acc\<lparr>input_ids := input_ids acc @ input_ids s, loss_mask := loss_mask acc @ loss_mask s,
            advantages := advantages acc @ advantages s,
            inference_logprobs := inference_logprobs acc @ inference_logprobs s,
            position_ids := position_ids acc @ position_ids s, temperatures := temperatures acc @ temperatures s,
            env_names := env_names acc @ env_names s,
            ref_logprobs := extend_stream ref_logprobs_fill n (ref_logprobs s) (ref_logprobs acc),
            rl_weights := extend_stream rl_fill n (rl_weights s) (rl_weights acc),
            ce_weights := extend_stream ce_fill n (ce_weights s) (ce_weights acc),
            ref_kl_weights := extend_stream ref_kl_fill n (ref_kl_weights s) (ref_kl_weights acc),
            mm_token_type_ids := extend_stream 0 n (mm_token_type_ids s) (mm_token_type_ids acc),
            mb_routed_experts := re, mb_mm_kwargs := kwargs, seq_lens := seq_lens acc @ seq_lens s,
            lora_num_tokens := Some (counts[lora_idx := counts ! lora_idx + n])\<rparr>))))"

definition materialize_bin :: "micro_batch_bin \<Rightarrow> nat \<Rightarrow> error + micro_batch" where
  "materialize_bin b num_loras =
     and_then (fold_step append_sample (bin_samples b) (empty_batch (bin_samples b) num_loras)) (\<lambda>m.
     and_then (guard (sum_list (sequence_lengths m) = tokens m) AssertionError) (\<lambda>_.
     and_then (guard (sum_list (seq_lens m) = tokens m) AssertionError) (\<lambda>_. Inr m)))"

definition packed_samples_into_micro_bs :: "(nat \<times> micro_batch) list \<Rightarrow> nat \<Rightarrow> nat \<Rightarrow> nat \<Rightarrow> (nat list \<Rightarrow> int)
    \<Rightarrow> error + micro_batch list" where
  "packed_samples_into_micro_bs samples max_seq_len num_loras num_train_workers bin_cost =
     each (\<lambda>b. materialize_bin b num_loras) (pack_bins max_seq_len num_train_workers bin_cost samples)"

section \<open>Padding\<close>

definition add_to_last :: "nat \<Rightarrow> nat list \<Rightarrow> error + nat list" where
  "add_to_last n xs = (if xs = [] then Inl IndexError else Inr (butlast xs @ [last xs + n]))"

definition pad_routed_experts :: "(string \<Rightarrow> nat) \<Rightarrow> nat \<Rightarrow> routed_experts \<Rightarrow> error + routed_experts" where
  "pad_routed_experts itemsize padding_size re =
     and_then (routed_experts_row_size itemsize re) (\<lambda>row_size.
       Inr (re\<lparr>re_data := re_data re @ replicate (padding_size * row_size) 0,
               re_shape := (hd (re_shape re) + padding_size) # tl (re_shape re)\<rparr>))"

definition pad_option :: "('a \<Rightarrow> error + 'a) \<Rightarrow> 'a option \<Rightarrow> error + 'a option" where
  "pad_option f x = (case x of None \<Rightarrow> Inr None | Some y \<Rightarrow> and_then (f y) (\<lambda>z. Inr (Some z)))"

definition padding_of :: "nat \<Rightarrow> nat \<Rightarrow> nat" where
  "padding_of n pad_to_multiple_of = (pad_to_multiple_of - n mod pad_to_multiple_of) mod pad_to_multiple_of"

definition pad_micro_batch :: "(string \<Rightarrow> nat) \<Rightarrow> nat \<Rightarrow> micro_batch \<Rightarrow> error + micro_batch" where
  "pad_micro_batch itemsize pad_to_multiple_of b =
     (if pad_to_multiple_of = 0 then Inl ZeroDivisionError
      else if length (env_names b) \<noteq> length (input_ids b) then Inl ValueError
      else let p = padding_of (length (input_ids b)) pad_to_multiple_of in
        if \<not> (pad_to_multiple_of > 1 \<and> p > 0) then Inr b
        else and_then (add_to_last p (sequence_lengths b)) (\<lambda>sequence_lengths'.
             and_then (add_to_last p (seq_lens b)) (\<lambda>seq_lens'.
             and_then (pad_option (add_to_last p) (lora_num_tokens b)) (\<lambda>lora'.
             and_then (pad_option (pad_routed_experts itemsize p) (mb_routed_experts b)) (\<lambda>re.
             Inr (b\<lparr>input_ids := input_ids b @ replicate p 1, advantages := advantages b @ replicate p 0,
               loss_mask := loss_mask b @ replicate p False, position_ids := position_ids b @ [0..<p],
               sequence_lengths := sequence_lengths', seq_lens := seq_lens',
               inference_logprobs := inference_logprobs b @ replicate p 0,
               temperatures := temperatures b @ replicate p 1,
               ref_logprobs := map_option (\<lambda>xs. xs @ replicate p 0) (ref_logprobs b),
               rl_weights := map_option (\<lambda>xs. xs @ replicate p 0) (rl_weights b),
               ce_weights := map_option (\<lambda>xs. xs @ replicate p 0) (ce_weights b),
               ref_kl_weights := map_option (\<lambda>xs. xs @ replicate p 0) (ref_kl_weights b),
               lora_num_tokens := lora',
               mm_token_type_ids := map_option (\<lambda>xs. xs @ replicate p 0) (mm_token_type_ids b),
               mb_routed_experts := re, env_names := env_names b @ replicate p ''''\<rparr>))))))"

section \<open>Distribution over the ranks\<close>

definition make_dummy_batch :: "micro_batch \<Rightarrow> micro_batch" where
  "make_dummy_batch source =
     source\<lparr>advantages := replicate (tokens source) 0, loss_mask := replicate (tokens source) False,
            rl_weights := None, ce_weights := None, ref_kl_weights := None\<rparr>"

text \<open>\<open>-len(group) % num_train_workers\<close>.\<close>

definition pad_group_for_distribution :: "micro_batch list \<Rightarrow> nat \<Rightarrow> error + micro_batch list" where
  "pad_group_for_distribution batches num_train_workers =
     (if num_train_workers = 0 then Inl ZeroDivisionError
      else let num_padding = nat (- int (length batches) mod int num_train_workers) in
        Inr (case batches of
               b # _ \<Rightarrow> batches @ replicate num_padding (make_dummy_batch b)
             | [] \<Rightarrow> []))"

definition token_arrays_aligned :: "micro_batch \<Rightarrow> bool" where
  "token_arrays_aligned b \<longleftrightarrow>
     length (loss_mask b) = tokens b \<and> length (advantages b) = tokens b \<and>
     length (inference_logprobs b) = tokens b \<and> length (position_ids b) = tokens b \<and>
     length (temperatures b) = tokens b \<and> length (env_names b) = tokens b \<and>
     option_all (\<lambda>xs. length xs = tokens b) (ref_logprobs b) \<and> option_all (\<lambda>xs. length xs = tokens b) (rl_weights b) \<and>
     option_all (\<lambda>xs. length xs = tokens b) (ce_weights b) \<and> option_all (\<lambda>xs. length xs = tokens b) (ref_kl_weights b) \<and>
     option_all (\<lambda>xs. length xs = tokens b) (mm_token_type_ids b) \<and>
     sum_list (sequence_lengths b) = tokens b \<and> sum_list (seq_lens b) = tokens b \<and>
     option_all (\<lambda>re. re_shape re \<noteq> [] \<and> hd (re_shape re) = tokens b) (mb_routed_experts b)"

definition distribute_group :: "micro_batch list \<Rightarrow> nat \<Rightarrow> (nat list \<Rightarrow> int) \<Rightarrow> error + micro_batch list list" where
  "distribute_group batches num_train_workers bin_cost =
     (if num_train_workers = 0 then Inl ZeroDivisionError
      else if length batches mod num_train_workers \<noteq> 0 then Inl AssertionError
      else if batches = [] then Inr (replicate num_train_workers [])
      else and_then (balanced_partition (map (\<lambda>b. bin_cost (sequence_lengths b)) batches) num_train_workers) (\<lambda>partitions.
        Inr (map (\<lambda>partition. map (\<lambda>i. batches ! i) partition) partitions)))"

definition prepare_batch :: "(string \<Rightarrow> nat) \<Rightarrow> (encoded_tensor \<Rightarrow> nat list list) \<Rightarrow> training_sample list \<Rightarrow> nat \<Rightarrow> nat
    \<Rightarrow> nat list \<Rightarrow> nat \<Rightarrow> (nat list \<Rightarrow> int) \<Rightarrow> nat \<Rightarrow> error + micro_batch list list" where
  "prepare_batch itemsize decode_grid rollouts seq_len num_train_workers idxs num_loras bin_cost pad_to_multiple_of =
     and_then (each (\<lambda>(idx, rollout). and_then (prepare_sample itemsize decode_grid rollout seq_len) (\<lambda>b. Inr (idx, b)))
       (zip idxs rollouts)) (\<lambda>all_samples.
     and_then (packed_samples_into_micro_bs all_samples seq_len num_loras num_train_workers bin_cost) (\<lambda>packed.
     and_then (each (pad_micro_batch itemsize pad_to_multiple_of) packed) (\<lambda>micro_batches.
     and_then (pad_group_for_distribution (filter is_multimodal_sample micro_batches) num_train_workers) (\<lambda>mm_batches.
     and_then (pad_group_for_distribution (filter (\<lambda>b. \<not> is_multimodal_sample b) micro_batches) num_train_workers) (\<lambda>text_batches.
     and_then (guard (list_all token_arrays_aligned (mm_batches @ text_batches)) AssertionError) (\<lambda>_.
     and_then (distribute_group mm_batches num_train_workers bin_cost) (\<lambda>mm_per_gpu.
     and_then (distribute_group text_batches num_train_workers bin_cost) (\<lambda>text_per_gpu.
     Inr (map2 (@) mm_per_gpu text_per_gpu)))))))))"

section \<open>Packing loses no sample\<close>

text \<open>A bin knows its length, fits the sequence length and does not mix samples with and without routed experts.\<close>

definition bin_ok :: "nat \<Rightarrow> micro_batch_bin \<Rightarrow> bool" where
  "bin_ok L b \<longleftrightarrow>
     bin_length b = sum_list (map (tokens \<circ> snd) (bin_samples b)) \<and> bin_length b \<le> L \<and>
     (\<forall>x \<in> set (bin_samples b). \<forall>y \<in> set (bin_samples b).
        mb_routed_experts (snd x) = None \<longleftrightarrow> mb_routed_experts (snd y) = None)"

definition all_samples :: "micro_batch_bin list \<Rightarrow> (nat \<times> micro_batch) multiset" where
  "all_samples bins = (\<Sum>b\<in>#mset bins. mset (bin_samples b))"

lemma all_samples_simps [simp]:
  "all_samples [] = {#}"
  "all_samples (b # bins) = mset (bin_samples b) + all_samples bins"
  "all_samples (bins @ bins') = all_samples bins + all_samples bins'"
  by (simp_all add: all_samples_def)

lemma tokens_sum: "map (\<lambda>(i, s). tokens s) xs = map (tokens \<circ> snd) xs"
  by (auto simp: case_prod_beta)

lemma from_sample_ok: "tokens s \<le> L \<Longrightarrow> bin_ok L (from_sample i s)"
  by (simp add: bin_ok_def from_sample_def)

lemma bin_add_ok:
  assumes "bin_ok L b" "can_add b s L i" "bin_samples b \<noteq> []"
  shows "bin_ok L (bin_add i s b)"
proof -
  have "hd (bin_samples b) \<in> set (bin_samples b)" using assms(3) by simp
  then have same: "\<And>x. x \<in> set (bin_samples b) \<Longrightarrow>
      (mb_routed_experts (snd x) = None) = (mb_routed_experts (snd (hd (bin_samples b))) = None)"
    using assms(1) unfolding bin_ok_def by blast
  have "(mb_routed_experts (snd (hd (bin_samples b))) = None) = (mb_routed_experts s = None)"
    and "bin_length b + tokens s \<le> L"
    using assms(2) unfolding can_add_def first_sample_def by (metis (no_types, lifting) not_le_imp_less)+
  then show ?thesis using assms(1) same by (simp add: bin_ok_def bin_add_def)
qed

lemma place_ok:
  assumes "\<forall>b \<in> set bins. bin_ok L b \<and> bin_samples b \<noteq> []" "tokens s \<le> L"
  shows "(\<forall>b \<in> set (place L i s bins). bin_ok L b \<and> bin_samples b \<noteq> []) \<and>
    all_samples (place L i s bins) = add_mset (i, s) (all_samples bins)"
  using assms
proof (induction bins)
  case Nil
  then show ?case by (simp add: from_sample_ok) (simp add: from_sample_def)
next
  case (Cons b bins)
  then show ?case using bin_add_ok [of L b s i] by (auto simp: bin_add_def)
qed

lemma first_fit_ok:
  assumes "\<And>i s. (i, s) \<in> set samples \<Longrightarrow> tokens s \<le> L"
  shows "(\<forall>b \<in> set (first_fit L samples). bin_ok L b) \<and> all_samples (first_fit L samples) = mset samples"
proof -
  have "(\<forall>b \<in> set (fold (\<lambda>(i, s). place L i s) xs bins). bin_ok L b \<and> bin_samples b \<noteq> []) \<and>
      all_samples (fold (\<lambda>(i, s). place L i s) xs bins) = mset xs + all_samples bins"
    if "\<forall>b \<in> set bins. bin_ok L b \<and> bin_samples b \<noteq> []" "\<And>i s. (i, s) \<in> set xs \<Longrightarrow> tokens s \<le> L" for xs bins
    using that
  proof (induction xs arbitrary: bins)
    case (Cons x xs)
    obtain i s where x: "x = (i, s)" by (cases x)
    with Cons.prems(2) have "tokens s \<le> L" by auto
    note placed = place_ok [OF Cons.prems(1) this, of i]
    have "\<And>j t. (j, t) \<in> set xs \<Longrightarrow> tokens t \<le> L" using Cons.prems(2) by (meson list.set_intros(2))
    from Cons.IH [OF conjunct1 [OF placed] this] conjunct2 [OF placed] show ?case by (simp add: x)
  qed auto
  from this [of "[]" "order_by (\<lambda>(i, s). (i, - int (tokens s))) samples"] assms show ?thesis
    by (simp add: first_fit_def)
qed

lemma split_samples:
  assumes "split_by_workload bin_cost b = (left, right)"
  shows "mset (bin_samples left) + mset (bin_samples right) = mset (bin_samples b)"
    and "bin_length left = sum_list (map (tokens \<circ> snd) (bin_samples left))"
    and "bin_length right = sum_list (map (tokens \<circ> snd) (bin_samples right))"
proof -
  have "mset (fst (fst (fold (place_lighter c) xs sides))) + mset (fst (snd (fold (place_lighter c) xs sides))) =
      mset xs + mset (fst (fst sides)) + mset (fst (snd sides))" for c xs sides
    by (induction xs arbitrary: sides) (auto simp: place_lighter_def Let_def split: prod.splits)
  from this [of bin_cost "order_by (\<lambda>(_, s). - bin_cost [tokens s]) (bin_samples b)" "(([], 0), ([], 0))"]
  show "mset (bin_samples left) + mset (bin_samples right) = mset (bin_samples b)"
    using assms by (auto simp: split_by_workload_def bin_of_def Let_def split: prod.splits)
  show "bin_length left = sum_list (map (tokens \<circ> snd) (bin_samples left))"
    "bin_length right = sum_list (map (tokens \<circ> snd) (bin_samples right))"
    using assms by (auto simp: split_by_workload_def bin_of_def Let_def tokens_sum split: prod.splits)
qed

lemma split_ok:
  assumes "split_by_workload bin_cost b = (left, right)" "bin_ok L b"
  shows "bin_ok L left" "bin_ok L right"
proof -
  note s = split_samples [OF assms(1)]
  have "sum_list (map (tokens \<circ> snd) (bin_samples left)) + sum_list (map (tokens \<circ> snd) (bin_samples right)) =
      sum_list (map (tokens \<circ> snd) (bin_samples b))"
    using arg_cong [OF s(1), of "\<lambda>m. sum_mset (image_mset (tokens \<circ> snd) m)"]
    by (simp add: sum_mset_sum_list flip: mset_map)
  moreover have "set (bin_samples left) \<union> set (bin_samples right) = set (bin_samples b)"
    using arg_cong [OF s(1), of set_mset] by simp
  ultimately show "bin_ok L left" "bin_ok L right"
    using assms(2) s(2,3) unfolding bin_ok_def by auto
qed

lemma split_candidates_range:
  assumes "split_candidates bin_cost bins = c # cs"
  shows "snd (fold max cs c) < length bins"
proof -
  have "fold max cs c \<in> set (c # cs)" 
    by (induction cs arbitrary: c) (auto simp: max_def)
  then have "fold max cs c \<in> set (split_candidates bin_cost bins)" by (simp add: assms)
  then show ?thesis by (auto simp: split_candidates_def in_set_enumerate_eq)
qed

lemma all_samples_update:
  "i < length bins \<Longrightarrow> all_samples (bins[i := b]) + mset (bin_samples (bins ! i)) = all_samples bins + mset (bin_samples b)"
  by (induction bins arbitrary: i) (auto split: nat.split)

lemma expand_ok:
  assumes "\<forall>b \<in> set bins. bin_ok L b"
  shows "(\<forall>b \<in> set (expand_bins_by_splitting target bin_cost bins). bin_ok L b) \<and>
    all_samples (expand_bins_by_splitting target bin_cost bins) = all_samples bins \<and>
    length bins \<le> length (expand_bins_by_splitting target bin_cost bins) \<and>
    (length bins \<le> target \<longrightarrow> length (expand_bins_by_splitting target bin_cost bins) = target \<or>
       length (expand_bins_by_splitting target bin_cost bins) < target \<and>
       split_candidates bin_cost (expand_bins_by_splitting target bin_cost bins) = [])"
  using assms
proof (induction target bin_cost bins rule: expand_bins_by_splitting.induct)
  case (1 target bin_cost bins)
  show ?case
  proof (cases "length bins < target \<and> split_candidates bin_cost bins \<noteq> []")
    case False
    then have "expand_bins_by_splitting target bin_cost bins = bins"
      by (subst expand_bins_by_splitting.simps) (auto split: list.split)
    with 1(2) False show ?thesis by auto
  next
    case True
    then obtain c cs where c: "split_candidates bin_cost bins = c # cs" by (meson neq_Nil_conv)
    define i where "i = snd (fold max cs c)"
    obtain left right where s: "split_by_workload bin_cost (bins ! i) = (left, right)" by fastforce
    have i: "i < length bins" using split_candidates_range [OF c] by (simp add: i_def)
    let ?bins = "bins[i := left] @ [right]"
    have eq: "expand_bins_by_splitting target bin_cost bins = expand_bins_by_splitting target bin_cost ?bins"
      using True c s by (subst expand_bins_by_splitting.simps) (simp add: i_def Let_def)
    have "bin_ok L (bins ! i)" using 1(2) i by simp
    from split_ok [OF s this] 1(2) have ok: "\<forall>b \<in> set ?bins. bin_ok L b"
      by (auto dest!: subsetD [OF set_update_subset_insert])
    have "all_samples ?bins + mset (bin_samples (bins ! i)) = all_samples bins + mset (bin_samples (bins ! i))"
      using all_samples_update [OF i, of left] split_samples(1) [OF s] by (simp add: ac_simps)
    then have "all_samples ?bins = all_samples bins" by simp
    with 1(1) [OF conjunct1 [OF True] c i_def refl s [symmetric] ok] show ?thesis unfolding eq using True by auto
  qed
qed

lemma pack_bins_ok:
  assumes "\<And>i s. (i, s) \<in> set samples \<Longrightarrow> tokens s \<le> L"
  shows "(\<forall>b \<in> set (pack_bins L workers bin_cost samples). bin_ok L b) \<and>
    all_samples (pack_bins L workers bin_cost samples) = mset samples"
proof -
  have f: "(\<forall>b \<in> set (first_fit L samples). bin_ok L b) \<and> all_samples (first_fit L samples) = mset samples"
    by (rule first_fit_ok) (rule assms)
  with expand_ok [of "first_fit L samples" L _ bin_cost] show ?thesis by (simp add: pack_bins_def Let_def)
qed

section \<open>Materialized bins are aligned\<close>

lemma extend_stream_length:
  assumes "option_all (\<lambda>xs. length xs = n) acc" "option_all (\<lambda>xs. length xs = m) xs"
  shows "option_all (\<lambda>xs. length xs = n + m) (extend_stream fill m xs acc)"
  using assms by (cases acc; cases xs) (auto simp: extend_stream_def)

text \<open>What holds of the batch under construction, apart from the routed experts.\<close>

definition growing :: "micro_batch \<Rightarrow> bool" where
  "growing b \<longleftrightarrow>
     streams_match b \<and> length (env_names b) = length (input_ids b) \<and>
     option_all (\<lambda>ids. length ids = length (input_ids b)) (mm_token_type_ids b) \<and>
     sum_list (seq_lens b) = length (input_ids b)"

lemma aligned_growing: "aligned b \<Longrightarrow> growing b"
  by (simp add: aligned_def growing_def)

lemma append_sampleD:
  assumes "append_sample (i, s) acc = Inr acc'"
  obtains counts where "lora_num_tokens acc = Some counts" "i < length counts"
    "append_routed (mb_routed_experts s) (mb_routed_experts acc) = Inr (mb_routed_experts acc')"
    "lora_num_tokens acc' = Some (counts[i := counts ! i + tokens s])"
    "input_ids acc' = input_ids acc @ input_ids s" "loss_mask acc' = loss_mask acc @ loss_mask s"
    "advantages acc' = advantages acc @ advantages s" "sequence_lengths acc' = sequence_lengths acc"
    "position_ids acc' = position_ids acc @ position_ids s" "seq_lens acc' = seq_lens acc @ seq_lens s"
    "append_kwargs (mb_mm_kwargs s) (mb_mm_kwargs acc) = Inr (mb_mm_kwargs acc')"
  using assms by (auto simp: append_sample_def Let_def and_then_eq_Inr split: option.splits if_splits)

lemma append_sample_growing:
  assumes "append_sample (i, s) acc = Inr acc'" "growing acc" "growing s"
  shows "growing acc'"
  using assms
  by (auto simp: append_sample_def Let_def and_then_eq_Inr growing_def streams_match_def tokens_def
      split: option.splits if_splits intro!: extend_stream_length)

text \<open>The routed experts of the growing batch cover all tokens so far, where the samples have them.\<close>

definition routed_grows :: "bool \<Rightarrow> micro_batch \<Rightarrow> bool" where
  "routed_grows with_experts b \<longleftrightarrow>
     (case mb_routed_experts b of
        None \<Rightarrow> with_experts \<longrightarrow> input_ids b = []
      | Some re \<Rightarrow> with_experts \<and> re_shape re \<noteq> [] \<and> hd (re_shape re) = length (input_ids b))"

lemma append_sample_routed:
  assumes "append_sample (i, s) acc = Inr acc'" "routed_grows e acc" "aligned s" "(mb_routed_experts s = None) = (\<not> e)"
  shows "routed_grows e acc'"
proof -
  obtain "append_routed (mb_routed_experts s) (mb_routed_experts acc) = Inr (mb_routed_experts acc')"
    "input_ids acc' = input_ids acc @ input_ids s" by (rule append_sampleD [OF assms(1)])
  with assms(2-4) show ?thesis
    by (auto simp: append_routed_def routed_grows_def aligned_def split: option.splits if_splits list.splits)
qed

text \<open>The fields that are plain concatenations.\<close>

lemma append_samples:
  assumes "fold_step append_sample xs acc = Inr m"
  shows "input_ids m = input_ids acc @ concat (map (input_ids \<circ> snd) xs) \<and>
    loss_mask m = loss_mask acc @ concat (map (loss_mask \<circ> snd) xs) \<and>
    advantages m = advantages acc @ concat (map (advantages \<circ> snd) xs) \<and>
    position_ids m = position_ids acc @ concat (map (position_ids \<circ> snd) xs) \<and>
    sequence_lengths m = sequence_lengths acc \<and> seq_lens m = seq_lens acc @ concat (map (seq_lens \<circ> snd) xs)"
  using assms
proof (induction xs arbitrary: acc)
  case (Cons x xs)
  obtain i s where x: "x = (i, s)" by (cases x)
  from Cons.prems obtain acc' where a: "append_sample (i, s) acc = Inr acc'" and f: "fold_step append_sample xs acc' = Inr m"
    by (auto simp: x and_then_eq_Inr)
  show ?case by (rule append_sampleD [OF a]) (use Cons.IH [OF f] in \<open>simp add: x\<close>)
qed simp

lemma materialize_fold:
  assumes "fold_step append_sample xs acc = Inr m" "growing acc" "routed_grows e acc"
    and "\<And>x. x \<in> set xs \<Longrightarrow> aligned (snd x) \<and> (mb_routed_experts (snd x) = None) = (\<not> e)"
  shows "growing m \<and> routed_grows e m"
  using assms
proof (induction xs arbitrary: acc)
  case (Cons x xs)
  obtain i s where x: "x = (i, s)" by (cases x)
  from Cons.prems(1) obtain acc' where a: "append_sample (i, s) acc = Inr acc'" and f: "fold_step append_sample xs acc' = Inr m"
    by (auto simp: x and_then_eq_Inr)
  have s: "aligned s" "(mb_routed_experts s = None) = (\<not> e)" using Cons.prems(4) [of x] by (simp_all add: x)
  show ?case
    by (rule Cons.IH [OF f append_sample_growing [OF a Cons.prems(2) aligned_growing [OF s(1)]]
          append_sample_routed [OF a Cons.prems(3) s] Cons.prems(4)]) simp
qed simp

lemma materialize_binD:
  assumes "materialize_bin b n = Inr m"
  shows "fold_step append_sample (bin_samples b) (empty_batch (bin_samples b) n) = Inr m"
    "sum_list (sequence_lengths m) = tokens m" "sum_list (seq_lens m) = tokens m"
  using assms by (auto simp: materialize_bin_def and_then_eq_Inr)

lemma materialize_aligned:
  assumes m: "materialize_bin b n = Inr m" and ok: "bin_ok L b" and al: "\<And>x. x \<in> set (bin_samples b) \<Longrightarrow> aligned (snd x)"
  shows "aligned m"
proof -
  note f = materialize_binD [OF m]
  define e where "e \<longleftrightarrow> (\<exists>x \<in> set (bin_samples b). mb_routed_experts (snd x) \<noteq> None)"
  have e: "(mb_routed_experts (snd x) = None) = (\<not> e)" if "x \<in> set (bin_samples b)" for x
    using ok that unfolding bin_ok_def e_def by metis
  have "growing (empty_batch (bin_samples b) n)" "routed_grows e (empty_batch (bin_samples b) n)"
    by (simp_all add: growing_def streams_match_def empty_batch_def routed_grows_def Let_def start_stream_def)
  from materialize_fold [OF f(1) this] al e have "growing m" "routed_grows e m" by blast+
  then show ?thesis
    using f(2,3) by (auto simp: aligned_def growing_def routed_grows_def tokens_def split: option.splits)
qed

section \<open>Padding and distribution\<close>

lemma add_to_last_sum: "add_to_last n xs = Inr ys \<Longrightarrow> sum_list ys = sum_list xs + n"
  by (cases xs rule: rev_cases) (auto simp: add_to_last_def split: if_splits)

lemma pad_option_Inr:
  "pad_option f x = Inr y \<longleftrightarrow> (case x of None \<Rightarrow> y = None | Some a \<Rightarrow> \<exists>b. f a = Inr b \<and> y = Some b)"
  by (auto simp: pad_option_def and_then_eq_Inr split: option.split)

lemma option_all_pad: "option_all (\<lambda>xs. length xs = n) x \<Longrightarrow> option_all (\<lambda>xs. length xs = n + p) (map_option (\<lambda>xs. xs @ replicate p a) x)"
  by (cases x) auto

lemma pad_micro_batch_aligned:
  assumes "pad_micro_batch itemsize k b = Inr b'" "aligned b"
  shows "aligned b'"
proof (cases "k > 1 \<and> padding_of (length (input_ids b)) k > 0")
  case False
  with assms show ?thesis by (auto simp: pad_micro_batch_def Let_def split: if_splits)
next
  case True
  define p where "p = padding_of (length (input_ids b)) k"
  have n: "length (input_ids b') = length (input_ids b) + p"
    using assms(1) True by (auto simp: pad_micro_batch_def Let_def and_then_eq_Inr p_def split: if_splits)
  have "streams_match b'" "length (env_names b') = length (input_ids b')"
    "option_all (\<lambda>ids. length ids = length (input_ids b')) (mm_token_type_ids b')"
    using assms True unfolding n
    by (auto simp: pad_micro_batch_def Let_def and_then_eq_Inr p_def aligned_def streams_match_def
        intro!: option_all_pad split: if_splits)
  moreover have "sum_list (sequence_lengths b') = length (input_ids b')" "sum_list (seq_lens b') = length (input_ids b')"
    using assms True unfolding n
    by (auto simp: pad_micro_batch_def Let_def and_then_eq_Inr p_def aligned_def dest!: add_to_last_sum split: if_splits)
  moreover have "pad_option (pad_routed_experts itemsize p) (mb_routed_experts b) = Inr (mb_routed_experts b')"
    using assms(1) True by (auto simp: pad_micro_batch_def Let_def and_then_eq_Inr p_def split: if_splits)
  then have "option_all (\<lambda>re. re_shape re \<noteq> [] \<and> hd (re_shape re) = length (input_ids b')) (mb_routed_experts b')"
    using assms(2) unfolding n pad_option_Inr aligned_def
    by (cases "mb_routed_experts b") (auto simp: pad_routed_experts_def and_then_eq_Inr)
  ultimately show ?thesis by (simp add: aligned_def)
qed

lemma aligned_iff: "aligned b \<longleftrightarrow> token_arrays_aligned b"
  by (auto simp: aligned_def token_arrays_aligned_def streams_match_def tokens_def Let_def)

lemma dummy_aligned: "aligned b \<Longrightarrow> aligned (make_dummy_batch b)"
  by (simp add: aligned_def make_dummy_batch_def streams_match_def tokens_def Let_def)

lemma dummy_modality [simp]: "is_multimodal_sample (make_dummy_batch b) = is_multimodal_sample b"
  by (simp add: is_multimodal_sample_def make_dummy_batch_def)

text \<open>The padded group: the batches themselves, then copies of a batch without loss.\<close>

lemma pad_group_cases:
  assumes "pad_group_for_distribution bs w = Inr bs'"
  obtains n where "0 < w" "w dvd length bs'" "bs' = bs @ replicate n (make_dummy_batch (hd bs))" "bs = [] \<longrightarrow> n = 0" "n < w"
proof (cases bs)
  case Nil
  with assms have "0 < w" "bs' = []" by (auto simp: pad_group_for_distribution_def Let_def split: if_splits)
  with Nil that [of 0] show ?thesis by simp
next
  case (Cons b rest)
  define n where "n = nat (- int (length bs) mod int w)"
  have w: "0 < w" and bs': "bs' = bs @ replicate n (make_dummy_batch (hd bs))"
    using assms Cons by (auto simp: pad_group_for_distribution_def Let_def n_def split: if_splits)
  have "int w dvd int (length bs) + - int (length bs) mod int w"
    by (simp add: dvd_eq_mod_eq_0 mod_simps)
  moreover have "0 \<le> - int (length bs) mod int w" "- int (length bs) mod int w < int w" using w by simp_all
  ultimately have "int w dvd int (length bs')" "n < w" by (simp_all add: bs' n_def nat_less_iff)
  then have "w dvd length bs'" "n < w" by (simp_all only: int_dvd_int_iff)
  with w bs' Cons show ?thesis by (intro that) simp_all
qed

lemma pad_group_all:
  assumes "pad_group_for_distribution (filter P bs) w = Inr bs'" "b \<in> set bs'" "\<And>b. P (make_dummy_batch b) = P b"
  shows "P b"
proof (rule pad_group_cases [OF assms(1)])
  fix n assume bs': "bs' = filter P bs @ replicate n (make_dummy_batch (hd (filter P bs)))" "filter P bs = [] \<longrightarrow> n = 0"
  then have "b \<in> set (filter P bs) \<or> filter P bs \<noteq> [] \<and> b = make_dummy_batch (hd (filter P bs))" using assms(2) by auto
  then show "P b" using assms(3) hd_in_set [of "filter P bs"] by auto
qed

lemma pad_group_modality:
  "pad_group_for_distribution (filter is_multimodal_sample bs) w = Inr bs' \<Longrightarrow> b \<in> set bs' \<Longrightarrow> is_multimodal_sample b"
  "pad_group_for_distribution (filter (\<lambda>b. \<not> is_multimodal_sample b) bs) w = Inr bs' \<Longrightarrow> b \<in> set bs' \<Longrightarrow> \<not> is_multimodal_sample b"
  by (erule pad_group_all, assumption, rule dummy_modality)
    (erule (1) pad_group_all [where P = "\<lambda>b. \<not> is_multimodal_sample b"], simp only: dummy_modality)

lemma distribute_groupD:
  assumes "distribute_group bs w bin_cost = Inr grid"
  shows "length grid = w" "\<forall>g \<in> set grid. length g = length bs div w" "mset (concat grid) = mset bs"
proof -
  have "length grid = w \<and> (\<forall>g \<in> set grid. length g = length bs div w) \<and> mset (concat grid) = mset bs"
  proof (cases "bs = []")
    case True
    with assms show ?thesis by (auto simp: distribute_group_def split: if_splits)
  next
    case False
    with assms obtain ps where ps: "balanced_partition (map (\<lambda>b. bin_cost (sequence_lengths b)) bs) w = Inr ps"
      and grid: "grid = map (map ((!) bs)) ps"
      by (auto simp: distribute_group_def and_then_eq_Inr split: if_splits)
    have ok: "length ps = w" "\<forall>p \<in> set ps. length p = length bs div w" "mset (concat ps) = mset [0..<length bs]"
      using balanced_partition_ok [OF ps] by (simp_all add: partition_ok_def)
    have "mset (concat grid) = image_mset ((!) bs) (mset (concat ps))"
      by (simp add: grid flip: map_concat)
    also have "\<dots> = mset (map ((!) bs) [0..<length bs])" by (simp add: ok(3))
    finally have "mset (concat grid) = mset bs" by (simp add: map_nth)
    with ok(1,2) show ?thesis by (simp add: grid)
  qed
  then show "length grid = w" "\<forall>g \<in> set grid. length g = length bs div w" "mset (concat grid) = mset bs" by blast+
qed

lemma distribute_group_total:
  assumes "0 < w" "w dvd length bs"
  shows "\<exists>grid. distribute_group bs w bin_cost = Inr grid"
proof (cases "bs = []")
  case True
  with assms show ?thesis by (simp add: distribute_group_def)
next
  case False
  with assms(2) have "w \<le> length bs" by (simp add: dvd_imp_le)
  with balanced_partition_total [of w "map (\<lambda>b. bin_cost (sequence_lengths b)) bs"] assms
  obtain ps where "balanced_partition (map (\<lambda>b. bin_cost (sequence_lengths b)) bs) w = Inr ps" by auto
  with assms False show ?thesis by (auto simp: distribute_group_def mod_eq_0_iff_dvd)
qed

section \<open>The whole batch\<close>

lemma prepare_batchD:
  assumes "prepare_batch itemsize decode_grid rollouts seq_len w idxs num_loras bin_cost pad = Inr grid"
  obtains samples packed padded mm texts mm_grid text_grid where
    "each (\<lambda>(idx, rollout). and_then (prepare_sample itemsize decode_grid rollout seq_len) (\<lambda>b. Inr (idx, b))) (zip idxs rollouts) = Inr samples"
    "packed_samples_into_micro_bs samples seq_len num_loras w bin_cost = Inr packed"
    "each (pad_micro_batch itemsize pad) packed = Inr padded"
    "pad_group_for_distribution (filter is_multimodal_sample padded) w = Inr mm"
    "pad_group_for_distribution (filter (\<lambda>b. \<not> is_multimodal_sample b) padded) w = Inr texts"
    "list_all token_arrays_aligned (mm @ texts)"
    "distribute_group mm w bin_cost = Inr mm_grid" "distribute_group texts w bin_cost = Inr text_grid"
    "grid = map2 (@) mm_grid text_grid"
  using assms by (auto simp: prepare_batch_def and_then_eq_Inr)

lemma prepared_samples:
  assumes "each (\<lambda>(idx, rollout). and_then (prepare_sample itemsize decode_grid rollout seq_len) (\<lambda>b. Inr (idx, b))) xs = Inr samples"
    and "(i, b) \<in> set samples"
  shows "aligned b" "tokens b \<le> seq_len" "\<exists>r. (i, r) \<in> set xs \<and> prepare_sample itemsize decode_grid r seq_len = Inr b"
proof -
  obtain r where r: "(i, r) \<in> set xs" "prepare_sample itemsize decode_grid r seq_len = Inr b"
    using each_InrD [OF assms] by (auto simp: and_then_eq_Inr)
  then show "\<exists>r. (i, r) \<in> set xs \<and> prepare_sample itemsize decode_grid r seq_len = Inr b" by blast
  show "aligned b" by (rule prepare_sample_aligned [OF r(2)])
  show "tokens b \<le> seq_len" using prepare_sample_prefix [OF r(2)] by (auto simp: tokens_def)
qed

lemma packedD:
  assumes "packed_samples_into_micro_bs samples L num_loras w bin_cost = Inr mbs"
    and "\<And>i s. (i, s) \<in> set samples \<Longrightarrow> tokens s \<le> L"
  obtains bins where "bins = pack_bins L w bin_cost samples" "list_all2 (\<lambda>b m. materialize_bin b num_loras = Inr m) bins mbs"
    "\<forall>b \<in> set bins. bin_ok L b" "all_samples bins = mset samples"
proof -
  have "(\<forall>b \<in> set (pack_bins L w bin_cost samples). bin_ok L b) \<and> all_samples (pack_bins L w bin_cost samples) = mset samples"
    by (rule pack_bins_ok) (rule assms(2))
  with assms(1) that show ?thesis by (simp add: packed_samples_into_micro_bs_def each_Inr_iff)
qed

lemma bin_samples_subset: "b \<in> set bins \<Longrightarrow> set (bin_samples b) \<subseteq> set_mset (all_samples bins)"
  by (induction bins) auto

lemma packed_aligned:
  assumes "packed_samples_into_micro_bs samples L num_loras w bin_cost = Inr mbs"
    and samples: "\<And>i s. (i, s) \<in> set samples \<Longrightarrow> tokens s \<le> L \<and> aligned s" and "m \<in> set mbs"
  shows "aligned m"
proof -
  let ?bins = "pack_bins L w bin_cost samples"
  have bins: "(\<forall>b \<in> set ?bins. bin_ok L b) \<and> all_samples ?bins = mset samples"
    by (rule pack_bins_ok) (use samples in blast)
  obtain b where b: "b \<in> set ?bins" "materialize_bin b num_loras = Inr m"
    using each_InrD assms(1,3) unfolding packed_samples_into_micro_bs_def by metis
  have "set (bin_samples b) \<subseteq> set samples" using bin_samples_subset [OF b(1)] bins by simp
  then show ?thesis
    using materialize_aligned [OF b(2)] bins b(1) samples by (metis prod.collapse subsetD)
qed

text \<open>Padding and dummies add no token that is trained.\<close>

definition loss_tokens :: "micro_batch \<Rightarrow> nat" where
  "loss_tokens b = length (filter (\<lambda>m. m) (loss_mask b))"

lemma loss_tokens_pad: "pad_micro_batch itemsize k b = Inr b' \<Longrightarrow> loss_tokens b' = loss_tokens b"
  by (auto simp: pad_micro_batch_def Let_def and_then_eq_Inr loss_tokens_def split: if_splits)

lemma loss_tokens_dummy [simp]: "loss_tokens (make_dummy_batch b) = 0"
  by (simp add: loss_tokens_def make_dummy_batch_def)

lemma padded_group_aligned:
  assumes "pad_group_for_distribution bs w = Inr bs'" "\<And>b. b \<in> set bs \<Longrightarrow> aligned b" "b \<in> set bs'"
  shows "aligned b"
proof (rule pad_group_cases [OF assms(1)])
  fix n assume "bs' = bs @ replicate n (make_dummy_batch (hd bs))" "bs = [] \<longrightarrow> n = 0"
  then have "b \<in> set bs \<or> bs \<noteq> [] \<and> b = make_dummy_batch (hd bs)" using assms(3) by auto
  then show "aligned b" using assms(2) dummy_aligned hd_in_set by blast
qed

lemma prepare_sample_text:
  assumes "prepare_sample itemsize decode_grid r seq_len = Inr b" "ts_mm_kwargs r = None" "ts_routed_experts r = None"
  shows "mb_routed_experts b = None \<and> mb_mm_kwargs b = None"
  using assms by (auto simp: prepare_sample_def and_then_eq_Inr full_batch_def truncate_batch_def split: if_splits option.splits)

lemma pad_group_loss:
  assumes "pad_group_for_distribution bs w = Inr bs'"
  shows "sum_list (map loss_tokens bs') = sum_list (map loss_tokens bs)"
  by (rule pad_group_cases [OF assms]) (simp add: sum_list_replicate)

lemma sum_list_mset_cong: "mset xs = mset ys \<Longrightarrow> sum_list (map f xs) = sum_list (map (f :: _ \<Rightarrow> nat) ys)"
  by (metis mset_map sum_mset_sum_list)

lemma mset_map2_append:
  "length xss = length yss \<Longrightarrow> mset (concat (map2 (@) xss yss)) = mset (concat xss) + mset (concat yss)"
  by (induction xss yss rule: list_induct2) auto

lemma materialize_loss:
  assumes "materialize_bin b n = Inr m"
  shows "loss_tokens m = sum_list (map (loss_tokens \<circ> snd) (bin_samples b))"
proof -
  have "loss_mask m = concat (map (loss_mask \<circ> snd) (bin_samples b))"
    using append_samples [OF materialize_binD(1) [OF assms]] by (simp add: empty_batch_def)
  moreover have "length (filter (\<lambda>m. m) (concat (map (loss_mask \<circ> snd) xs))) = sum_list (map (loss_tokens \<circ> snd) xs)" for xs :: "(nat \<times> micro_batch) list"
    by (induction xs) (auto simp: loss_tokens_def)
  ultimately show ?thesis by (simp add: loss_tokens_def)
qed

lemma all_samples_sum: "sum_mset (image_mset f (all_samples bins)) = sum_list (map (\<lambda>b. sum_list (map (f :: _ \<Rightarrow> nat) (bin_samples b))) bins)"
  by (induction bins) (auto simp: sum_mset_sum_list simp flip: mset_map)

section \<open>Text batches are always prepared\<close>

lemma append_sample_text:
  assumes "mb_routed_experts s = None" "mb_mm_kwargs s = None" "i < n"
    and "lora_num_tokens acc = Some counts" "length counts = n"
  shows "\<exists>acc' counts'. append_sample (i, s) acc = Inr acc' \<and> mb_mm_kwargs acc' = mb_mm_kwargs acc \<and>
    mb_routed_experts acc' = mb_routed_experts acc \<and> lora_num_tokens acc' = Some counts' \<and> length counts' = n"
  using assms by (simp add: append_sample_def Let_def append_routed_def append_kwargs_def)

lemma append_samples_text:
  assumes "\<And>x. x \<in> set xs \<Longrightarrow> mb_routed_experts (snd x) = None \<and> mb_mm_kwargs (snd x) = None \<and> fst x < n"
    and "lora_num_tokens acc = Some counts" "length counts = n"
  shows "\<exists>m counts'. fold_step append_sample xs acc = Inr m \<and> mb_mm_kwargs m = mb_mm_kwargs acc \<and>
    mb_routed_experts m = mb_routed_experts acc \<and> lora_num_tokens m = Some counts' \<and> length counts' = n"
  using assms
proof (induction xs arbitrary: acc counts)
  case (Cons x xs)
  obtain i s where x: "x = (i, s)" by (cases x)
  have s: "mb_routed_experts s = None" "mb_mm_kwargs s = None" "i < n" using Cons.prems(1) [of x] by (simp_all add: x)
  obtain acc' counts' where a: "append_sample (i, s) acc = Inr acc'" "mb_mm_kwargs acc' = mb_mm_kwargs acc"
      "mb_routed_experts acc' = mb_routed_experts acc" "lora_num_tokens acc' = Some counts'" "length counts' = n"
    using append_sample_text [OF s Cons.prems(2,3)] by blast
  from Cons.IH [OF Cons.prems(1) a(4,5)] a(1-3) show ?case by (simp add: x)
qed simp

lemma empty_batch_plain: "mb_mm_kwargs (empty_batch xs n) = None" "mb_routed_experts (empty_batch xs n) = None"
  by (simp_all add: empty_batch_def)

lemma materialize_text:
  assumes "\<And>x. x \<in> set (bin_samples b) \<Longrightarrow> mb_routed_experts (snd x) = None \<and> mb_mm_kwargs (snd x) = None \<and> fst x < n"
    and al: "\<And>x. x \<in> set (bin_samples b) \<Longrightarrow> aligned (snd x)"
  shows "\<exists>m counts. materialize_bin b n = Inr m \<and> mb_mm_kwargs m = None \<and> mb_routed_experts m = None \<and>
    lora_num_tokens m = Some counts \<and> length counts = n \<and> sequence_lengths m = map (tokens \<circ> snd) (bin_samples b)"
proof -
  let ?e = "empty_batch (bin_samples b) n"
  have "lora_num_tokens ?e = Some (replicate n 0)" "length (replicate n (0 :: nat)) = n"
    by (simp_all add: empty_batch_def)
  from append_samples_text [OF assms(1) this] obtain m counts where
    m: "fold_step append_sample (bin_samples b) ?e = Inr m" "mb_mm_kwargs m = None" "mb_routed_experts m = None"
      "lora_num_tokens m = Some counts" "length counts = n"
    by (metis empty_batch_plain)
  have g: "growing ?e" "routed_grows False ?e"
    by (simp_all add: growing_def streams_match_def empty_batch_def routed_grows_def Let_def start_stream_def)
  have "growing m" using materialize_fold [OF m(1) g] assms(1) al by blast
  then have seq: "sum_list (seq_lens m) = tokens m" by (simp add: growing_def tokens_def)
  note c = append_samples [OF m(1)]
  have sl: "sequence_lengths m = map (tokens \<circ> snd) (bin_samples b)" using c by (simp add: empty_batch_def tokens_sum)
  have "tokens m = sum_list (map (tokens \<circ> snd) (bin_samples b))"
    using c by (simp add: empty_batch_def tokens_def length_concat o_def)
  with m seq sl show ?thesis by (simp add: materialize_bin_def)
qed

lemma add_to_last_total: "0 < sum_list xs \<Longrightarrow> \<exists>ys. add_to_last n xs = Inr ys"
  by (cases xs) (auto simp: add_to_last_def)

lemma pad_text:
  assumes "aligned m" "mb_routed_experts m = None" "lora_num_tokens m = Some counts" "counts = [] \<longrightarrow> tokens m = 0" "0 < k"
  shows "\<exists>m'. pad_micro_batch itemsize k m = Inr m' \<and> mb_mm_kwargs m' = mb_mm_kwargs m"
proof (cases "k > 1 \<and> padding_of (length (input_ids m)) k > 0")
  case False
  with assms(1,5) show ?thesis by (auto simp: pad_micro_batch_def Let_def aligned_def)
next
  case True
  define p where "p = padding_of (length (input_ids m)) k"
  have "length (input_ids m) \<noteq> 0" using True by (auto simp: padding_of_def)
  then have pos: "0 < sum_list (sequence_lengths m)" "0 < sum_list (seq_lens m)" "counts \<noteq> []"
    using assms(1,4) by (auto simp: aligned_def tokens_def)
  obtain a b where "add_to_last p (sequence_lengths m) = Inr a" "add_to_last p (seq_lens m) = Inr b"
    using add_to_last_total pos(1,2) by blast
  moreover obtain c where "add_to_last p counts = Inr c" using pos(3) by (simp add: add_to_last_def)
  ultimately show ?thesis
    using assms(1-3,5) True by (simp add: pad_micro_batch_def Let_def aligned_def pad_option_def flip: p_def)
qed

section \<open>Properties\<close>

text \<open>C21: packing loses and duplicates nothing: the samples are dealt out to the micro batches, each
  micro batch is the concatenation of its samples in order, stream by stream, and fits the sequence
  length.\<close>

theorem packing_keeps_samples:
  assumes "packed_samples_into_micro_bs samples L num_loras w bin_cost = Inr mbs"
    and "\<And>i s. (i, s) \<in> set samples \<Longrightarrow> tokens s \<le> L"
  shows "\<exists>parts. mset (concat parts) = mset samples \<and>
    list_all2 (\<lambda>part m. input_ids m = concat (map (input_ids \<circ> snd) part) \<and>
      loss_mask m = concat (map (loss_mask \<circ> snd) part) \<and> advantages m = concat (map (advantages \<circ> snd) part) \<and>
      position_ids m = concat (map (position_ids \<circ> snd) part) \<and>
      sequence_lengths m = map (tokens \<circ> snd) part \<and> tokens m \<le> L) parts mbs"
proof -
  obtain bins where bins: "list_all2 (\<lambda>b m. materialize_bin b num_loras = Inr m) bins mbs"
    "\<forall>b \<in> set bins. bin_ok L b" "all_samples bins = mset samples"
    by (rule packedD [OF assms(1)]) (use assms(2) in auto)
  have each: "input_ids m = concat (map (input_ids \<circ> snd) (bin_samples b)) \<and>
      loss_mask m = concat (map (loss_mask \<circ> snd) (bin_samples b)) \<and>
      advantages m = concat (map (advantages \<circ> snd) (bin_samples b)) \<and>
      position_ids m = concat (map (position_ids \<circ> snd) (bin_samples b)) \<and>
      sequence_lengths m = map (tokens \<circ> snd) (bin_samples b) \<and> tokens m \<le> L"
    if "materialize_bin b num_loras = Inr m" "b \<in> set bins" for b m
    using append_samples [OF materialize_binD(1) [OF that(1)]] materialize_binD(2) [OF that(1)] bins(2) that(2)
    by (auto simp: empty_batch_def tokens_sum bin_ok_def)
  have "mset (concat (map bin_samples bins)) = mset samples"
    using bins(3) by (simp add: all_samples_def mset_concat o_def flip: sum_mset_sum_list)
  moreover have "list_all2 (\<lambda>part m. input_ids m = concat (map (input_ids \<circ> snd) part) \<and>
      loss_mask m = concat (map (loss_mask \<circ> snd) part) \<and> advantages m = concat (map (advantages \<circ> snd) part) \<and>
      position_ids m = concat (map (position_ids \<circ> snd) part) \<and>
      sequence_lengths m = map (tokens \<circ> snd) part \<and> tokens m \<le> L) (map bin_samples bins) mbs"
    unfolding list_all2_map1 by (rule list.rel_mono_strong [OF bins(1)]) (use each in blast)
  ultimately show ?thesis by blast
qed

text \<open>C22: a prepared batch can be consumed in lock step: every rank gets the same number of micro
  batches, at each position all ranks have an image batch or all have a text batch, and every micro
  batch is aligned.\<close>

theorem prepared_batch_in_step:
  assumes "prepare_batch itemsize decode_grid rollouts seq_len w idxs num_loras bin_cost pad = Inr grid"
  shows "length grid = w \<and> (\<exists>images steps. \<forall>g \<in> set grid. length g = steps \<and>
      (\<forall>i < steps. is_multimodal_sample (g ! i) = (i < images))) \<and>
    (\<forall>g \<in> set grid. \<forall>b \<in> set g. aligned b)"
proof -
  obtain padded mm texts mm_grid text_grid where
    mm: "pad_group_for_distribution (filter is_multimodal_sample padded) w = Inr mm"
    and texts: "pad_group_for_distribution (filter (\<lambda>b. \<not> is_multimodal_sample b) padded) w = Inr texts"
    and al: "list_all token_arrays_aligned (mm @ texts)"
    and dist: "distribute_group mm w bin_cost = Inr mm_grid" "distribute_group texts w bin_cost = Inr text_grid"
    and grid: "grid = map2 (@) mm_grid text_grid"
    by (rule prepare_batchD [OF assms])
  note m = distribute_groupD [OF dist(1)] and t = distribute_groupD [OF dist(2)]
  have sets: "set (concat mm_grid) = set mm" "set (concat text_grid) = set texts"
    using m(3) t(3) by (metis set_mset_mset)+
  have parts: "\<exists>a b. g = a @ b \<and> length a = length mm div w \<and> length b = length texts div w \<and> set a \<subseteq> set mm \<and> set b \<subseteq> set texts"
    if "g \<in> set grid" for g
  proof -
    from that obtain a b where g: "g = a @ b" and ab: "a \<in> set mm_grid" "b \<in> set text_grid"
      unfolding grid by (auto dest: set_zip_leftD set_zip_rightD)
    have "set a \<subseteq> set mm" "set b \<subseteq> set texts" using ab sets by auto
    with g ab m(2) t(2) show ?thesis by blast
  qed
  have "is_multimodal_sample (g ! i) = (i < length mm div w)" if grd: "g \<in> set grid" and i: "i < length mm div w + length texts div w" for g i
  proof -
    obtain a b where g: "g = a @ b" "length a = length mm div w" "length b = length texts div w" "set a \<subseteq> set mm" "set b \<subseteq> set texts"
      using parts [OF grd] by blast
    show ?thesis
    proof (cases "i < length a")
      case True
      then have "g ! i \<in> set mm" using g by (auto simp: nth_append)
      with True g pad_group_modality(1) [OF mm] show ?thesis by auto
    next
      case False
      then have "g ! i \<in> set texts" using g i by (auto simp: nth_append)
      with False g pad_group_modality(2) [OF texts] show ?thesis by auto
    qed
  qed
  moreover have "length g = length mm div w + length texts div w" if "g \<in> set grid" for g
    using parts [OF that] by auto
  moreover have "aligned b" if "g \<in> set grid" "b \<in> set g" for g b
  proof -
    have "b \<in> set mm \<union> set texts" using parts [OF that(1)] that(2) by auto
    with al show ?thesis by (auto simp: list_all_iff aligned_iff)
  qed
  moreover have "length grid = w" using m(1) t(1) by (simp add: grid)
  ultimately show ?thesis by blast
qed



section \<open>Two short samples on two ranks\<close>

text \<open>\<open>build_bin_cost\<close>: the coefficients come from the model's configuration; without one they are
  \<open>(1, 0)\<close> and the cost is the number of tokens.\<close>

definition bin_cost_of :: "(int \<times> int) option \<Rightarrow> nat list \<Rightarrow> int" where
  "bin_cost_of coeffs seqlens =
     (case (case coeffs of None \<Rightarrow> (1, 0) | Some c \<Rightarrow> c) of
        (per_token, per_square) \<Rightarrow> per_token * int (sum_list seqlens) + per_square * int (sum_list (map (\<lambda>n. n * n) seqlens)))"

definition token_cost :: "nat list \<Rightarrow> int" where
  "token_cost = bin_cost_of None"

lemma bin_cost_append: "bin_cost_of c (ms @ ns) = bin_cost_of c ms + bin_cost_of c ns"
  by (auto simp: bin_cost_of_def algebra_simps split: option.split prod.split)

text \<open>A split breaks the adapter order of the samples of a bin, which the adapters' token counts assume.\<close>

definition sized_sample :: "nat \<Rightarrow> micro_batch" where
  "sized_sample n = (full_batch short_sample)\<lparr>input_ids := replicate n 0\<rparr>"

lemma split_breaks_adapter_order:
  "map fst (bin_samples (fst (split_by_workload token_cost
     (bin_of [(0, sized_sample 3), (0, sized_sample 2), (0, sized_sample 2), (1, sized_sample 4)])))) = [1, 0]"
  by code_simp

text \<open>One sample, packed alone and padded to four tokens.\<close>

definition short_batch :: "nat \<Rightarrow> micro_batch" where
  "short_batch padding =
     \<lparr>input_ids = [5, 6, 7] @ replicate padding 1, loss_mask = [False, True, True] @ replicate padding False,
      advantages = [0, 1, 1] @ replicate padding 0, inference_logprobs = [0, -1, -2] @ replicate padding 0,
      position_ids = [0, 1, 2] @ [0..<padding], sequence_lengths = [3 + padding],
      temperatures = [1, 1, 1] @ replicate padding 1,
      env_names = [''env'', ''env'', ''env''] @ replicate padding '''', seq_lens = [3 + padding], ref_logprobs = None,
      lora_num_tokens = Some [3 + padding], mb_routed_experts = None, mb_mm_kwargs = None, mm_token_type_ids = None,
      rl_weights = None, ce_weights = Some ([0, 1, 1] @ replicate padding 0), ref_kl_weights = None,
      run_id = None, run_step = None\<rparr>"

lemma two_packed:
  "packed_samples_into_micro_bs [(0, full_batch short_sample), (0, full_batch short_sample)] 4 1 2 token_cost =
     Inr [short_batch 0, short_batch 0]"
  by code_simp

lemma two_prepared:
  "prepare_batch one_byte two_grids [short_sample, short_sample] 4 2 [0, 0] 1 token_cost 2 =
     Inr [[short_batch 1], [short_batch 1]]"
  by code_simp

lemma short_fits: "tokens (full_batch short_sample) = 3"
  by (simp add: tokens_def full_batch_def short_sample_def)

lemma packing_keeps_samples_witness:
  "\<exists>parts. mset (concat parts) = mset [(0 :: nat, full_batch short_sample), (0, full_batch short_sample)] \<and> length parts = 2"
proof -
  have "\<exists>parts. mset (concat parts) = mset [(0 :: nat, full_batch short_sample), (0, full_batch short_sample)] \<and>
      list_all2 (\<lambda>part m. input_ids m = concat (map (input_ids \<circ> snd) part) \<and>
      loss_mask m = concat (map (loss_mask \<circ> snd) part) \<and> advantages m = concat (map (advantages \<circ> snd) part) \<and>
      position_ids m = concat (map (position_ids \<circ> snd) part) \<and>
      sequence_lengths m = map (tokens \<circ> snd) part \<and> tokens m \<le> 4) parts [short_batch 0, short_batch 0]"
  proof (rule packing_keeps_samples [OF two_packed])
    fix i s assume "(i, s) \<in> set [(0 :: nat, full_batch short_sample), (0, full_batch short_sample)]"
    then have "s = full_batch short_sample" by simp
    with short_fits show "tokens s \<le> 4" by simp
  qed
  then obtain parts where parts: "mset (concat parts) = mset [(0 :: nat, full_batch short_sample), (0, full_batch short_sample)]"
    "length parts = length [short_batch 0, short_batch 0]" by (elim exE conjE) (drule list_all2_lengthD, blast)
  then have "length parts = 2" by simp
  with parts(1) show ?thesis by blast
qed

lemma prepared_batch_in_step_witness: "length [[short_batch 1], [short_batch 1]] = 2 \<and> aligned (short_batch 1)"
  using prepared_batch_in_step [OF two_prepared] by simp



end
