(* ===== verification/Training_Queue.thy ===== *)
theory Training_Queue
  imports Scenario
begin

text \<open>
  The durable training queue (\<open>DurableTrainingQueue\<close> in \<open>coordinator/results.py\<close>): processed groups
  stored under their digest, training batches stored under their step, verification of a stored
  artifact against the database, and recovery after a crash. The spool of results and the queue
  keep the same promises to their clients: the interface \<open>content_store\<close> states them once.
  Symbolic links, permissions and I/O errors are not modelled.
\<close>

section \<open>Content stores\<close>

text \<open>What a client relies on: the published content is found under the returned path, what was
  found stays, and publishing once more changes nothing.\<close>

locale content_store =
  fixes publish :: "digest \<Rightarrow> 'data \<Rightarrow> 's \<Rightarrow> error + 'p \<times> 's"
    and look :: "'s \<Rightarrow> 'p \<Rightarrow> 'data option"
    and hash :: "'data \<Rightarrow> digest"
  assumes stored: "publish d x s = Inr (p, s') \<Longrightarrow> hash x = d \<Longrightarrow> \<exists>y. look s' p = Some y \<and> hash y = d"
    and kept: "publish d x s = Inr (p, s') \<Longrightarrow> look s q = Some y \<Longrightarrow> look s' q = Some y"
    and again: "publish d x s = Inr (p, s') \<Longrightarrow> hash x = d \<Longrightarrow> publish d x s' = Inr (p, s')"
begin

text \<open>A series of publications by any clients.\<close>

inductive published :: "'s \<Rightarrow> 's \<Rightarrow> bool" where
  none: "published s s"
| one: "published s s' \<Longrightarrow> publish d x s' = Inr (p, s'') \<Longrightarrow> published s s''"

lemma survives: "published s s' \<Longrightarrow> look s p = Some y \<Longrightarrow> look s' p = Some y"
  by (induction rule: published.induct) (auto dest: kept)

lemma durable:
  assumes "publish (hash x) x s = Inr (p, s')" "published s' s''"
  shows "\<exists>y. look s'' p = Some y \<and> hash y = hash x"
  using stored [OF assms(1) refl] survives [OF assms(2)] by blast

end

interpretation result_spool: content_store "\<lambda>d x sp. publish_result sha d x suffix sp"
    "\<lambda>sp p. case resolve_result p of Inl _ \<Rightarrow> None | Inr name \<Rightarrow> results sp name" sha for sha suffix
proof unfold_locales
  fix d x s p s'
  assume p: "publish_result sha d x suffix s = Inr (p, s')"
  note D = publish_InrD [OF p]
  have path: "resolve_result p = Inr (result_name d suffix)" using resolve_result_path [OF D(2,3)] by (simp add: D(1))
  show "sha x = d \<Longrightarrow> \<exists>y. (case resolve_result p of Inl _ \<Rightarrow> None | Inr name \<Rightarrow> results s' name) = Some y \<and> sha y = d"
    using p path by (auto simp: publish_result_def split: if_splits option.splits)
  show "(case resolve_result q of Inl _ \<Rightarrow> None | Inr name \<Rightarrow> results s name) = Some y \<Longrightarrow>
      (case resolve_result q of Inl _ \<Rightarrow> None | Inr name \<Rightarrow> results s' name) = Some y" for q y
    using D(5) by (auto split: sum.splits)
  show "sha x = d \<Longrightarrow> publish_result sha d x suffix s' = Inr (p, s')"
    using p by (auto simp: publish_result_def split: if_splits option.splits)
qed

section \<open>The queue\<close>

text \<open>Directories as lists of files; a batch has a directory of its own.\<close>

record training_queue =
  q_incoming :: "(string \<times> string) list"
  q_groups :: "(string \<times> string) list"
  q_batches :: "(string \<times> (string \<times> string) list) list"

definition empty_queue :: training_queue where
  "empty_queue = \<lparr>q_incoming = [], q_groups = [], q_batches = []\<rparr>"

datatype artifact = Group_File string | Batch_File string string

definition queue_root :: "repository \<Rightarrow> string" where
  "queue_root R = run_root R @ ''/training-queue/''"

fun artifact_path :: "repository \<Rightarrow> artifact \<Rightarrow> string" where
  "artifact_path R (Group_File name) = queue_root R @ ''groups/'' @ name"
| "artifact_path R (Batch_File dir name) = queue_root R @ ''batches/'' @ dir @ ''/'' @ name"

text \<open>\<open>path.resolve()\<close> below the queue's directory; a parent other than the two kinds is unsafe.\<close>

definition locate :: "repository \<Rightarrow> string \<Rightarrow> error + artifact" where
  "locate R path =
     (if take (length (queue_root R)) path \<noteq> queue_root R then Inl ArtifactCorruptionError
      else case resolve_components [] (split_path (drop (length (queue_root R)) path)) of
        Some [a, name] \<Rightarrow> if a = ''groups'' then Inr (Group_File name) else Inl ArtifactCorruptionError
      | Some [a, dir, name] \<Rightarrow> if a = ''batches'' then Inr (Batch_File dir name) else Inl ArtifactCorruptionError
      | _ \<Rightarrow> Inl ArtifactCorruptionError)"

definition queue_file :: "training_queue \<Rightarrow> artifact \<Rightarrow> string option" where
  "queue_file q a =
     (case a of
        Group_File name \<Rightarrow> map_of (q_groups q) name
      | Batch_File dir name \<Rightarrow> (case map_of (q_batches q) dir of None \<Rightarrow> None | Some files \<Rightarrow> map_of files name))"

definition verify_stored :: "repository \<Rightarrow> training_queue \<Rightarrow> artifact \<Rightarrow> digest \<Rightarrow> nat \<Rightarrow> error + string" where
  "verify_stored R q a d size_bytes =
     (case queue_file q a of
        None \<Rightarrow> Inl FileNotFoundError
      | Some data \<Rightarrow>
          if length data \<noteq> size_bytes then Inl ArtifactCorruptionError
          else if sha256 R data \<noteq> d then Inl ArtifactCorruptionError
          else Inr data)"

definition verify :: "repository \<Rightarrow> training_queue \<Rightarrow> string \<Rightarrow> digest \<Rightarrow> nat \<Rightarrow> error + string" where
  "verify R q path d size_bytes =
     and_then (locate R path) (\<lambda>a. verify_stored R q a d size_bytes)"

text \<open>\<open>os.link\<close> to a name that is free; the directory of a batch is created first.\<close>

definition link_file :: "artifact \<Rightarrow> string \<Rightarrow> training_queue \<Rightarrow> training_queue" where
  "link_file a data q =
     (case a of
        Group_File name \<Rightarrow> q\<lparr>q_groups := q_groups q @ [(name, data)]\<rparr>
      | Batch_File dir name \<Rightarrow>
          q\<lparr>q_batches := map (\<lambda>(d, files). if d = dir then (d, files @ [(name, data)]) else (d, files)) (q_batches q)\<rparr>)"

definition publish_artifact :: "repository \<Rightarrow> artifact \<Rightarrow> digest \<Rightarrow> string \<Rightarrow> training_queue \<Rightarrow> error + training_queue" where
  "publish_artifact R a d data q =
     (if sha256 R data \<noteq> d then Inl ValueError
      else case queue_file q a of
        None \<Rightarrow> Inr (link_file a data q)
      | Some _ \<Rightarrow> and_then (verify_stored R q a d (length data)) (\<lambda>_. Inr q))"

definition group_artifact :: "digest \<Rightarrow> artifact" where
  "group_artifact d = Group_File (digest_hex d @ ''.msgpack'')"

definition batch_dir :: "nat \<Rightarrow> string" where
  "batch_dir step = ''step_'' @ decimal step"

definition batch_artifact :: "nat \<Rightarrow> artifact" where
  "batch_artifact step = Batch_File (batch_dir step) ''train_rollouts.bin''"

definition publish_group :: "repository \<Rightarrow> digest \<Rightarrow> string \<Rightarrow> training_queue \<Rightarrow> error + string \<times> training_queue" where
  "publish_group R d data q =
     (if \<not> Digest d then Inl ValueError
      else and_then (publish_artifact R (group_artifact d) d data q) (\<lambda>q'. Inr (artifact_path R (group_artifact d), q')))"

definition create_directory :: "string \<Rightarrow> training_queue \<Rightarrow> training_queue" where
  "create_directory dir q =
     (case map_of (q_batches q) dir of None \<Rightarrow> q\<lparr>q_batches := q_batches q @ [(dir, [])]\<rparr> | Some _ \<Rightarrow> q)"

definition publish_batch :: "repository \<Rightarrow> nat \<Rightarrow> digest \<Rightarrow> string \<Rightarrow> training_queue \<Rightarrow> error + string \<times> training_queue" where
  "publish_batch R step d data q =
     (if step < 1 then Inl ValueError
      else if \<not> Digest d then Inl ValueError
      else and_then (publish_artifact R (batch_artifact step) d data (create_directory (batch_dir step) q)) (\<lambda>q'.
        Inr (artifact_path R (batch_artifact step), q')))"

section \<open>Recovery\<close>

text \<open>The artifacts that the database refers to, each verified.\<close>

definition check_reference :: "repository \<Rightarrow> training_queue \<Rightarrow> string \<times> digest \<times> nat
    \<Rightarrow> artifact list \<Rightarrow> error + artifact list" where
  "check_reference R q ref done =
     (case ref of (path, d, size_bytes) \<Rightarrow>
        and_then (locate R path) (\<lambda>a.
        and_then (verify_stored R q a d size_bytes) (\<lambda>_. Inr (a # done))))"

definition references :: "repository \<Rightarrow> db \<Rightarrow> (string \<times> digest \<times> nat) list" where
  "references R d =
     map (\<lambda>g. (gr_artifact_path g, gr_artifact_digest g, gr_size_bytes g)) (processed_group_records R d) @
     (case training_batch_records R 0 d of
        Inl _ \<Rightarrow> []
      | Inr records \<Rightarrow> map (\<lambda>b. (tb_artifact_path b, tb_artifact_digest b, tb_size_bytes b)) records)"

text \<open>Incoming files go first; then all references are checked; then unreferenced files go, and the
  directories of batches that are empty.\<close>

definition recover_queue :: "repository \<Rightarrow> db \<Rightarrow> training_queue \<Rightarrow> (error + unit) \<times> training_queue" where
  "recover_queue R d q =
     (case fold_step (check_reference R q) (references R d) [] of
        Inl e \<Rightarrow> (Inl e, q\<lparr>q_incoming := []\<rparr>)
      | Inr referenced \<Rightarrow>
          (Inr (), \<lparr>q_incoming = [],
             q_groups = filter (\<lambda>(name, _). Group_File name \<in> set referenced) (q_groups q),
             q_batches = filter (\<lambda>(_, files). files \<noteq> [])
               (map (\<lambda>(dir, files). (dir, filter (\<lambda>(name, _). Batch_File dir name \<in> set referenced) files)) (q_batches q))\<rparr>))"

section \<open>Paths and files\<close>

definition file_name :: "string \<Rightarrow> bool" where
  "file_name n \<longleftrightarrow> CHR ''/'' \<notin> set n \<and> n \<noteq> [] \<and> n \<noteq> ''.'' \<and> n \<noteq> ''..''"

fun artifact_ok :: "artifact \<Rightarrow> bool" where
  "artifact_ok (Group_File name) = file_name name"
| "artifact_ok (Batch_File dir name) = (file_name dir \<and> file_name name)"

lemma locate_artifact_path:
  assumes "artifact_ok a"
  shows "locate R (artifact_path R a) = Inr a"
proof (cases a)
  case (Group_File name)
  with assms have n: "CHR ''/'' \<notin> set name" "name \<noteq> []" "name \<noteq> ''.''" "name \<noteq> ''..''" by (simp_all add: file_name_def)
  have "split_path (''groups/'' @ name) = [''groups'', name]"
    using split_path_append [of "''groups''" name] split_path_word [OF n(1)] by simp
  with Group_File n show ?thesis by (simp add: locate_def)
next
  case (Batch_File dir name)
  with assms have d: "CHR ''/'' \<notin> set dir" "dir \<noteq> []" "dir \<noteq> ''.''" "dir \<noteq> ''..''"
    and n: "CHR ''/'' \<notin> set name" "name \<noteq> []" "name \<noteq> ''.''" "name \<noteq> ''..''" by (simp_all add: file_name_def)
  have "split_path (''batches/'' @ dir @ ''/'' @ name) = [''batches'', dir, name]"
    using split_path_append [of "''batches''" "dir @ ''/'' @ name"] split_path_append [OF d(1), of name] split_path_word [OF n(1)] by simp
  with Batch_File d n show ?thesis by (simp add: locate_def)
qed

lemma group_artifact_ok: "Digest d \<Longrightarrow> artifact_ok (group_artifact d)"
proof -
  assume "Digest d"
  then have h: "list_all is_hex (digest_hex d)" "length (digest_hex d) = 64" by (simp_all add: Digest_def)
  then obtain c cs where c: "digest_hex d = c # cs" by (cases "digest_hex d") auto
  have "c \<noteq> CHR ''.''" using is_hex_not_dot [OF h(1)] c by auto
  then show ?thesis using is_hex_not_slash [OF h(1)] c by (auto simp: group_artifact_def file_name_def)
qed

lemma batch_artifact_ok: "artifact_ok (batch_artifact step)"
  using decimal_digits [of step]
  by (auto simp: batch_artifact_def batch_dir_def file_name_def list_all_iff is_digit_def less_eq_char_def)

definition queue_ok :: "training_queue \<Rightarrow> bool" where
  "queue_ok q \<longleftrightarrow> distinct (map fst (q_batches q))"

lemma queue_ok_empty: "queue_ok empty_queue"
  by (simp add: queue_ok_def empty_queue_def)

lemma map_of_update_dir:
  "map_of (map (\<lambda>(d, files). if d = dir then (d, f files) else (d, files)) xs) x =
     (if x = dir then map_option f (map_of xs x) else map_of xs x)"
  by (induction xs) auto

definition has_parent :: "training_queue \<Rightarrow> artifact \<Rightarrow> bool" where
  "has_parent q a = (case a of Group_File _ \<Rightarrow> True | Batch_File dir _ \<Rightarrow> map_of (q_batches q) dir \<noteq> None)"

lemma queue_file_link:
  assumes "queue_file q a = None" "has_parent q a"
  shows "queue_file (link_file a data q) x = (if x = a then Some data else queue_file q x)"
  using assms
  by (cases a; cases x) (auto simp: queue_file_def link_file_def map_add_def map_of_update_dir has_parent_def split: option.splits)

lemma queue_file_create [simp]: "queue_file (create_directory dir q) a = queue_file q a"
  by (auto simp: create_directory_def queue_file_def map_add_def split: artifact.split option.split)

lemma directory_created: "map_of (q_batches (create_directory dir q)) dir \<noteq> None"
  by (auto simp: create_directory_def map_add_def split: option.split)

lemma create_directory_again: "map_of (q_batches q) dir \<noteq> None \<Longrightarrow> create_directory dir q = q"
  by (auto simp: create_directory_def)

lemma publish_artifactD:
  assumes "publish_artifact R a d data q = Inr q'" "has_parent q a"
  shows "\<exists>y. queue_file q' a = Some y \<and> sha256 R y = d \<and> length y = length data"
    and "queue_file q x = Some y \<Longrightarrow> queue_file q' x = Some y"
    and "publish_artifact R a d data q' = Inr q'"
    and "queue_ok q \<Longrightarrow> queue_ok q'"
    and "has_parent q' a"
proof -
  consider (new) "queue_file q a = None" "q' = link_file a data q" "sha256 R data = d"
    | (old) z where "queue_file q a = Some z" "q' = q" "sha256 R z = d" "length z = length data" "sha256 R data = d"
    using assms(1) by (auto simp: publish_artifact_def verify_stored_def and_then_eq_Inr split: if_splits option.splits)
  then have "(\<exists>y. queue_file q' a = Some y \<and> sha256 R y = d \<and> length y = length data) \<and>
    (queue_file q x = Some y \<longrightarrow> queue_file q' x = Some y) \<and> publish_artifact R a d data q' = Inr q' \<and>
    (queue_ok q \<longrightarrow> queue_ok q') \<and> has_parent q' a"
  proof cases
    case new
    note l = queue_file_link [where data = data, OF new(1) assms(2)]
    have "queue_ok q \<longrightarrow> queue_ok q'"
      by (cases a) (auto simp: new(2) link_file_def queue_ok_def comp_def case_prod_beta if_distrib cong: if_cong)
    moreover have "has_parent q' a"
      using assms(2) by (cases a) (auto simp: new(2) link_file_def map_of_update_dir has_parent_def)
    ultimately show ?thesis
      using l new by (auto simp: publish_artifact_def verify_stored_def)
  next
    case old
    with assms(2) show ?thesis by (auto simp: publish_artifact_def verify_stored_def)
  qed
  then show "\<exists>y. queue_file q' a = Some y \<and> sha256 R y = d \<and> length y = length data"
    "queue_file q x = Some y \<Longrightarrow> queue_file q' x = Some y" "publish_artifact R a d data q' = Inr q'"
    "queue_ok q \<Longrightarrow> queue_ok q'" "has_parent q' a" by blast+
qed

definition stored_file :: "repository \<Rightarrow> training_queue \<Rightarrow> string \<Rightarrow> string option" where
  "stored_file R q path = (case locate R path of Inl _ \<Rightarrow> None | Inr a \<Rightarrow> queue_file q a)"

interpretation group_queue: content_store "publish_group R" "stored_file R" "sha256 R" for R
proof unfold_locales
  fix d x s p s'
  assume p: "publish_group R d x s = Inr (p, s')"
  then have d: "Digest d" and path: "p = artifact_path R (group_artifact d)"
    and a: "publish_artifact R (group_artifact d) d x s = Inr s'"
    by (auto simp: publish_group_def and_then_eq_Inr split: if_splits)
  have dir: "has_parent s (group_artifact d)" by (simp add: group_artifact_def has_parent_def)
  note D = publish_artifactD [OF a dir]
  have loc: "stored_file R s' p = queue_file s' (group_artifact d)"
    using locate_artifact_path [OF group_artifact_ok [OF d]] by (simp add: stored_file_def path)
  show "sha256 R x = d \<Longrightarrow> \<exists>y. stored_file R s' p = Some y \<and> sha256 R y = d"
    using D(1) loc by (auto simp: group_artifact_def)
  show "stored_file R s q = Some y \<Longrightarrow> stored_file R s' q = Some y" for q y
    using D(2) by (auto simp: stored_file_def group_artifact_def split: sum.splits)
  show "sha256 R x = d \<Longrightarrow> publish_group R d x s' = Inr (p, s')"
    using D(3) d path by (auto simp: publish_group_def group_artifact_def)
qed

interpretation batch_queue: content_store "publish_batch R step" "stored_file R" "sha256 R" for R step
proof unfold_locales
  fix d x s p s'
  assume p: "publish_batch R step d x s = Inr (p, s')"
  let ?s = "create_directory (batch_dir step) s"
  have d: "Digest d" "\<not> step < 1" and path: "p = artifact_path R (batch_artifact step)"
    and a: "publish_artifact R (batch_artifact step) d x ?s = Inr s'"
    using p by (auto simp: publish_batch_def and_then_eq_Inr split: if_splits)
  have dir: "has_parent ?s (batch_artifact step)" using directory_created by (simp add: batch_artifact_def has_parent_def)
  note D = publish_artifactD [OF a dir]
  have loc: "stored_file R s' p = queue_file s' (batch_artifact step)"
    using locate_artifact_path [OF batch_artifact_ok] by (simp add: stored_file_def path)
  show "sha256 R x = d \<Longrightarrow> \<exists>y. stored_file R s' p = Some y \<and> sha256 R y = d"
    using D(1) loc by auto
  show "stored_file R s q = Some y \<Longrightarrow> stored_file R s' q = Some y" for q y
    using D(2) by (auto simp: stored_file_def split: sum.splits)
  have "create_directory (batch_dir step) s' = s'"
    using D(5) by (simp add: batch_artifact_def has_parent_def create_directory_again)
  then show "sha256 R x = d \<Longrightarrow> publish_batch R step d x s' = Inr (p, s')"
    using D(3) d path by (auto simp: publish_batch_def)
qed

section \<open>What recovery keeps\<close>

definition referenced :: "repository \<Rightarrow> db \<Rightarrow> artifact \<Rightarrow> bool" where
  "referenced R d a \<longleftrightarrow> list_ex (\<lambda>(path, _, _). locate R path = Inr a) (references R d)"

definition intact :: "repository \<Rightarrow> db \<Rightarrow> training_queue \<Rightarrow> bool" where
  "intact R d q \<longleftrightarrow> list_all (\<lambda>(path, digest, size_bytes). \<exists>data. verify R q path digest size_bytes = Inr data) (references R d)"

lemma check_referencesD:
  assumes "fold_step (check_reference R q) refs xs = Inr ys"
  shows "list_all (\<lambda>(path, digest, size_bytes). \<exists>data. verify R q path digest size_bytes = Inr data) refs \<and>
    (\<forall>a. a \<in> set ys \<longleftrightarrow> a \<in> set xs \<or> list_ex (\<lambda>(path, _, _). locate R path = Inr a) refs)"
  using assms
  by (induction refs arbitrary: xs) (auto simp: check_reference_def verify_def and_then_eq_Inr)

lemma check_references_total:
  assumes "list_all (\<lambda>(path, digest, size_bytes). \<exists>data. verify R q path digest size_bytes = Inr data) refs"
  shows "\<exists>ys. fold_step (check_reference R q) refs xs = Inr ys"
  using assms
  by (induction refs arbitrary: xs) (auto simp: check_reference_def verify_def and_then_eq_Inr)

lemma map_of_filter_names: "map_of (filter (\<lambda>(n, _). P n) xs) x = (if P x then map_of xs x else None)"
  by (induction xs) auto

lemma map_of_prune_dirs:
  assumes "distinct (map fst xs)"
  shows "map_of (filter (\<lambda>(_, files). files \<noteq> []) (map (\<lambda>(dir, files). (dir, f dir files)) xs)) x =
    (case map_of xs x of None \<Rightarrow> None | Some files \<Rightarrow> if f x files = [] then None else Some (f x files))"
  using assms
proof (induction xs)
  case (Cons y ys)
  then show ?case by (cases y) (force split: option.split simp: map_of_eq_None_iff dest: map_of_SomeD)
qed simp

lemma distinct_pruned: "distinct (map fst xs) \<Longrightarrow> distinct (map fst (filter P (map (\<lambda>(dir, files). (dir, f dir files)) xs)))"
  by (rule distinct_map_filter) (simp add: comp_def case_prod_beta)

lemma recovered_file:
  assumes "queue_ok q" "recover_queue R d q = (Inr (), q')"
  shows "queue_file q' a = (if referenced R d a then queue_file q a else None)" "intact R d q" "q_incoming q' = []" "queue_ok q'"
proof -
  from assms(2) obtain ys where ys: "fold_step (check_reference R q) (references R d) [] = Inr ys"
    by (auto simp: recover_queue_def split: sum.splits)
  then have mem: "b \<in> set ys \<longleftrightarrow> referenced R d b" for b
    using check_referencesD [OF ys] by (simp add: referenced_def)
  have q': "q' = \<lparr>q_incoming = [],
       q_groups = filter (\<lambda>(name, _). referenced R d (Group_File name)) (q_groups q),
       q_batches = filter (\<lambda>(_, files). files \<noteq> [])
         (map (\<lambda>(dir, files). (dir, filter (\<lambda>(name, _). referenced R d (Batch_File dir name)) files)) (q_batches q))\<rparr>"
    using assms(2) ys by (simp add: recover_queue_def mem)
  show "intact R d q" using check_referencesD [OF ys] by (simp add: intact_def)
  show "q_incoming q' = []" by (simp add: q')
  show "queue_ok q'"
    using assms(1) distinct_pruned [where f = "\<lambda>dir. filter (\<lambda>(n, _). referenced R d (Batch_File dir n))"]
    by (simp add: q' queue_ok_def)
  show "queue_file q' a = (if referenced R d a then queue_file q a else None)"
  proof (cases a)
    case (Group_File name)
    then show ?thesis by (simp add: queue_file_def q' map_of_filter_names)
  next
    case (Batch_File dir name)
    have dir: "map_of (q_batches q') dir = (case map_of (q_batches q) dir of None \<Rightarrow> None
        | Some files \<Rightarrow> if filter (\<lambda>(n, _). referenced R d (Batch_File dir n)) files = [] then None
            else Some (filter (\<lambda>(n, _). referenced R d (Batch_File dir n)) files))"
      using map_of_prune_dirs [OF assms(1) [unfolded queue_ok_def],
          where f = "\<lambda>dir. filter (\<lambda>(n, _). referenced R d (Batch_File dir n))" and x = dir]
      by (simp add: q')
    then show ?thesis
    proof (cases "map_of (q_batches q) dir")
      case None
      with dir show ?thesis by (simp add: queue_file_def Batch_File)
    next
      case (Some files)
      have "map_of (filter (\<lambda>(n, _). referenced R d (Batch_File dir n)) files) name =
          (if referenced R d (Batch_File dir name) then map_of files name else None)"
        by (rule map_of_filter_names)
      with Some dir show ?thesis
        by (cases "filter (\<lambda>(n, _). referenced R d (Batch_File dir n)) files = []") (auto simp: queue_file_def Batch_File split: if_splits)
    qed
  qed
qed

lemma recovered_verify:
  assumes "queue_ok q" "recover_queue R d q = (Inr (), q')" "(path, digest, n) \<in> set (references R d)"
  shows "verify R q' path digest n = verify R q path digest n"
proof (cases "locate R path")
  case (Inr a)
  then have "referenced R d a" using assms(3) by (auto simp: referenced_def list_ex_iff)
  then show ?thesis using recovered_file(1) [OF assms(1,2)] Inr by (simp add: verify_def verify_stored_def)
qed (simp add: verify_def)

lemma recovered_intact:
  assumes "queue_ok q" "recover_queue R d q = (Inr (), q')"
  shows "intact R d q'"
  using recovered_file(2) [OF assms] recovered_verify [OF assms] by (fastforce simp: intact_def list_all_iff)

lemma recover_fails_iff: "(\<exists>e. fst (recover_queue R d q) = Inl e) \<longleftrightarrow> \<not> intact R d q"
  using check_referencesD [of R q "references R d" "[]"] check_references_total [of R q "references R d" "[]"]
  by (cases "fold_step (check_reference R q) (references R d) []") (auto simp: recover_queue_def intact_def)


section \<open>Witness\<close>

definition d_queued :: db where
  "d_queued = d_init
     \<lparr>processed_groups := [\<lparr>pg_group_id = ''g0'', pg_input_digest = hex_digest (CHR ''1''),
        pg_artifact_digest = hex_digest (CHR ''9''), pg_artifact_path = ''training-queue/groups/g'', pg_size_bytes = 3,
        pg_rollout_count = 1, pg_processed_at = 201\<rparr>]\<rparr>"

definition crashed_queue :: training_queue where
  "crashed_queue = \<lparr>q_incoming = [(''t'', ''ab'')], q_groups = [(''g'', ''abc''), (''h'', ''x'')], q_batches = [(''step_1'', [])]\<rparr>"


end
