(* ===== verification/Batch_Emission.thy ===== *)
theory Batch_Emission
  imports Training_Queue Training_Data
begin

text \<open>
  From processed groups to training batches (\<open>ResultProcessor\<close> in \<open>coordinator/results.py\<close>, the
  part from \<open>_emit_ready_batches\<close> on): dropping stale rollouts, choosing rollouts of one policy,
  publishing and recording the batch. The clock is a function of the database; the calls of one
  iteration run without another writer in between, which the coordinator guarantees by its single
  process. The msgpack codec is the record \<open>codec\<close>.
\<close>

section \<open>Payloads\<close>

record processed_rollout =
  pl_samples :: "training_sample list"
  pl_token_count :: nat

record processed_group =
  py_group_id :: id
  py_source_id :: id
  py_kind :: rollout_kind
  py_policy_id :: id
  py_policy_version :: nat
  py_input_digest :: digest
  py_rollouts :: "processed_rollout list"
  py_evaluation_records :: "json list"
  py_policy_digest :: "digest option"
  py_adapter_digest :: "digest option"

record codec =
  encode_group :: "processed_group \<Rightarrow> string"
  decode_group :: "string \<Rightarrow> error + processed_group"
  encode_batch :: "training_batch \<Rightarrow> string"
  decode_batch :: "string \<Rightarrow> error + training_batch"

record processor_metrics =
  stale_processed_rollouts_dropped :: nat
  mixed_policy_batch_attempts :: nat
  processed_train_groups :: nat
  informative_train_groups :: nat
  policy_lag_total :: nat
  policy_lag_max :: nat

definition new_metrics :: processor_metrics where
  "new_metrics = \<lparr>stale_processed_rollouts_dropped = 0, mixed_policy_batch_attempts = 0, processed_train_groups = 0,
     informative_train_groups = 0, policy_lag_total = 0, policy_lag_max = 0\<rparr>"

definition snapshot :: "processor_metrics \<Rightarrow> (string \<times> rat) list" where
  "snapshot m =
     (let groups = max (processed_train_groups m) 1 in
      [(''inference/agg/stale_drops'', of_nat (stale_processed_rollouts_dropped m)),
       (''inference/agg/mixed_policy_batch_attempts'', of_nat (mixed_policy_batch_attempts m)),
       (''inference/agg/policy_lag'', of_nat (policy_lag_total m) / of_nat groups),
       (''inference/agg/policy_lag_max'', of_nat (policy_lag_max m)),
       (''inference/agg/informative_group_fraction'', of_nat (informative_train_groups m) / of_nat groups)])"

record processor_state =
  st_db :: db
  st_queue :: training_queue
  st_metrics :: processor_metrics

record batch_size_config =
  batch_size :: "nat option"
  token_batch_size :: "nat option"

text \<open>The checks of the constructor; the queue is recovered first.\<close>

definition check_batch_size :: "batch_size_config \<Rightarrow> error + unit" where
  "check_batch_size c =
     guard ((batch_size c = None) \<noteq> (token_batch_size c = None) \<and> batch_size c \<noteq> Some 0 \<and> token_batch_size c \<noteq> Some 0) ValueError"

section \<open>Loading\<close>

definition policy_lag_window :: "repository \<Rightarrow> db \<Rightarrow> error + nat \<times> nat option" where
  "policy_lag_window R d =
     and_then (active_policy R d) (\<lambda>active.
     and_then (max_policy_lag_of d) (\<lambda>lag. Inr (pm_policy_version active, lag)))"

definition load_payload :: "repository \<Rightarrow> codec \<Rightarrow> training_queue \<Rightarrow> pending_rollout
    \<Rightarrow> (string \<times> processed_group) list \<Rightarrow> error + (string \<times> processed_group) list" where
  "load_payload R C q p payloads =
     (if map_of payloads (pp_artifact_path p) \<noteq> None then Inr payloads
      else and_then (verify R q (pp_artifact_path p) (pp_artifact_digest p) (pp_size_bytes p)) (\<lambda>artifact.
           and_then (decode_group C artifact) (\<lambda>g. Inr (payloads @ [(pp_artifact_path p, g)]))))"

definition load_pending_payloads :: "repository \<Rightarrow> codec \<Rightarrow> training_queue \<Rightarrow> pending_rollout list
    \<Rightarrow> error + (string \<times> processed_group) list" where
  "load_pending_payloads R C q pending = fold_step (load_payload R C q) pending []"

text \<open>\<open>payloads[rollout.artifact_path]\<close> for every pending rollout.\<close>

definition with_payload :: "(string \<times> processed_group) list \<Rightarrow> pending_rollout \<Rightarrow> error + pending_rollout \<times> processed_group" where
  "with_payload payloads p =
     (case map_of payloads (pp_artifact_path p) of None \<Rightarrow> Inl KeyError | Some g \<Rightarrow> Inr (p, g))"

definition is_stale :: "nat \<Rightarrow> nat option \<Rightarrow> processed_group \<Rightarrow> bool" where
  "is_stale active max_policy_lag g =
     (case max_policy_lag of None \<Rightarrow> False | Some lag \<Rightarrow> int active - int (py_policy_version g) > int lag)"

definition member_of :: "pending_rollout \<Rightarrow> id \<times> nat" where
  "member_of p = (pp_group_id p, pp_ordinal p)"

section \<open>Selection\<close>

type_synonym pending_pair = "pending_rollout \<times> processed_group"
type_synonym policy_key = "nat \<times> string"

definition payload_policy_identity :: "processed_group \<Rightarrow> policy_key" where
  "payload_policy_identity g =
     (py_policy_version g,
      case py_adapter_digest g of Some a \<Rightarrow> digest_text a
      | None \<Rightarrow> (case py_policy_digest g of Some p \<Rightarrow> digest_text p | None \<Rightarrow> py_policy_id g))"

definition key_of :: "pending_pair \<Rightarrow> policy_key" where
  "key_of x = payload_policy_identity (snd x)"

definition full :: "batch_size_config \<Rightarrow> nat \<Rightarrow> nat \<Rightarrow> bool" where
  "full c n tokens \<longleftrightarrow>
     (case batch_size c of Some b \<Rightarrow> b \<le> n | None \<Rightarrow> False) \<or>
     (case token_batch_size c of Some b \<Rightarrow> b \<le> tokens | None \<Rightarrow> False)"

text \<open>The first loop: does the shortest full prefix mix policies?\<close>

fun mixed_prefix :: "batch_size_config \<Rightarrow> policy_key list \<Rightarrow> nat \<Rightarrow> nat \<Rightarrow> pending_pair list \<Rightarrow> bool" where
  "mixed_prefix c seen n tokens [] = False"
| "mixed_prefix c seen n tokens (x # xs) =
     (let seen' = List.insert (key_of x) seen; tokens' = tokens + pp_token_count (fst x) in
      if full c (n + 1) tokens' then length seen' > 1 else mixed_prefix c seen' (n + 1) tokens' xs)"

text \<open>The three dictionaries share their keys: first index, rollouts and tokens of each identity.\<close>

record partition_entry =
  pe_first_index :: nat
  pe_rollouts :: "pending_pair list"
  pe_tokens :: nat

fun note_rollout :: "policy_key \<Rightarrow> nat \<Rightarrow> pending_pair \<Rightarrow> (policy_key \<times> partition_entry) list
    \<Rightarrow> (policy_key \<times> partition_entry) list" where
  "note_rollout k index x [] =
     [(k, \<lparr>pe_first_index = index, pe_rollouts = [x], pe_tokens = pp_token_count (fst x)\<rparr>)]"
| "note_rollout k index x ((k', e) # parts) =
     (if k' = k then (k', e\<lparr>pe_rollouts := pe_rollouts e @ [x], pe_tokens := pe_tokens e + pp_token_count (fst x)\<rparr>) # parts
      else (k', e) # note_rollout k index x parts)"

definition partitions :: "pending_pair list \<Rightarrow> (policy_key \<times> partition_entry) list" where
  "partitions ps = fold (\<lambda>(i, x). note_rollout (key_of x) i x) (enumerate 0 ps) []"

definition entry_ready :: "batch_size_config \<Rightarrow> partition_entry \<Rightarrow> bool" where
  "entry_ready c e =
     (case batch_size c of
        Some n \<Rightarrow> n \<le> length (pe_rollouts e)
      | None \<Rightarrow> (case token_batch_size c of None \<Rightarrow> 0 | Some n \<Rightarrow> n) \<le> pe_tokens e)"

fun take_batch :: "batch_size_config \<Rightarrow> nat \<Rightarrow> nat \<Rightarrow> pending_pair list \<Rightarrow> pending_pair list" where
  "take_batch c n tokens [] = []"
| "take_batch c n tokens (x # xs) =
     (let tokens' = tokens + pp_token_count (fst x) in
      x # (if full c (n + 1) tokens' then [] else take_batch c (n + 1) tokens' xs))"

definition select_policy_homogeneous_batch :: "batch_size_config \<Rightarrow> pending_pair list \<Rightarrow> pending_pair list" where
  "select_policy_homogeneous_batch c ps =
     (let ready = filter (\<lambda>(_, e). entry_ready c e) (partitions ps) in
      if ready = [] then []
      else take_batch c 0 0 (pe_rollouts (snd (arg_min_list (\<lambda>(_, e). pe_first_index e) ready))))"

section \<open>Emission\<close>

datatype round = Drained | Dropped | Emitted

definition discard_members :: "(id \<times> nat) list \<Rightarrow> (processor_metrics \<Rightarrow> processor_metrics) \<Rightarrow> processor_state
    \<Rightarrow> (error + round) \<times> processor_state" where
  "discard_members members note_drop st =
     (case discard_processed_rollouts members (st_db st) of
        (Inl e, d) \<Rightarrow> (Inl e, st\<lparr>st_db := d\<rparr>)
      | (Inr _, d) \<Rightarrow> (Inr Dropped, st\<lparr>st_db := d, st_metrics := note_drop (st_metrics st)\<rparr>))"

definition rollout_samples :: "pending_pair \<Rightarrow> error + training_sample list" where
  "rollout_samples x =
     (if pp_ordinal (fst x) < length (py_rollouts (snd x))
      then Inr (pl_samples (py_rollouts (snd x) ! pp_ordinal (fst x))) else Inl IndexError)"

text \<open>\<open>len(set(...)) == 1\<close> as: there is an element, and all are equal to it.\<close>

definition all_same :: "'a list \<Rightarrow> bool" where
  "all_same xs = (case xs of [] \<Rightarrow> False | x # ys \<Rightarrow> list_all (\<lambda>y. y = x) ys)"

definition single_payload_policy :: "pending_pair list \<Rightarrow> error + unit" where
  "single_payload_policy selected =
     guard (all_same (map (\<lambda>x. py_policy_version (snd x)) selected) \<and> all_same (map (\<lambda>x. snd (key_of x)) selected)) AssertionError"

definition single_policy :: "training_sample list \<Rightarrow> error + unit" where
  "single_policy samples =
     guard (all_same (map ts_behavior_policy_version samples) \<and> all_same (map ts_behavior_policy_digest samples) \<and>
       None \<notin> set (map ts_behavior_policy_version samples) \<and> None \<notin> set (map ts_behavior_policy_digest samples)) AssertionError"

definition record_batch :: "repository \<Rightarrow> codec \<Rightarrow> (db \<Rightarrow> time) \<Rightarrow> training_sample list \<Rightarrow> (id \<times> nat) list \<Rightarrow> processor_state
    \<Rightarrow> (error + round) \<times> processor_state" where
  "record_batch R C clock samples members st =
     (let step = next_training_batch_step (st_db st);
          bytes = encode_batch C \<lparr>batch_examples = samples, batch_step = step, batch_run_idx = None\<rparr>;
          dig = sha256 R bytes in
      case publish_batch R step dig bytes (st_queue st) of
        Inl e \<Rightarrow> (Inl e, st)
      | Inr (path, q) \<Rightarrow>
          (case record_training_batch R step dig path (length bytes) (length samples) members (clock (st_db st)) (st_db st) of
             (Inl e, d) \<Rightarrow> (Inl e, st\<lparr>st_queue := q, st_db := d\<rparr>)
           | (Inr _, d) \<Rightarrow> (Inr Emitted, st\<lparr>st_queue := q, st_db := d\<rparr>)))"

definition emit_selected :: "repository \<Rightarrow> codec \<Rightarrow> (db \<Rightarrow> time) \<Rightarrow> pending_pair list \<Rightarrow> processor_state
    \<Rightarrow> (error + round) \<times> processor_state" where
  "emit_selected R C clock selected st =
     (case each rollout_samples selected of
        Inl e \<Rightarrow> (Inl e, st)
      | Inr samples \<Rightarrow>
          let members = map (\<lambda>x. member_of (fst x)) selected in
          if concat samples = [] then discard_members members (\<lambda>m. m) st
          else case and_then (single_payload_policy selected) (\<lambda>_. single_policy (concat samples)) of
            Inl e \<Rightarrow> (Inl e, st)
          | Inr _ \<Rightarrow> record_batch R C clock (concat samples) members st)"

definition loaded_pending :: "repository \<Rightarrow> codec \<Rightarrow> processor_state \<Rightarrow> error + pending_pair list" where
  "loaded_pending R C st =
     (let pending = pending_processed_rollouts R (st_db st) in
      and_then (load_pending_payloads R C (st_queue st) pending) (\<lambda>payloads. each (with_payload payloads) pending))"

definition drop_or_emit :: "repository \<Rightarrow> codec \<Rightarrow> (db \<Rightarrow> time) \<Rightarrow> batch_size_config \<Rightarrow> nat \<Rightarrow> nat option \<Rightarrow> pending_pair list
    \<Rightarrow> processor_state \<Rightarrow> (error + round) \<times> processor_state" where
  "drop_or_emit R C clock c active max_policy_lag ps st =
     (let stale = map (\<lambda>x. member_of (fst x)) (filter (\<lambda>x. is_stale active max_policy_lag (snd x)) ps) in
      if stale \<noteq> [] then
        discard_members stale
          (\<lambda>m. m\<lparr>stale_processed_rollouts_dropped := stale_processed_rollouts_dropped m + length stale\<rparr>) st
      else
        let st1 = (if mixed_prefix c [] 0 0 ps
              then st\<lparr>st_metrics := (st_metrics st)\<lparr>mixed_policy_batch_attempts := mixed_policy_batch_attempts (st_metrics st) + 1\<rparr>\<rparr>
              else st);
            selected = select_policy_homogeneous_batch c ps in
        if selected = [] then (Inr Drained, st1) else emit_selected R C clock selected st1)"

text \<open>One round of the loop.\<close>

definition emit_once :: "repository \<Rightarrow> codec \<Rightarrow> (db \<Rightarrow> time) \<Rightarrow> batch_size_config \<Rightarrow> processor_state
    \<Rightarrow> (error + round) \<times> processor_state" where
  "emit_once R C clock c st =
     (if pending_processed_rollouts R (st_db st) = [] then (Inr Drained, st)
      else case and_then (policy_lag_window R (st_db st)) (\<lambda>w. and_then (loaded_pending R C st) (\<lambda>ps. Inr (w, ps))) of
        Inl e \<Rightarrow> (Inl e, st)
      | Inr ((active, max_policy_lag), ps) \<Rightarrow> drop_or_emit R C clock c active max_policy_lag ps st)"

text \<open>\<open>decode_training_batch\<close>: what the trainer reads of a recorded batch.\<close>

definition decode_training_batch :: "repository \<Rightarrow> codec \<Rightarrow> training_queue \<Rightarrow> training_batch_record \<Rightarrow> error + training_batch" where
  "decode_training_batch R C q r =
     (case stored_file R q (tb_artifact_path r) of
        None \<Rightarrow> Inl FileNotFoundError
      | Some data \<Rightarrow>
          if length data \<noteq> tb_size_bytes r \<or> sha256 R data \<noteq> tb_artifact_digest r then Inl ArtifactCorruptionError
          else decode_batch C data)"

definition waiting :: "processor_state \<Rightarrow> nat" where
  "waiting st = count_where available (processed_rollouts (st_db st))"

section \<open>The loop ends\<close>

lemma count_where_update:
  assumes "\<And>r. P r \<Longrightarrow> Q r" "\<And>r. P r \<Longrightarrow> \<not> Q (f r)"
  shows "count_where Q (update_where P f xs) + count_where P xs = count_where Q xs"
  using assms by (induction xs) (auto simp: count_where_def update_where_def)

lemma discard_counts:
  assumes "fold discard_one ms (n, d) = (n', d')"
  shows "n' + count_where available (processed_rollouts d') = n + count_where available (processed_rollouts d)"
  using assms
proof (induction ms arbitrary: n d)
  case (Cons m ms)
  let ?P = "\<lambda>r. rollout_key r = m \<and> available r"
  have "count_where available (update_where ?P (\<lambda>r. r\<lparr>pr_discarded := True\<rparr>) (processed_rollouts d)) +
      count_where ?P (processed_rollouts d) = count_where available (processed_rollouts d)"
    by (rule count_where_update) (auto simp: available_def)
  with Cons.IH [of "fst (discard_one m (n, d))" "snd (discard_one m (n, d))"] Cons.prems show ?case
    by (simp add: discard_one_def Let_def)
qed simp

lemma discard_decreases:
  assumes "discard_processed_rollouts members d = (Inr u, d')"
  shows "count_where available (processed_rollouts d') + length members = count_where available (processed_rollouts d)"
    "members \<noteq> []"
  using assms discard_counts [of members 0 d]
  by (auto simp: discard_processed_rollouts_def transaction_def split: if_splits prod.splits sum.splits)

lemma assign_member_available:
  assumes "assign_member step (i, m) d = Inr d'"
  shows "count_where (\<lambda>r. available r \<and> K (rollout_key r)) (processed_rollouts d') =
    count_where (\<lambda>r. available r \<and> K (rollout_key r) \<and> rollout_key r \<noteq> m) (processed_rollouts d)"
proof -
  have d': "processed_rollouts d' = update_where (\<lambda>r. rollout_key r = m \<and> pr_batch_step r = None)
      (\<lambda>r. r\<lparr>pr_batch_step := Some step, pr_batch_ordinal := Some i\<rparr>) (processed_rollouts d)"
    using assms by (auto simp: assign_member_def and_then_eq_Inr Let_def)
  have "count_where (\<lambda>r. available r \<and> K (rollout_key r)) (update_where (\<lambda>r. rollout_key r = m \<and> pr_batch_step r = None)
      (\<lambda>r. r\<lparr>pr_batch_step := Some step, pr_batch_ordinal := Some i\<rparr>) rows) =
    count_where (\<lambda>r. available r \<and> K (rollout_key r) \<and> rollout_key r \<noteq> m) rows" for rows
    by (induction rows) (auto simp: count_where_def update_where_def available_def)
  then show ?thesis by (simp add: d')
qed

lemma assign_members_available:
  assumes "fold_step (assign_member step) oms d = Inr d'"
  shows "count_where (\<lambda>r. available r \<and> K (rollout_key r)) (processed_rollouts d') =
    count_where (\<lambda>r. available r \<and> K (rollout_key r) \<and> rollout_key r \<notin> snd ` set oms) (processed_rollouts d)"
  using assms
proof (induction oms arbitrary: d)
  case (Cons om oms)
  obtain i m where om: "om = (i, m)" by (cases om)
  from Cons.prems obtain d1 where d1: "assign_member step (i, m) d = Inr d1" "fold_step (assign_member step) oms d1 = Inr d'"
    by (auto simp: om and_then_eq_Inr)
  show ?case
    using Cons.IH [OF d1(2)] assign_member_available [OF d1(1), of "\<lambda>k. K k \<and> k \<notin> snd ` set oms"]
    by (simp add: om conj_ac)
qed simp

lemma fold_max_ge: "(n :: nat) \<le> fold max xs n"
proof (induction xs arbitrary: n)
  case (Cons x xs)
  show ?case using Cons [of "max x n"] by simp
qed simp

lemma fold_max_member: "(x :: nat) \<in> set xs \<Longrightarrow> x \<le> fold max xs n"
proof (induction xs arbitrary: n)
  case (Cons y ys)
  then show ?case using fold_max_ge [of "max y n" ys] by auto
qed simp

lemma next_step_free: "batch_at d (next_training_batch_step d) = None"
proof -
  have "b_step b < next_training_batch_step d" if "b \<in> set (training_batches d)" for b
    using fold_max_member [of "b_step b" "map b_step (training_batches d)" 0] that
    by (simp add: next_training_batch_step_def)
  then show ?thesis by (force simp: batch_at_def row_at_None_iff)
qed

lemma record_training_batchD:
  assumes "record_training_batch R (next_training_batch_step d) dig path sz k members now d = (Inr u, d')"
  shows "count_where available (processed_rollouts d') < count_where available (processed_rollouts d)"
    "\<exists>p. relative_to (run_root R) path = Inr p \<and> training_batches d' = training_batches d @
       [\<lparr>b_step = next_training_batch_step d, b_artifact_digest = dig, b_artifact_path = p, b_size_bytes = sz,
         b_sample_count = k, b_created_at = now\<rparr>]"
proof -
  obtain p d1 where m: "members \<noteq> []" and p: "relative_to (run_root R) path = Inr p"
    and c: "count_where (\<lambda>r. available r \<and> rollout_key r \<in> set members) (processed_rollouts d) = length members"
    and d1: "insert_batch \<lparr>b_step = next_training_batch_step d, b_artifact_digest = dig, b_artifact_path = p, b_size_bytes = sz,
         b_sample_count = k, b_created_at = now\<rparr> d = Inr d1"
    and d2: "fold_step (assign_member (next_training_batch_step d)) (enumerate 0 members) d1 = Inr d'"
    using assms next_step_free [of d]
    by (auto simp: record_training_batch_def record_training_batch_in_def transaction_def and_then_eq_Inr
        split: if_splits sum.splits prod.splits)
  have eq: "processed_rollouts d1 = processed_rollouts d"
    "training_batches d1 = training_batches d @ [\<lparr>b_step = next_training_batch_step d, b_artifact_digest = dig,
       b_artifact_path = p, b_size_bytes = sz, b_sample_count = k, b_created_at = now\<rparr>]"
    using d1 by (auto simp: insert_batch_def and_then_eq_Inr)
  have "count_where available (processed_rollouts d') =
      count_where (\<lambda>r. available r \<and> rollout_key r \<notin> set members) (processed_rollouts d)"
    using assign_members_available [OF d2, of "\<lambda>_. True"] by (simp add: eq flip: set_map)
  moreover have split: "count_where available rows = count_where (\<lambda>r. available r \<and> rollout_key r \<in> set members) rows +
      count_where (\<lambda>r. available r \<and> rollout_key r \<notin> set members) rows" for rows
    by (induction rows) (auto simp: count_where_def)
  ultimately show "count_where available (processed_rollouts d') < count_where available (processed_rollouts d)"
    using c m split [of "processed_rollouts d"] by simp
  have "training_batches d' = training_batches d1"
    using d2 by (rule fold_step_invariant) (auto simp: assign_member_def and_then_eq_Inr Let_def)
  with eq p show "\<exists>p. relative_to (run_root R) path = Inr p \<and> training_batches d' = training_batches d @
       [\<lparr>b_step = next_training_batch_step d, b_artifact_digest = dig, b_artifact_path = p, b_size_bytes = sz,
         b_sample_count = k, b_created_at = now\<rparr>]" by simp
qed

lemma discard_members_waiting:
  assumes "discard_members members note_drop st = (Inr r, st')"
  shows "waiting st' < waiting st" "r = Dropped" "training_batches (st_db st') = training_batches (st_db st)"
proof -
  obtain d where d: "discard_processed_rollouts members (st_db st) = (Inr (), d)" and st': "st_db st' = d" and r: "r = Dropped"
    using assms by (auto simp: discard_members_def split: prod.splits sum.splits)
  show "waiting st' < waiting st" using discard_decreases [OF d] by (simp add: waiting_def st') (metis length_0_conv less_add_eq_less less_add_same_cancel1 neq0_conv)
  show "r = Dropped" by (rule r)
  have "training_batches (snd (fold discard_one ms s)) = training_batches (snd s)" for ms s
    by (induction ms arbitrary: s) (auto simp: discard_one_def Let_def split: prod.split)
  from this [of members "(0, st_db st)"] show "training_batches (st_db st') = training_batches (st_db st)"
    using d by (auto simp: st' discard_processed_rollouts_def transaction_def split: if_splits prod.splits sum.splits)
qed

lemma record_batchD:
  assumes "record_batch R C clock samples members st = (Inr r, st')"
  defines "step \<equiv> next_training_batch_step (st_db st)"
  defines "bytes \<equiv> encode_batch C \<lparr>batch_examples = samples, batch_step = step, batch_run_idx = None\<rparr>"
  obtains path q p where "r = Emitted"
    "publish_batch R step (sha256 R bytes) bytes (st_queue st) = Inr (path, q)" "st_queue st' = q"
    "relative_to (run_root R) path = Inr p" "waiting st' < waiting st"
    "training_batches (st_db st') = training_batches (st_db st) @
       [\<lparr>b_step = step, b_artifact_digest = sha256 R bytes, b_artifact_path = p, b_size_bytes = length bytes,
         b_sample_count = length samples, b_created_at = clock (st_db st)\<rparr>]"
    "record_training_batch R step (sha256 R bytes) path (length bytes) (length samples) members (clock (st_db st)) (st_db st)
       = (Inr (), st_db st')"
proof -
  obtain path q d where 1: "publish_batch R step (sha256 R bytes) bytes (st_queue st) = Inr (path, q)"
    and 2: "record_training_batch R step (sha256 R bytes) path (length bytes) (length samples) members (clock (st_db st)) (st_db st)
       = (Inr (), d)" and st': "st_db st' = d" "st_queue st' = q" "r = Emitted"
    using assms(1) by (auto simp: record_batch_def Let_def step_def bytes_def split: sum.splits prod.splits)
  from record_training_batchD [OF 2 [unfolded step_def]] obtain p where
    "relative_to (run_root R) path = Inr p" "waiting st' < waiting st"
    "training_batches d = training_batches (st_db st) @
       [\<lparr>b_step = step, b_artifact_digest = sha256 R bytes, b_artifact_path = p, b_size_bytes = length bytes,
         b_sample_count = length samples, b_created_at = clock (st_db st)\<rparr>]"
    by (auto simp: step_def waiting_def st')
  with that 1 2 st' show ?thesis by metis
qed

lemma emit_selectedD:
  assumes "emit_selected R C clock selected st = (Inr r, st')"
  obtains "discard_members (map (\<lambda>x. member_of (fst x)) selected) (\<lambda>m. m) st = (Inr r, st')"
  | samples where "each rollout_samples selected = Inr samples" "concat samples \<noteq> []"
      "single_payload_policy selected = Inr ()" "single_policy (concat samples) = Inr ()"
      "record_batch R C clock (concat samples) (map (\<lambda>x. member_of (fst x)) selected) st = (Inr r, st')"
  using assms by (auto simp: emit_selected_def Let_def and_then_eq_Inr split: sum.splits if_splits)

lemma emit_once_decreases:
  assumes "emit_once R C clock c st = (Inr r, st')" "r \<noteq> Drained"
  shows "waiting st' < waiting st"
    "length (training_batches (st_db st')) = length (training_batches (st_db st)) + (if r = Emitted then 1 else 0)"
proof -
  obtain act lag ps where e: "drop_or_emit R C clock c act lag ps st = (Inr r, st')"
    using assms by (auto simp: emit_once_def split: if_splits sum.splits)
  have "waiting st' < waiting st \<and>
    length (training_batches (st_db st')) = length (training_batches (st_db st)) + (if r = Emitted then 1 else 0)"
  proof (cases "filter (\<lambda>x. is_stale act lag (snd x)) ps = []")
    case False
    then obtain members note_drop where "discard_members members note_drop st = (Inr r, st')"
      using e by (auto simp: drop_or_emit_def Let_def split: if_splits)
    from discard_members_waiting [OF this] show ?thesis by simp
  next
    case True
    let ?st1 = "if mixed_prefix c [] 0 0 ps
              then st\<lparr>st_metrics := (st_metrics st)\<lparr>mixed_policy_batch_attempts := mixed_policy_batch_attempts (st_metrics st) + 1\<rparr>\<rparr>
              else st"
    have "emit_selected R C clock (select_policy_homogeneous_batch c ps) ?st1 = (Inr r, st')"
      using e True assms(2) by (auto simp: drop_or_emit_def Let_def split: if_splits)
    moreover have "waiting ?st1 = waiting st" "st_db ?st1 = st_db st" by (simp_all add: waiting_def)
    ultimately show ?thesis
      by (elim emit_selectedD record_batchD) (auto dest: discard_members_waiting)
  qed
  then show "waiting st' < waiting st"
    "length (training_batches (st_db st')) = length (training_batches (st_db st)) + (if r = Emitted then 1 else 0)" by auto
qed

text \<open>Every round that goes on consumes a rollout, so the loop ends, whatever the database holds.\<close>

function emit_ready_batches :: "repository \<Rightarrow> codec \<Rightarrow> (db \<Rightarrow> time) \<Rightarrow> batch_size_config \<Rightarrow> nat \<Rightarrow> processor_state
    \<Rightarrow> (error + nat) \<times> processor_state" where
  "emit_ready_batches R C clock c emitted st =
     (case emit_once R C clock c st of
        (Inl e, st') \<Rightarrow> (Inl e, st')
      | (Inr Drained, st') \<Rightarrow> (Inr emitted, st')
      | (Inr Dropped, st') \<Rightarrow> emit_ready_batches R C clock c emitted st'
      | (Inr Emitted, st') \<Rightarrow> emit_ready_batches R C clock c (emitted + 1) st')"
  by pat_completeness auto
termination
proof (relation "measure (\<lambda>(R, C, clock, c, emitted, st). waiting st)", goal_cases)
  case (2 R C clock c emitted st a st' r)
  then show ?case using emit_once_decreases(1) [of R C clock c st Dropped st'] by simp
next
  case (3 R C clock c emitted st a st' r)
  then show ?case using emit_once_decreases(1) [of R C clock c st Emitted st'] by simp
qed simp

declare emit_ready_batches.simps [simp del]

section \<open>What is selected\<close>

text \<open>The tokens of some rollouts, whether they fill a batch, the rollouts of one policy, and the
  position of its first.\<close>

definition token_sum :: "pending_pair list \<Rightarrow> nat" where
  "token_sum xs = sum_list (map (\<lambda>x. pp_token_count (fst x)) xs)"

definition enough :: "batch_size_config \<Rightarrow> pending_pair list \<Rightarrow> bool" where
  "enough c xs \<longleftrightarrow> full c (length xs) (token_sum xs)"

definition of_policy :: "policy_key \<Rightarrow> pending_pair list \<Rightarrow> pending_pair list" where
  "of_policy k ps = filter (\<lambda>x. key_of x = k) ps"

definition first_of :: "policy_key \<Rightarrow> pending_pair list \<Rightarrow> nat" where
  "first_of k ps = length (takeWhile (\<lambda>x. key_of x \<noteq> k) ps)"

lemma token_sum_simps [simp]:
  "token_sum [] = 0" "token_sum (x # xs) = pp_token_count (fst x) + token_sum xs"
  "token_sum (xs @ ys) = token_sum xs + token_sum ys"
  by (simp_all add: token_sum_def)

lemma note_rollout_keys: "fst ` set (note_rollout k i x parts) = insert k (fst ` set parts)"
  by (induction k i x parts rule: note_rollout.induct) auto

lemma note_rollout_distinct: "distinct (map fst parts) \<Longrightarrow> distinct (map fst (note_rollout k i x parts))"
  by (induction k i x parts rule: note_rollout.induct) (auto simp: note_rollout_keys simp del: split_paired_All)

lemma note_rollout_map_of:
  "map_of (note_rollout k i x parts) k' =
     (if k' = k then Some (case map_of parts k of
         None \<Rightarrow> \<lparr>pe_first_index = i, pe_rollouts = [x], pe_tokens = pp_token_count (fst x)\<rparr>
       | Some e \<Rightarrow> e\<lparr>pe_rollouts := pe_rollouts e @ [x], pe_tokens := pe_tokens e + pp_token_count (fst x)\<rparr>)
      else map_of parts k')"
  by (induction k i x parts rule: note_rollout.induct) auto

lemma partitions_snoc: "partitions (ps @ [x]) = note_rollout (key_of x) (length ps) x (partitions ps)"
  by (simp add: partitions_def enumerate_append_eq)

lemma first_of_snoc:
  "first_of k (ps @ [x]) = (if of_policy k ps = [] \<and> key_of x \<noteq> k then Suc (length ps) else first_of k ps)"
  by (induction ps) (auto simp: first_of_def of_policy_def)

lemma first_of_absent: "of_policy k ps = [] \<Longrightarrow> first_of k ps = length ps"
  by (induction ps) (auto simp: first_of_def of_policy_def split: if_splits)

lemma partitions_map_of:
  "map_of (partitions ps) k = (if of_policy k ps = [] then None else
     Some \<lparr>pe_first_index = first_of k ps, pe_rollouts = of_policy k ps, pe_tokens = token_sum (of_policy k ps)\<rparr>)"
proof (induction ps rule: rev_induct)
  case Nil
  then show ?case by (simp add: partitions_def of_policy_def)
next
  case (snoc x ps)
  then show ?case
    by (auto simp: partitions_snoc note_rollout_map_of first_of_snoc first_of_absent) (auto simp: of_policy_def)
qed

lemma partitions_distinct: "distinct (map fst (partitions ps))"
  by (induction ps rule: rev_induct) (simp_all add: partitions_snoc note_rollout_distinct, simp add: partitions_def)

lemma mem_partitions:
  "(k, e) \<in> set (partitions ps) \<longleftrightarrow> of_policy k ps \<noteq> [] \<and>
     e = \<lparr>pe_first_index = first_of k ps, pe_rollouts = of_policy k ps, pe_tokens = token_sum (of_policy k ps)\<rparr>"
  using partitions_map_of [of ps k] map_of_eq_Some_iff [OF partitions_distinct, of ps k e] by (auto split: if_splits)

lemma not_enough_Nil: "check_batch_size c = Inr () \<Longrightarrow> \<not> enough c []"
  by (auto simp: check_batch_size_def enough_def full_def split: option.splits)

lemma entry_ready_enough:
  "check_batch_size c = Inr () \<Longrightarrow> pe_rollouts e = xs \<Longrightarrow> pe_tokens e = token_sum xs \<Longrightarrow> entry_ready c e = enough c xs"
  by (auto simp: check_batch_size_def entry_ready_def enough_def full_def split: option.splits)

lemma take_batch_prefix:
  "\<exists>n. take_batch c m t xs = take n xs \<and> n \<le> length xs \<and> (xs \<noteq> [] \<longrightarrow> 0 < n) \<and>
     (\<forall>i. 0 < i \<longrightarrow> i < n \<longrightarrow> \<not> full c (m + i) (t + token_sum (take i xs))) \<and>
     (n < length xs \<longrightarrow> full c (m + n) (t + token_sum (take n xs)))"
proof (induction c m t xs rule: take_batch.induct)
  case (2 c m t x xs)
  show ?case
  proof (cases "full c (m + 1) (t + pp_token_count (fst x))")
    case True
    then show ?thesis by (intro exI [of _ 1]) auto
  next
    case False
    with 2 obtain n where n: "take_batch c (m + 1) (t + pp_token_count (fst x)) xs = take n xs" "n \<le> length xs"
      "\<forall>i. 0 < i \<longrightarrow> i < n \<longrightarrow> \<not> full c (m + 1 + i) (t + pp_token_count (fst x) + token_sum (take i xs))"
      "n < length xs \<longrightarrow> full c (m + 1 + n) (t + pp_token_count (fst x) + token_sum (take n xs))"
      by auto
    have "\<not> full c (m + i) (t + token_sum (take i (x # xs)))" if "0 < i" "i < Suc n" for i
      using that n(3) False by (cases i; cases "i = 1") (auto simp: add_ac)
    with n False show ?thesis by (intro exI [of _ "Suc n"]) (auto simp: add_ac)
  qed
qed simp

lemma take_batch_enough:
  assumes "check_batch_size c = Inr ()" "enough c xs"
  shows "\<exists>n \<le> length xs. take_batch c 0 0 xs = take n xs \<and> enough c (take n xs) \<and> (\<forall>i < n. \<not> enough c (take i xs))"
proof -
  obtain n where n: "take_batch c 0 0 xs = take n xs" "n \<le> length xs"
    "\<forall>i. 0 < i \<longrightarrow> i < n \<longrightarrow> \<not> full c i (token_sum (take i xs))" "n < length xs \<longrightarrow> full c n (token_sum (take n xs))"
    using take_batch_prefix [of c 0 0 xs] by auto
  have "enough c (take n xs)" using n(2,4) assms(2) by (cases "n = length xs") (auto simp: enough_def)
  moreover have "\<not> enough c (take i xs)" if "i < n" for i
    using n(2,3) that not_enough_Nil [OF assms(1)] by (cases "i = 0") (auto simp: enough_def)
  ultimately show ?thesis using n(1,2) by blast
qed

lemma arg_min_list_le: "x \<in> set xs \<Longrightarrow> f (arg_min_list f xs) \<le> (f x :: 'b :: linorder)"
  using f_arg_min_list_f [of xs f] by (cases "xs = []") auto

lemma selection:
  assumes "check_batch_size c = Inr ()"
  shows "if \<exists>k. enough c (of_policy k ps)
    then \<exists>k n. select_policy_homogeneous_batch c ps = take n (of_policy k ps) \<and> n \<le> length (of_policy k ps) \<and>
      enough c (take n (of_policy k ps)) \<and> (\<forall>i < n. \<not> enough c (take i (of_policy k ps))) \<and>
      (\<forall>k'. enough c (of_policy k' ps) \<longrightarrow> first_of k ps \<le> first_of k' ps)
    else select_policy_homogeneous_batch c ps = []"
proof -
  let ?ready = "filter (\<lambda>(_, e). entry_ready c e) (partitions ps)"
  have mem: "(k, e) \<in> set ?ready \<longleftrightarrow> enough c (of_policy k ps) \<and>
     e = \<lparr>pe_first_index = first_of k ps, pe_rollouts = of_policy k ps, pe_tokens = token_sum (of_policy k ps)\<rparr>" for k e
    using entry_ready_enough [OF assms] not_enough_Nil [OF assms] by (auto simp: mem_partitions)
  show ?thesis
  proof (cases "?ready = []")
    case True
    with mem have "\<not> enough c (of_policy k ps)" for k by fastforce
    with True show ?thesis by (simp add: select_policy_homogeneous_batch_def Let_def)
  next
    case False
    let ?f = "\<lambda>(_, e). pe_first_index e"
    obtain k e where ke: "arg_min_list ?f ?ready = (k, e)" by fastforce
    then have m: "(k, e) \<in> set ?ready" using arg_min_list_in [OF False, of ?f] by simp
    have en: "enough c (of_policy k ps)" and e: "pe_rollouts e = of_policy k ps" "pe_first_index e = first_of k ps"
      using m unfolding mem by simp_all
    have first: "first_of k ps \<le> first_of k' ps" if "enough c (of_policy k' ps)" for k'
    proof -
      have "(k', \<lparr>pe_first_index = first_of k' ps, pe_rollouts = of_policy k' ps, pe_tokens = token_sum (of_policy k' ps)\<rparr>)
          \<in> set ?ready" unfolding mem using that by simp
      from arg_min_list_le [OF this, of ?f] show ?thesis unfolding ke by (simp add: e(2))
    qed
    have "select_policy_homogeneous_batch c ps = take_batch c 0 0 (of_policy k ps)"
      using False ke e by (simp add: select_policy_homogeneous_batch_def Let_def)
    with take_batch_enough [OF assms en] obtain n where "n \<le> length (of_policy k ps)"
      "select_policy_homogeneous_batch c ps = take n (of_policy k ps)" "enough c (take n (of_policy k ps))"
      "\<forall>i < n. \<not> enough c (take i (of_policy k ps))" by auto
    moreover have "\<exists>k. enough c (of_policy k ps)" using en by blast
    ultimately show ?thesis using first by (simp only: if_True) (rule exI [of _ k], rule exI [of _ n], simp)
  qed
qed

text \<open>C31: the rollouts chosen for a batch are, in order, the oldest ones of a single policy, exactly
  as many as the configured size needs, of the policy whose first pending rollout is oldest among
  those with enough; nothing is chosen only when no policy has enough.\<close>

theorem selection_homogeneous:
  assumes "check_batch_size c = Inr ()"
  shows "if \<exists>k. enough c (of_policy k ps)
    then \<exists>k n. select_policy_homogeneous_batch c ps = take n (of_policy k ps) \<and> n \<le> length (of_policy k ps) \<and>
      enough c (take n (of_policy k ps)) \<and> (\<forall>i < n. \<not> enough c (take i (of_policy k ps))) \<and>
      (\<forall>k'. enough c (of_policy k' ps) \<longrightarrow> first_of k ps \<le> first_of k' ps)
    else select_policy_homogeneous_batch c ps = []"
  by (rule selection [OF assms])

section \<open>What the loop leaves and what it emits\<close>

definition drained :: "repository \<Rightarrow> codec \<Rightarrow> batch_size_config \<Rightarrow> processor_state \<Rightarrow> bool" where
  "drained R C c st \<longleftrightarrow> (\<exists>ps. loaded_pending R C st = Inr ps \<and> select_policy_homogeneous_batch c ps = [] \<and>
     (ps = [] \<or> (\<exists>act lag. policy_lag_window R (st_db st) = Inr (act, lag) \<and> list_all (\<lambda>x. \<not> is_stale act lag (snd x)) ps)))"

lemma drained_metrics: "drained R C c (st\<lparr>st_metrics := m\<rparr>) = drained R C c st"
  by (simp add: drained_def loaded_pending_def)

lemma emit_selected_goes_on: "emit_selected R C clock selected st = (Inr r, st') \<Longrightarrow> r \<noteq> Drained"
  by (elim emit_selectedD record_batchD) (auto dest: discard_members_waiting)

lemma emit_once_drained:
  assumes "emit_once R C clock c st = (Inr Drained, st')"
  shows "drained R C c st'" "st_db st' = st_db st"
proof -
  have "drained R C c st' \<and> st_db st' = st_db st"
  proof (cases "pending_processed_rollouts R (st_db st) = []")
    case True
    with assms have "st' = st" by (simp add: emit_once_def)
    with True show ?thesis
      by (simp add: drained_def loaded_pending_def load_pending_payloads_def select_policy_homogeneous_batch_def partitions_def)
  next
    case False
    with assms obtain act lag ps where w: "policy_lag_window R (st_db st) = Inr (act, lag)" "loaded_pending R C st = Inr ps"
      and e: "drop_or_emit R C clock c act lag ps st = (Inr Drained, st')"
      by (auto simp: emit_once_def and_then_eq_Inr split: sum.splits)
    have "filter (\<lambda>x. is_stale act lag (snd x)) ps = []" "select_policy_homogeneous_batch c ps = []"
      "\<exists>m. st' = st\<lparr>st_metrics := m\<rparr>"
      using e by (auto simp: drop_or_emit_def Let_def split: if_splits dest: discard_members_waiting(2) emit_selected_goes_on)
        (metis processor_state.surjective processor_state.update_convs(3))+
    moreover have "drained R C c st"
      using w calculation(1,2) by (auto simp: drained_def filter_empty_conv list_all_iff)
    ultimately show ?thesis using drained_metrics by auto
  qed
  then show "drained R C c st'" "st_db st' = st_db st" by simp_all
qed

lemma emit_loop:
  assumes "emit_ready_batches R C clock c n st = (Inr m, st')"
  shows "drained R C c st' \<and> n \<le> m \<and>
    length (training_batches (st_db st')) = length (training_batches (st_db st)) + (m - n)"
  using assms
proof (induction R C clock c n st rule: emit_ready_batches.induct)
  case (1 R C clock c n st)
  obtain o1 st1 where o: "emit_once R C clock c st = (o1, st1)" by fastforce
  with "1.prems" obtain r where r: "o1 = Inr r"
    by (cases o1) (simp_all add: emit_ready_batches.simps [of R C clock c n st])
  show ?case
  proof (cases r)
    case Drained
    then show ?thesis
      using "1.prems" o emit_once_drained [of R C clock c st st1] by (simp add: r emit_ready_batches.simps [of R C clock c n st])
  next
    case Dropped
    with "1.prems" o have "emit_ready_batches R C clock c n st1 = (Inr m, st')"
      by (simp add: r emit_ready_batches.simps [of R C clock c n st])
    with "1.IH"(1) o r Dropped emit_once_decreases(2) [of R C clock c st r st1] show ?thesis by simp
  next
    case Emitted
    with "1.prems" o have "emit_ready_batches R C clock c (n + 1) st1 = (Inr m, st')"
      by (simp add: r emit_ready_batches.simps [of R C clock c n st])
    with "1.IH"(2) o r Emitted emit_once_decreases(2) [of R C clock c st r st1] show ?thesis by fastforce
  qed
qed

text \<open>C32: when the emission of batches returns, the number it reports is the number of batches it has
  recorded, no stale rollout is waiting, and no policy has enough waiting rollouts for a further batch.\<close>

theorem emission_drains:
  assumes "check_batch_size c = Inr ()" "emit_ready_batches R C clock c 0 st = (Inr m, st')"
  shows "length (training_batches (st_db st')) = length (training_batches (st_db st)) + m \<and>
    (\<exists>ps. loaded_pending R C st' = Inr ps \<and> (\<forall>k. \<not> enough c (of_policy k ps)) \<and>
      (ps = [] \<or> (\<exists>act lag. policy_lag_window R (st_db st') = Inr (act, lag) \<and> list_all (\<lambda>x. \<not> is_stale act lag (snd x)) ps)))"
proof -
  from emit_loop [OF assms(2)] obtain ps where ps: "loaded_pending R C st' = Inr ps" "select_policy_homogeneous_batch c ps = []"
    "ps = [] \<or> (\<exists>act lag. policy_lag_window R (st_db st') = Inr (act, lag) \<and> list_all (\<lambda>x. \<not> is_stale act lag (snd x)) ps)"
    by (auto simp: drained_def)
  have "\<not> enough c (of_policy k ps)" for k
  proof
    assume "enough c (of_policy k ps)"
    then have "\<exists>k. enough c (of_policy k ps)" by blast
    with selection [OF assms(1), of ps] ps(2) not_enough_Nil [OF assms(1)] show False by auto
  qed
  with ps emit_loop [OF assms(2)] show ?thesis by auto
qed

lemma selected_subset: "set (select_policy_homogeneous_batch c ps) \<subseteq> set ps"
proof (cases "filter (\<lambda>(_, e). entry_ready c e) (partitions ps) = []")
  case False
  let ?f = "\<lambda>(_, e). pe_first_index e"
  obtain k e where ke: "arg_min_list ?f (filter (\<lambda>(_, e). entry_ready c e) (partitions ps)) = (k, e)" by fastforce
  with arg_min_list_in [OF False, of ?f] have "pe_rollouts e = of_policy k ps" by (simp add: mem_partitions)
  moreover obtain n where "take_batch c 0 0 (of_policy k ps) = take n (of_policy k ps)"
    using take_batch_prefix [of c 0 0 "of_policy k ps"] by blast
  ultimately have "set (take_batch c 0 0 (pe_rollouts e)) \<subseteq> set ps"
    using set_take_subset [of n "of_policy k ps"] by (auto simp: of_policy_def)
  with False ke show ?thesis by (simp add: select_policy_homogeneous_batch_def Let_def)
qed (simp add: select_policy_homogeneous_batch_def Let_def)

lemma all_sameD: "all_same xs \<Longrightarrow> \<exists>v. \<forall>x \<in> set xs. x = v"
  by (cases xs) (auto simp: all_same_def list_all_iff)

lemma published_batch_path:
  assumes "publish_batch R step d data q = Inr (path, q')" "relative_to (run_root R) path = Inr p"
  shows "under_root R p = path"
  using assms by (auto simp: publish_batch_def and_then_eq_Inr batch_artifact_def queue_root_def relative_to_def under_root_def
      split: if_splits)

definition behaves_as :: "nat \<Rightarrow> digest \<Rightarrow> training_sample \<Rightarrow> bool" where
  "behaves_as v dg s \<longleftrightarrow> ts_behavior_policy_version s = Some v \<and> ts_behavior_policy_digest s = Some dg"

lemma single_policyD:
  assumes "single_policy samples = Inr ()"
  shows "\<exists>v dg. list_all (behaves_as v dg) samples"
proof -
  note g = assms [unfolded single_policy_def guard_eq_Inr]
  obtain v where v: "\<forall>x \<in> set (map ts_behavior_policy_version samples). x = v" using all_sameD g by blast
  obtain dg where dg: "\<forall>x \<in> set (map ts_behavior_policy_digest samples). x = dg" using all_sameD g by blast
  have "samples \<noteq> []" using g by (auto simp: all_same_def)
  with v dg g obtain v' dg' where "v = Some v'" "dg = Some dg'" by (cases v; cases dg; cases samples) auto
  with v dg show ?thesis by (auto simp: behaves_as_def list_all_iff)
qed

lemma emitted:
  assumes "emit_once R C clock c st = (Inr Emitted, st')"
  shows "\<exists>act lag ps sel samples row v dg bytes y.
    policy_lag_window R (st_db st) = Inr (act, lag) \<and> loaded_pending R C st = Inr ps \<and>
    set sel \<subseteq> set ps \<and> list_all (\<lambda>x. \<not> is_stale act lag (snd x)) sel \<and>
    each rollout_samples sel = Inr samples \<and> concat samples \<noteq> [] \<and> list_all (behaves_as v dg) (concat samples) \<and>
    bytes = encode_batch C \<lparr>batch_examples = concat samples, batch_step = b_step row, batch_run_idx = None\<rparr> \<and>
    training_batches (st_db st') = training_batches (st_db st) @ [row] \<and> b_sample_count row = length (concat samples) \<and>
    b_artifact_digest row = sha256 R bytes \<and> b_size_bytes row = length bytes \<and>
    stored_file R (st_queue st') (under_root R (b_artifact_path row)) = Some y \<and> sha256 R y = b_artifact_digest row"
proof -
  obtain act lag ps where w: "policy_lag_window R (st_db st) = Inr (act, lag)" "loaded_pending R C st = Inr ps"
    and e: "drop_or_emit R C clock c act lag ps st = (Inr Emitted, st')"
    using assms by (auto simp: emit_once_def and_then_eq_Inr split: if_splits sum.splits)
  let ?sel = "select_policy_homogeneous_batch c ps"
  from e obtain m where fresh: "filter (\<lambda>x. is_stale act lag (snd x)) ps = []"
    and s: "emit_selected R C clock ?sel (st\<lparr>st_metrics := m\<rparr>) = (Inr Emitted, st')"
    by (auto simp: drop_or_emit_def Let_def split: if_splits dest: discard_members_waiting(2))
      (metis processor_state.surjective processor_state.update_convs(3))
  from s show ?thesis
  proof (cases rule: emit_selectedD)
    case 1
    then show ?thesis using discard_members_waiting(2) by blast
  next
    case (2 samples)
    define bytes where "bytes = encode_batch C \<lparr>batch_examples = concat samples,
        batch_step = next_training_batch_step (st_db st), batch_run_idx = None\<rparr>"
    obtain v dg where vdg: "list_all (behaves_as v dg) (concat samples)" using single_policyD [OF 2(4)] by blast
    from 2(5) obtain path q p where pub: "publish_batch R (next_training_batch_step (st_db st)) (sha256 R bytes) bytes (st_queue st) = Inr (path, q)"
        "st_queue st' = q" "relative_to (run_root R) path = Inr p"
      and row: "training_batches (st_db st') = training_batches (st_db st) @
       [\<lparr>b_step = next_training_batch_step (st_db st), b_artifact_digest = sha256 R bytes, b_artifact_path = p,
         b_size_bytes = length bytes, b_sample_count = length (concat samples), b_created_at = clock (st_db st)\<rparr>]"
      by (elim record_batchD) (simp add: bytes_def)
    from batch_queue.stored [OF pub(1) refl] obtain y where y: "stored_file R q path = Some y" "sha256 R y = sha256 R bytes" by blast
    have "list_all (\<lambda>x. \<not> is_stale act lag (snd x)) ?sel"
      using fresh selected_subset [of c ps] by (auto simp: filter_empty_conv list_all_iff)
    with w 2(1,2) vdg row y pub published_batch_path [OF pub(1,3)] selected_subset [of c ps] show ?thesis
      by (intro exI [of _ act] exI [of _ lag] exI [of _ ps] exI [of _ ?sel] exI [of _ samples]
        exI [of _ "last (training_batches (st_db st'))"] exI [of _ v] exI [of _ dg] exI [of _ bytes] exI [of _ y])
        (simp add: bytes_def)
  qed
qed

text \<open>C33: a batch that is emitted holds exactly the samples of rollouts that were waiting and are not
  stale, at least one, all generated by one version of one policy; its row counts them, and the
  artifact under the recorded path has the recorded digest.\<close>

theorem emitted_batch_sound:
  assumes "emit_once R C clock c st = (Inr Emitted, st')"
  shows "\<exists>act lag ps sel samples row v dg bytes y.
    policy_lag_window R (st_db st) = Inr (act, lag) \<and> loaded_pending R C st = Inr ps \<and>
    set sel \<subseteq> set ps \<and> list_all (\<lambda>x. \<not> is_stale act lag (snd x)) sel \<and>
    each rollout_samples sel = Inr samples \<and> concat samples \<noteq> [] \<and> list_all (behaves_as v dg) (concat samples) \<and>
    bytes = encode_batch C \<lparr>batch_examples = concat samples, batch_step = b_step row, batch_run_idx = None\<rparr> \<and>
    training_batches (st_db st') = training_batches (st_db st) @ [row] \<and> b_sample_count row = length (concat samples) \<and>
    b_artifact_digest row = sha256 R bytes \<and>
    stored_file R (st_queue st') (under_root R (b_artifact_path row)) = Some y \<and> sha256 R y = b_artifact_digest row"
  using emitted [OF assms] by (elim exE conjE) (intro exI conjI, assumption+)


section \<open>Witnesses\<close>

text \<open>One rollout of the base policy waits; a batch holds one rollout.\<close>

definition demo_payload :: processed_group where
  "demo_payload = \<lparr>py_group_id = ''g0'', py_source_id = ''src'', py_kind = Train, py_policy_id = base_id, py_policy_version = 0,
     py_input_digest = hex_digest (CHR ''1''),
     py_rollouts = [\<lparr>pl_samples = [short_sample\<lparr>ts_behavior_policy_version := Some 0, ts_behavior_policy_digest := Some base_digest\<rparr>],
       pl_token_count = 7\<rparr>],
     py_evaluation_records = [], py_policy_digest = Some base_digest, py_adapter_digest = None\<rparr>"

definition demo_codec :: codec where
  "demo_codec = \<lparr>encode_group = \<lambda>_. ''abc'', decode_group = \<lambda>_. Inr demo_payload, encode_batch = \<lambda>_. ''batch'',
     decode_batch = \<lambda>_. Inl ValueError\<rparr>"

text \<open>The digest of the batch is its own.\<close>

definition emit_demo :: repository where
  "emit_demo = demo\<lparr>sha256 := \<lambda>x. hex_digest (if x = ''batch'' then CHR ''3'' else CHR ''9'')\<rparr>"

lemma emit_demo_simps [simp]:
  "run_root emit_demo = ''/run''" "sha256 emit_demo x = hex_digest (if x = ''batch'' then CHR ''3'' else CHR ''9'')"
  "hash_adapter emit_demo = hash_adapter demo" "hash_identity emit_demo = hash_identity demo" "artifact_intact emit_demo p"
  by (simp_all add: emit_demo_def demo_selectors)

definition one_rollout :: batch_size_config where
  "one_rollout = \<lparr>batch_size = Some 1, token_batch_size = None\<rparr>"

definition d_emit :: db where
  "d_emit = d_conf
     \<lparr>rollout_groups := [\<lparr>g_group_id = ''g0'', g_policy_id = base_id, g_kind = Train, g_environment = the_env,
        g_task_json = JNull, g_sampling_json = the_sampling, g_group_size = 2, g_state = Ready,
        g_created_at = 10, g_creation_key = ''manual:g0'', g_sequence = 1, g_source_id = None\<rparr>],
      processed_groups := processed_groups d_queued, processed_rollouts := [demo_processed None]\<rparr>"

definition emit_state :: processor_state where
  "emit_state = \<lparr>st_db = d_emit, st_queue = \<lparr>q_incoming = [], q_groups = [(''g'', ''abc'')], q_batches = []\<rparr>, st_metrics = new_metrics\<rparr>"

definition demo_pending :: pending_rollout where
  "demo_pending = \<lparr>pp_group_id = ''g0'', pp_ordinal = 0, pp_token_count = 7,
     pp_artifact_path = ''/run/training-queue/groups/g'', pp_artifact_digest = hex_digest (CHR ''9''), pp_size_bytes = 3\<rparr>"

lemma one_rollout_ok: "check_batch_size one_rollout = Inr ()"
  by (simp add: check_batch_size_def one_rollout_def)

lemma demo_selected: "select_policy_homogeneous_batch one_rollout [(demo_pending, demo_payload)] = [(demo_pending, demo_payload)]"
  by (simp add: select_policy_homogeneous_batch_def partitions_def one_rollout_def entry_ready_def full_def)

lemma selection_homogeneous_witness:
  "\<exists>k n. [(demo_pending, demo_payload)] = take n (of_policy k [(demo_pending, demo_payload)]) \<and>
     enough one_rollout (take n (of_policy k [(demo_pending, demo_payload)]))"
proof -
  have "enough one_rollout (of_policy (key_of (demo_pending, demo_payload)) [(demo_pending, demo_payload)])"
    by (simp add: enough_def of_policy_def full_def one_rollout_def)
  then have "\<exists>k. enough one_rollout (of_policy k [(demo_pending, demo_payload)])" by blast
  with selection_homogeneous [OF one_rollout_ok, of "[(demo_pending, demo_payload)]"] demo_selected show ?thesis
    by (simp only: if_True) (elim exE conjE, metis)
qed

lemma demo_pending_read: "pending_processed_rollouts emit_demo d_emit = [demo_pending]"
  by (simp add: pending_processed_rollouts_def d_emit_def d_queued_def d_conf_def d_init_def migrated_db_def available_def
    demo_processed_def joined_rollout_def processed_group_at_def group_at_def row_at_Cons map_filter_simps order_by_def
    under_root_def emit_demo_simps demo_pending_def)

lemma demo_loaded: "loaded_pending emit_demo demo_codec emit_state = Inr [(demo_pending, demo_payload)]"
proof -
  have l: "locate emit_demo ''/run/training-queue/groups/g'' = Inr (Group_File ''g'')"
    using locate_artifact_path [of "Group_File ''g''" emit_demo] by (simp add: file_name_def queue_root_def emit_demo_simps)
  have p: "pending_processed_rollouts emit_demo (st_db emit_state) = [demo_pending]"
    by (simp add: emit_state_def demo_pending_read)
  show ?thesis unfolding loaded_pending_def p
    by (simp add: load_pending_payloads_def load_payload_def demo_pending_def verify_def verify_stored_def
      queue_file_def emit_state_def demo_codec_def with_payload_def emit_demo_simps l)
qed

lemma demo_window: "policy_lag_window emit_demo d_emit = Inr (0, Some 0)"
proof -
  have v: "verify_policy_row emit_demo \<lparr>p_policy_id = base_id, p_policy_version = 0, p_manifest_digest = base_digest,
      p_manifest_json = base_policy, p_artifact_path = None, p_created_at = 1\<rparr> = Inr ()"
    using base_policy_valid by (simp add: verify_policy_row_def valid_manifest_def base_selectors base_digest_def)
  have "active_policy_row d_emit = Some \<lparr>p_policy_id = base_id, p_policy_version = 0, p_manifest_digest = base_digest,
      p_manifest_json = base_policy, p_artifact_path = None, p_created_at = 1\<rparr>"
    by (simp add: active_policy_row_def d_emit_def d_conf_def d_init_def at_defs row_at_Cons)
  with v show ?thesis
    by (simp add: policy_lag_window_def active_policy_def max_policy_lag_of_def scheduler_settings_def base_selectors)
      (simp add: d_emit_def d_conf_def)
qed

lemma one_rollout_full: "full one_rollout n t = (1 \<le> n)"
  by (simp add: full_def one_rollout_def)

definition emitted_state :: processor_state where
  "emitted_state = \<lparr>st_db = d_emit
     \<lparr>training_batches := [\<lparr>b_step = 1, b_artifact_digest = hex_digest (CHR ''3''),
         b_artifact_path = ''training-queue/batches/step_1/train_rollouts.bin'', b_size_bytes = 5, b_sample_count = 1,
         b_created_at = 300\<rparr>],
      processed_rollouts := [demo_processed (Some 1)]\<rparr>,
    st_queue = \<lparr>q_incoming = [], q_groups = [(''g'', ''abc'')], q_batches = [(''step_1'', [(''train_rollouts.bin'', ''batch'')])]\<rparr>,
    st_metrics = new_metrics\<rparr>"

lemma d_emit_batches: "training_batches d_emit = []" "processed_rollouts d_emit = [demo_processed None]"
  by (simp_all add: d_emit_def d_conf_def d_init_def migrated_db_def)

lemma demo_recorded:
  "record_training_batch emit_demo 1 (hex_digest (CHR ''3'')) ''/run/training-queue/batches/step_1/train_rollouts.bin'' 5 1
     [(''g0'', 0)] 300 d_emit = (Inr (), st_db emitted_state)"
  by (simp add: record_training_batch_def record_training_batch_in_def relative_to_def emit_demo_simps d_emit_batches transaction_def
    batch_at_def next_training_batch_step_def count_where_def available_def rollout_key_def demo_processed_def insert_batch_def
    assign_member_def update_where_def emitted_state_def row_at_Cons)

lemma batch_dir_1: "batch_dir 1 = ''step_1''"
  by code_simp

lemma demo_published:
  "publish_batch emit_demo 1 (hex_digest (CHR ''3'')) ''batch'' (st_queue emit_state) =
     Inr (''/run/training-queue/batches/step_1/train_rollouts.bin'', st_queue emitted_state)"
  by (simp add: publish_batch_def hex_digest_def Digest_def is_hex_def is_digit_def less_eq_char_def batch_artifact_def batch_dir_1 list.pred_set
    create_directory_def publish_artifact_def emit_demo_simps emit_state_def emitted_state_def queue_file_def link_file_def queue_root_def del: One_nat_def)

lemma demo_emission: "emit_once emit_demo demo_codec (\<lambda>_. 300) one_rollout emit_state = (Inr Emitted, emitted_state)"
proof -
  have p: "pending_processed_rollouts emit_demo (st_db emit_state) = [demo_pending]"
    and w: "policy_lag_window emit_demo (st_db emit_state) = Inr (0, Some 0)"
    by (simp_all add: emit_state_def demo_pending_read demo_window)
  have v: "\<not> is_stale 0 (Some 0) demo_payload" by (simp add: is_stale_def)
  have step: "next_training_batch_step d_emit = 1" by (simp add: next_training_batch_step_def d_emit_batches)
  have s: "rollout_samples (demo_pending, demo_payload) =
      Inr [short_sample\<lparr>ts_behavior_policy_version := Some 0, ts_behavior_policy_digest := Some base_digest\<rparr>]"
    by (simp add: rollout_samples_def demo_payload_def demo_pending_def)
  have m: "member_of demo_pending = (''g0'', 0)" by (simp add: member_of_def demo_pending_def)
  have f: "emit_state\<lparr>st_queue := st_queue emitted_state, st_db := st_db emitted_state\<rparr> = emitted_state"
    by (simp add: emit_state_def emitted_state_def)
  have sd: "st_db emit_state = d_emit" by (simp add: emit_state_def)
  have "record_batch emit_demo demo_codec (\<lambda>_. 300) [short_sample\<lparr>ts_behavior_policy_version := Some 0, ts_behavior_policy_digest := Some base_digest\<rparr>]
      [(''g0'', 0)] emit_state = (Inr Emitted, emitted_state)"
    using demo_recorded demo_published
    by (simp add: record_batch_def Let_def step emit_demo_simps demo_codec_def sd f eval_nat_numeral)
  then show ?thesis
    by (simp add: emit_once_def p w demo_loaded drop_or_emit_def v demo_selected one_rollout_full emit_selected_def Let_def s m
      single_payload_policy_def single_policy_def all_same_def)
qed

lemma emitted_pending: "pending_processed_rollouts emit_demo (st_db emitted_state) = []"
  by (simp add: emitted_state_def pending_processed_rollouts_def available_def demo_processed_def map_filter_simps order_by_def)

lemma demo_emit_loop: "emit_ready_batches emit_demo demo_codec (\<lambda>_. 300) one_rollout 0 emit_state = (Inr 1, emitted_state)"
proof -
  have "emit_ready_batches emit_demo demo_codec (\<lambda>_. 300) one_rollout 1 emitted_state = (Inr 1, emitted_state)"
    by (subst emit_ready_batches.simps) (simp add: emit_once_def emitted_pending)
  then show ?thesis by (subst emit_ready_batches.simps) (simp add: demo_emission)
qed

lemma emission_drains_witness: "length (training_batches (st_db emitted_state)) = length (training_batches (st_db emit_state)) + 1"
  using emission_drains [OF one_rollout_ok demo_emit_loop] by blast

lemma emitted_batch_sound_witness:
  "\<exists>row y. training_batches (st_db emitted_state) = training_batches (st_db emit_state) @ [row] \<and>
     stored_file emit_demo (st_queue emitted_state) (under_root emit_demo (b_artifact_path row)) = Some y \<and> sha256 emit_demo y = b_artifact_digest row"
  using emitted_batch_sound [OF demo_emission] by blast


end
