(* ===== verification/Trajectories.thy ===== *)
theory Trajectories
  imports Training_Data
begin

text \<open>
  From the trace of a rollout to training samples (\<open>orchestrator/trajectories.py\<close>): every branch of
  the message graph that has tokens to train becomes one sample, and a model turn that several
  branches share is trained in the first of them only. The trace and its branches come from the
  \<open>verifiers\<close> package; their attributes that the code reads are fields here. Concatenation of
  image tensors is \<open>numpy\<close>'s and a parameter.
\<close>

section \<open>Traces\<close>

text \<open>\<open>n_ref\<close> is the identity of the node object, which \<open>id\<close> returns.\<close>

record trace_node =
  n_ref :: nat
  n_token_ids :: "int list"
  n_mask :: "bool list"
  n_sampled :: bool
  n_role :: string
  n_is_content :: "bool list"

text \<open>A router-replay array: its rows along the token axis, as bytes, and the shape of a row.\<close>

record router_array =
  ra_rows :: "bytes list"
  ra_row_shape :: "nat list"
  ra_row_bytes :: nat
  ra_dtype :: string

type_synonym mm_items = "(string \<times> (string \<times> encoded_tensor) list list) list"

record trace_branch =
  br_nodes :: "trace_node list"
  br_token_ids :: "int list"
  br_logprobs :: "rat list"
  br_sampled_mask :: "bool list"
  br_multi_modal_data :: "mm_items option"
  br_routed_experts :: "router_array option"

section \<open>Sidecars\<close>

text \<open>\<open>bins.setdefault(key, []).append(val)\<close>.\<close>

fun bin_append :: "string \<Rightarrow> 'a \<Rightarrow> (string \<times> 'a list) list \<Rightarrow> (string \<times> 'a list) list" where
  "bin_append k v [] = [(k, [v])]"
| "bin_append k v ((k', vs) # bins) = (if k' = k then (k', vs @ [v]) # bins else (k', vs) # bin_append k v bins)"

definition encode_mm_kwargs :: "(encoded_tensor list \<Rightarrow> error + encoded_tensor) \<Rightarrow> mm_items \<Rightarrow> error + mm_kwargs option" where
  "encode_mm_kwargs concatenate mm_items =
     (let bins = fold (\<lambda>(_, items). fold (fold (\<lambda>(k, v). bin_append k v)) items) mm_items []
      in and_then (fold_step (\<lambda>(k, arrs) acc. and_then (concatenate arrs) (\<lambda>arr. Inr (acc @ [(k, arr)]))) bins []) (\<lambda>encoded.
         Inr (if encoded = [] then None else Some encoded)))"

definition encode_routed_experts :: "router_array option \<Rightarrow> nat \<Rightarrow> routed_experts option" where
  "encode_routed_experts arr num_tokens =
     map_option (\<lambda>a.
       let rows = (if length (ra_rows a) > num_tokens then take num_tokens (ra_rows a)
                   else ra_rows a @ replicate (num_tokens - length (ra_rows a)) (replicate (ra_row_bytes a) 0))
       in \<lparr>re_data = concat rows, re_shape = length rows # ra_row_shape a, re_dtype = ra_dtype a\<rparr>) arr"

section \<open>Trainable branches\<close>

definition trainable_node :: "trace_node \<Rightarrow> bool" where
  "trainable_node n \<longleftrightarrow> n_sampled n \<and> list_ex (\<lambda>m. m) (n_mask n)"

text \<open>The mask of one branch, and the nodes trained so far.\<close>

fun branch_mask :: "trace_node list \<Rightarrow> nat list \<Rightarrow> bool list \<times> nat list" where
  "branch_mask [] trained = ([], trained)"
| "branch_mask (n # nodes) trained =
     (if trainable_node n \<and> n_ref n \<in> set trained
      then case branch_mask nodes trained of
        (marks, trained') \<Rightarrow> (replicate (length (n_mask n)) False @ marks, trained')
      else case branch_mask nodes (if trainable_node n then n_ref n # trained else trained) of
        (marks, trained') \<Rightarrow> (n_mask n @ marks, trained'))"

fun trainable_branches :: "trace_branch list \<Rightarrow> nat list \<Rightarrow> (trace_branch \<times> bool list) list" where
  "trainable_branches [] trained = []"
| "trainable_branches (b # branches) trained =
     (case branch_mask (br_nodes b) trained of
        (marks, trained') \<Rightarrow>
          (if list_ex (\<lambda>m. m) marks then [(b, marks)] else []) @ trainable_branches branches trained')"

definition iter_trainable_branches :: "trace_branch list \<Rightarrow> (trace_branch \<times> bool list) list" where
  "iter_trainable_branches branches = trainable_branches branches []"

definition sample_of_branch :: "(encoded_tensor list \<Rightarrow> error + encoded_tensor) \<Rightarrow> string \<Rightarrow> (int \<Rightarrow> int option) option
    \<Rightarrow> trace_branch \<times> bool list \<Rightarrow> error + training_sample" where
  "sample_of_branch concatenate env_name type_ids_mapping bm =
     (case bm of (b, marks) \<Rightarrow>
      and_then (case br_multi_modal_data b of
                  None \<Rightarrow> Inr (None, None)
                | Some mmd \<Rightarrow>
                    let mapping = (case type_ids_mapping of None \<Rightarrow> (\<lambda>_. None) | Some m \<Rightarrow> m) in
                    and_then (encode_mm_kwargs concatenate mmd) (\<lambda>kwargs.
                      Inr (kwargs, Some (map (\<lambda>t. case mapping t of None \<Rightarrow> 0 | Some i \<Rightarrow> i) (br_token_ids b))))) (\<lambda>(kwargs, ids).
      Inr \<lparr>ts_token_ids = br_token_ids b, ts_mask = marks, ts_logprobs = br_logprobs b, ts_temperatures = [],
           ts_env_name = env_name, ts_ref_logprobs = None, ts_mm_kwargs = kwargs,
           ts_routed_experts = encode_routed_experts (br_routed_experts b) (length (br_token_ids b)),
           ts_mm_token_type_ids = ids, ts_rl_weights = None, ts_ce_weights = None, ts_ref_kl_weights = None,
           ts_advantages = None, ts_behavior_policy_id = None, ts_behavior_policy_version = None,
           ts_behavior_policy_digest = None\<rparr>))"

fun trace_to_samples :: "(encoded_tensor list \<Rightarrow> error + encoded_tensor) \<Rightarrow> string \<Rightarrow> (int \<Rightarrow> int option) option
    \<Rightarrow> (trace_branch \<times> bool list) list \<Rightarrow> error + training_sample list" where
  "trace_to_samples concatenate env_name mapping [] = Inr []"
| "trace_to_samples concatenate env_name mapping (bm # bms) =
     and_then (sample_of_branch concatenate env_name mapping bm) (\<lambda>s.
     and_then (trace_to_samples concatenate env_name mapping bms) (\<lambda>ss. Inr (s # ss)))"

section \<open>Well-formed branches\<close>

text \<open>
  The documented layout of a trace: the nodes of a branch spell out its flat token sequence, only
  sampled nodes have tokens marked, a node object occurs once in a branch, and the streams of a
  branch are aligned.
\<close>

definition branch_ok :: "trace_branch \<Rightarrow> bool" where
  "branch_ok b \<longleftrightarrow>
     br_token_ids b = concat (map n_token_ids (br_nodes b)) \<and>
     (\<forall>n \<in> set (br_nodes b). length (n_mask n) = length (n_token_ids n) \<and> (\<not> n_sampled n \<longrightarrow> True \<notin> set (n_mask n))) \<and>
     distinct (map n_ref (br_nodes b)) \<and>
     length (br_logprobs b) = length (br_token_ids b) \<and> length (br_sampled_mask b) = length (br_token_ids b)"

text \<open>Two occurrences of a node object are the same node.\<close>

definition nodes_agree :: "trace_branch list \<Rightarrow> bool" where
  "nodes_agree branches \<longleftrightarrow>
     (\<forall>n \<in> set (concat (map br_nodes branches)). \<forall>m \<in> set (concat (map br_nodes branches)). n_ref n = n_ref m \<longrightarrow> n = m)"

definition trained_count :: "bool list \<Rightarrow> nat" where
  "trained_count marks = length (filter (\<lambda>m. m) marks)"

lemma trained_count_append [simp]: "trained_count (xs @ ys) = trained_count xs + trained_count ys"
  by (simp add: trained_count_def)

lemma trained_count_False [simp]: "trained_count (replicate n False) = 0"
  by (simp add: trained_count_def)

lemma trained_count_Nil [simp]: "trained_count [] = 0"
  by (simp add: trained_count_def)

lemma trained_count_pos: "trained_count xs = 0 \<longleftrightarrow> \<not> list_ex (\<lambda>m. m) xs"
  by (auto simp: trained_count_def filter_empty_conv list_ex_iff)

lemma branch_mask_length:
  "\<forall>n \<in> set nodes. length (n_mask n) = length (n_token_ids n) \<Longrightarrow>
     length (fst (branch_mask nodes trained)) = length (concat (map n_token_ids nodes))"
  by (induction nodes arbitrary: trained) (auto split: prod.splits simp: split_beta)

text \<open>The nodes that a list of nodes adds to those trained so far, in order.\<close>

fun new_nodes :: "trace_node list \<Rightarrow> nat list \<Rightarrow> trace_node list" where
  "new_nodes [] trained = []"
| "new_nodes (n # nodes) trained =
     (if trainable_node n \<and> n_ref n \<notin> set trained then n # new_nodes nodes (n_ref n # trained)
      else new_nodes nodes trained)"

lemma branch_mask_new_nodes:
  assumes "\<forall>n \<in> set nodes. \<not> n_sampled n \<longrightarrow> True \<notin> set (n_mask n)"
  shows "trained_count (fst (branch_mask nodes trained)) = sum_list (map (trained_count \<circ> n_mask) (new_nodes nodes trained)) \<and>
    snd (branch_mask nodes trained) = rev (map n_ref (new_nodes nodes trained)) @ trained"
  using assms
proof (induction nodes arbitrary: trained)
  case (Cons n nodes)
  have none: "trained_count (n_mask n) = 0" if "\<not> trainable_node n"
    using that Cons.prems by (cases "n_sampled n") (auto simp: trainable_node_def trained_count_pos list_ex_iff)
  show ?case
    using Cons.IH [of trained] Cons.IH [of "n_ref n # trained"] Cons.prems none by (auto simp: split_beta)
qed simp

lemma new_nodes_append:
  "new_nodes (xs @ ys) trained = new_nodes xs trained @ new_nodes ys (rev (map n_ref (new_nodes xs trained)) @ trained)"
  by (induction xs arbitrary: trained) auto

lemma trainable_branches_count:
  assumes "\<forall>b \<in> set branches. \<forall>n \<in> set (br_nodes b). \<not> n_sampled n \<longrightarrow> True \<notin> set (n_mask n)"
  shows "sum_list (map (trained_count \<circ> snd) (trainable_branches branches trained)) =
    sum_list (map (trained_count \<circ> n_mask) (new_nodes (concat (map br_nodes branches)) trained))"
  using assms
proof (induction branches arbitrary: trained)
  case (Cons b branches)
  have m: "trained_count (fst (branch_mask (br_nodes b) trained)) = sum_list (map (trained_count \<circ> n_mask) (new_nodes (br_nodes b) trained))"
    "snd (branch_mask (br_nodes b) trained) = rev (map n_ref (new_nodes (br_nodes b) trained)) @ trained"
    using branch_mask_new_nodes Cons.prems by simp_all
  moreover have "trained_count (fst (branch_mask (br_nodes b) trained)) = 0"
    if "\<not> list_ex (\<lambda>m. m) (fst (branch_mask (br_nodes b) trained))" using that by (simp add: trained_count_pos)
  ultimately show ?case using Cons.IH Cons.prems by (auto simp: split_beta new_nodes_append o_def)
qed simp

lemma new_nodes_set:
  "n \<in> set (new_nodes nodes trained) \<Longrightarrow> n \<in> set nodes \<and> trainable_node n \<and> n_ref n \<notin> set trained"
proof (induction nodes arbitrary: trained)
  case (Cons x nodes)
  show ?case
  proof (cases "trainable_node x \<and> n_ref x \<notin> set trained \<and> n \<noteq> x")
    case True
    with Cons.prems have "n \<in> set (new_nodes nodes (n_ref x # trained))" by simp
    from Cons.IH [OF this] show ?thesis by simp
  next
    case False
    with Cons.prems Cons.IH [of trained] show ?thesis by (auto split: if_splits)
  qed
qed simp

lemma new_nodes_distinct: "distinct (map n_ref (new_nodes nodes trained))"
  using new_nodes_set by (induction nodes arbitrary: trained) (auto dest: new_nodes_set)

lemma new_nodes_all:
  "n \<in> set nodes \<Longrightarrow> trainable_node n \<Longrightarrow> n_ref n \<in> n_ref ` set (new_nodes nodes trained) \<or> n_ref n \<in> set trained"
proof (induction nodes arbitrary: trained)
  case (Cons x nodes)
  then show ?case using Cons.IH [of trained] Cons.IH [of "n_ref x # trained"] by auto
qed simp

text \<open>The samples of the branches, with the fields they copy.\<close>

lemma trace_to_samplesD:
  assumes "trace_to_samples concatenate env_name mapping bms = Inr samples"
  shows "map ts_mask samples = map snd bms \<and> map ts_token_ids samples = map (br_token_ids \<circ> fst) bms \<and>
    map ts_logprobs samples = map (br_logprobs \<circ> fst) bms \<and>
    (\<forall>s \<in> set samples. ts_env_name s = env_name \<and> ts_advantages s = None \<and> ts_rl_weights s = None \<and>
       ts_ce_weights s = None \<and> ts_ref_kl_weights s = None \<and> ts_ref_logprobs s = None)"
  using assms
  by (induction bms arbitrary: samples)
    (auto simp: and_then_eq_Inr sample_of_branch_def Let_def split: option.splits)

lemma trainable_branches_mask:
  assumes "\<forall>b \<in> set branches. branch_ok b" "(b, marks) \<in> set (trainable_branches branches trained)"
  shows "b \<in> set branches \<and> length marks = length (br_token_ids b) \<and> list_ex (\<lambda>m. m) marks"
  using assms
proof (induction branches arbitrary: trained)
  case (Cons x branches)
  have "length (fst (branch_mask (br_nodes x) trained)) = length (br_token_ids x)"
    using Cons.prems(1) branch_mask_length [of "br_nodes x"] by (simp add: branch_ok_def)
  with Cons show ?case by (auto simp: split_beta split: if_splits)
qed simp

section \<open>Properties\<close>

text \<open>C25: every model turn is trained exactly once: the tokens that the samples of a trace train are
  those of its distinct sampled nodes, although a node may lie on several branches; the streams of a
  sample are aligned, and each sample has something to train.\<close>

theorem turns_trained_once:
  assumes "\<forall>b \<in> set branches. branch_ok b" "nodes_agree branches"
    and "trace_to_samples concatenate env_name mapping (iter_trainable_branches branches) = Inr samples"
  shows "sum_list (map (trained_count \<circ> ts_mask) samples) =
      (\<Sum>n \<in> {n \<in> set (concat (map br_nodes branches)). trainable_node n}. trained_count (n_mask n)) \<and>
    (\<forall>s \<in> set samples. length (ts_mask s) = length (ts_token_ids s) \<and> length (ts_logprobs s) = length (ts_token_ids s) \<and>
       0 < trained_count (ts_mask s))"
proof -
  let ?nodes = "concat (map br_nodes branches)"
  let ?bms = "iter_trainable_branches branches"
  have set: "set (new_nodes ?nodes []) = {n \<in> set ?nodes. trainable_node n}"
  proof (intro subset_antisym subsetI)
    fix n assume n: "n \<in> {n \<in> set ?nodes. trainable_node n}"
    then obtain m where m: "m \<in> set (new_nodes ?nodes [])" "n_ref n = n_ref m"
      using new_nodes_all [of n ?nodes "[]"] by auto
    with n assms(2) new_nodes_set have "n = m" unfolding nodes_agree_def by blast
    with m show "n \<in> set (new_nodes ?nodes [])" by simp
  qed (use new_nodes_set in blast)
  have "distinct (new_nodes ?nodes [])" using new_nodes_distinct [of ?nodes "[]"] by (simp only: distinct_map)
  then have "sum_list (map (trained_count \<circ> n_mask) (new_nodes ?nodes [])) =
      (\<Sum>n \<in> {n \<in> set ?nodes. trainable_node n}. trained_count (n_mask n))"
    by (simp add: sum_list_distinct_conv_sum_set set del: set_concat)
  moreover have "sum_list (map (trained_count \<circ> snd) ?bms) = sum_list (map (trained_count \<circ> n_mask) (new_nodes ?nodes []))"
    unfolding iter_trainable_branches_def
    by (rule trainable_branches_count) (use assms(1) in \<open>auto simp: branch_ok_def\<close>)
  moreover note d = trace_to_samplesD [OF assms(3)]
  then have "map (trained_count \<circ> ts_mask) samples = map (trained_count \<circ> snd) ?bms"
    by (metis map_map)
  moreover have "length (ts_mask s) = length (ts_token_ids s) \<and> length (ts_logprobs s) = length (ts_token_ids s) \<and>
      0 < trained_count (ts_mask s)" if s: "s \<in> set samples" for s
  proof -
    obtain i where i: "i < length samples" "s = samples ! i" using s by (metis in_set_conv_nth)
    have len: "length ?bms = length samples" using d by (metis length_map)
    obtain b marks where bm: "?bms ! i = (b, marks)" by fastforce
    then have "(b, marks) \<in> set (trainable_branches branches [])"
      using i(1) len by (metis iter_trainable_branches_def nth_mem)
    then have ok: "branch_ok b" "length marks = length (br_token_ids b)" "list_ex (\<lambda>m. m) marks"
      using trainable_branches_mask assms(1) by blast+
    have "ts_mask s = marks" "ts_token_ids s = br_token_ids b" "ts_logprobs s = br_logprobs b"
      using d i len bm by (metis (no_types, lifting) nth_map fst_conv snd_conv comp_apply)+
    with ok show ?thesis by (metis branch_ok_def neq0_conv trained_count_pos)
  qed
  ultimately show ?thesis by simp
qed

text \<open>A trace with two branches that fork after the first model turn.\<close>

definition turn :: "nat \<Rightarrow> bool \<Rightarrow> trace_node" where
  "turn r sampled = \<lparr>n_ref = r, n_token_ids = [int r, 9], n_mask = [False, sampled], n_sampled = sampled,
     n_role = (if sampled then ''assistant'' else ''tool''), n_is_content = []\<rparr>"

definition branch_of :: "trace_node list \<Rightarrow> trace_branch" where
  "branch_of nodes = \<lparr>br_nodes = nodes, br_token_ids = concat (map n_token_ids nodes),
     br_logprobs = map (\<lambda>_. -1) (concat (map n_token_ids nodes)), br_sampled_mask = concat (map n_mask nodes),
     br_multi_modal_data = None, br_routed_experts = None\<rparr>"

definition forked :: "trace_branch list" where
  "forked = [branch_of [turn 0 False, turn 1 True, turn 2 True], branch_of [turn 0 False, turn 1 True, turn 3 True]]"

definition no_images :: "encoded_tensor list \<Rightarrow> error + encoded_tensor" where
  "no_images ts = Inl ValueError"

lemma forked_ok: "(\<forall>b \<in> set forked. branch_ok b) \<and> nodes_agree forked"
  by (simp add: forked_def branch_ok_def nodes_agree_def branch_of_def turn_def)

lemma turns_trained_once_witness:
  "\<exists>samples. trace_to_samples no_images ''env'' None (iter_trainable_branches forked) = Inr samples \<and>
     sum_list (map (trained_count \<circ> ts_mask) samples) = 3"
proof -
  have "isl (trace_to_samples no_images ''env'' None (iter_trainable_branches forked)) = False" by code_simp
  then obtain samples where s: "trace_to_samples no_images ''env'' None (iter_trainable_branches forked) = Inr samples"
    by (cases "trace_to_samples no_images ''env'' None (iter_trainable_branches forked)") simp_all
  have nodes: "set (concat (map br_nodes forked)) = {turn 0 False, turn 1 True, turn 2 True, turn 3 True}"
    by (auto simp: forked_def branch_of_def)
  have trainable: "trainable_node (turn r b) = b" for r b by (simp add: trainable_node_def turn_def)
  have "{n \<in> set (concat (map br_nodes forked)). trainable_node n} = {turn 1 True, turn 2 True, turn 3 True}"
    unfolding nodes using trainable by auto
  then have "(\<Sum>n \<in> {n \<in> set (concat (map br_nodes forked)). trainable_node n}. trained_count (n_mask n)) = 3"
    by (simp add: turn_def trained_count_def)
  with turns_trained_once [OF _ _ s] forked_ok s show ?thesis by auto
qed

end
