(* ===== verification/Scoring.thy ===== *)
theory Scoring
  imports Trajectories Protocol
begin

text \<open>
  The training signal (\<open>orchestrator/algo\<close>, \<open>orchestrator/filters.py\<close>, the scoring part of
  \<open>orchestrator/types.py\<close>): group-relative advantages of GRPO and MaxRL, the observation weights
  of Echo, the reference log probabilities of on-policy distillation, the stamping of all of them
  on the samples, and the filters for degenerate rollouts. Rewards and weights are exact
  rationals; the rounding of \<open>float32\<close> tensors is not modelled.
\<close>

section \<open>Rollouts\<close>

record rollout =
  ro_branches :: "trace_branch list"
  ro_reward :: rat
  ro_num_output_tokens :: nat
  ro_num_total_tokens :: nat
  ro_num_turns :: nat
  ro_metrics :: "(string \<times> rat) list"
  ro_env_name :: string
  ro_samples :: "training_sample list"
  ro_advantages :: "rat list option"
  ro_is_filtered :: bool
  ro_filter_results :: "(string \<times> bool) list"
  ro_kind :: rollout_kind
  ro_group_id :: id
  ro_episode_id :: id
  ro_policy_version :: nat
  ro_policy_id :: "id option"
  ro_policy_digest :: "digest option"
  ro_ok :: bool
  ro_errors :: "(string \<times> string) list"
  ro_trainable :: bool
  ro_task_data :: "(string \<times> json) list"
  ro_call_models :: "string option list"

definition assign_scalar :: "rat \<Rightarrow> rollout \<Rightarrow> rollout" where
  "assign_scalar v r =
     r\<lparr>ro_advantages := Some (concat (map (\<lambda>s. map (\<lambda>m. if m then v else 0) (ts_mask s)) (ro_samples r)))\<rparr>"

definition assign_tokens :: "rat list \<Rightarrow> rollout \<Rightarrow> error + rollout" where
  "assign_tokens vs r =
     (if length vs \<noteq> sum_list (map (\<lambda>s. length (ts_token_ids s)) (ro_samples r)) then Inl ValueError
      else Inr (r\<lparr>ro_advantages := Some vs\<rparr>))"

definition scalar_advantage :: "rollout \<Rightarrow> rat option" where
  "scalar_advantage r =
     (case ro_advantages r of
        None \<Rightarrow> None
      | Some as \<Rightarrow>
          if as = [] then None
          else let nonzero = filter (\<lambda>a. a \<noteq> 0) as in
            Some (if nonzero = [] then 0 else sum_list nonzero / of_nat (length nonzero)))"

definition is_trainable :: "rollout \<Rightarrow> bool" where
  "is_trainable r = (case ro_advantages r of None \<Rightarrow> False | Some as \<Rightarrow> list_ex (\<lambda>a. a \<noteq> 0) as)"

section \<open>Group scores\<close>

datatype length_penalty =
    Linear (num_output_tokens_weight: rat) (num_input_tokens_weight: rat) (num_turns_weight: rat)
  | Shortest_Correct (thinking_length_metric: string) (penalty: rat) (failure_length_penalty: rat)
      (failure_length_metric: string) (failure_length_denominator: "rat option")

definition mean :: "rat list \<Rightarrow> rat" where
  "mean xs = sum_list xs / of_nat (length xs)"

definition centered :: "rat list \<Rightarrow> rat list" where
  "centered xs = map (\<lambda>x. x - mean xs) xs"

text \<open>\<open>xs / xs.max().clamp(min=1)\<close>.\<close>

definition fraction_of_max :: "rat list \<Rightarrow> rat list" where
  "fraction_of_max xs = map (\<lambda>x. x / max (Max (set xs)) 1) xs"

definition linear_shaped :: "rat \<Rightarrow> rat \<Rightarrow> rat \<Rightarrow> rollout list \<Rightarrow> rat list" where
  "linear_shaped w_output w_input w_turns rollouts =
     (let rewards = map ro_reward rollouts;
          output = map (\<lambda>r. of_nat (ro_num_output_tokens r)) rollouts;
          input = map (\<lambda>r. of_nat (ro_num_total_tokens r) - of_nat (ro_num_output_tokens r)) rollouts;
          turns = map (\<lambda>r. of_nat (ro_num_turns r)) rollouts
      in map2 (\<lambda>r (o_frac, i_frac, t_frac). r - mean rewards * (w_output * o_frac + w_input * i_frac + w_turns * t_frac))
           rewards (zip (fraction_of_max output) (zip (fraction_of_max input) (fraction_of_max turns))))"

definition length_metric :: "string \<Rightarrow> rollout \<Rightarrow> error + rat" where
  "length_metric metric r =
     (case map_of (ro_metrics r) metric of
        None \<Rightarrow> Inl ValueError
      | Some v \<Rightarrow> if v < 0 then Inl ValueError else Inr v)"

definition shape_correct :: "string \<Rightarrow> rat \<Rightarrow> rollout list \<Rightarrow> error + rat list" where
  "shape_correct metric pen rollouts =
     (let correct = filter (\<lambda>r. ro_reward r = 1) rollouts in
      and_then (each (length_metric metric) correct) (\<lambda>lengths.
      let shortest = Min (set lengths) in
      Inr (map (\<lambda>r. if ro_reward r = 1 \<and> (case length_metric metric r of Inr l \<Rightarrow> l > shortest | Inl _ \<Rightarrow> False)
                    then ro_reward r - pen else ro_reward r) rollouts)))"

definition shape_failed :: "string \<Rightarrow> rat \<Rightarrow> rat option \<Rightarrow> rollout list \<Rightarrow> rat list \<Rightarrow> error + rat list" where
  "shape_failed metric pen denominator rollouts shaped =
     (let failed = filter (\<lambda>r. ro_reward r = 0) rollouts in
      if failed = [] \<or> pen \<le> 0 then Inr shaped
      else and_then (each (length_metric metric) failed) (\<lambda>lengths.
        let d = max (case denominator of Some v \<Rightarrow> if v = 0 then Max (set lengths) else v | None \<Rightarrow> Max (set lengths)) 1 in
        Inr (map2 (\<lambda>r x. if ro_reward r = 0
               then x - pen * min ((case length_metric metric r of Inr l \<Rightarrow> l | Inl _ \<Rightarrow> 0) / d) 1 else x) rollouts shaped)))"

definition grpo_advantages :: "length_penalty option \<Rightarrow> rollout list \<Rightarrow> error + rat list" where
  "grpo_advantages lp rollouts =
     (case lp of
        None \<Rightarrow> Inr (centered (map ro_reward rollouts))
      | Some (Linear w_output w_input w_turns) \<Rightarrow> Inr (centered (linear_shaped w_output w_input w_turns rollouts))
      | Some (Shortest_Correct metric pen failure_pen failure_metric denominator) \<Rightarrow>
          if list_ex (\<lambda>r. ro_reward r \<noteq> 0 \<and> ro_reward r \<noteq> 1) rollouts then Inl ValueError
          else and_then (shape_correct metric pen rollouts) (\<lambda>shaped.
               and_then (shape_failed failure_metric failure_pen denominator rollouts shaped) (\<lambda>shaped'.
               Inr (centered shaped'))))"

definition max_rl_advantages :: "rollout list \<Rightarrow> rat list" where
  "max_rl_advantages rollouts =
     (let rewards = map ro_reward rollouts; m = mean rewards
      in if m \<le> 0 then map (\<lambda>_. 0) rewards else map (\<lambda>r. (r - m) / m) rewards)"

section \<open>Rollout scores\<close>

text \<open>Echo: one token of an observation; the content flags and the keep mask may leave it out.\<close>

definition weigh_token :: "rat \<Rightarrow> (nat \<Rightarrow> bool) \<Rightarrow> bool list option \<Rightarrow> nat \<Rightarrow> rat list \<Rightarrow> error + rat list" where
  "weigh_token weight skip keep_mask i weights =
     (if skip i then Inr weights
      else case keep_mask of
        Some keep \<Rightarrow>
          if length keep \<le> i then Inl IndexError
          else if \<not> keep ! i then Inr weights
          else if length weights \<le> i then Inl IndexError else Inr (weights[i := weight])
      | None \<Rightarrow> if length weights \<le> i then Inl IndexError else Inr (weights[i := weight]))"

fun weigh_nodes :: "(string \<times> rat) list \<Rightarrow> bool list option \<Rightarrow> trace_node list \<Rightarrow> nat \<Rightarrow> bool \<Rightarrow> rat list \<Rightarrow> error + rat list" where
  "weigh_nodes role_weights keep_mask [] offset seen_response weights = Inr weights"
| "weigh_nodes role_weights keep_mask (n # nodes) offset seen_response weights =
     (let span = length (n_token_ids n) in
      and_then
        (if seen_response \<and> \<not> n_sampled n then
           (case map_of role_weights (n_role n) of
              None \<Rightarrow> Inr weights
            | Some weight \<Rightarrow>
                let has_content = (length (n_is_content n) = span) in
                fold_step (weigh_token weight (\<lambda>i. has_content \<and> \<not> n_is_content n ! (i - offset)) keep_mask)
                  [offset..<offset + span] weights)
         else Inr weights) (\<lambda>weights'.
      weigh_nodes role_weights keep_mask nodes (offset + span) (seen_response \<or> n_sampled n) weights'))"

definition weigh_sample :: "(string \<times> rat) list \<Rightarrow> bool list option \<Rightarrow> training_sample \<Rightarrow> trace_branch \<Rightarrow> error + training_sample" where
  "weigh_sample role_weights keep_mask s b =
     and_then (weigh_nodes role_weights keep_mask (br_nodes b) 0 False (replicate (length (ts_token_ids s)) 0)) (\<lambda>weights.
     Inr (if list_ex (\<lambda>w. w \<noteq> 0) weights then s\<lparr>ts_ce_weights := Some weights\<rparr> else s))"

text \<open>The user's filter yields a keep mask per trainable branch, each spanning the tokens of its branch.\<close>

definition filter_masks :: "(rollout \<Rightarrow> bool list list) \<Rightarrow> rollout \<Rightarrow> trace_branch list \<Rightarrow> error + bool list list" where
  "filter_masks filter_fn r branches =
     (let masks = filter_fn r in
      if length masks \<noteq> length branches then Inl ValueError
      else if list_ex (\<lambda>(b, m). length m \<noteq> length (br_token_ids b)) (zip branches masks) then Inl ValueError
      else Inr masks)"

definition weight_observations :: "(string \<times> rat) list \<Rightarrow> (rollout \<Rightarrow> bool list list) option \<Rightarrow> rollout \<Rightarrow> error + rollout" where
  "weight_observations role_weights filter_fn r =
     (let branches = map fst (iter_trainable_branches (ro_branches r)) in
      and_then (case filter_fn of None \<Rightarrow> Inr (map (\<lambda>_. None) branches)
                | Some f \<Rightarrow> and_then (filter_masks f r branches) (\<lambda>ms. Inr (map Some ms))) (\<lambda>masks.
      and_then (each (\<lambda>(s, b, m). weigh_sample role_weights m s b) (zip (ro_samples r) (zip branches masks))) (\<lambda>ss.
      Inr (r\<lparr>ro_samples := ss @ drop (length branches) (ro_samples r)\<rparr>))))"

datatype algorithm =
    Grpo "length_penalty option"
  | Echo "(string \<times> rat) list" "(rollout \<Rightarrow> bool list list) option" "length_penalty option"
  | Max_RL
  | Opd "int list \<Rightarrow> rat list"

datatype action_loss = Rl | Ce | Ref_kl

fun action_loss_type :: "algorithm \<Rightarrow> action_loss" where
  "action_loss_type (Opd score) = Ref_kl"
| "action_loss_type _ = Rl"

fun score_rollout :: "algorithm \<Rightarrow> rollout \<Rightarrow> error + rollout" where
  "score_rollout (Echo role_weights filter_fn lp) r = weight_observations role_weights filter_fn r"
| "score_rollout (Opd score) r =
     Inr (r\<lparr>ro_samples := map (\<lambda>s. s\<lparr>ts_ref_logprobs := Some (score (ts_token_ids s))\<rparr>) (ro_samples r)\<rparr>)"
| "score_rollout _ r = Inr r"

fun score_group :: "algorithm \<Rightarrow> rollout list \<Rightarrow> error + rollout list" where
  "score_group (Grpo lp) rs = and_then (grpo_advantages lp rs) (\<lambda>as. Inr (map2 assign_scalar as rs))"
| "score_group (Echo role_weights filter_fn lp) rs = and_then (grpo_advantages lp rs) (\<lambda>as. Inr (map2 assign_scalar as rs))"
| "score_group Max_RL rs = Inr (map2 assign_scalar (max_rl_advantages rs) rs)"
| "score_group (Opd score) rs = Inr rs"

section \<open>Stamping\<close>

definition stamp_loss_routing :: "action_loss \<Rightarrow> training_sample \<Rightarrow> error + training_sample" where
  "stamp_loss_routing loss s =
     (if loss = Rl then Inr s
      else
        let n = length (ts_token_ids s);
            base = (case ts_ce_weights s of Some ws \<Rightarrow> if loss = Ce then ws else replicate n 0 | None \<Rightarrow> replicate n 0)
        in if list_ex (\<lambda>(i, m). m \<and> length base \<le> i) (enumerate 0 (ts_mask s)) then Inl IndexError
           else let weights = map (\<lambda>(i, w). if i < length (ts_mask s) \<and> ts_mask s ! i then 1 else w) (enumerate 0 base)
                in Inr (if loss = Ce then s\<lparr>ts_rl_weights := Some (replicate n 0), ts_ce_weights := Some weights\<rparr>
                        else s\<lparr>ts_rl_weights := Some (replicate n 0), ts_ref_kl_weights := Some weights\<rparr>))"

fun slice_stream :: "'a list \<Rightarrow> training_sample list \<Rightarrow> 'a list list" where
  "slice_stream xs [] = []"
| "slice_stream xs (s # ss) = take (length (ts_token_ids s)) xs # slice_stream (drop (length (ts_token_ids s)) xs) ss"

definition stamp_advantages :: "rollout \<Rightarrow> error + rollout" where
  "stamp_advantages r =
     (case ro_advantages r of
        None \<Rightarrow> Inr r
      | Some as \<Rightarrow>
          if length as \<noteq> sum_list (map (\<lambda>s. length (ts_token_ids s)) (ro_samples r)) then Inl ValueError
          else Inr (r\<lparr>ro_samples := map2 (\<lambda>s xs. s\<lparr>ts_advantages := Some xs\<rparr>) (ro_samples r) (slice_stream as (ro_samples r))\<rparr>))"

definition stamp_rollout :: "action_loss \<Rightarrow> rollout \<Rightarrow> error + rollout" where
  "stamp_rollout loss r =
     and_then (stamp_advantages r) (\<lambda>r1.
     and_then (each (stamp_loss_routing loss) (ro_samples r1)) (\<lambda>ss. Inr (r1\<lparr>ro_samples := ss\<rparr>)))"

definition finalize_rollout :: "algorithm \<Rightarrow> rollout \<Rightarrow> error + rollout" where
  "finalize_rollout alg r = (if ro_samples r \<noteq> [] then score_rollout alg r else Inr r)"

definition finalize_group :: "algorithm \<Rightarrow> rollout list \<Rightarrow> error + rollout list" where
  "finalize_group alg rs = and_then (score_group alg rs) (each (stamp_rollout (action_loss_type alg)))"

section \<open>Filters\<close>

datatype rollout_filter =
    Gibberish (filter_name: string) (token_id_threshold: int) (logprob_threshold: rat) (enforce: bool)
  | Repetition (filter_name: string) (window: nat) (logprob_threshold: rat) (enforce: bool)
  | Zero_Advantage (filter_name: string) (enforce: bool)

fun streak_detected :: "nat \<Rightarrow> rat \<Rightarrow> (rat \<times> bool) list \<Rightarrow> nat \<Rightarrow> bool" where
  "streak_detected w threshold [] consecutive = False"
| "streak_detected w threshold ((logprob, sampled) # xs) consecutive =
     (if \<not> sampled then streak_detected w threshold xs consecutive
      else let c = (if logprob > threshold then consecutive + 1 else 0)
           in if c \<ge> w then True else streak_detected w threshold xs c)"

fun check :: "rollout_filter \<Rightarrow> rollout \<Rightarrow> bool" where
  "check (Gibberish name token_threshold threshold enf) r =
     list_ex (\<lambda>b. list_ex (\<lambda>(t, lp, sampled). sampled \<and> t > token_threshold \<and> lp < threshold)
       (zip (br_token_ids b) (zip (br_logprobs b) (br_sampled_mask b)))) (ro_branches r)"
| "check (Repetition name w threshold enf) r =
     list_ex (\<lambda>b. streak_detected w threshold (zip (br_logprobs b) (br_sampled_mask b)) 0) (ro_branches r)"
| "check (Zero_Advantage name enf) r =
     (case ro_advantages r of None \<Rightarrow> False | Some as \<Rightarrow> list_all (\<lambda>a. a = 0) as)"

fun set_result :: "string \<Rightarrow> (string \<times> bool) list \<Rightarrow> (string \<times> bool) list" where
  "set_result name [] = []"
| "set_result name ((n, b) # results) = (if n = name then (n, True) # results else (n, b) # set_result name results)"

text \<open>The loop over the filters stops at the first that detects.\<close>

fun run_filters :: "rollout_filter list \<Rightarrow> rollout \<Rightarrow> rollout" where
  "run_filters [] r = r"
| "run_filters (f # fs) r =
     (if check f r then r\<lparr>ro_filter_results := set_result (filter_name f) (ro_filter_results r),
                         ro_is_filtered := (enforce f \<or> ro_is_filtered r)\<rparr>
      else run_filters fs r)"

definition apply_filters :: "rollout_filter list \<Rightarrow> rollout list \<Rightarrow> rollout list" where
  "apply_filters fs rs =
     map (\<lambda>r. run_filters fs (r\<lparr>ro_filter_results := map (\<lambda>f. (filter_name f, False)) fs, ro_is_filtered := False\<rparr>)) rs"

section \<open>Streaks\<close>

text \<open>What the repetition filter looks for: a window of consecutive sampled tokens above the threshold.\<close>

definition has_run :: "nat \<Rightarrow> bool list \<Rightarrow> bool" where
  "has_run w p \<longleftrightarrow> (\<exists>i. i + w \<le> length p \<and> (\<forall>j < w. p ! (i + j)))"

definition confident :: "rat \<Rightarrow> trace_branch \<Rightarrow> bool list" where
  "confident threshold b =
     map (\<lambda>(lp, _). lp > threshold) (filter snd (zip (br_logprobs b) (br_sampled_mask b)))"

lemma has_run_full: "w \<le> n \<Longrightarrow> has_run w (replicate n True @ p)"
  unfolding has_run_def by (rule exI [of _ 0]) (simp add: nth_append)

lemma has_run_broken:
  assumes "c < w"
  shows "has_run w (replicate c True @ False # p) = has_run w p"
proof
  assume "has_run w (replicate c True @ False # p)"
  then obtain i where i: "i + w \<le> Suc (c + length p)" "\<forall>j < w. (replicate c True @ False # p) ! (i + j)"
    by (auto simp: has_run_def)
  have "c < i"
  proof (rule ccontr)
    assume "\<not> c < i"
    then have "c - i < w" "i + (c - i) = c" using assms by auto
    with i(2) have "(replicate c True @ False # p) ! c" by metis
    then show False by (simp add: nth_append)
  qed
  then have "p ! (i - Suc c + j)" if "j < w" for j
    using i(2) that by (auto simp: nth_append nth_Cons' dest!: spec [of _ j] split: if_splits)
  moreover have "i - Suc c + w \<le> length p" using i(1) \<open>c < i\<close> by simp
  ultimately show "has_run w p" unfolding has_run_def by blast
next
  assume "has_run w p"
  then obtain i where i: "i + w \<le> length p" "\<forall>j < w. p ! (i + j)" by (auto simp: has_run_def)
  then show "has_run w (replicate c True @ False # p)"
    unfolding has_run_def by (intro exI [of _ "Suc c + i"]) (auto simp: nth_append)
qed

lemma streak_detected_iff:
  assumes "c < w"
  shows "streak_detected w threshold xs c =
    has_run w (replicate c True @ map (\<lambda>(lp, _). lp > threshold) (filter snd xs))"
  using assms
proof (induction xs arbitrary: c)
  case Nil
  then show ?case by (auto simp: has_run_def)
next
  case (Cons x xs)
  obtain lp sampled where x: "x = (lp, sampled)" by (cases x)
  show ?case
  proof (cases "sampled \<and> lp > threshold")
    case True
    show ?thesis
    proof (cases "w \<le> Suc c")
      case True
      with \<open>sampled \<and> lp > threshold\<close> x has_run_full [OF True] show ?thesis
        by (simp add: replicate_app_Cons_same flip: append_Cons replicate_Suc)
    next
      case False
      with \<open>sampled \<and> lp > threshold\<close> x Cons.IH [of "Suc c"] show ?thesis
        by (simp add: replicate_app_Cons_same)
    qed
  next
    case False
    with x Cons.IH [of 0] Cons.IH [of c] Cons.prems show ?thesis by (auto simp: has_run_broken)
  qed
qed

section \<open>Filters in order\<close>

lemma check_frame [simp]:
  "check f (r\<lparr>ro_filter_results := x\<rparr>) = check f r"
  "check f (r\<lparr>ro_is_filtered := y\<rparr>) = check f r"
  by (cases f; simp)+

lemma run_filters_find:
  "run_filters fs r =
     (case find (\<lambda>f. check f r) fs of
        None \<Rightarrow> r
      | Some f \<Rightarrow> r\<lparr>ro_filter_results := set_result (filter_name f) (ro_filter_results r),
                    ro_is_filtered := (enforce f \<or> ro_is_filtered r)\<rparr>)"
  by (induction fs) auto

lemma set_result_count:
  "filter snd results = [] \<Longrightarrow>
     length (filter snd (set_result name results)) = (if name \<in> fst ` set results then 1 else 0)"
  by (induction results) (auto split: if_splits)

section \<open>Credit\<close>

lemma sum_centered: "sum_list (centered xs) = 0"
proof (cases xs)
  case Nil
  then show ?thesis by (simp add: centered_def)
next
  case (Cons x ys)
  have "sum_list (map (\<lambda>x. x - m) zs) = sum_list zs - of_nat (length zs) * m" for m :: rat and zs
    by (induction zs) (auto simp: algebra_simps)
  then have "sum_list (centered xs) = sum_list xs - of_nat (length xs) * mean xs"
    unfolding centered_def .
  with Cons show ?thesis by (simp add: mean_def)
qed

definition sample_aligned :: "training_sample \<Rightarrow> bool" where
  "sample_aligned s \<longleftrightarrow> length (ts_mask s) = length (ts_token_ids s)"

lemma slice_concat:
  "\<forall>s \<in> set ss. length (f s) = length (ts_token_ids s) \<Longrightarrow> slice_stream (concat (map f ss)) ss = map f ss"
  by (induction ss) auto

lemma stamp_scalar:
  assumes "\<forall>s \<in> set (ro_samples r). sample_aligned s"
  shows "stamp_advantages (assign_scalar v r) =
    Inr ((assign_scalar v r)\<lparr>ro_samples :=
      map (\<lambda>s. s\<lparr>ts_advantages := Some (map (\<lambda>m. if m then v else 0) (ts_mask s))\<rparr>) (ro_samples r)\<rparr>)"
proof -
  have "length (concat (map (\<lambda>s. map (\<lambda>m. if m then v else 0) (ts_mask s)) ss)) = sum_list (map (\<lambda>s. length (ts_token_ids s)) ss)"
    if "\<forall>s \<in> set ss. sample_aligned s" for ss
    using that by (induction ss) (auto simp: sample_aligned_def)
  with assms show ?thesis
    by (auto simp: stamp_advantages_def assign_scalar_def slice_concat sample_aligned_def zip_map2 split_beta zip_same_conv_map)
qed

lemma each_Inr_self [simp]: "each Inr xs = Inr xs"
  by (induction xs) auto

lemma each_map_total: "(\<And>x. x \<in> set xs \<Longrightarrow> f x = Inr (g x)) \<Longrightarrow> each f xs = Inr (map g xs)"
  by (induction xs) auto

lemma stamp_loss_Rl [simp]: "stamp_loss_routing Rl = Inr"
  by (rule ext) (simp add: stamp_loss_routing_def)

section \<open>Observation weights stay off the trained tokens\<close>

lemma weigh_token_frame:
  assumes "weigh_token w skip keep i ws = Inr ws'"
  shows "length ws' = length ws \<and> (\<forall>j. j \<noteq> i \<longrightarrow> ws' ! j = ws ! j)"
  using assms by (auto simp: weigh_token_def split: if_splits option.splits)

lemma weigh_tokens_frame:
  "fold_step (weigh_token w skip keep) is ws = Inr ws' \<Longrightarrow> length ws' = length ws \<and> (\<forall>j. j \<notin> set is \<longrightarrow> ws' ! j = ws ! j)"
  by (induction "is" arbitrary: ws) (auto simp: and_then_eq_Inr dest!: weigh_token_frame)

definition node_ok :: "trace_node \<Rightarrow> bool" where
  "node_ok n \<longleftrightarrow> length (n_mask n) = length (n_token_ids n) \<and> (\<not> n_sampled n \<longrightarrow> True \<notin> set (n_mask n))"

lemma weigh_nodes_frame:
  assumes "weigh_nodes rw keep nodes offset seen ws = Inr ws'" "\<forall>n \<in> set nodes. node_ok n"
  shows "length ws' = length ws \<and> (\<forall>i. ws' ! i \<noteq> ws ! i \<longrightarrow>
    offset \<le> i \<and> i - offset < length (concat (map n_mask nodes)) \<and> \<not> concat (map n_mask nodes) ! (i - offset))"
  using assms
proof (induction nodes arbitrary: offset seen ws)
  case (Cons n nodes)
  let ?span = "length (n_token_ids n)"
  have ok: "length (n_mask n) = ?span" "\<not> n_sampled n \<Longrightarrow> k < ?span \<Longrightarrow> \<not> n_mask n ! k" for k
    using Cons.prems(2) by (auto simp: node_ok_def in_set_conv_nth)
  obtain ws1 where rest: "weigh_nodes rw keep nodes (offset + ?span) (seen \<or> n_sampled n) ws1 = Inr ws'"
    and first: "length ws1 = length ws" "\<And>j. ws1 ! j \<noteq> ws ! j \<Longrightarrow> \<not> n_sampled n \<and> offset \<le> j \<and> j < offset + ?span"
  proof (cases "seen \<and> \<not> n_sampled n \<and> map_of rw (n_role n) \<noteq> None")
    case False
    with Cons.prems(1) have "weigh_nodes rw keep nodes (offset + ?span) (seen \<or> n_sampled n) ws = Inr ws'"
      by (auto simp: Let_def split: if_splits option.splits)
    then show ?thesis using that [of ws] by simp
  next
    case True
    then obtain weight ws1 where w: "fold_step (weigh_token weight (\<lambda>i. length (n_is_content n) = ?span \<and> \<not> n_is_content n ! (i - offset)) keep)
        [offset..<offset + ?span] ws = Inr ws1"
      and r: "weigh_nodes rw keep nodes (offset + ?span) (seen \<or> n_sampled n) ws1 = Inr ws'"
      using Cons.prems(1) by (auto simp: and_then_eq_Inr Let_def)
    from weigh_tokens_frame [OF w] have "length ws1 = length ws" "\<And>j. ws1 ! j \<noteq> ws ! j \<Longrightarrow> offset \<le> j \<and> j < offset + ?span"
      by (auto simp: set_upt)
    with that [OF r] True show ?thesis by blast
  qed
  have tail: "length ws' = length ws1" "\<And>j. ws' ! j \<noteq> ws1 ! j \<Longrightarrow> offset + ?span \<le> j \<and>
      j - (offset + ?span) < length (concat (map n_mask nodes)) \<and> \<not> concat (map n_mask nodes) ! (j - (offset + ?span))"
    using Cons.IH [OF rest] Cons.prems(2) by auto
  have "offset \<le> i \<and> i - offset < length (concat (map n_mask (n # nodes))) \<and> \<not> concat (map n_mask (n # nodes)) ! (i - offset)"
    if "ws' ! i \<noteq> ws ! i" for i
  proof (cases "ws' ! i = ws1 ! i")
    case True
    with that first(2) [of i] ok(1) ok(2) [of "i - offset"] show ?thesis by (auto simp: nth_append)
  next
    case False
    with tail(2) [OF False] ok(1) show ?thesis by (auto simp: nth_append)
  qed
  with first(1) tail(1) show ?case by auto
qed simp

lemma branch_mask_below:
  "list_all2 (\<lambda>a b. a \<longrightarrow> b) (fst (branch_mask nodes trained)) (concat (map n_mask nodes))"
proof (induction nodes arbitrary: trained)
  case (Cons n nodes)
  have "list_all2 (\<lambda>a b. a \<longrightarrow> b) (replicate (length (n_mask n)) False) (n_mask n)"
    "list_all2 (\<lambda>a b. a \<longrightarrow> b) (n_mask n) (n_mask n)"
    by (simp_all add: list_all2_conv_all_nth)
  with Cons show ?case by (auto simp: split_beta intro!: list_all2_appendI)
qed simp

text \<open>The components that train a token, as the loss reads the streams.\<close>

definition weight_at :: "rat list option \<Rightarrow> nat \<Rightarrow> rat \<Rightarrow> rat" where
  "weight_at ws i absent = (case ws of None \<Rightarrow> absent | Some xs \<Rightarrow> if i < length xs then xs ! i else 0)"

definition components :: "training_sample \<Rightarrow> nat \<Rightarrow> action_loss list" where
  "components s i =
     (if i < length (ts_mask s) \<and> ts_mask s ! i \<and> weight_at (ts_rl_weights s) i 1 \<noteq> 0 then [Rl] else []) @
     (if weight_at (ts_ce_weights s) i 0 \<noteq> 0 then [Ce] else []) @
     (if weight_at (ts_ref_kl_weights s) i 0 \<noteq> 0 then [Ref_kl] else [])"

text \<open>A fresh sample carries no stream but perhaps observation weights off its trained tokens.\<close>

definition fresh_sample :: "training_sample \<Rightarrow> bool" where
  "fresh_sample s \<longleftrightarrow> sample_aligned s \<and> ts_rl_weights s = None \<and> ts_ref_kl_weights s = None \<and>
     (\<forall>ws. ts_ce_weights s = Some ws \<longrightarrow> length ws = length (ts_token_ids s) \<and>
        (\<forall>i < length ws. ts_mask s ! i \<longrightarrow> ws ! i = 0))"

lemma weigh_sample_fresh:
  assumes "weigh_sample rw keep s b = Inr s'" "fresh_sample s" "\<forall>n \<in> set (br_nodes b). node_ok n"
    and "list_all2 (\<lambda>a b. a \<longrightarrow> b) (ts_mask s) (concat (map n_mask (br_nodes b)))"
  shows "fresh_sample s' \<and> ts_mask s' = ts_mask s \<and> ts_token_ids s' = ts_token_ids s \<and> ts_advantages s' = ts_advantages s"
proof -
  let ?zeros = "replicate (length (ts_token_ids s)) (0 :: rat)"
  obtain ws where ws: "weigh_nodes rw keep (br_nodes b) 0 False ?zeros = Inr ws"
    and s': "s' = (if list_ex (\<lambda>w. w \<noteq> 0) ws then s\<lparr>ts_ce_weights := Some ws\<rparr> else s)"
    using assms(1) by (auto simp: weigh_sample_def and_then_eq_Inr)
  note f = weigh_nodes_frame [OF ws assms(3)]
  have "ws ! i = 0" if "i < length ws" "ts_mask s ! i" for i
  proof (rule ccontr)
    assume "ws ! i \<noteq> 0"
    with that f have "\<not> concat (map n_mask (br_nodes b)) ! i" "i < length (concat (map n_mask (br_nodes b)))" by auto
    with that assms(4) show False by (auto simp: list_all2_conv_all_nth)
  qed
  with f assms(2) s' show ?thesis by (auto simp: fresh_sample_def sample_aligned_def)
qed

lemma trace_samples_fresh:
  assumes "trace_to_samples concatenate env mapping (iter_trainable_branches branches) = Inr samples" "\<forall>b \<in> set branches. branch_ok b"
  shows "list_all2 (\<lambda>s b. fresh_sample s \<and> ts_advantages s = None \<and> (\<forall>n \<in> set (br_nodes b). node_ok n) \<and>
      list_all2 (\<lambda>a b. a \<longrightarrow> b) (ts_mask s) (concat (map n_mask (br_nodes b))))
    samples (map fst (iter_trainable_branches branches))"
proof -
  note d = trace_to_samplesD [OF assms(1)]
  have mask: "b \<in> set branches \<and> length m = length (br_token_ids b) \<and>
      list_all2 (\<lambda>a b. a \<longrightarrow> b) m (concat (map n_mask (br_nodes b)))"
    if "(b, m) \<in> set (iter_trainable_branches branches)" for b m
  proof -
    have "list_all2 (\<lambda>a b. a \<longrightarrow> b) m (concat (map n_mask (br_nodes b)))"
      if "(b, m) \<in> set (trainable_branches bs trained)" for bs trained
      using that by (induction bs arbitrary: trained) (auto simp: split_beta branch_mask_below split: if_splits)
    with that trainable_branches_mask [OF assms(2)] show ?thesis unfolding iter_trainable_branches_def by blast
  qed
  have len: "length samples = length (iter_trainable_branches branches)" using d by (metis length_map)
  show ?thesis
  proof (rule list_all2_all_nthI)
    show "length samples = length (map fst (iter_trainable_branches branches))" using len by simp
    fix i assume i: "i < length samples"
    obtain b m where bm: "iter_trainable_branches branches ! i = (b, m)" by fastforce
    then have m: "b \<in> set branches" "length m = length (br_token_ids b)"
        "list_all2 (\<lambda>a b. a \<longrightarrow> b) m (concat (map n_mask (br_nodes b)))"
      using mask i len by (metis nth_mem)+
    have "ts_mask (samples ! i) = m" "ts_token_ids (samples ! i) = br_token_ids b"
      using d i len bm by (metis (no_types, lifting) nth_map fst_conv snd_conv comp_apply)+
    moreover have "samples ! i \<in> set samples" using i by simp
    ultimately show "fresh_sample (samples ! i) \<and> ts_advantages (samples ! i) = None \<and>
        (\<forall>n \<in> set (br_nodes (map fst (iter_trainable_branches branches) ! i)). node_ok n) \<and>
        list_all2 (\<lambda>a b. a \<longrightarrow> b) (ts_mask (samples ! i)) (concat (map n_mask (br_nodes (map fst (iter_trainable_branches branches) ! i))))"
      using d m assms(2) i len bm by (auto simp: fresh_sample_def sample_aligned_def branch_ok_def node_ok_def)
  qed
qed

section \<open>The finalized samples\<close>

lemma each_list_all2:
  assumes "each f xs = Inr ys" "list_all2 P xs zs" "\<And>x y z. P x z \<Longrightarrow> f x = Inr y \<Longrightarrow> Q y"
  shows "\<forall>y \<in> set ys. Q y"
  using assms(2,1)
proof (induction arbitrary: ys rule: list_all2_induct)
  case (Cons x xs z zs)
  then show ?case using assms(3) by (auto simp: and_then_eq_Inr)
qed simp

lemma score_rollout_fresh:
  assumes "finalize_rollout alg r = Inr r1" "\<forall>b \<in> set (ro_branches r). branch_ok b"
    and "trace_to_samples concatenate env mapping (iter_trainable_branches (ro_branches r)) = Inr (ro_samples r)"
  shows "\<forall>s \<in> set (ro_samples r1). fresh_sample s"
proof -
  let ?bs = "map fst (iter_trainable_branches (ro_branches r))"
  note f = trace_samples_fresh [OF assms(3,2)]
  then have fresh: "\<forall>s \<in> set (ro_samples r). fresh_sample s" and len: "length (ro_samples r) = length ?bs"
    by (auto simp: list_all2_conv_all_nth in_set_conv_nth)
  show ?thesis
  proof (cases alg)
    case (Echo rw filter_fn lp)
    show ?thesis
    proof (cases "ro_samples r = []")
      case True
      with assms(1) show ?thesis by (simp add: finalize_rollout_def)
    next
      case False
      with assms(1) Echo obtain masks ss where
        m: "(case filter_fn of None \<Rightarrow> Inr (map (\<lambda>_. None) ?bs)
             | Some g \<Rightarrow> and_then (filter_masks g r ?bs) (\<lambda>ms. Inr (map Some ms))) = Inr masks"
        and ss: "each (\<lambda>(s, b, m). weigh_sample rw m s b) (zip (ro_samples r) (zip ?bs masks)) = Inr ss"
        and r1: "ro_samples r1 = ss @ drop (length ?bs) (ro_samples r)"
        by (auto simp: finalize_rollout_def weight_observations_def Let_def and_then_eq_Inr)
      have "length masks = length ?bs"
        using m by (auto simp: and_then_eq_Inr filter_masks_def Let_def split: option.splits if_splits)
      then have "list_all2 (\<lambda>(s, b, m) _. fresh_sample s \<and> (\<forall>n \<in> set (br_nodes b). node_ok n) \<and>
          list_all2 (\<lambda>a b. a \<longrightarrow> b) (ts_mask s) (concat (map n_mask (br_nodes b))))
          (zip (ro_samples r) (zip ?bs masks)) (zip (ro_samples r) (zip ?bs masks))"
        using f by (auto simp: list_all2_conv_all_nth)
      from each_list_all2 [OF ss this, of fresh_sample] have "\<forall>s \<in> set ss. fresh_sample s"
        using weigh_sample_fresh by fastforce
      with r1 len show ?thesis by simp
    qed
  qed (use assms(1) fresh in \<open>auto simp: finalize_rollout_def fresh_sample_def sample_aligned_def split: if_splits\<close>)
qed

text \<open>What the trainer relies on: a trained token feeds the declared component and no other, a token
  off the mask feeds at most \<open>ce\<close>, and a sample with live tokens of \<open>rl\<close> has an advantage stream.\<close>

definition routed :: "action_loss \<Rightarrow> training_sample \<Rightarrow> bool" where
  "routed loss s \<longleftrightarrow>
     (\<forall>i. components s i = (if i < length (ts_mask s) \<and> ts_mask s ! i then [loss]
        else if weight_at (ts_ce_weights s) i 0 \<noteq> 0 then [Ce] else [])) \<and>
     \<not> (ts_advantages s = None \<and> has_rl_members s)"

lemma fresh_advantages: "fresh_sample s \<Longrightarrow> fresh_sample (s\<lparr>ts_advantages := a\<rparr>)"
  by (simp add: fresh_sample_def sample_aligned_def)

lemma fresh_ce_zero: "fresh_sample s \<Longrightarrow> i < length (ts_mask s) \<Longrightarrow> ts_mask s ! i \<Longrightarrow> weight_at (ts_ce_weights s) i 0 = 0"
  by (auto simp: fresh_sample_def sample_aligned_def weight_at_def split: option.split)

lemma routed_Rl: "fresh_sample s \<Longrightarrow> ts_advantages s \<noteq> None \<Longrightarrow> routed Rl s"
  using fresh_ce_zero [of s] by (auto simp: routed_def components_def fresh_sample_def weight_at_def)

lemma routed_Ref_kl:
  assumes "stamp_loss_routing Ref_kl s = Inr s'" "fresh_sample s"
  shows "routed Ref_kl s'"
proof -
  let ?n = "length (ts_token_ids s)"
  let ?w = "map (\<lambda>(i, w). if i < length (ts_mask s) \<and> ts_mask s ! i then 1 else w) (enumerate 0 (replicate ?n (0 :: rat)))"
  have s': "s' = s\<lparr>ts_rl_weights := Some (replicate ?n 0), ts_ref_kl_weights := Some ?w\<rparr>"
    using assms(1) by (auto simp: stamp_loss_routing_def Let_def split: if_splits option.splits)
  have n: "length (ts_mask s) = ?n" using assms(2) by (simp add: fresh_sample_def sample_aligned_def)
  have "weight_at (Some ?w) i 0 \<noteq> 0 \<longleftrightarrow> i < ?n \<and> ts_mask s ! i" for i
    by (auto simp: weight_at_def nth_enumerate_eq n)
  moreover have "weight_at (Some (replicate ?n 0)) i 1 = 0" for i by (simp add: weight_at_def)
  moreover have "\<not> has_rl_members s'"
    by (auto simp: has_rl_members_def s' list_ex_iff set_zip)
  ultimately show ?thesis
    using fresh_ce_zero [OF assms(2)] by (auto simp: routed_def components_def s' n simp del: map_map)
qed

lemma stamp_rollout_routed:
  assumes "stamp_rollout loss r = Inr r'" "\<forall>s \<in> set (ro_samples r). fresh_sample s" "loss = Rl \<and> ro_advantages r \<noteq> None \<or> loss = Ref_kl"
  shows "\<forall>s \<in> set (ro_samples r'). routed loss s"
proof -
  obtain r1 where a: "stamp_advantages r = Inr r1" and e: "each (stamp_loss_routing loss) (ro_samples r1) = Inr (ro_samples r')"
    using assms(1) by (auto simp: stamp_rollout_def and_then_eq_Inr)
  have fresh: "\<forall>s \<in> set (ro_samples r1). fresh_sample s \<and> (ro_advantages r \<noteq> None \<longrightarrow> ts_advantages s \<noteq> None)"
    using a assms(2) by (auto simp: stamp_advantages_def fresh_advantages split: option.splits if_splits dest!: set_zip_leftD)
  show ?thesis
  proof (cases "loss = Rl")
    case True
    with e fresh assms(3) routed_Rl show ?thesis by auto
  next
    case False
    with assms(3) have "loss = Ref_kl" by simp
    with each_InrD [OF e] fresh routed_Ref_kl show ?thesis by blast
  qed
qed

lemma score_group_frame:
  assumes "score_group alg rs = Inr rs'" "r' \<in> set rs'"
  shows "\<exists>r \<in> set rs. ro_samples r' = ro_samples r \<and> (action_loss_type alg = Rl \<longrightarrow> ro_advantages r' \<noteq> None)"
proof -
  have map2: "\<exists>r \<in> set rs. ro_samples r' = ro_samples r \<and> ro_advantages r' \<noteq> None"
    if "r' \<in> set (map2 assign_scalar as rs)" for as
    using that by (auto simp: assign_scalar_def dest!: set_zip_rightD)
  show ?thesis using assms map2 by (cases alg) (auto simp: and_then_eq_Inr)
qed

section \<open>Properties\<close>

text \<open>C26: the repetition filter flags a rollout exactly when some branch has a window of consecutive
  sampled tokens above the threshold: the streak counter with its early exit misses none and
  invents none.\<close>

theorem repetition_detected_iff:
  assumes "0 < w"
  shows "check (Repetition name w threshold enf) r \<longleftrightarrow>
    (\<exists>b \<in> set (ro_branches r). \<exists>i. i + w \<le> length (confident threshold b) \<and> (\<forall>j < w. confident threshold b ! (i + j)))"
  using streak_detected_iff [OF assms] by (simp add: list_ex_iff has_run_def confident_def)

text \<open>Filters only mark: a rollout is dropped exactly when the first filter that detects it
  enforces, at most one filter is recorded for it, and its samples, advantages and reward stay.\<close>

theorem filters_only_mark:
  "list_all2 (\<lambda>r r'. ro_is_filtered r' = (case find (\<lambda>f. check f r) fs of None \<Rightarrow> False | Some f \<Rightarrow> enforce f) \<and>
     length (filter snd (ro_filter_results r')) = (if list_ex (\<lambda>f. check f r) fs then 1 else 0) \<and>
     ro_samples r' = ro_samples r \<and> ro_advantages r' = ro_advantages r \<and> ro_reward r' = ro_reward r)
   rs (apply_filters fs rs)"
proof -
  have "length (filter snd (set_result (filter_name f) (map (\<lambda>f. (filter_name f, False)) fs))) = 1" if "f \<in> set fs" for f
    using that by (subst set_result_count) (auto simp: filter_map o_def image_image)
  then have one: "length (filter snd (set_result (filter_name f) (map (\<lambda>f. (filter_name f, False)) fs))) = Suc 0"
    if "find (\<lambda>f. check f r) fs = Some f" for f r
    using that by (auto simp: find_Some_iff)
  have "list_ex (\<lambda>f. check f r) fs \<longleftrightarrow> find (\<lambda>f. check f r) fs \<noteq> None" for r
    by (auto simp: find_None_iff list_ex_iff)
  with one show ?thesis
    by (auto simp: list_all2_conv_all_nth apply_filters_def run_filters_find filter_map o_def split: option.split)
qed

text \<open>C28: GRPO credit: the group is always scored, every trainable token carries its rollout's reward
  minus the mean of the group, every other token zero, and the credits of a group sum up to zero.\<close>

theorem grpo_credit:
  assumes "\<forall>r \<in> set rs. \<forall>s \<in> set (ro_samples r). sample_aligned s"
  shows "\<exists>rs'. finalize_group (Grpo None) rs = Inr rs' \<and>
    list_all2 (\<lambda>r r'. map ts_advantages (ro_samples r') =
      map (\<lambda>s. Some (map (\<lambda>m. if m then ro_reward r - mean (map ro_reward rs) else 0) (ts_mask s))) (ro_samples r)) rs rs' \<and>
    sum_list (map (\<lambda>r. ro_reward r - mean (map ro_reward rs)) rs) = 0"
proof -
  let ?m = "mean (map ro_reward rs)"
  let ?final = "\<lambda>r. (assign_scalar (ro_reward r - ?m) r)\<lparr>ro_samples :=
      map (\<lambda>s. s\<lparr>ts_advantages := Some (map (\<lambda>m. if m then ro_reward r - ?m else 0) (ts_mask s))\<rparr>) (ro_samples r)\<rparr>"
  have "map2 assign_scalar (centered (map ro_reward rs)) rs = map (\<lambda>r. assign_scalar (ro_reward r - ?m) r) rs"
    by (simp add: centered_def zip_map1 zip_same_conv_map)
  moreover have "each (stamp_rollout Rl) (map (\<lambda>r. assign_scalar (ro_reward r - m) r) xs) =
      Inr (map (\<lambda>r. (assign_scalar (ro_reward r - m) r)\<lparr>ro_samples :=
        map (\<lambda>s. s\<lparr>ts_advantages := Some (map (\<lambda>k. if k then ro_reward r - m else 0) (ts_mask s))\<rparr>) (ro_samples r)\<rparr>) xs)"
    if "\<forall>r \<in> set xs. \<forall>s \<in> set (ro_samples r). sample_aligned s" for xs m
    using that by (induction xs) (auto simp: stamp_rollout_def stamp_scalar)
  from this [OF assms] have "each (stamp_rollout Rl) (map (\<lambda>r. assign_scalar (ro_reward r - ?m) r) rs) = Inr (map ?final rs)" .
  ultimately have "finalize_group (Grpo None) rs = Inr (map ?final rs)"
    by (simp add: finalize_group_def grpo_advantages_def)
  moreover have "sum_list (map (\<lambda>r. ro_reward r - ?m) rs) = 0"
    using sum_centered [of "map ro_reward rs"] by (simp add: centered_def o_def)
  ultimately show ?thesis by (auto simp: list_all2_conv_all_nth)
qed

text \<open>C29: whatever the algorithm, a finalized sample trains each token of its mask with the declared
  component alone, observation weights only reach tokens off the mask, and the trainer's demand for
  an advantage stream is met.\<close>

theorem one_component_per_token:
  assumes "\<forall>r \<in> set rs. (\<forall>b \<in> set (ro_branches r). branch_ok b) \<and>
      trace_to_samples concatenate env mapping (iter_trainable_branches (ro_branches r)) = Inr (ro_samples r)"
    and "each (finalize_rollout alg) rs = Inr rs1" "finalize_group alg rs1 = Inr rs2"
  shows "\<forall>r \<in> set rs2. \<forall>s \<in> set (ro_samples r). routed (action_loss_type alg) s"
proof
  fix r2 assume r2: "r2 \<in> set rs2"
  obtain scored where scored: "score_group alg rs1 = Inr scored" "each (stamp_rollout (action_loss_type alg)) scored = Inr rs2"
    using assms(3) by (auto simp: finalize_group_def and_then_eq_Inr)
  obtain r' where r': "r' \<in> set scored" "stamp_rollout (action_loss_type alg) r' = Inr r2"
    using each_InrD [OF scored(2) r2] by blast
  obtain r1 where r1: "r1 \<in> set rs1" "ro_samples r' = ro_samples r1" "action_loss_type alg = Rl \<longrightarrow> ro_advantages r' \<noteq> None"
    using score_group_frame [OF scored(1) r'(1)] by blast
  obtain r where r: "r \<in> set rs" "finalize_rollout alg r = Inr r1" using each_InrD [OF assms(2) r1(1)] by blast
  have "\<forall>s \<in> set (ro_samples r1). fresh_sample s" using score_rollout_fresh [OF r(2)] assms(1) r(1) by blast
  moreover have "action_loss_type alg = Rl \<or> action_loss_type alg = Ref_kl" by (cases alg) simp_all
  ultimately show "\<forall>s \<in> set (ro_samples r2). routed (action_loss_type alg) s"
    using stamp_rollout_routed [OF r'(2)] r1(2,3) by auto
qed

section \<open>A group of two rollouts\<close>

text \<open>Two rollouts of a prompt and one model turn, rewarded 1 and 0.\<close>

definition scored_rollout :: "rat \<Rightarrow> training_sample list \<Rightarrow> rollout" where
  "scored_rollout reward samples =
     \<lparr>ro_branches = [branch_of [turn 0 False, turn 1 True, turn 2 False]], ro_reward = reward, ro_num_output_tokens = 2,
      ro_num_total_tokens = 6, ro_num_turns = 1, ro_metrics = [], ro_env_name = ''env'', ro_samples = samples,
      ro_advantages = None, ro_is_filtered = False, ro_filter_results = [],
      ro_kind = Train, ro_group_id = ''g0'', ro_episode_id = ''e0'', ro_policy_version = 0, ro_policy_id = None,
      ro_policy_digest = None, ro_ok = True, ro_errors = [], ro_trainable = True, ro_task_data = [], ro_call_models = []\<rparr>"

definition turn_sample :: training_sample where
  "turn_sample = \<lparr>ts_token_ids = [0, 9, 1, 9, 2, 9], ts_mask = [False, False, False, True, False, False],
     ts_logprobs = [-1, -1, -1, -1, -1, -1], ts_temperatures = [], ts_env_name = ''env'', ts_ref_logprobs = None,
     ts_mm_kwargs = None, ts_routed_experts = None, ts_mm_token_type_ids = None, ts_rl_weights = None,
     ts_ce_weights = None, ts_ref_kl_weights = None, ts_advantages = None, ts_behavior_policy_id = None,
     ts_behavior_policy_version = None, ts_behavior_policy_digest = None\<rparr>"

definition two_rollouts :: "rollout list" where
  "two_rollouts = [scored_rollout 1 [turn_sample], scored_rollout 0 [turn_sample]]"

lemma turn_samples:
  "trace_to_samples no_images ''env'' None (iter_trainable_branches [branch_of [turn 0 False, turn 1 True, turn 2 False]]) =
     Inr [turn_sample]"
  by code_simp

lemma repetition_detected_iff_witness:
  "\<not> check (Repetition ''repetition'' 2 (-2) True) (scored_rollout 1 [turn_sample])"
proof -
  have "confident (-2) (branch_of [turn 0 False, turn 1 True, turn 2 False]) = [True]"
    by (simp add: confident_def branch_of_def turn_def)
  then show ?thesis
    by (subst repetition_detected_iff) (auto simp: scored_rollout_def)
qed

lemma grpo_credit_witness:
  "\<exists>rs'. finalize_group (Grpo None) two_rollouts = Inr rs' \<and>
     map (\<lambda>r. map ts_advantages (ro_samples r)) rs' = [[Some [0, 0, 0, 1/2, 0, 0]], [Some [0, 0, 0, -1/2, 0, 0]]]"
proof -
  have "\<forall>r \<in> set two_rollouts. \<forall>s \<in> set (ro_samples r). sample_aligned s"
    by (simp add: two_rollouts_def scored_rollout_def sample_aligned_def turn_sample_def)
  from grpo_credit [OF this] show ?thesis
    by (auto simp: two_rollouts_def scored_rollout_def turn_sample_def mean_def list_all2_Cons1)
qed

lemma one_component_per_token_witness:
  "\<exists>rs1 rs2. finalize_group (Echo [(''tool'', 1/10)] None None) rs1 = Inr rs2 \<and> rs2 \<noteq> [] \<and>
     list_all (\<lambda>r. list_all (routed Rl) (ro_samples r)) rs2"
proof -
  let ?alg = "Echo [(''tool'', 1/10)] None None"
  let ?s = "turn_sample\<lparr>ts_ce_weights := Some [0, 0, 0, 0, 1/10, 1/10]\<rparr>"
  let ?rs1 = "[scored_rollout 1 [?s], scored_rollout 0 [?s]]"
  have 1: "each (finalize_rollout ?alg) two_rollouts = Inr ?rs1" by code_simp
  have "isl (finalize_group ?alg ?rs1) = False" by code_simp
  then obtain rs2 where 2: "finalize_group ?alg ?rs1 = Inr rs2" by (cases "finalize_group ?alg ?rs1") simp_all
  then have "rs2 \<noteq> []" by (auto simp: finalize_group_def and_then_eq_Inr grpo_advantages_def centered_def)
  moreover have "branch_ok (branch_of [turn 0 False, turn 1 True, turn 2 False])"
    by (simp add: branch_ok_def branch_of_def turn_def)
  then have "\<forall>r \<in> set two_rollouts. (\<forall>b \<in> set (ro_branches r). branch_ok b) \<and>
      trace_to_samples no_images ''env'' None (iter_trainable_branches (ro_branches r)) = Inr (ro_samples r)"
    by (simp add: two_rollouts_def scored_rollout_def turn_samples del: One_nat_def)
  from one_component_per_token [OF this 1 2] have "list_all (\<lambda>r. list_all (routed Rl) (ro_samples r)) rs2"
    by (simp add: list_all_iff)
  ultimately show ?thesis using 2 by blast
qed

end
