(* ===== verification/Result_Processing.thy ===== *)
theory Result_Processing
  imports Batch_Emission Scoring
begin

text \<open>
  From the results of a group to its payload (\<open>ResultProcessor._process_group\<close> and what it calls in
  \<open>coordinator/results.py\<close>): loading the episodes from the spool, stamping the rollouts, building and
  scoring the training samples, filtering, and recording the group. The types of the \<open>verifiers\<close>
  package appear by the fields that the code reads; what it computes is the record \<open>library\<close>.
\<close>

section \<open>Episodes\<close>

record wire_episode =
  ep_id :: id
  ep_env :: id
  ep_ok :: bool
  ep_error :: "(string \<times> string) option"
  ep_traces :: "rollout list"

text \<open>
  The decoded episode of an envelope, whether a rollout has an error (from its errors and its flag),
  the rollout of a failed assignment (from its task data and the error), the record of an evaluated
  rollout, the concatenation of tensors, and the digest of the canonical JSON of the inputs.
\<close>

record library =
  wire_episode_of :: "json \<Rightarrow> wire_episode"
  errors_flag :: "(string \<times> string) list \<Rightarrow> bool \<Rightarrow> bool"
  failed_rollout :: "json \<Rightarrow> string \<times> string \<Rightarrow> error + rollout"
  to_record :: "rollout \<Rightarrow> json"
  concatenate :: "encoded_tensor list \<Rightarrow> error + encoded_tensor"
  hash_inputs :: "id \<times> id \<times> string \<times> (id \<times> outcome \<times> digest option) list \<Rightarrow> digest"

definition has_error :: "library \<Rightarrow> rollout \<Rightarrow> bool" where
  "has_error L r = errors_flag L (ro_errors r) (ro_ok r)"

text \<open>A failed episode fails all its rollouts; an episode without traces raises an error with a message.\<close>

definition no_trace_message :: "wire_episode \<Rightarrow> string" where
  "no_trace_message ep = ''rollout failed before any trace was created: '' @
     (case ep_error ep of Some (t, m) \<Rightarrow> t @ '': '' @ m | None \<Rightarrow> ''no traces and no error recorded'')"

definition episode_error :: "wire_episode \<Rightarrow> string \<times> string" where
  "episode_error ep = (case ep_error ep of Some e \<Rightarrow> e | None \<Rightarrow> (''EpisodeFailed'', ''A sibling trace in this episode failed''))"

definition episode_to_rollouts :: "wire_episode \<Rightarrow> error + rollout list" where
  "episode_to_rollouts ep =
     (if ep_traces ep = [] then Inl RuntimeError
      else Inr (map (\<lambda>r. let r1 = r\<lparr>ro_episode_id := ep_id ep\<rparr> in
          if \<not> ep_ok ep \<and> ro_ok r1 then r1\<lparr>ro_errors := ro_errors r1 @ [episode_error ep], ro_ok := False\<rparr> else r1)
        (ep_traces ep)))"

definition outcome_text :: "outcome \<Rightarrow> string" where
  "outcome_text oc = (case oc of Out_result \<Rightarrow> ''result'' | Out_failure \<Rightarrow> ''failure''
     | Attempts_exhausted \<Rightarrow> ''attempts_exhausted'' | Deadline_exceeded \<Rightarrow> ''deadline_exceeded'')"

definition read_result :: "spool \<Rightarrow> string \<Rightarrow> error + string \<times> string" where
  "read_result sp path =
     and_then (resolve_result path) (\<lambda>name.
       case results sp name of None \<Rightarrow> Inl FileNotFoundError | Some data \<Rightarrow> Inr (name, data))"

definition load_episode :: "repository \<Rightarrow> library \<Rightarrow> spool \<Rightarrow> group_outcome \<Rightarrow> error + wire_episode" where
  "load_episode R L sp oc =
     (if go_outcome oc \<noteq> Out_result then
        Inr \<lparr>ep_id = ra_assignment_id (go_assignment oc), ep_env = en_id (ra_environment (go_assignment oc)), ep_ok = False,
             ep_error = Some (outcome_text (go_outcome oc), ''Assignment ended without a rollout result''), ep_traces = []\<rparr>
      else case (go_result_path oc, go_envelope_digest oc) of
        (Some path, Some digest) \<Rightarrow>
          and_then (read_result sp path) (\<lambda>(name, data).
          if sha256 R data \<noteq> digest then Inl ArtifactCorruptionError
          else case decode_result R (drop (length name - 5) name = ''.json'') data of
            None \<Rightarrow> Inl ValueError
          | Some env \<Rightarrow>
              let ep = wire_episode_of L (re_episode env) in
              if re_assignment_id env \<noteq> ra_assignment_id (go_assignment oc) then Inl ArtifactCorruptionError
              else if ep_env ep \<noteq> en_id (ra_environment (go_assignment oc)) then Inl ConflictError
              else Inr ep)
      | _ \<Rightarrow> Inl ArtifactCorruptionError)"

section \<open>Stamping\<close>

definition json_items :: "json \<Rightarrow> (string \<times> json) list" where
  "json_items j = (case j of JObj kvs \<Rightarrow> kvs | _ \<Rightarrow> [])"

definition stamp_policy :: "repository \<Rightarrow> ready_group \<Rightarrow> group_outcome \<Rightarrow> rollout \<Rightarrow> error + rollout" where
  "stamp_policy R g oc r =
     (let asg = go_assignment oc; p = ra_policy asg in
      if list_ex (\<lambda>(k, v). (case map_of (ro_task_data r) k of None \<Rightarrow> JNull | Some w \<Rightarrow> w) \<noteq> v) (json_items (ra_task_data asg))
      then Inl ConflictError
      else if list_ex (\<lambda>m. m \<noteq> None \<and> m \<noteq> Some (pm_served_model_name p)) (ro_call_models r) then Inl ConflictError
      else Inr (r\<lparr>ro_kind := rd_kind g, ro_env_name := en_id (ra_environment asg), ro_group_id := rd_group_id g,
                  ro_policy_version := pm_policy_version p, ro_policy_id := Some (pm_policy_id p),
                  ro_policy_digest := Some (manifest_digest R p)\<rparr>))"

definition flag_empty :: "library \<Rightarrow> rollout \<Rightarrow> rollout" where
  "flag_empty L r =
     (if \<not> has_error L r \<and> ro_num_turns r = 0
      then r\<lparr>ro_errors := ro_errors r @ [(''EmptyTrajectory'', ''Rollout returned no turns'')], ro_ok := False\<rparr> else r)"

text \<open>One outcome and its episode; an empty episode becomes one failed rollout.\<close>

definition outcome_rollouts :: "repository \<Rightarrow> library \<Rightarrow> ready_group \<Rightarrow> group_outcome \<times> wire_episode \<Rightarrow> error + rollout list" where
  "outcome_rollouts R L g oe =
     (case oe of (oc, ep) \<Rightarrow>
      and_then
        (case episode_to_rollouts ep of
           Inl _ \<Rightarrow> and_then (failed_rollout L (ra_task_data (go_assignment oc)) (''RuntimeError'', no_trace_message ep)) (\<lambda>r. Inr [r])
         | Inr rs \<Rightarrow> Inr rs) (\<lambda>rs.
      each (\<lambda>r. and_then (stamp_policy R g oc r) (\<lambda>r'. Inr (flag_empty L r'))) rs))"

section \<open>Training groups\<close>

record processing_source =
  ps_source_id :: id
  ps_environment :: environment_identity
  ps_processing_id :: string
  ps_algorithm :: "algorithm option"
  ps_pre_filters :: "rollout_filter list"
  ps_post_filters :: "rollout_filter list"
  ps_type_ids_mapping :: "(int \<Rightarrow> int option) option"
  ps_requires_group_scoring :: bool

definition stamp_behavior :: "rollout \<Rightarrow> training_sample \<Rightarrow> training_sample" where
  "stamp_behavior r s = s\<lparr>ts_behavior_policy_id := ro_policy_id r, ts_behavior_policy_version := Some (ro_policy_version r),
     ts_behavior_policy_digest := ro_policy_digest r\<rparr>"

definition build_samples :: "library \<Rightarrow> processing_source \<Rightarrow> algorithm \<Rightarrow> rollout \<Rightarrow> error + rollout" where
  "build_samples L src alg r =
     (if has_error L r \<or> \<not> ro_trainable r then Inr r
      else and_then (trace_to_samples (concatenate L) (ro_env_name r) (ps_type_ids_mapping src)
               (iter_trainable_branches (ro_branches r))) (\<lambda>ss.
           finalize_rollout alg (r\<lparr>ro_samples := map (stamp_behavior r) ss\<rparr>)))"

definition set_temperature :: "rat \<Rightarrow> rollout \<Rightarrow> rollout" where
  "set_temperature t r =
     r\<lparr>ro_samples := map (\<lambda>s. s\<lparr>ts_temperatures := replicate (length (ts_token_ids s)) t\<rparr>) (ro_samples r)\<rparr>"

definition is_informative_group :: "rollout list \<Rightarrow> bool" where
  "is_informative_group rs = (case rs of [] \<Rightarrow> False | r # _ \<Rightarrow> list_ex (\<lambda>x. ro_reward x \<noteq> ro_reward r) rs)"

definition payload_rollouts :: "processing_source \<Rightarrow> rollout list \<Rightarrow> processed_rollout list" where
  "payload_rollouts src rs =
     (let kept = filter (\<lambda>r. \<not> ro_is_filtered r) (apply_filters (ps_pre_filters src) rs);
          marked = apply_filters (ps_post_filters src) (map (\<lambda>r. r\<lparr>ro_filter_results := [], ro_is_filtered := False\<rparr>) kept)
      in map (\<lambda>r. \<lparr>pl_samples = (if ro_is_filtered r then [] else ro_samples r),
                   pl_token_count = sum_list (map (\<lambda>s. length (ts_token_ids s)) (ro_samples r))\<rparr>)
           (filter (\<lambda>r. ro_samples r \<noteq> []) marked))"

definition survivors_of :: "library \<Rightarrow> processing_source \<Rightarrow> rollout list \<Rightarrow> rollout list" where
  "survivors_of L src rs =
     (if ps_requires_group_scoring src \<and> list_ex (has_error L) rs then []
      else filter (\<lambda>r. \<not> has_error L r \<and> ro_trainable r) rs)"

text \<open>The metrics count the group before its rollouts are scored, and keep the count when scoring fails.\<close>

definition count_group :: "nat \<Rightarrow> nat \<Rightarrow> processor_metrics \<Rightarrow> processor_metrics" where
  "count_group active_v group_v m =
     (let lag = nat (max 0 (int active_v - int group_v)) in
      m\<lparr>processed_train_groups := processed_train_groups m + 1, policy_lag_total := policy_lag_total m + lag,
        policy_lag_max := max (policy_lag_max m) lag\<rparr>)"

definition score_survivors :: "processing_source \<Rightarrow> algorithm \<Rightarrow> rat option \<Rightarrow> rollout list \<Rightarrow> processor_metrics
    \<Rightarrow> (error + processed_rollout list) \<times> processor_metrics" where
  "score_survivors src alg temperature rs m =
     (if rs = [] then (Inr [], m)
      else case finalize_group alg rs of
        Inl e \<Rightarrow> (Inl e, m)
      | Inr rs1 \<Rightarrow>
          let m1 = (if is_informative_group rs1 then m\<lparr>informative_train_groups := informative_train_groups m + 1\<rparr> else m) in
          (case temperature of
             None \<Rightarrow> (Inl ConflictError, m1)
           | Some t \<Rightarrow> (Inr (payload_rollouts src (map (set_temperature t) rs1)), m1)))"

definition train_rollouts :: "repository \<Rightarrow> library \<Rightarrow> processing_source \<Rightarrow> group_outcome \<Rightarrow> rollout list \<Rightarrow> db
    \<Rightarrow> processor_metrics \<Rightarrow> (error + processed_rollout list) \<times> processor_metrics" where
  "train_rollouts R L src first rs d m =
     (case ps_algorithm src of
        None \<Rightarrow> (Inl ConflictError, m)
      | Some alg \<Rightarrow>
          (case active_policy R d of
             Inl e \<Rightarrow> (Inl e, m)
           | Inr act \<Rightarrow>
               let m1 = count_group (pm_policy_version act) (pm_policy_version (ra_policy (go_assignment first))) m in
               (case each (build_samples L src alg) rs of
                  Inl e \<Rightarrow> (Inl e, m1)
                | Inr rs1 \<Rightarrow> score_survivors src alg (sc_temperature (ra_sampling (go_assignment first))) (survivors_of L src rs1) m1)))"

section \<open>Processing a group\<close>

definition input_digest_of :: "library \<Rightarrow> ready_group \<Rightarrow> processing_source \<Rightarrow> digest" where
  "input_digest_of L g src =
     hash_inputs L (rd_group_id g, ps_source_id src, ps_processing_id src,
       map (\<lambda>oc. (ra_assignment_id (go_assignment oc), go_outcome oc, go_envelope_digest oc)) (rd_outcomes g))"

definition group_payload :: "repository \<Rightarrow> library \<Rightarrow> ready_group \<Rightarrow> processing_source \<Rightarrow> group_outcome
    \<Rightarrow> processed_rollout list \<Rightarrow> json list \<Rightarrow> processed_group" where
  "group_payload R L g src first rollouts records =
     (let p = ra_policy (go_assignment first) in
      \<lparr>py_group_id = rd_group_id g, py_source_id = ps_source_id src, py_kind = rd_kind g, py_policy_id = pm_policy_id p,
       py_policy_version = pm_policy_version p, py_input_digest = input_digest_of L g src, py_rollouts = rollouts,
       py_evaluation_records = records, py_policy_digest = Some (manifest_digest R p),
       py_adapter_digest = map_option am_digest (pm_adapter p)\<rparr>)"

definition record_group :: "repository \<Rightarrow> codec \<Rightarrow> (db \<Rightarrow> time) \<Rightarrow> processed_group \<Rightarrow> processor_state \<Rightarrow> (error + unit) \<times> processor_state" where
  "record_group R C clock payload st =
     (let bytes = encode_group C payload; dig = sha256 R bytes in
      case publish_group R dig bytes (st_queue st) of
        Inl e \<Rightarrow> (Inl e, st)
      | Inr (path, q) \<Rightarrow>
          (case record_processed_group R (py_group_id payload) (py_input_digest payload) dig path (length bytes)
                  (map pl_token_count (py_rollouts payload)) (clock (st_db st)) (st_db st) of
             (result, d) \<Rightarrow> (result, st\<lparr>st_queue := q, st_db := d\<rparr>)))"

definition group_rollouts :: "repository \<Rightarrow> library \<Rightarrow> spool \<Rightarrow> ready_group \<Rightarrow> error + rollout list" where
  "group_rollouts R L sp g =
     and_then (each (load_episode R L sp) (rd_outcomes g)) (\<lambda>episodes.
     and_then (each (outcome_rollouts R L g) (zip (rd_outcomes g) episodes)) (\<lambda>rss. Inr (concat rss)))"

definition process_loaded :: "repository \<Rightarrow> library \<Rightarrow> codec \<Rightarrow> (db \<Rightarrow> time) \<Rightarrow> ready_group \<Rightarrow> processing_source \<Rightarrow> group_outcome
    \<Rightarrow> rollout list \<Rightarrow> processor_state \<Rightarrow> (error + unit) \<times> processor_state" where
  "process_loaded R L C clock g src first rs st =
     (if rd_kind g = Eval then record_group R C clock (group_payload R L g src first [] (map (to_record L) rs)) st
      else case train_rollouts R L src first rs (st_db st) (st_metrics st) of
        (Inl e, m) \<Rightarrow> (Inl e, st\<lparr>st_metrics := m\<rparr>)
      | (Inr rollouts, m) \<Rightarrow> record_group R C clock (group_payload R L g src first rollouts []) (st\<lparr>st_metrics := m\<rparr>))"

definition process_group :: "repository \<Rightarrow> library \<Rightarrow> codec \<Rightarrow> (db \<Rightarrow> time) \<Rightarrow> (id \<times> processing_source) list \<Rightarrow> spool
    \<Rightarrow> ready_group \<Rightarrow> processor_state \<Rightarrow> (error + unit) \<times> processor_state" where
  "process_group R L C clock sources sp g st =
     (case (case rd_source_id g of None \<Rightarrow> None | Some s \<Rightarrow> map_of sources s) of
        None \<Rightarrow> (Inl ConflictError, st)
      | Some src \<Rightarrow>
          if list_ex (\<lambda>oc. ra_environment (go_assignment oc) \<noteq> ps_environment src) (rd_outcomes g) then (Inl ConflictError, st)
          else case group_rollouts R L sp g of
            Inl e \<Rightarrow> (Inl e, st)
          | Inr rs \<Rightarrow>
              (case rd_outcomes g of
                 [] \<Rightarrow> (Inl IndexError, st)
               | first # _ \<Rightarrow> process_loaded R L C clock g src first rs st))"

text \<open>The constructor: the checks, the sources by their id, and the recovery of the queue.\<close>

definition new_processor :: "repository \<Rightarrow> batch_size_config \<Rightarrow> processing_source list \<Rightarrow> db \<Rightarrow> training_queue
    \<Rightarrow> (error + (id \<times> processing_source) list \<times> processor_metrics) \<times> training_queue" where
  "new_processor R c sources d q =
     (case check_batch_size c of
        Inl e \<Rightarrow> (Inl e, q)
      | Inr _ \<Rightarrow>
          if \<not> distinct (map ps_source_id sources) then (Inl ValueError, q)
          else (case recover_queue R d q of
              (Inl e, q') \<Rightarrow> (Inl e, q')
            | (Inr _, q') \<Rightarrow> (Inr (map (\<lambda>s. (ps_source_id s, s)) sources, new_metrics), q')))"

section \<open>The loop over ready groups\<close>

definition unprocessed :: "db \<Rightarrow> group_row \<Rightarrow> bool" where
  "unprocessed d g \<longleftrightarrow> g_state g = Ready \<and> processed_group_at d (g_group_id g) = None"

definition backlog :: "processor_state \<Rightarrow> nat" where
  "backlog st = count_where (unprocessed (st_db st)) (rollout_groups (st_db st))"

lemma insert_rollouts_frame:
  assumes "insert_rollouts g ns d = Inr d'"
  shows "processed_groups d' = processed_groups d \<and> rollout_groups d' = rollout_groups d \<and> training_batches d' = training_batches d"
  using assms unfolding insert_rollouts_def
  by (rule fold_step_invariant) (auto simp: insert_processed_rollout_def and_then_eq_Inr)

lemma record_processed_groupD:
  assumes "record_processed_group R g di dg path n ns now d = (Inr u, d')" "processed_group_at d g = None"
  shows "rollout_groups d' = rollout_groups d" "training_batches d' = training_batches d"
    "\<exists>row. pg_group_id row = g \<and> processed_groups d' = processed_groups d @ [row]"
proof -
  obtain row d1 d2 where 1: "insert_processed_group row d = Inr d1" "pg_group_id row = g" and 2: "insert_rollouts g ns d1 = Inr d2"
    and d': "d' = set_processing (result_of_group d2 g) Proc_processed d2"
    using assms by (auto simp: record_processed_group_def record_processed_group_in_def transaction_def and_then_eq_Inr
        split: sum.splits option.splits if_splits prod.splits)
  have "d1 = d\<lparr>processed_groups := processed_groups d @ [row]\<rparr>"
    using 1 by (auto simp: insert_processed_group_def and_then_eq_Inr)
  with insert_rollouts_frame [OF 2] 1(2) show "rollout_groups d' = rollout_groups d" "training_batches d' = training_batches d"
    "\<exists>row. pg_group_id row = g \<and> processed_groups d' = processed_groups d @ [row]"
    by (auto simp: d' set_processing_def)
qed

lemma record_groupD:
  assumes "record_group R C clock payload st = (Inr u, st')"
  obtains path q where "publish_group R (sha256 R (encode_group C payload)) (encode_group C payload) (st_queue st) = Inr (path, q)"
    "st_queue st' = q" "st_metrics st' = st_metrics st"
    "record_processed_group R (py_group_id payload) (py_input_digest payload) (sha256 R (encode_group C payload)) path
       (length (encode_group C payload)) (map pl_token_count (py_rollouts payload)) (clock (st_db st)) (st_db st) = (Inr (), st_db st')"
  using assms by (auto simp: record_group_def Let_def split: sum.splits prod.splits)

lemma process_groupD:
  assumes "process_group R L C clock sources sp g st = (Inr u, st')"
  obtains src first rest rs where "rd_outcomes g = first # rest" "group_rollouts R L sp g = Inr rs"
    "process_loaded R L C clock g src first rs st = (Inr (), st')"
  using assms by (auto simp: process_group_def split: option.splits if_splits sum.splits list.splits)

lemma process_loadedD:
  assumes "process_loaded R L C clock g src first rs st = (Inr u, st')"
  obtains rollouts records m m' where "record_group R C clock (group_payload R L g src first rollouts records) (st\<lparr>st_metrics := m\<rparr>) = (Inr (), st')"
    "rd_kind g = Train \<Longrightarrow> train_rollouts R L src first rs (st_db st) (st_metrics st) = (Inr rollouts, m)"
proof (cases "rd_kind g = Eval")
  case True
  with assms that [of "[]" "map (to_record L) rs" "st_metrics st"] show ?thesis by (simp add: process_loaded_def)
next
  case False
  with assms that show ?thesis by (auto simp: process_loaded_def split: prod.splits sum.splits)
qed

lemma process_group_backlog:
  assumes "process_group R L C clock sources sp g st = (Inr u, st')"
    and "gr \<in> set (rollout_groups (st_db st))" "unprocessed (st_db st) gr" "rd_group_id g = g_group_id gr"
  shows "backlog st' < backlog st" "training_batches (st_db st') = training_batches (st_db st)"
    "length (processed_groups (st_db st')) = Suc (length (processed_groups (st_db st)))"
proof -
  have none: "processed_group_at (st_db st) (rd_group_id g) = None" using assms(3,4) by (simp add: unprocessed_def)
  from assms(1) obtain src first rs where "process_loaded R L C clock g src first rs st = (Inr (), st')"
    by (elim process_groupD)
  then obtain rollouts records m where "record_group R C clock (group_payload R L g src first rollouts records) (st\<lparr>st_metrics := m\<rparr>) = (Inr (), st')"
    by (elim process_loadedD)
  then obtain di dg path n ns now where "record_processed_group R (rd_group_id g) di dg path n ns now (st_db st) = (Inr (), st_db st')"
    by (elim record_groupD) (simp add: group_payload_def Let_def)
  from record_processed_groupD [OF this none] obtain row where
    d: "rollout_groups (st_db st') = rollout_groups (st_db st)" "training_batches (st_db st') = training_batches (st_db st)"
      "pg_group_id row = rd_group_id g" "processed_groups (st_db st') = processed_groups (st_db st) @ [row]" by blast
  have at: "processed_group_at (st_db st') x = (if x = rd_group_id g then Some row else processed_group_at (st_db st) x)" for x
    using none d by (auto simp: processed_group_at_def row_at_append row_at_Cons split: option.splits)
  then have "unprocessed (st_db st') x = (unprocessed (st_db st) x \<and> g_group_id x \<noteq> rd_group_id g)" for x
    by (auto simp: unprocessed_def)
  then have "filter (unprocessed (st_db st')) rows = filter (\<lambda>x. g_group_id x \<noteq> rd_group_id g) (filter (unprocessed (st_db st)) rows)" for rows
    by (induction rows) auto
  moreover have "length (filter (\<lambda>x. g_group_id x \<noteq> rd_group_id g) (filter (unprocessed (st_db st)) (rollout_groups (st_db st)))) <
      length (filter (unprocessed (st_db st)) (rollout_groups (st_db st)))"
    using assms(2,3,4) by (intro length_filter_less [of gr]) auto
  ultimately show "backlog st' < backlog st" by (simp add: backlog_def count_where_def d)
  show "training_batches (st_db st') = training_batches (st_db st)"
    "length (processed_groups (st_db st')) = Suc (length (processed_groups (st_db st)))" using d by simp_all
qed

lemma ready_groups_first:
  assumes "ready_groups 1 d = Inr (g # gs)"
  shows "\<exists>gr \<in> set (rollout_groups d). unprocessed d gr \<and> rd_group_id g = g_group_id gr"
proof -
  let ?rows = "order_by (\<lambda>g. (g_sequence g, g_group_id g)) (filter (unprocessed d) (rollout_groups d))"
  have u: "unprocessed_groups 1 d = take 1 ?rows" by (simp add: unprocessed_groups_def unprocessed_def [abs_def])
  from assms obtain gr where gr: "unprocessed_groups 1 d = [gr]"
    by (cases ?rows) (auto simp: ready_groups_def u take_Cons' simp del: One_nat_def)
  then have "gr \<in> set (take 1 ?rows)" by (simp add: u del: One_nat_def)
  then have "gr \<in> set ?rows" by (rule in_set_takeD)
  moreover have "rd_group_id g = g_group_id gr"
    using assms gr by (auto simp: ready_groups_def read_group_def Let_def and_then_eq_Inr split: if_splits)
  ultimately show ?thesis by auto
qed

text \<open>\<open>process_available\<close>: the groups one by one, then the batches. Each processed group leaves the backlog.\<close>

function process_groups :: "repository \<Rightarrow> library \<Rightarrow> codec \<Rightarrow> (db \<Rightarrow> time) \<Rightarrow> (id \<times> processing_source) list \<Rightarrow> spool
    \<Rightarrow> nat option \<Rightarrow> nat \<Rightarrow> processor_state \<Rightarrow> (error + nat) \<times> processor_state" where
  "process_groups R L C clock sources sp max_groups processed st =
     (case ready_groups 1 (st_db st) of
        Inl e \<Rightarrow> (Inl e, st)
      | Inr [] \<Rightarrow> (Inr processed, st)
      | Inr (g # _) \<Rightarrow>
          (case process_group R L C clock sources sp g st of
             (Inl e, st') \<Rightarrow> (Inl e, st')
           | (Inr _, st') \<Rightarrow>
               if (case max_groups of None \<Rightarrow> False | Some n \<Rightarrow> n \<le> processed + 1) then (Inr (processed + 1), st')
               else process_groups R L C clock sources sp max_groups (processed + 1) st'))"
  by pat_completeness auto
termination
proof (relation "measure (\<lambda>(R, L, C, clock, sources, sp, max_groups, processed, st). backlog st)", goal_cases)
  case (2 R L C clock sources sp max_groups processed st gs g rest a st' u)
  then obtain gr where "gr \<in> set (rollout_groups (st_db st))" "unprocessed (st_db st) gr" "rd_group_id g = g_group_id gr"
    using ready_groups_first [of "st_db st" g rest] by auto
  with 2 process_group_backlog(1) [of R L C clock sources sp g st u st'] show ?case by simp
qed simp

declare process_groups.simps [simp del]

definition process_available :: "repository \<Rightarrow> library \<Rightarrow> codec \<Rightarrow> (db \<Rightarrow> time) \<Rightarrow> (id \<times> processing_source) list \<Rightarrow> batch_size_config
    \<Rightarrow> spool \<Rightarrow> nat option \<Rightarrow> processor_state \<Rightarrow> (error + nat \<times> nat) \<times> processor_state" where
  "process_available R L C clock sources c sp max_groups st =
     (if max_groups = Some 0 then (Inl ValueError, st)
      else case process_groups R L C clock sources sp max_groups 0 st of
        (Inl e, st1) \<Rightarrow> (Inl e, st1)
      | (Inr processed, st1) \<Rightarrow>
          (case emit_ready_batches R C clock c 0 st1 of
             (Inl e, st2) \<Rightarrow> (Inl e, st2)
           | (Inr emitted, st2) \<Rightarrow> (Inr (processed, emitted), st2)))"

lemma process_groups_counts:
  assumes "process_groups R L C clock sources sp max_groups n st = (Inr m, st')"
  shows "n \<le> m \<and> length (processed_groups (st_db st')) = length (processed_groups (st_db st)) + (m - n) \<and>
    training_batches (st_db st') = training_batches (st_db st) \<and>
    (max_groups = None \<longrightarrow> ready_groups 1 (st_db st') = Inr [])"
  using assms
proof (induction R L C clock sources sp max_groups n st rule: process_groups.induct)
  case (1 R L C clock sources sp max_groups n st)
  note unfold = process_groups.simps [of R L C clock sources sp max_groups n st]
  from "1.prems" obtain gs where gs: "ready_groups 1 (st_db st) = Inr gs" by (auto simp: unfold split: sum.splits)
  show ?case
  proof (cases gs)
    case Nil
    with gs "1.prems" show ?thesis by (simp add: unfold)
  next
    case (Cons g rest)
    with gs "1.prems" obtain u st1 where st1: "process_group R L C clock sources sp g st = (Inr u, st1)"
      by (auto simp: unfold split: prod.splits sum.splits)
    from gs Cons obtain gr where "gr \<in> set (rollout_groups (st_db st))" "unprocessed (st_db st) gr" "rd_group_id g = g_group_id gr"
      using ready_groups_first [of "st_db st" g rest] by auto
    note b = process_group_backlog(2,3) [OF st1 this]
    show ?thesis
    proof (cases "case max_groups of None \<Rightarrow> False | Some n' \<Rightarrow> n' \<le> n + 1")
      case True
      with gs Cons "1.prems" st1 b show ?thesis by (auto simp: unfold)
    next
      case False
      with gs Cons "1.prems" st1 have "process_groups R L C clock sources sp max_groups (n + 1) st1 = (Inr m, st')"
        by (simp add: unfold)
      with "1.IH" [OF gs Cons st1 [symmetric] refl False] b show ?thesis by fastforce
    qed
  qed
qed

definition group_tables where
  "group_tables d = (rollout_groups d, processed_groups d)"

lemma group_tables_discard: "group_tables (snd (discard_processed_rollouts members d)) = group_tables d"
proof -
  have "group_tables (snd (fold discard_one ms s)) = group_tables (snd s)" for ms s
    by (induction ms arbitrary: s) (auto simp: discard_one_def Let_def group_tables_def split: prod.split)
  from this [of members "(0, d)"] show ?thesis
    by (auto simp: discard_processed_rollouts_def transaction_def split: sum.split prod.split)
qed

lemma group_tables_record: "group_tables (snd (record_training_batch R step dg path n k members now d)) = group_tables d"
proof -
  have "group_tables d2 = group_tables d1" if "fold_step (assign_member step) oms d1 = Inr d2" for oms d1 d2
    using that by (rule fold_step_invariant) (auto simp: assign_member_def and_then_eq_Inr Let_def group_tables_def)
  then have "group_tables d' = group_tables d" if "record_training_batch_in step dg p n k members now d = Inr (u, d')" for p u d'
    using that by (fastforce simp: record_training_batch_in_def and_then_eq_Inr insert_batch_def group_tables_def
        split: option.splits if_splits)
  then show ?thesis
    by (auto simp: record_training_batch_def transaction_def split: sum.split prod.split)
qed

lemma group_tables_emit_once: "group_tables (st_db (snd (emit_once R C clock c st))) = group_tables (st_db st)"
proof -
  have d: "group_tables (st_db (snd (discard_members members f st))) = group_tables (st_db st)" for members f st
    using group_tables_discard [of members "st_db st"] by (auto simp: discard_members_def split: prod.split sum.split)
  have r: "group_tables (st_db (snd (record_batch R C clock samples members st))) = group_tables (st_db st)" for samples members st
    using group_tables_record [THEN eq_reflection]
    by (auto simp: record_batch_def Let_def split: prod.split sum.split)
      (metis group_tables_record snd_conv)+
  have "group_tables (st_db (snd (emit_selected R C clock sel st))) = group_tables (st_db st)" for sel st
    using d r by (auto simp: emit_selected_def Let_def split: sum.split)
  with d have "group_tables (st_db (snd (drop_or_emit R C clock c act lag ps st))) = group_tables (st_db st)" for act lag ps
    by (simp add: drop_or_emit_def Let_def)
  then show ?thesis by (auto simp: emit_once_def split: sum.split)
qed

lemma group_tables_emit:
  "emit_ready_batches R C clock c n st = (r, st') \<Longrightarrow> group_tables (st_db st') = group_tables (st_db st)"
proof (induction R C clock c n st rule: emit_ready_batches.induct)
  case (1 R C clock c n st)
  obtain o1 st1 where o: "emit_once R C clock c st = (o1, st1)" by fastforce
  with group_tables_emit_once [of R C clock c st] have g: "group_tables (st_db st1) = group_tables (st_db st)" by simp
  show ?case
  proof (cases "\<exists>q. o1 = Inr q \<and> q \<noteq> Drained")
    case False
    with "1.prems" o g show ?thesis by (auto simp: emit_ready_batches.simps [of R C clock c n st] split: sum.splits round.splits)
  next
    case True
    then consider "o1 = Inr Dropped" | "o1 = Inr Emitted" by (metis round.exhaust)
    then show ?thesis
      using "1.IH" [OF o [symmetric]] "1.prems" o g by cases (auto simp: emit_ready_batches.simps [of R C clock c n st])
  qed
qed

section \<open>What is processed\<close>

lemma ready_groups_none:
  assumes "ready_groups 1 d = Inr []" "g \<in> set (rollout_groups d)"
  shows "\<not> unprocessed d g"
proof
  assume "unprocessed d g"
  with assms(2) have "g \<in> set (order_by (\<lambda>g. (g_sequence g, g_group_id g)) (filter (unprocessed d) (rollout_groups d)))" by simp
  then obtain gr rest where "order_by (\<lambda>g. (g_sequence g, g_group_id g)) (filter (unprocessed d) (rollout_groups d)) = gr # rest"
    by (metis list.set_cases)
  then have "unprocessed_groups 1 d = [gr]" by (simp add: unprocessed_groups_def unprocessed_def [abs_def])
  with assms(1) show False by (auto simp: ready_groups_def read_group_def Let_def and_then_eq_Inr split: if_splits)
qed


definition faithful :: "nat \<Rightarrow> digest \<Rightarrow> rollout \<Rightarrow> bool" where
  "faithful v dg r \<longleftrightarrow> list_all (behaves_as v dg) (ro_samples r)"

lemma weigh_sample_behavior: "weigh_sample rw keep s b = Inr s' \<Longrightarrow> behaves_as v dg s' = behaves_as v dg s"
  by (auto simp: weigh_sample_def and_then_eq_Inr behaves_as_def split: if_splits)

lemma stamp_loss_behavior: "stamp_loss_routing loss s = Inr s' \<Longrightarrow> behaves_as v dg s' = behaves_as v dg s"
  by (auto simp: stamp_loss_routing_def behaves_as_def Let_def split: if_splits)

lemma finalize_rollout_faithful:
  assumes "finalize_rollout alg r = Inr r'" "faithful v dg r"
  shows "faithful v dg r'"
proof (cases alg)
  case (Echo rw f lp)
  show ?thesis
  proof (cases "ro_samples r = []")
    case True
    with assms show ?thesis by (simp add: finalize_rollout_def)
  next
    case False
    with Echo assms obtain k masks ss where
      e: "each (\<lambda>(s, b, m). weigh_sample rw m s b) (zip (ro_samples r) (zip (map fst (iter_trainable_branches (ro_branches r))) masks)) = Inr ss"
      and r': "ro_samples r' = ss @ drop k (ro_samples r)"
      by (auto simp: finalize_rollout_def weight_observations_def and_then_eq_Inr Let_def)
    have "behaves_as v dg s" if "s \<in> set ss" for s
      using each_InrD [OF e that] assms(2) by (fastforce simp: faithful_def list_all_iff weigh_sample_behavior dest: set_zip_leftD)
    with r' assms(2) show ?thesis by (auto simp: faithful_def list_all_iff dest: in_set_dropD)
  qed
qed (use assms in \<open>auto simp: finalize_rollout_def faithful_def behaves_as_def list_all_iff split: if_splits\<close>)

lemma stamp_rollout_faithful:
  assumes "stamp_rollout loss r = Inr r'" "faithful v dg r"
  shows "faithful v dg r'"
proof -
  obtain r1 ss where 1: "stamp_advantages r = Inr r1" "each (stamp_loss_routing loss) (ro_samples r1) = Inr ss" "r' = r1\<lparr>ro_samples := ss\<rparr>"
    using assms(1) by (auto simp: stamp_rollout_def and_then_eq_Inr)
  have "faithful v dg r1"
    using 1(1) assms(2)
    by (auto simp: stamp_advantages_def faithful_def list_all_iff behaves_as_def split: option.splits if_splits dest!: set_zip_leftD)
  then have "behaves_as v dg s" if "s \<in> set ss" for s
    using each_InrD [OF 1(2) that] stamp_loss_behavior by (auto simp: faithful_def list_all_iff)
  then show ?thesis by (simp add: 1(3) faithful_def list_all_iff)
qed

lemma finalize_group_faithful:
  assumes "finalize_group alg rs = Inr rs'" "\<forall>r \<in> set rs. faithful v dg r" "r' \<in> set rs'"
  shows "faithful v dg r'"
proof -
  obtain rs1 where 1: "score_group alg rs = Inr rs1" "each (stamp_rollout (action_loss_type alg)) rs1 = Inr rs'"
    using assms(1) by (auto simp: finalize_group_def and_then_eq_Inr)
  obtain r1 where r1: "r1 \<in> set rs1" "stamp_rollout (action_loss_type alg) r1 = Inr r'" using each_InrD [OF 1(2) assms(3)] by blast
  then obtain r where "r \<in> set rs" "ro_samples r1 = ro_samples r" using score_group_frame [OF 1(1)] by blast
  with assms(2) have "faithful v dg r1" by (simp add: faithful_def)
  with r1(2) show ?thesis by (rule stamp_rollout_faithful)
qed

lemma apply_filters_samples: "r' \<in> set (apply_filters fs rs) \<Longrightarrow> \<exists>r \<in> set rs. ro_samples r' = ro_samples r"
  by (auto simp: apply_filters_def run_filters_find split: option.splits)

text \<open>A sample that can go into a batch: generated by the policy of its group, with a temperature per token.\<close>

definition trainable_sample :: "nat \<Rightarrow> digest \<Rightarrow> training_sample \<Rightarrow> bool" where
  "trainable_sample v dg s \<longleftrightarrow> behaves_as v dg s \<and> length (ts_temperatures s) = length (ts_token_ids s)"

lemma payload_rollouts_samples:
  assumes "p \<in> set (payload_rollouts src rs)" "\<forall>r \<in> set rs. list_all P (ro_samples r)"
  shows "list_all P (pl_samples p)"
proof -
  have keep: "\<forall>r \<in> set (apply_filters fs rs'). list_all P (ro_samples r)" if "\<forall>r \<in> set rs'. list_all P (ro_samples r)" for fs rs'
    using apply_filters_samples that by fastforce
  let ?kept = "map (\<lambda>r. r\<lparr>ro_filter_results := [], ro_is_filtered := False\<rparr>)
      (filter (\<lambda>r. \<not> ro_is_filtered r) (apply_filters (ps_pre_filters src) rs))"
  have "\<forall>r \<in> set ?kept. list_all P (ro_samples r)" using keep [OF assms(2)] by auto
  from keep [OF this] show ?thesis using assms(1) by (auto simp: payload_rollouts_def Let_def)
qed

lemma build_samples_faithful:
  assumes "build_samples L src alg r = Inr r'" "\<not> has_error L r' \<and> ro_trainable r'"
    and "ro_policy_version r = v" "ro_policy_digest r = Some dg"
  shows "faithful v dg r'"
proof -
  obtain ss where "finalize_rollout alg (r\<lparr>ro_samples := map (stamp_behavior r) ss\<rparr>) = Inr r'"
    using assms(1,2) by (auto simp: build_samples_def and_then_eq_Inr split: if_splits)
  then show ?thesis
    by (rule finalize_rollout_faithful) (use assms(3,4) in \<open>simp add: faithful_def list_all_iff behaves_as_def stamp_behavior_def\<close>)
qed

lemma train_rollouts_samples:
  assumes "train_rollouts R L src first rs d m = (Inr out, m')"
    and "\<forall>r \<in> set rs. ro_policy_version r = v \<and> ro_policy_digest r = Some dg" "ro \<in> set out"
  shows "list_all (trainable_sample v dg) (pl_samples ro)"
proof -
  obtain alg rs1 m1 temperature where b: "each (build_samples L src alg) rs = Inr rs1"
    and s: "score_survivors src alg temperature (survivors_of L src rs1) m1 = (Inr out, m')"
    using assms(1) by (auto simp: train_rollouts_def Let_def split: option.splits sum.splits)
  from s assms(3) obtain rs2 t where f: "finalize_group alg (survivors_of L src rs1) = Inr rs2"
    and out: "out = payload_rollouts src (map (set_temperature t) rs2)"
    by (auto simp: score_survivors_def Let_def split: if_splits sum.splits option.splits)
  have "faithful v dg r" if r: "r \<in> set (survivors_of L src rs1)" for r
  proof -
    from r have "r \<in> set rs1" "\<not> has_error L r \<and> ro_trainable r" by (auto simp: survivors_of_def split: if_splits)
    with each_InrD [OF b] build_samples_faithful assms(2) show ?thesis by blast
  qed
  with finalize_group_faithful [OF f] have "\<forall>r \<in> set rs2. faithful v dg r" by blast
  then have "\<forall>r \<in> set (map (set_temperature t) rs2). list_all (trainable_sample v dg) (ro_samples r)"
    by (auto simp: set_temperature_def faithful_def list_all_iff trainable_sample_def behaves_as_def)
  with assms(3) show ?thesis unfolding out by (intro payload_rollouts_samples)
qed

lemma group_rollouts_stamped:
  assumes "group_rollouts R L sp g = Inr rs" "\<forall>oc \<in> set (rd_outcomes g). ra_policy (go_assignment oc) = p" "r \<in> set rs"
  shows "ro_policy_version r = pm_policy_version p \<and> ro_policy_digest r = Some (manifest_digest R p)"
proof -
  obtain eps rss where e: "each (outcome_rollouts R L g) (zip (rd_outcomes g) eps) = Inr rss" "rs = concat rss"
    using assms(1) by (auto simp: group_rollouts_def and_then_eq_Inr)
  with assms(3) obtain rs' where rs': "rs' \<in> set rss" "r \<in> set rs'" by auto
  then obtain oc ep where oc: "(oc, ep) \<in> set (zip (rd_outcomes g) eps)" "outcome_rollouts R L g (oc, ep) = Inr rs'"
    using each_InrD [OF e(1)] by force
  then obtain rs0 where "each (\<lambda>r. and_then (stamp_policy R g oc r) (\<lambda>r'. Inr (flag_empty L r'))) rs0 = Inr rs'"
    by (auto simp: outcome_rollouts_def and_then_eq_Inr)
  from each_InrD [OF this rs'(2)] obtain r0 r1 where "stamp_policy R g oc r0 = Inr r1" "r = flag_empty L r1"
    by (auto simp: and_then_eq_Inr)
  moreover have "ra_policy (go_assignment oc) = p" using assms(2) oc(1) by (auto dest: set_zip_leftD)
  ultimately show ?thesis by (auto simp: stamp_policy_def flag_empty_def Let_def split: if_splits)
qed


section \<open>Witnesses\<close>

text \<open>A training group of one assignment, whose result is the trace of a prompt and one model turn.\<close>

definition demo_library :: library where
  "demo_library = \<lparr>wire_episode_of = \<lambda>_. \<lparr>ep_id = ''e0'', ep_env = en_id the_env, ep_ok = True, ep_error = None,
       ep_traces = [scored_rollout 1 []]\<rparr>,
     errors_flag = \<lambda>errors ok. \<not> ok, failed_rollout = \<lambda>_ _. Inl ValueError, to_record = \<lambda>_. JNull, concatenate = no_images,
     hash_inputs = \<lambda>_. hex_digest (CHR ''1'')\<rparr>"

definition demo_processing :: processing_source where
  "demo_processing = \<lparr>ps_source_id = ''src'', ps_environment = the_env, ps_processing_id = ''p'', ps_algorithm = Some (Grpo None),
     ps_pre_filters = [], ps_post_filters = [], ps_type_ids_mapping = None, ps_requires_group_scoring = False\<rparr>"

definition d_task :: db where
  "d_task = d_conf
     \<lparr>rollout_groups := [\<lparr>g_group_id = ''g0'', g_policy_id = base_id, g_kind = Train, g_environment = the_env,
        g_task_json = JNull, g_sampling_json = the_sampling, g_group_size = 1, g_state = Ready,
        g_created_at = 10, g_creation_key = ''manual:g0'', g_sequence = 1, g_source_id = Some ''src''\<rparr>],
      assignments := [demo_row ''a0'' 0 Succeeded 1 None],
      assignment_outcomes := assignment_outcomes d_done, accepted_results := accepted_results d_done\<rparr>"

definition task_state :: processor_state where
  "task_state = \<lparr>st_db = d_task, st_queue = empty_queue, st_metrics = new_metrics\<rparr>"

definition demo_group :: ready_group where
  "demo_group = \<lparr>rd_group_id = ''g0'', rd_source_id = Some ''src'', rd_kind = Train, rd_sequence = 1,
     rd_outcomes = [\<lparr>go_assignment = demo_assignment ''a0'' 0, go_outcome = Out_result,
       go_envelope_digest = Some (hex_digest (CHR ''9'')), go_result_path = Some (result_path (hex_digest (CHR ''9'')) ''.msgpack'')\<rparr>]\<rparr>"

lemma demo_processed_group: "isl (fst (process_group emit_demo demo_library demo_codec (\<lambda>_. 300) [(''src'', demo_processing)] done_spool
    demo_group task_state)) = False"
  by code_simp

lemma demo_processed_all: "fst (process_available emit_demo demo_library demo_codec (\<lambda>_. 300) [(''src'', demo_processing)] one_rollout
    done_spool None task_state) = Inr (1, 1)"
  by code_simp



end
