(* ===== verification/Inference_Broker.thy ===== *)
theory Inference_Broker
  imports Coordinator
begin

text \<open>
  The inference broker (\<open>coordinator/inference.py\<close>): the coordinator's side runs the environments and
  asks the worker that holds the lease to generate. A request waits in the queue of its lease until a
  poll of the worker takes it; the reply comes with a later poll. The coroutines are cut at their
  awaits: \<open>submit\<close> and \<open>leave\<close> are the two ends of \<open>request\<close>, \<open>poll\<close> and \<open>resume\<close> those of
  \<open>exchange\<close>. Exchange objects live in a heap, since coroutines keep them after a lease is closed.
\<close>

section \<open>Messages\<close>

record inference_reply =
  ir_request_id :: id
  ir_status_code :: nat
  ir_headers :: "(string \<times> string) list"
  ir_body :: string

record inference_request =
  iq_request_id :: id
  iq_method :: string
  iq_path :: string
  iq_headers :: "(string \<times> string) list"
  iq_body :: string

definition InferenceReply :: "inference_reply \<Rightarrow> bool" where
  "InferenceReply r \<longleftrightarrow> OpaqueId (ir_request_id r) \<and> 100 \<le> ir_status_code r \<and> ir_status_code r \<le> 599"

definition InferenceRequest :: "inference_request \<Rightarrow> bool" where
  "InferenceRequest q \<longleftrightarrow> OpaqueId (iq_request_id q) \<and> iq_method q \<in> {''GET'', ''POST''} \<and>
     iq_path q \<in> {''/v1/models'', ''/inference/v1/generate''}"

section \<open>The broker\<close>

datatype waiter = Unanswered | Answered inference_reply | Refused

record lease_exchange =
  lx_worker_id :: id
  lx_worker_session_id :: id
  lx_requests :: "inference_request list"
  lx_replies :: "id \<Rightarrow> inference_reply option"
  lx_waiters :: "id \<Rightarrow> waiter option"
  lx_active :: "inference_request option"
  lx_closed :: bool

record broker =
  body_limit_bytes :: nat
  br_heap :: "lease_exchange list"
  br_leases :: "id \<Rightarrow> nat option"

definition new_broker :: "nat \<Rightarrow> broker" where
  "new_broker limit = \<lparr>body_limit_bytes = limit, br_heap = [], br_leases = \<lambda>_. None\<rparr>"

definition new_exchange :: "id \<Rightarrow> id \<Rightarrow> lease_exchange" where
  "new_exchange w s = \<lparr>lx_worker_id = w, lx_worker_session_id = s, lx_requests = [], lx_replies = \<lambda>_. None,
     lx_waiters = \<lambda>_. None, lx_active = None, lx_closed = False\<rparr>"

definition put_exchange :: "nat \<Rightarrow> lease_exchange \<Rightarrow> broker \<Rightarrow> broker" where
  "put_exchange i x b = b\<lparr>br_heap := (br_heap b)[i := x]\<rparr>"

definition register :: "id \<Rightarrow> id \<Rightarrow> id \<Rightarrow> broker \<Rightarrow> error + broker" where
  "register l w s b =
     (if br_leases b l \<noteq> None then Inl RuntimeError
      else Inr (b\<lparr>br_heap := br_heap b @ [new_exchange w s], br_leases := (br_leases b)(l := Some (length (br_heap b)))\<rparr>))"

definition refuse_waiters :: "lease_exchange \<Rightarrow> lease_exchange" where
  "refuse_waiters x =
     x\<lparr>lx_closed := True, lx_waiters := (\<lambda>i. case lx_waiters x i of Some Unanswered \<Rightarrow> Some Refused | w \<Rightarrow> w)\<rparr>"

definition close :: "id \<Rightarrow> broker \<Rightarrow> broker" where
  "close l b =
     (case br_leases b l of
        None \<Rightarrow> b
      | Some i \<Rightarrow>
          let b1 = b\<lparr>br_leases := (br_leases b)(l := None)\<rparr>; x = br_heap b ! i in
          if lx_closed x then b1 else put_exchange i (refuse_waiters x) b1)"

text \<open>The first half of \<open>request\<close>, up to its wait for the reply; \<open>rid\<close> is the generated identifier.\<close>

definition submit :: "id \<Rightarrow> inference_request \<Rightarrow> broker \<Rightarrow> error + nat \<times> broker" where
  "submit l q b =
     (if length (iq_body q) > body_limit_bytes b then Inl ValueError
      else case br_leases b l of
        None \<Rightarrow> Inl InferenceLeaseClosed
      | Some i \<Rightarrow>
          let x = br_heap b ! i in
          if lx_closed x then Inl InferenceLeaseClosed
          else if \<not> InferenceRequest q then Inl ValueError
          else Inr (i, put_exchange i (x\<lparr>lx_waiters := (lx_waiters x)(iq_request_id q := Some Unanswered),
                                        lx_requests := lx_requests x @ [q]\<rparr>) b))"

text \<open>Its end, on an answer, an exception or a cancellation: the waiter goes.\<close>

definition leave :: "nat \<Rightarrow> id \<Rightarrow> broker \<Rightarrow> broker" where
  "leave i rid b = (let x = br_heap b ! i in put_exchange i (x\<lparr>lx_waiters := (lx_waiters x)(rid := None)\<rparr>) b)"

definition accept_reply :: "nat \<Rightarrow> inference_reply option \<Rightarrow> lease_exchange \<Rightarrow> error + lease_exchange" where
  "accept_reply limit reply x =
     (case reply of
        None \<Rightarrow> Inr x
      | Some r \<Rightarrow>
          let rid = ir_request_id r in
          if length (ir_body r) > limit then Inl ValueError
          else if lx_replies x rid \<noteq> None \<and> lx_replies x rid \<noteq> Some r then Inl ValueError
          else Inr (x\<lparr>lx_replies := (lx_replies x)(rid := Some r),
                      lx_waiters := (if lx_waiters x rid = Some Unanswered then (lx_waiters x)(rid := Some (Answered r)) else lx_waiters x),
                      lx_active := (case lx_active x of
                          None \<Rightarrow> None | Some q \<Rightarrow> if iq_request_id q = rid then None else Some q)\<rparr>))"

datatype poll_answer = Stop | Deliver inference_request | Await nat

text \<open>\<open>exchange\<close> up to its wait; \<open>Await\<close> is the wait on the queue of an exchange.\<close>

definition poll :: "id \<Rightarrow> id \<Rightarrow> id \<Rightarrow> inference_reply option \<Rightarrow> broker \<Rightarrow> error + poll_answer \<times> broker" where
  "poll l w s reply b =
     (case br_leases b l of
        None \<Rightarrow> Inr (Stop, b)
      | Some i \<Rightarrow>
          let x = br_heap b ! i in
          if (lx_worker_id x, lx_worker_session_id x) \<noteq> (w, s) then Inl PermissionError
          else and_then (accept_reply (body_limit_bytes b) reply x) (\<lambda>x1.
            if lx_closed x1 then Inr (Stop, put_exchange i x1 b)
            else case lx_active x1 of
              Some q \<Rightarrow> Inr (Deliver q, put_exchange i x1 b)
            | None \<Rightarrow>
                (case lx_requests x1 of
                   q # qs \<Rightarrow> Inr (Deliver q, put_exchange i (x1\<lparr>lx_active := Some q, lx_requests := qs\<rparr>) b)
                 | [] \<Rightarrow> Inr (Await i, put_exchange i x1 b))))"

text \<open>The waiting poll gets the next request of the queue; \<open>None\<close> when the queue is empty.\<close>

definition resume :: "nat \<Rightarrow> broker \<Rightarrow> (inference_request \<times> broker) option" where
  "resume i b =
     (let x = br_heap b ! i in
      case lx_requests x of
        [] \<Rightarrow> None
      | q # qs \<Rightarrow> Some (q, put_exchange i (x\<lparr>lx_active := Some q, lx_requests := qs\<rparr>) b))"

section \<open>The transport\<close>

definition lower_char :: "char \<Rightarrow> char" where
  "lower_char c = (if CHR ''A'' \<le> c \<and> c \<le> CHR ''Z'' then char_of (of_char c + 32 :: nat) else c)"

definition allowed_route :: "string \<Rightarrow> string \<Rightarrow> bool" where
  "allowed_route meth path \<longleftrightarrow> (meth, path) \<in> {(''GET'', ''/v1/models''), (''POST'', ''/inference/v1/generate'')}"

definition transport_request :: "id \<Rightarrow> id \<Rightarrow> string \<Rightarrow> string \<Rightarrow> (string \<times> string) list \<Rightarrow> string \<Rightarrow> broker \<Rightarrow> error + nat \<times> broker" where
  "transport_request l rid meth path headers body b =
     (if \<not> allowed_route meth path then Inl UnsupportedProtocol
      else submit l \<lparr>iq_request_id = rid, iq_method = meth, iq_path = path,
        iq_headers = filter (\<lambda>(k, _). map lower_char k \<notin> {''authorization'', ''host''}) headers, iq_body = body\<rparr> b)"

section \<open>Runs\<close>

text \<open>
  The steps of a broker whose polls of one lease do not overlap: when a waiting poll resumes, no other
  poll has taken a request meanwhile that is still unanswered.
\<close>

inductive broker_step :: "broker \<Rightarrow> broker \<Rightarrow> bool" where
  registered: "register l w s b = Inr b' \<Longrightarrow> broker_step b b'"
| closed: "broker_step b (close l b)"
| submitted: "submit l q b = Inr (i, b') \<Longrightarrow> broker_step b b'"
| left: "i < length (br_heap b) \<Longrightarrow> broker_step b (leave i rid b)"
| polled: "poll l w s reply b = Inr (ans, b') \<Longrightarrow> broker_step b b'"
| resumed: "i < length (br_heap b) \<Longrightarrow> lx_active (br_heap b ! i) = None \<Longrightarrow> resume i b = Some (q, b') \<Longrightarrow> broker_step b b'"

inductive_cases broker_stepE: "broker_step b b'"

text \<open>What the requester of \<open>rid\<close> can rely on.\<close>

definition waiter_ok :: "lease_exchange \<Rightarrow> id \<Rightarrow> bool" where
  "waiter_ok x rid =
     (case lx_waiters x rid of
        None \<Rightarrow> True
      | Some Unanswered \<Rightarrow> \<not> lx_closed x \<and> (rid \<in> iq_request_id ` set (lx_requests x) \<or> map_option iq_request_id (lx_active x) = Some rid)
      | Some (Answered r) \<Rightarrow> ir_request_id r = rid \<and> lx_replies x rid = Some r
      | Some Refused \<Rightarrow> lx_closed x)"

definition broker_ok :: "broker \<Rightarrow> bool" where
  "broker_ok b \<longleftrightarrow> (\<forall>x \<in> set (br_heap b). \<forall>rid. waiter_ok x rid) \<and>
     (\<forall>l i. br_leases b l = Some i \<longrightarrow> i < length (br_heap b))"

lemma broker_ok_put:
  assumes "broker_ok b" "i < length (br_heap b)" "\<And>rid. waiter_ok x rid"
  shows "broker_ok (put_exchange i x b)"
  using assms set_update_subset_insert [of "br_heap b" i x] by (fastforce simp: broker_ok_def put_exchange_def)

lemma broker_ok_at: "broker_ok b \<Longrightarrow> i < length (br_heap b) \<Longrightarrow> waiter_ok (br_heap b ! i) rid"
  by (simp add: broker_ok_def)

lemma broker_ok_lease: "broker_ok b \<Longrightarrow> br_leases b l = Some i \<Longrightarrow> i < length (br_heap b)"
  by (auto simp: broker_ok_def)

lemma accept_reply_ok:
  assumes "accept_reply limit reply x = Inr x'" "\<And>rid. waiter_ok x rid"
  shows "waiter_ok x' rid"
proof (cases reply)
  case (Some r)
  then have old: "lx_replies x (ir_request_id r) = None \<or> lx_replies x (ir_request_id r) = Some r"
    and x': "lx_replies x' = (lx_replies x)(ir_request_id r := Some r)" "lx_closed x' = lx_closed x" "lx_requests x' = lx_requests x"
      "lx_waiters x' = (if lx_waiters x (ir_request_id r) = Some Unanswered
         then (lx_waiters x)(ir_request_id r := Some (Answered r)) else lx_waiters x)"
      "lx_active x' = (case lx_active x of None \<Rightarrow> None | Some q \<Rightarrow> if iq_request_id q = ir_request_id r then None else Some q)"
    using assms(1) by (auto simp: accept_reply_def Let_def split: if_splits)
  show ?thesis
  proof (cases "rid = ir_request_id r")
    case True
    with x' old assms(2) [of rid] show ?thesis by (auto simp: waiter_ok_def split: option.splits waiter.splits if_splits)
  next
    case False
    then have "lx_waiters x' rid = lx_waiters x rid" "lx_replies x' rid = lx_replies x rid"
      "map_option iq_request_id (lx_active x') = Some rid \<longleftrightarrow> map_option iq_request_id (lx_active x) = Some rid"
      using x' by (auto split: option.splits if_splits)
    with x'(2,3) assms(2) [of rid] show ?thesis by (auto simp: waiter_ok_def split: option.splits waiter.splits)
  qed
qed (use assms in \<open>simp add: accept_reply_def\<close>)

lemma take_request_ok:
  assumes "lx_active x = None" "lx_requests x = q # qs" "\<And>rid. waiter_ok x rid"
  shows "waiter_ok (x\<lparr>lx_active := Some q, lx_requests := qs\<rparr>) rid"
  using assms(1,2) assms(3) [of rid] by (auto simp: waiter_ok_def split: option.splits waiter.splits)

lemma broker_step_ok:
  assumes "broker_step b b'" "broker_ok b"
  shows "broker_ok b'"
  using assms(1)
proof (cases rule: broker_step.cases)
  case (registered l w s)
  with assms(2) show ?thesis
    by (auto simp: register_def broker_ok_def new_exchange_def waiter_ok_def less_Suc_eq split: if_splits)
next
  case (closed l)
  show ?thesis
  proof (cases "br_leases b l")
    case (Some i)
    let ?b1 = "b\<lparr>br_leases := (br_leases b)(l := None)\<rparr>"
    have ok: "broker_ok ?b1" using assms(2) by (auto simp: broker_ok_def)
    have i: "i < length (br_heap b)" using broker_ok_lease [OF assms(2) Some] .
    have "waiter_ok (refuse_waiters (br_heap b ! i)) rid" for rid
      using broker_ok_at [OF assms(2) i, of rid] by (auto simp: waiter_ok_def refuse_waiters_def split: option.splits waiter.splits)
    with broker_ok_put [OF ok] i ok Some show ?thesis by (simp add: closed close_def Let_def)
  qed (use assms(2) closed in \<open>simp add: close_def\<close>)
next
  case (submitted l q i)
  then have l: "br_leases b l = Some i" "\<not> lx_closed (br_heap b ! i)"
    and b': "b' = put_exchange i ((br_heap b ! i)\<lparr>lx_waiters := (lx_waiters (br_heap b ! i))(iq_request_id q := Some Unanswered),
               lx_requests := lx_requests (br_heap b ! i) @ [q]\<rparr>) b"
    by (auto simp: submit_def Let_def split: option.splits if_splits)
  have i: "i < length (br_heap b)" using broker_ok_lease [OF assms(2) l(1)] .
  show ?thesis unfolding b'
  proof (rule broker_ok_put [OF assms(2) i])
    show "waiter_ok ((br_heap b ! i)\<lparr>lx_waiters := (lx_waiters (br_heap b ! i))(iq_request_id q := Some Unanswered),
        lx_requests := lx_requests (br_heap b ! i) @ [q]\<rparr>) rid" for rid
      using broker_ok_at [OF assms(2) i, of rid] l(2) by (auto simp: waiter_ok_def split: option.splits waiter.splits)
  qed
next
  case (left i rid0)
  have "waiter_ok ((br_heap b ! i)\<lparr>lx_waiters := (lx_waiters (br_heap b ! i))(rid0 := None)\<rparr>) rid" for rid
    using broker_ok_at [OF assms(2) left(2), of rid] by (auto simp: waiter_ok_def split: option.splits waiter.splits)
  with broker_ok_put [OF assms(2) left(2)] show ?thesis by (simp add: left(1) leave_def Let_def)
next
  case (polled l w s reply ans)
  show ?thesis
  proof (cases "br_leases b l")
    case None
    with polled assms(2) show ?thesis by (simp add: poll_def)
  next
    case (Some i)
    have i: "i < length (br_heap b)" using broker_ok_lease [OF assms(2) Some] .
    from polled Some obtain x1 where x1: "accept_reply (body_limit_bytes b) reply (br_heap b ! i) = Inr x1"
      and b': "b' = put_exchange i x1 b \<or> (\<exists>q qs. lx_active x1 = None \<and> lx_requests x1 = q # qs \<and>
          b' = put_exchange i (x1\<lparr>lx_active := Some q, lx_requests := qs\<rparr>) b)"
      by (auto simp: poll_def Let_def and_then_eq_Inr split: if_splits option.splits list.splits)
    have ok: "waiter_ok x1 rid" for rid using accept_reply_ok [OF x1 broker_ok_at [OF assms(2) i]] .
    from b' show ?thesis
      by (elim disjE exE conjE) (auto intro: broker_ok_put [OF assms(2) i] ok take_request_ok)
  qed
next
  case (resumed i q)
  then obtain qs where "lx_requests (br_heap b ! i) = q # qs"
    "b' = put_exchange i ((br_heap b ! i)\<lparr>lx_active := Some q, lx_requests := qs\<rparr>) b"
    by (auto simp: resume_def Let_def split: list.splits)
  then show ?thesis
    using broker_ok_put [OF assms(2) resumed(1)] take_request_ok [OF resumed(2)] broker_ok_at [OF assms(2) resumed(1)] by blast
qed

interpretation broker: invariant_system "\<lambda>b. b = new_broker limit" broker_step broker_ok for limit
proof unfold_locales
  show "broker_ok b" if "b = new_broker limit" for b using that by (simp add: new_broker_def broker_ok_def)
  show "broker_ok b'" if "broker_ok b" "broker_step b b'" for b b' using that(2,1) by (rule broker_step_ok)
qed

lemma unanswered_is_polled:
  assumes "broker_ok b" "br_leases b l = Some i" "lx_waiters (br_heap b ! i) rid = Some Unanswered"
  shows "\<exists>q b'. poll l (lx_worker_id (br_heap b ! i)) (lx_worker_session_id (br_heap b ! i)) None b = Inr (Deliver q, b')"
proof -
  have "waiter_ok (br_heap b ! i) rid" using broker_ok_at [OF assms(1) broker_ok_lease [OF assms(1,2)]] .
  then have live: "\<not> lx_closed (br_heap b ! i)"
    and q: "lx_active (br_heap b ! i) \<noteq> None \<or> lx_requests (br_heap b ! i) \<noteq> []"
    using assms(3) by (auto simp: waiter_ok_def)
  from q live assms(2) show ?thesis
    by (cases "lx_active (br_heap b ! i)"; cases "lx_requests (br_heap b ! i)") (simp_all add: poll_def accept_reply_def Let_def)
qed

text \<open>C37: no request is lost and no answer is wrong: at any time a requester has its own recorded reply,
  or an exception because the lease was closed, or it waits, the lease is open and its request is queued or
  handed out; and while one waits, the next poll of the lease's worker gets a request. The runs are those
  whose polls of one lease do not overlap.\<close>

theorem requests_not_lost:
  assumes "broker_step\<^sup>*\<^sup>* (new_broker limit) b" "i < length (br_heap b)"
  shows "(case lx_waiters (br_heap b ! i) rid of
        None \<Rightarrow> True
      | Some Unanswered \<Rightarrow> \<not> lx_closed (br_heap b ! i) \<and>
          (rid \<in> iq_request_id ` set (lx_requests (br_heap b ! i)) \<or> map_option iq_request_id (lx_active (br_heap b ! i)) = Some rid) \<and>
          (\<forall>l. br_leases b l = Some i \<longrightarrow> (\<exists>q b'. poll l (lx_worker_id (br_heap b ! i))
             (lx_worker_session_id (br_heap b ! i)) None b = Inr (Deliver q, b')))
      | Some (Answered r) \<Rightarrow> ir_request_id r = rid \<and> lx_replies (br_heap b ! i) rid = Some r
      | Some Refused \<Rightarrow> lx_closed (br_heap b ! i))"
proof -
  have ok: "broker_ok b" using broker.reachable_good [OF refl assms(1)] .
  have "waiter_ok (br_heap b ! i) rid" using broker_ok_at [OF ok assms(2)] .
  with unanswered_is_polled [OF ok] show ?thesis by (auto simp: waiter_ok_def split: option.splits waiter.splits)
qed

section \<open>Witness and counterexample\<close>

definition demo_ask :: "id \<Rightarrow> inference_request" where
  "demo_ask rid = \<lparr>iq_request_id = rid, iq_method = ''GET'', iq_path = ''/v1/models'', iq_headers = [], iq_body = ''b''\<rparr>"

definition asked_broker :: "inference_request list \<Rightarrow> inference_request option \<Rightarrow> broker" where
  "asked_broker queue active_request =
     \<lparr>body_limit_bytes = 10,
      br_heap = [(new_exchange ''w'' ''s'')\<lparr>lx_requests := queue, lx_active := active_request,
        lx_waiters := [''r1'' \<mapsto> Unanswered, ''r2'' \<mapsto> Unanswered]\<rparr>],
      br_leases = [''l0'' \<mapsto> 0]\<rparr>"

lemma demo_ask_simps: "iq_request_id (demo_ask rid) = rid" "iq_body (demo_ask rid) = ''b''"
  by (simp_all add: demo_ask_def)

lemma demo_ask_valid: "InferenceRequest (demo_ask ''r1'')" "InferenceRequest (demo_ask ''r2'')"
  by code_simp+

lemma asked_reachable: "broker_step\<^sup>*\<^sup>* (new_broker 10) (asked_broker [demo_ask ''r1'', demo_ask ''r2''] None)"
proof -
  let ?b1 = "\<lparr>body_limit_bytes = 10, br_heap = [new_exchange ''w'' ''s''], br_leases = [''l0'' \<mapsto> 0]\<rparr>"
  let ?b2 = "\<lparr>body_limit_bytes = 10, br_heap = [(new_exchange ''w'' ''s'')\<lparr>lx_requests := [demo_ask ''r1''],
     lx_waiters := [''r1'' \<mapsto> Unanswered]\<rparr>], br_leases = [''l0'' \<mapsto> 0]\<rparr>"
  have "broker_step (new_broker 10) ?b1"
    by (rule broker_step.registered [of "''l0''" "''w''" "''s''"]) (simp add: register_def new_broker_def)
  moreover have "broker_step ?b1 ?b2"
    by (rule broker_step.submitted [of "''l0''" "demo_ask ''r1''" _ 0])
      (simp add: submit_def Let_def demo_ask_valid demo_ask_simps put_exchange_def new_exchange_def)
  moreover have "broker_step ?b2 (asked_broker [demo_ask ''r1'', demo_ask ''r2''] None)"
    by (rule broker_step.submitted [of "''l0''" "demo_ask ''r2''" _ 0])
      (simp add: submit_def Let_def demo_ask_valid demo_ask_simps asked_broker_def put_exchange_def new_exchange_def)
  ultimately show ?thesis by (meson converse_rtranclp_into_rtranclp rtranclp.rtrancl_refl)
qed

lemma requests_not_lost_witness:
  "\<exists>q b'. poll ''l0'' ''w'' ''s'' None (asked_broker [demo_ask ''r1'', demo_ask ''r2''] None) = Inr (Deliver q, b')"
  using requests_not_lost [OF asked_reachable, of 0 "''r1''"] by (auto simp: asked_broker_def new_exchange_def)

text \<open>
  Overlapping polls do lose a request: when two polls of one lease wait, and two requests arrive, the
  second delivery replaces the first as the request to be delivered again. If the first poll's
  connection is gone, nobody ever answers the first request.
\<close>

lemma overlapping_polls_lose_request:
  "\<exists>b1 b2. resume 0 (asked_broker [demo_ask ''r1'', demo_ask ''r2''] None) = Some (demo_ask ''r1'', b1) \<and>
     resume 0 b1 = Some (demo_ask ''r2'', b2) \<and> lx_waiters (br_heap b2 ! 0) ''r1'' = Some Unanswered \<and>
     lx_requests (br_heap b2 ! 0) = [] \<and> lx_active (br_heap b2 ! 0) = Some (demo_ask ''r2'')"
  by (simp add: resume_def asked_broker_def put_exchange_def new_exchange_def)

end
