(* ===== verification/Lora_Policy.thy ===== *)
theory Lora_Policy
  imports Scenario
begin

text \<open>
  Publication and verification of LoRA policies (\<open>trainer/policy.py\<close>): a policy is a directory of three
  files that the trainer writes once and that coordinator and workers verify before they serve it.
  The JSON and safetensors codecs are third-party code, the record \<open>artifact_codec\<close>; a directory is a list
  of named byte strings. Symbolic links and special files are not modelled, and JSON numbers are
  finite.
\<close>

section \<open>Strings\<close>

definition starts_with :: "string \<Rightarrow> string \<Rightarrow> bool" where
  "starts_with s p \<longleftrightarrow> take (length p) s = p"

definition ends_with :: "string \<Rightarrow> string \<Rightarrow> bool" where
  "ends_with s p \<longleftrightarrow> length p \<le> length s \<and> drop (length s - length p) s = p"

definition contains :: "string \<Rightarrow> string \<Rightarrow> bool" where
  "contains s p \<longleftrightarrow> list_ex (\<lambda>i. starts_with (drop i s) p) [0..<Suc (length s)]"

text \<open>\<open>rpartition\<close> and \<open>partition\<close>: before and after the last or first occurrence; \<open>None\<close> without one.\<close>

definition split_at :: "nat \<Rightarrow> string \<Rightarrow> string \<Rightarrow> string \<times> string" where
  "split_at i sep s = (take i s, drop (i + length sep) s)"

definition rpartition :: "string \<Rightarrow> string \<Rightarrow> (string \<times> string) option" where
  "rpartition sep s =
     (case filter (\<lambda>i. starts_with (drop i s) sep) [0..<Suc (length s)] of
        [] \<Rightarrow> None | js \<Rightarrow> Some (split_at (last js) sep s))"

definition lpartition :: "string \<Rightarrow> string \<Rightarrow> (string \<times> string) option" where
  "lpartition sep s =
     (case filter (\<lambda>i. starts_with (drop i s) sep) [0..<Suc (length s)] of
        [] \<Rightarrow> None | i # _ \<Rightarrow> Some (split_at i sep s))"

definition remove_suffix :: "string \<Rightarrow> string \<Rightarrow> string" where
  "remove_suffix p s = (if ends_with s p then take (length s - length p) s else s)"

section \<open>Adapter tensors\<close>

record tensor =
  tn_floating :: bool
  tn_shape :: "nat list"

type_synonym state_dict = "(string \<times> tensor) list"
type_synonym tensor_pair = "tensor option \<times> tensor option"

definition last_component :: "string \<Rightarrow> string" where
  "last_component prefix = (case rpartition ''.'' prefix of None \<Rightarrow> prefix | Some (_, m) \<Rightarrow> m)"

definition parse_key :: "string \<times> tensor \<Rightarrow> error + string \<times> bool" where
  "parse_key kt =
     (case rpartition ''.lora_'' (fst kt) of
        None \<Rightarrow> Inl ValueError
      | Some (prefix, suffix) \<Rightarrow>
          if prefix = [] \<or> suffix \<notin> {''A.weight'', ''B.weight''} then Inl ValueError
          else if \<not> tn_floating (snd kt) then Inl ValueError
          else Inr (prefix, suffix = ''A.weight''))"

fun add_tensor :: "string \<Rightarrow> bool \<Rightarrow> tensor \<Rightarrow> (string \<times> tensor_pair) list \<Rightarrow> (string \<times> tensor_pair) list" where
  "add_tensor prefix is_a t [] = [(prefix, if is_a then (Some t, None) else (None, Some t))]"
| "add_tensor prefix is_a t ((p, a, b) # pairs) =
     (if p = prefix then (p, if is_a then (Some t, b) else (a, Some t)) # pairs else (p, a, b) # add_tensor prefix is_a t pairs)"

definition collect_pairs :: "state_dict \<Rightarrow> error + (string \<times> tensor_pair) list" where
  "collect_pairs sd =
     fold_step (\<lambda>kt pairs. and_then (parse_key kt) (\<lambda>(prefix, is_a). Inr (add_tensor prefix is_a (snd kt) pairs))) sd []"

text \<open>The shapes of a complete pair: rows and columns of A and of B.\<close>

record pair_shape =
  a_rows :: nat
  a_cols :: nat
  b_rows :: nat
  b_cols :: nat

definition is_stacked_moe :: "string \<Rightarrow> bool" where
  "is_stacked_moe prefix \<longleftrightarrow> ends_with prefix ''.experts'' \<or> contains prefix ''.experts.base_layer''"

definition pair_shape_of :: "nat \<Rightarrow> string \<times> tensor_pair \<Rightarrow> error + string \<times> pair_shape" where
  "pair_shape_of rank pp =
     (case pp of
        (prefix, Some a, Some b) \<Rightarrow>
          (case (tn_shape a, tn_shape b) of
             ([a0, a1], [b0, b1]) \<Rightarrow>
               if a0 \<noteq> b1 then Inl ValueError
               else if a0 \<noteq> rank \<and> \<not> is_stacked_moe prefix then Inl ValueError
               else if a0 \<noteq> rank \<and> rank = 0 then Inl ZeroDivisionError
               else if a0 \<noteq> rank \<and> a0 mod rank \<noteq> 0 then Inl ValueError
               else Inr (prefix, \<lparr>a_rows = a0, a_cols = a1, b_rows = b0, b_cols = b1\<rparr>)
           | _ \<Rightarrow> Inl ValueError)
      | _ \<Rightarrow> Inl ValueError)"

definition stacked_roots :: "(string \<times> pair_shape) list \<Rightarrow> string list" where
  "stacked_roots pairs =
     remdups (map (remove_suffix ''.base_layer'')
       (filter (\<lambda>p. ends_with p ''.experts'' \<or> ends_with p ''.experts.base_layer'') (map fst pairs)))"

definition check_stacked :: "(string \<times> pair_shape) list \<Rightarrow> string \<Rightarrow> error + unit" where
  "check_stacked pairs base_name =
     (case (map_of pairs (base_name @ ''.base_layer''), map_of pairs base_name) of
        (Some gate_up, Some down) \<Rightarrow>
          guard (a_rows gate_up = a_rows down \<and> a_cols gate_up = b_rows down \<and> b_rows gate_up = 2 * a_cols down) ValueError
      | _ \<Rightarrow> Inl ValueError)"

text \<open>\<open>per_expert\<close>: base name, expert id, projection and shapes of each pair of a single expert.\<close>

definition expert_entry :: "string \<times> pair_shape \<Rightarrow> error + (string \<times> nat \<times> string \<times> pair_shape) option" where
  "expert_entry pp =
     (case pp of (prefix, sh) \<Rightarrow>
        if ends_with prefix ''.experts.base_layer'' then Inr None
        else case rpartition ''.experts.'' prefix of
          None \<Rightarrow> Inr None
        | Some (base_name, rest) \<Rightarrow>
            (case lpartition ''.'' rest of
               None \<Rightarrow> Inl ValueError
             | Some (expert_id, projection) \<Rightarrow>
                 if expert_id = [] \<or> \<not> list_all is_digit expert_id \<or> projection \<notin> {''gate_proj'', ''up_proj'', ''down_proj''}
                 then Inl ValueError else Inr (Some (base_name, parse_decimal expert_id, projection, sh))))"

definition experts_of :: "(string \<times> nat \<times> string \<times> pair_shape) list \<Rightarrow> string \<Rightarrow> (nat \<times> string \<times> pair_shape) list" where
  "experts_of entries base_name = map snd (filter (\<lambda>e. fst e = base_name) entries)"

text \<open>The projections of one expert; a later entry replaces an earlier one.\<close>

definition projections_of :: "(nat \<times> string \<times> pair_shape) list \<Rightarrow> nat \<Rightarrow> string \<Rightarrow> pair_shape option" where
  "projections_of experts i = map_of (rev (map snd (filter (\<lambda>e. fst e = i) experts)))"

definition check_expert :: "(string \<Rightarrow> pair_shape option) \<Rightarrow> error + unit" where
  "check_expert pr =
     (case (pr ''up_proj'', pr ''down_proj'') of
        (Some up, Some down) \<Rightarrow>
          and_then (guard (a_cols up = b_rows down \<and> b_rows up = a_cols down) ValueError) (\<lambda>_.
          guard (case pr ''gate_proj'' of None \<Rightarrow> True
            | Some gate \<Rightarrow> a_rows gate = a_rows up \<and> a_cols gate = a_cols up \<and> b_rows gate = b_rows up \<and> b_cols gate = b_cols up) ValueError)
      | _ \<Rightarrow> Inl ValueError)"

definition projection_names :: "string list" where
  "projection_names = [''gate_proj'', ''up_proj'', ''down_proj'']"

definition check_experts :: "(nat \<times> string \<times> pair_shape) list \<Rightarrow> error + unit" where
  "check_experts experts =
     (let ids = remdups (map fst experts);
          row = (\<lambda>i. map (projections_of experts i) projection_names)
      in if set ids \<noteq> set [0..<length ids] then Inl ValueError
         else if \<not> list_all (\<lambda>i. row i = row (hd ids)) ids then Inl ValueError
         else fold_step (\<lambda>i _. check_expert (projections_of experts i)) ids ())"

definition validate_adapter_tensors :: "state_dict \<Rightarrow> nat \<Rightarrow> error + string list" where
  "validate_adapter_tensors sd rank =
     (if sd = [] then Inl ValueError
      else and_then (collect_pairs sd) (\<lambda>pairs.
        and_then (each (pair_shape_of rank) pairs) (\<lambda>shapes.
        and_then (fold_step (\<lambda>base_name _. check_stacked shapes base_name) (stacked_roots shapes) ()) (\<lambda>_.
        and_then (each expert_entry shapes) (\<lambda>entries.
        let found = List.map_filter (\<lambda>e. e) entries in
        and_then (fold_step (\<lambda>base_name _. check_experts (experts_of found base_name)) (remdups (map fst found)) ()) (\<lambda>_.
        Inr (sort (remdups (map (last_component \<circ> fst) pairs)))))))))"

section \<open>The adapter configuration\<close>

definition number_of :: "json \<Rightarrow> rat option" where
  "number_of j = (case j of JInt i \<Rightarrow> Some (of_int i) | JFloat r \<Rightarrow> Some r | JBool b \<Rightarrow> Some (if b then 1 else 0) | _ \<Rightarrow> None)"

definition items_of :: "json \<Rightarrow> error + json list" where
  "items_of j =
     (case j of JArr xs \<Rightarrow> Inr xs | JStr s \<Rightarrow> Inr (map (\<lambda>c. JStr [c]) s) | JObj kvs \<Rightarrow> Inr (map (JStr \<circ> fst) kvs)
      | _ \<Rightarrow> Inl TypeError)"

definition config_keys :: "string list" where
  "config_keys = [''alpha_pattern'', ''base_model_name_or_path'', ''bias'', ''inference_mode'', ''lora_alpha'', ''lora_dropout'',
     ''modules_to_save'', ''peft_type'', ''r'', ''rank_pattern'', ''revision'', ''target_modules'', ''task_type'']"

definition adapter_config :: "base_model_identity \<Rightarrow> nat \<Rightarrow> rat \<Rightarrow> rat \<Rightarrow> string list \<Rightarrow> json" where
  "adapter_config base rank alpha dropout target_modules =
     JObj [(''alpha_pattern'', JObj []), (''base_model_name_or_path'', JStr (bm_model_name base)), (''bias'', JStr ''none''),
       (''inference_mode'', JBool True), (''lora_alpha'', JFloat alpha), (''lora_dropout'', JFloat dropout),
       (''modules_to_save'', JNull), (''peft_type'', JStr ''LORA''), (''r'', JInt (int rank)), (''rank_pattern'', JObj []),
       (''revision'', JStr (bm_model_revision base)), (''target_modules'', JArr (map JStr target_modules)),
       (''task_type'', JStr ''CAUSAL_LM'')]"

definition check_config :: "policy_manifest \<Rightarrow> adapter_manifest \<Rightarrow> json \<Rightarrow> error + unit" where
  "check_config m a config =
     (case config of
        JObj kvs \<Rightarrow>
          let get = (\<lambda>k. case map_of kvs k of None \<Rightarrow> JNull | Some v \<Rightarrow> v) in
          if set (map fst kvs) \<noteq> set config_keys then Inl ValueError
          else if get ''peft_type'' \<noteq> JStr ''LORA'' \<or> get ''task_type'' \<noteq> JStr ''CAUSAL_LM'' \<or> get ''bias'' \<noteq> JStr ''none'' \<or>
             get ''inference_mode'' \<noteq> JBool True \<or> get ''alpha_pattern'' \<noteq> JObj [] \<or> get ''rank_pattern'' \<noteq> JObj [] then Inl ValueError
          else if (case number_of (get ''lora_dropout'') of None \<Rightarrow> True | Some x \<Rightarrow> \<not> (0 \<le> x \<and> x \<le> 1)) then Inl ValueError
          else if get ''modules_to_save'' \<noteq> JNull then Inl ValueError
          else if get ''base_model_name_or_path'' \<noteq> JStr (bm_model_name (pm_base_model m)) then Inl ValueError
          else if get ''revision'' \<noteq> JStr (bm_model_revision (pm_base_model m)) then Inl ValueError
          else if number_of (get ''r'') \<noteq> Some (of_nat (ac_rank a)) \<or> number_of (get ''lora_alpha'') \<noteq> Some (ac_alpha a) then Inl ValueError
          else and_then (items_of (get ''target_modules'')) (\<lambda>items. guard (items = map JStr (ac_target_modules a)) ValueError)
      | _ \<Rightarrow> Inl ValueError)"

section \<open>Verification\<close>

record artifact_codec =
  json_bytes :: "json \<Rightarrow> string"
  parse_json :: "string \<Rightarrow> json option"
  manifest_bytes :: "policy_manifest \<Rightarrow> string"
  parse_manifest :: "string \<Rightarrow> policy_manifest option"
  save_tensors :: "state_dict \<Rightarrow> string"
  load_tensors :: "string \<Rightarrow> error + state_dict"

type_synonym directory = "(string \<times> string) list"

definition policy_file_names :: "string list" where
  "policy_file_names = [''adapter_config.json'', ''adapter_model.safetensors'', ''manifest.json'']"

definition read_file :: "directory \<Rightarrow> string \<Rightarrow> error + string" where
  "read_file dir name = (case map_of dir name of None \<Rightarrow> Inl FileNotFoundError | Some data \<Rightarrow> Inr data)"

definition check_file :: "repository \<Rightarrow> directory \<Rightarrow> adapter_file \<Rightarrow> error + unit" where
  "check_file R dir f =
     and_then (read_file dir (af_name f)) (\<lambda>data.
     guard (length data = af_size_bytes f \<and> sha256 R data = af_digest f) ValueError)"

definition check_weights :: "artifact_codec \<Rightarrow> adapter_manifest \<Rightarrow> string \<Rightarrow> error + unit" where
  "check_weights K a data =
     and_then (load_tensors K data) (\<lambda>sd.
     and_then (validate_adapter_tensors sd (ac_rank a)) (\<lambda>modules. guard (modules = ac_target_modules a) ValueError))"

text \<open>The codec decodes the fields of a manifest; \<open>model_validate_json\<close> then runs the validators on them.\<close>

definition read_manifest :: "repository \<Rightarrow> artifact_codec \<Rightarrow> string \<Rightarrow> error + policy_manifest" where
  "read_manifest R K data =
     (case parse_manifest K data of
        None \<Rightarrow> Inl ValueError
      | Some m \<Rightarrow>
          if \<not> PolicyManifest (hash_adapter R) (hash_identity R) m then Inl ValueError
          else if data \<noteq> manifest_bytes K m then Inl ValueError else Inr m)"

definition verify_contents :: "repository \<Rightarrow> artifact_codec \<Rightarrow> directory \<Rightarrow> policy_manifest \<Rightarrow> adapter_manifest \<Rightarrow> error + policy_manifest" where
  "verify_contents R K dir m a =
     and_then (fold_step (\<lambda>f _. check_file R dir f) (ac_files a) ()) (\<lambda>_.
     and_then (read_file dir ''adapter_config.json'') (\<lambda>data.
     and_then (case parse_json K data of None \<Rightarrow> Inl ValueError | Some j \<Rightarrow> Inr j) (\<lambda>config.
     and_then (check_config m a config) (\<lambda>_.
     and_then (read_file dir ''adapter_model.safetensors'') (\<lambda>weights.
     and_then (check_weights K a weights) (\<lambda>_. Inr m))))))"

definition verify_lora_policy :: "repository \<Rightarrow> artifact_codec \<Rightarrow> string \<Rightarrow> directory \<Rightarrow> policy_manifest option \<Rightarrow> error + policy_manifest" where
  "verify_lora_policy R K name dir expected =
     (if set (map fst dir) \<noteq> set policy_file_names then Inl ValueError
      else and_then (read_file dir ''manifest.json'') (\<lambda>data.
        and_then (read_manifest R K data) (\<lambda>m.
        case pm_adapter m of
          None \<Rightarrow> Inl ValueError
        | Some a \<Rightarrow>
            if name \<noteq> pm_policy_id m \<and> \<not> starts_with name ''.policy-'' then Inl ValueError
            else if (case expected of None \<Rightarrow> False | Some e \<Rightarrow> manifest_digest R m \<noteq> manifest_digest R e) then Inl ValueError
            else verify_contents R K dir m a)))"

section \<open>Publication\<close>

definition adapter_file_of :: "repository \<Rightarrow> string \<Rightarrow> string \<Rightarrow> adapter_file" where
  "adapter_file_of R name data = \<lparr>af_name = name, af_size_bytes = length data, af_digest = sha256 R data\<rparr>"

record policy_request =
  rq_run_id :: id
  rq_policy_version :: nat
  rq_base_model :: base_model_identity
  rq_state_dict :: state_dict
  rq_rank :: nat
  rq_alpha :: rat
  rq_dropout :: rat
  rq_created_at :: time

definition build_policy :: "repository \<Rightarrow> artifact_codec \<Rightarrow> policy_request \<Rightarrow> string list \<Rightarrow> error + policy_manifest \<times> directory" where
  "build_policy R K q target_modules =
     (let weights = save_tensors K (rq_state_dict q);
          config = json_bytes K (adapter_config (rq_base_model q) (rq_rank q) (rq_alpha q) (rq_dropout q) target_modules)
      in and_then (create_adapter_manifest (hash_adapter R)
             [adapter_file_of R ''adapter_config.json'' config, adapter_file_of R ''adapter_model.safetensors'' weights]
             (rq_rank q) (rq_alpha q) target_modules) (\<lambda>adapter.
         and_then (make_policy_manifest (hash_adapter R) (hash_identity R) (rq_run_id q) (rq_policy_version q) (rq_base_model q)
             (Some adapter) (rq_created_at q) None None) (\<lambda>m.
         Inr (m, [(''adapter_model.safetensors'', weights), (''adapter_config.json'', config), (''manifest.json'', manifest_bytes K m)]))))"

text \<open>The temporary directory is removed at the end; what stays is the list of published directories.\<close>

definition publish_lora_policy :: "repository \<Rightarrow> artifact_codec \<Rightarrow> string \<Rightarrow> policy_request \<Rightarrow> (string \<times> directory) list
    \<Rightarrow> error + policy_manifest \<times> (string \<times> directory) list" where
  "publish_lora_policy R K temporary q dirs =
     (if rq_policy_version q < 1 then Inl ValueError
      else if \<not> (0 \<le> rq_dropout q \<and> rq_dropout q \<le> 1) then Inl ValueError
      else and_then (validate_adapter_tensors (rq_state_dict q) (rq_rank q)) (\<lambda>target_modules.
        and_then (build_policy R K q target_modules) (\<lambda>(m, dir).
        and_then (verify_lora_policy R K temporary dir (Some m)) (\<lambda>_.
        case map_of dirs (pm_policy_id m) of
          None \<Rightarrow> Inr (m, dirs @ [(pm_policy_id m, dir)])
        | Some old \<Rightarrow>
            and_then (verify_lora_policy R K (pm_policy_id m) old None) (\<lambda>existing.
            if manifest_digest R existing \<noteq> manifest_digest R m then Inl ValueError else Inr (existing, dirs))))))"

section \<open>What publication guarantees\<close>

lemma policy_id_not_temporary: "\<not> starts_with (expected_policy_id v d) ''.policy-''"
  by (simp add: starts_with_def expected_policy_id_def)

lemma verify_contents_same: "verify_contents R K dir m a = Inr m' \<Longrightarrow> m' = m"
  by (auto simp: verify_contents_def and_then_eq_Inr)

text \<open>What a successful verification has established; the name and the expectation are one guard each.\<close>

lemma verify_eq_Inr:
  "verify_lora_policy R K name dir expected = Inr m \<longleftrightarrow>
     set (map fst dir) = set policy_file_names \<and>
     and_then (read_file dir ''manifest.json'') (read_manifest R K) = Inr m \<and>
     (\<exists>a. pm_adapter m = Some a \<and> verify_contents R K dir m a = Inr m) \<and>
     (name = pm_policy_id m \<or> starts_with name ''.policy-'') \<and>
     (\<forall>e. expected = Some e \<longrightarrow> manifest_digest R m = manifest_digest R e)"
  (is "?l \<longleftrightarrow> ?r")
proof
  assume ?l
  then obtain data m' a where 1: "set (map fst dir) = set policy_file_names" "read_file dir ''manifest.json'' = Inr data"
    "read_manifest R K data = Inr m'" "pm_adapter m' = Some a"
    and 2: "name = pm_policy_id m' \<or> starts_with name ''.policy-''"
    "\<forall>e. expected = Some e \<longrightarrow> manifest_digest R m' = manifest_digest R e" and 3: "verify_contents R K dir m' a = Inr m"
    by (cases expected) (auto simp: verify_lora_policy_def and_then_eq_Inr split: if_splits option.splits)
  from 3 have "m = m'" by (rule verify_contents_same)
  with 1 2 3 show ?r by simp
next
  assume ?r
  then show ?l by (cases expected) (auto simp: verify_lora_policy_def and_then_eq_Inr)
qed

lemma verify_renamed:
  assumes "verify_lora_policy R K name dir expected = Inr m"
  shows "verify_lora_policy R K (pm_policy_id m) dir None = Inr m"
    "starts_with temporary ''.policy-'' \<Longrightarrow> verify_lora_policy R K temporary dir None = Inr m"
  using assms by (auto simp: verify_eq_Inr)

lemma verify_expected:
  "verify_lora_policy R K name dir (Some e) = Inr m \<longleftrightarrow>
     verify_lora_policy R K name dir None = Inr m \<and> manifest_digest R m = manifest_digest R e"
  by (auto simp: verify_eq_Inr)

lemma verified_manifest:
  assumes "verify_lora_policy R K name dir expected = Inr m"
  shows "PolicyManifest (hash_adapter R) (hash_identity R) m"
  using assms by (auto simp: verify_eq_Inr read_manifest_def and_then_eq_Inr split: option.splits if_splits)

text \<open>What publication builds: a valid manifest for the request and the directory holding it.\<close>

lemma build_policy_eq_Inr:
  assumes "build_policy R K q modules = Inr (m, dir)"
  shows "pm_run_id m = rq_run_id q" "pm_policy_version m = rq_policy_version q" "pm_base_model m = rq_base_model q"
    "pm_policy_id m = expected_policy_id (rq_policy_version q) (manifest_digest R m)"
    "read_file dir ''manifest.json'' = Inr (manifest_bytes K m)"
proof -
  from assms obtain adapter where
    1: "make_policy_manifest (hash_adapter R) (hash_identity R) (rq_run_id q) (rq_policy_version q) (rq_base_model q)
      (Some adapter) (rq_created_at q) None None = Inr m"
    and 2: "map_of dir ''manifest.json'' = Some (manifest_bytes K m)"
    by (auto simp: build_policy_def Let_def and_then_eq_Inr)
  note facts = make_policy_manifest_InrD [OF 1]
  from facts show "pm_run_id m = rq_run_id q" "pm_policy_version m = rq_policy_version q" "pm_base_model m = rq_base_model q"
    "pm_policy_id m = expected_policy_id (rq_policy_version q) (manifest_digest R m)"
    by (simp_all add: policy_manifest_digest_def)
  from 2 show "read_file dir ''manifest.json'' = Inr (manifest_bytes K m)" by (simp add: read_file_def)
qed

lemma built_name: "build_policy R K q modules = Inr (m, dir) \<Longrightarrow> \<not> starts_with (pm_policy_id m) ''.policy-''"
  by (simp add: build_policy_eq_Inr(4) policy_id_not_temporary)

lemma verify_built:
  assumes "build_policy R K q modules = Inr (m, dir)" "parse_manifest K (manifest_bytes K m) = Some m"
    and "verify_lora_policy R K name dir expected = Inr m'"
  shows "m' = m"
  using assms(2,3) build_policy_eq_Inr(5) [OF assms(1)]
  by (auto simp: verify_eq_Inr read_manifest_def split: if_splits)

text \<open>The two ways in which a publication succeeds.\<close>

lemma publish_cases:
  assumes "publish_lora_policy R K temporary q dirs = Inr (m, dirs')"
  obtains (new) modules dir m' where "validate_adapter_tensors (rq_state_dict q) (rq_rank q) = Inr modules"
    "build_policy R K q modules = Inr (m, dir)" "verify_lora_policy R K temporary dir (Some m) = Inr m'"
    "map_of dirs (pm_policy_id m) = None" "dirs' = dirs @ [(pm_policy_id m, dir)]"
  | (existing) modules dir b m' old where "validate_adapter_tensors (rq_state_dict q) (rq_rank q) = Inr modules"
    "build_policy R K q modules = Inr (b, dir)" "verify_lora_policy R K temporary dir (Some b) = Inr m'"
    "map_of dirs (pm_policy_id b) = Some old" "verify_lora_policy R K (pm_policy_id b) old None = Inr m"
    "manifest_digest R m = manifest_digest R b" "dirs' = dirs"
  using assms
  by (auto simp: publish_lora_policy_def and_then_eq_Inr split: if_splits option.splits)

lemma publish_existing:
  assumes "1 \<le> rq_policy_version q" "0 \<le> rq_dropout q" "rq_dropout q \<le> 1"
    "validate_adapter_tensors (rq_state_dict q) (rq_rank q) = Inr modules" "build_policy R K q modules = Inr (b, dir)"
    "verify_lora_policy R K temporary dir (Some b) = Inr m'" "map_of dirs (pm_policy_id b) = Some old"
    "verify_lora_policy R K (pm_policy_id b) old None = Inr m" "manifest_digest R m = manifest_digest R b"
  shows "publish_lora_policy R K temporary q dirs = Inr (m, dirs)"
  using assms by (simp add: publish_lora_policy_def)

lemma publish_guards:
  assumes "publish_lora_policy R K temporary q dirs = Inr r"
  shows "1 \<le> rq_policy_version q" "0 \<le> rq_dropout q" "rq_dropout q \<le> 1"
  using assms by (auto simp: publish_lora_policy_def split: if_splits)

text \<open>
  C38: a publication that succeeds leaves, under the identifier derived from version and identity, a
  directory that verifies as the returned manifest, and changes no other directory; publishing the same
  request once more returns the same manifest and changes nothing. The hypothesis on the codec is that
  the canonical JSON of the returned manifest parses back to it.
\<close>

theorem publication_roundtrip:
  assumes "publish_lora_policy R K temporary q dirs = Inr (m, dirs')"
    and "starts_with temporary ''.policy-''" "starts_with temporary' ''.policy-''"
    and "parse_manifest K (manifest_bytes K m) = Some m"
  shows "PolicyManifest (hash_adapter R) (hash_identity R) m \<and>
    pm_policy_id m = expected_policy_id (rq_policy_version q) (manifest_digest R m) \<and>
    (\<exists>dir. map_of dirs' (pm_policy_id m) = Some dir \<and> verify_lora_policy R K (pm_policy_id m) dir (Some m) = Inr m) \<and>
    (dirs' = dirs \<or> map_of dirs (pm_policy_id m) = None \<and> (\<exists>dir. dirs' = dirs @ [(pm_policy_id m, dir)])) \<and>
    publish_lora_policy R K temporary' q dirs' = Inr (m, dirs')"
  using assms(1)
proof (cases rule: publish_cases)
  case (new modules dir m')
  have same: "m' = m" by (rule verify_built [OF new(2) assms(4) new(3)])
  have v: "verify_lora_policy R K (pm_policy_id m) dir (Some m) = Inr m"
    "verify_lora_policy R K temporary' dir (Some m) = Inr m"
    using new(3) assms(3) by (auto simp: verify_expected same intro: verify_renamed)
  have "publish_lora_policy R K temporary' q dirs' = Inr (m, dirs')"
    using publish_guards [OF assms(1)] new v by (intro publish_existing) (auto simp: verify_expected map_add_def)
  with v new build_policy_eq_Inr(4) [OF new(2)] verified_manifest [OF v(1)] show ?thesis
    by (auto simp: map_add_def)
next
  case (existing modules dir b m' old)
  have name: "pm_policy_id b = pm_policy_id m"
    using existing(5) built_name [OF existing(2)] by (auto simp: verify_eq_Inr)
  have v: "verify_lora_policy R K (pm_policy_id m) old (Some m) = Inr m"
    using existing(5) by (simp add: verify_expected name)
  have "publish_lora_policy R K temporary' q dirs' = Inr (m, dirs')"
    using publish_guards [OF assms(1)] existing assms(3)
    by (intro publish_existing) (auto simp: verify_expected intro: verify_renamed)
  with v existing name build_policy_eq_Inr(4) [OF existing(2)] verified_manifest [OF v(1)] show ?thesis by auto
qed

section \<open>A concrete publication\<close>

definition demo_state_dict :: state_dict where
  "demo_state_dict =
     [(''model.layers.0.q_proj.lora_A.weight'', \<lparr>tn_floating = True, tn_shape = [2, 8]\<rparr>),
      (''model.layers.0.q_proj.lora_B.weight'', \<lparr>tn_floating = True, tn_shape = [8, 2]\<rparr>)]"

definition demo_adapter :: adapter_manifest where
  "demo_adapter =
     \<lparr>ac_manifest_version = 1,
      ac_files = [\<lparr>af_name = ''adapter_config.json'', af_size_bytes = 6, af_digest = hex_digest (CHR ''9'')\<rparr>,
                  \<lparr>af_name = ''adapter_model.safetensors'', af_size_bytes = 7, af_digest = hex_digest (CHR ''9'')\<rparr>],
      ac_rank = 2, ac_alpha = 4, ac_target_modules = [''q_proj''], am_digest = hex_digest (CHR ''a'')\<rparr>"

definition demo_manifest :: policy_manifest where
  "demo_manifest =
     (let d = identity_digest (semantic_identity ''run'' 1 the_base_model (Some demo_adapter)) in
      \<lparr>pm_run_id = ''run'', pm_policy_version = 1, pm_base_model = the_base_model, pm_adapter = Some demo_adapter,
       pm_created_at = 5, pm_policy_id = expected_policy_id 1 d, pm_served_model_name = expected_policy_id 1 d\<rparr>)"

text \<open>A codec that knows three documents.\<close>

definition lora_codec :: artifact_codec where
  "lora_codec =
     \<lparr>json_bytes = \<lambda>_. ''config'',
      parse_json = \<lambda>s. if s = ''config'' then Some (adapter_config the_base_model 2 4 0 [''q_proj'']) else None,
      manifest_bytes = \<lambda>_. ''manifest'',
      parse_manifest = \<lambda>s. if s = ''manifest'' then Some demo_manifest else None,
      save_tensors = \<lambda>_. ''weights'',
      load_tensors = \<lambda>s. if s = ''weights'' then Inr demo_state_dict else Inl ValueError\<rparr>"

definition demo_policy_request :: policy_request where
  "demo_policy_request =
     \<lparr>rq_run_id = ''run'', rq_policy_version = 1, rq_base_model = the_base_model, rq_state_dict = demo_state_dict,
      rq_rank = 2, rq_alpha = 4, rq_dropout = 0, rq_created_at = 5\<rparr>"

definition demo_directory :: directory where
  "demo_directory = [(''adapter_model.safetensors'', ''weights''), (''adapter_config.json'', ''config''), (''manifest.json'', ''manifest'')]"

lemma demo_tensors: "validate_adapter_tensors demo_state_dict 2 = Inr [''q_proj'']"
  by code_simp

lemma demo_build: "build_policy demo lora_codec demo_policy_request [''q_proj''] = Inr (demo_manifest, demo_directory)"
  by code_simp

lemma demo_verify: "verify_lora_policy demo lora_codec ''.policy-x'' demo_directory (Some demo_manifest) = Inr demo_manifest"
  by code_simp

lemma demo_publish:
  "publish_lora_policy demo lora_codec ''.policy-x'' demo_policy_request [] =
     Inr (demo_manifest, [(pm_policy_id demo_manifest, demo_directory)])"
proof -
  have "rq_policy_version demo_policy_request = 1" "rq_dropout demo_policy_request = 0"
    "rq_state_dict demo_policy_request = demo_state_dict" "rq_rank demo_policy_request = 2"
    by (simp_all add: demo_policy_request_def)
  then show ?thesis by (simp add: publish_lora_policy_def demo_tensors demo_build demo_verify)
qed

lemma temporary_names: "starts_with ''.policy-x'' ''.policy-''" "starts_with ''.policy-y'' ''.policy-''"
  by (simp_all add: starts_with_def)

theorem publication_roundtrip_witness:
  "publish_lora_policy demo lora_codec ''.policy-y'' demo_policy_request [(pm_policy_id demo_manifest, demo_directory)] =
     Inr (demo_manifest, [(pm_policy_id demo_manifest, demo_directory)])"
proof -
  have "parse_manifest lora_codec (manifest_bytes lora_codec demo_manifest) = Some demo_manifest"
    by (simp add: lora_codec_def)
  from publication_roundtrip [OF demo_publish temporary_names this] show ?thesis by blast
qed

end
