(* ===== verification/Policy_Transport.thy ===== *)
theory Policy_Transport
  imports Lora_Policy
begin

text \<open>
  How a worker fetches a policy (\<open>worker/client.py\<close>, \<open>worker/policy_transport.py\<close>): from the coordinator,
  from an external location that the coordinator names, or in shards from SHARDCAST mirrors. The
  network is a parameter that answers a request in an attempt with anything: nothing, an answer of any
  status, headers and body, or a body that breaks off. The URL parser is a parameter too.
\<close>

section \<open>Errors and answers\<close>

text \<open>\<open>Raised\<close> carries the exceptions of the modules below, \<open>AttributeError\<close> is the one of Python.\<close>

datatype cache_error =
    AdapterCacheError
  | AdapterCacheCorruptionError
  | CoordinatorProtocolError
  | CoordinatorAPIError nat
  | TransportError
  | AttributeError
  | Raised error

definition retryable :: "nat \<Rightarrow> bool" where
  "retryable status \<longleftrightarrow> status \<in> {408, 425, 429} \<or> 500 \<le> status"

record http_response =
  hr_status :: nat
  hr_headers :: "(string \<times> string) list"
  hr_chunks :: "string list"
  hr_broken :: bool

datatype request =
    Coordinator_Get (rq_path: string) (rq_offset: nat)
  | Artifact_Get (rq_path: string) (rq_offset: nat)

datatype http_outcome = No_Answer | Answer http_response

text \<open>The answer may depend on the attempt in which the request is sent.\<close>

type_synonym network = "nat \<Rightarrow> request \<Rightarrow> http_outcome"

definition send_request :: "network \<Rightarrow> nat \<Rightarrow> request \<Rightarrow> cache_error + http_response" where
  "send_request net k q = (case net k q of No_Answer \<Rightarrow> Inl TransportError | Answer r \<Rightarrow> Inr r)"

text \<open>\<open>response.content\<close>: the whole body, unless the connection breaks.\<close>

definition response_content :: "http_response \<Rightarrow> cache_error + string" where
  "response_content r = (if hr_broken r then Inl TransportError else Inr (concat (hr_chunks r)))"

definition header :: "http_response \<Rightarrow> string \<Rightarrow> string option" where
  "header r name = map_of (hr_headers r) name"

definition lower_ascii :: "char \<Rightarrow> char" where
  "lower_ascii c = (if 65 \<le> (of_char c :: nat) \<and> (of_char c :: nat) \<le> 90 then char_of ((of_char c :: nat) + 32) else c)"

definition header_or :: "http_response \<Rightarrow> string \<Rightarrow> string \<Rightarrow> string" where
  "header_or r name d = (case header r name of None \<Rightarrow> d | Some v \<Rightarrow> v)"

definition identity_encoding :: "http_response \<Rightarrow> bool" where
  "identity_encoding r \<longleftrightarrow> map lower_ascii (header_or r ''content-encoding'' ''identity'') = ''identity''"

text \<open>The text before the first semicolon of the content type.\<close>

definition content_type :: "http_response \<Rightarrow> string" where
  "content_type r = map lower_ascii (takeWhile (\<lambda>c. c \<noteq> CHR '';'') (header_or r ''content-type'' []))"

text \<open>Python's \<open>int\<close> of a Latin-1 string: white space, a sign, digits with single underscores between them.\<close>

definition is_space :: "char \<Rightarrow> bool" where
  "is_space c \<longleftrightarrow> (of_char c :: nat) \<in> {9, 10, 11, 12, 13, 28, 29, 30, 31, 32, 133, 160}"

definition strip :: "string \<Rightarrow> string" where
  "strip s = rev (dropWhile is_space (rev (dropWhile is_space s)))"

fun int_digits :: "string \<Rightarrow> string option" where
  "int_digits [] = None"
| "int_digits [c] = (if is_digit c then Some [c] else None)"
| "int_digits (c # d # cs) =
     (if \<not> is_digit c then None
      else map_option ((#) c) (if d = CHR ''_'' then int_digits cs else int_digits (d # cs)))"

definition python_int :: "string \<Rightarrow> int option" where
  "python_int s =
     (case strip s of
        c # cs \<Rightarrow>
          if c = CHR ''-'' then map_option (\<lambda>ds. - int (parse_decimal ds)) (int_digits cs)
          else map_option (\<lambda>ds. int (parse_decimal ds)) (int_digits (if c = CHR ''+'' then cs else c # cs))
      | [] \<Rightarrow> None)"

definition content_length :: "http_response \<Rightarrow> int option" where
  "content_length r = python_int (header_or r ''content-length'' [])"

section \<open>The coordinator's files\<close>

definition get_ok :: "network \<Rightarrow> nat \<Rightarrow> request \<Rightarrow> cache_error + http_response \<times> string" where
  "get_ok net k q =
     and_then (send_request net k q) (\<lambda>r.
     and_then (response_content r) (\<lambda>content.
     if hr_status r \<noteq> 200 then Inl (CoordinatorAPIError (hr_status r)) else Inr (r, content)))"

definition policy_path :: "id \<Rightarrow> string \<Rightarrow> string" where
  "policy_path policy_id suffix = ''/api/v2/policies/'' @ policy_id @ suffix"

definition get_policy_manifest :: "network \<Rightarrow> nat \<Rightarrow> id \<Rightarrow> cache_error + http_response \<times> string" where
  "get_policy_manifest net k policy_id = get_ok net k (Coordinator_Get (policy_path policy_id ''/manifest'') 0)"

definition open_ranged :: "network \<Rightarrow> nat \<Rightarrow> request \<Rightarrow> (nat \<Rightarrow> cache_error) \<Rightarrow> cache_error + http_response" where
  "open_ranged net k q refused =
     and_then (send_request net k q) (\<lambda>r.
     if hr_status r \<noteq> (if 0 < rq_offset q then 206 else 200)
     then and_then (response_content r) (\<lambda>_. Inl (refused (hr_status r)))
     else Inr r)"

definition stream_policy_file :: "network \<Rightarrow> nat \<Rightarrow> id \<Rightarrow> string \<Rightarrow> nat \<Rightarrow> cache_error + http_response" where
  "stream_policy_file net k policy_id name offset =
     open_ranged net k (Coordinator_Get (policy_path policy_id (''/files/'' @ name)) offset) CoordinatorAPIError"

section \<open>External locations\<close>

record policy_file_location =
  fl_name :: string
  fl_url :: string

record policy_locations =
  lo_policy_id :: id
  lo_policy_digest :: digest
  lo_expires_at :: time
  lo_files :: "policy_file_location list"

definition PolicyLocations :: "policy_locations \<Rightarrow> bool" where
  "PolicyLocations l \<longleftrightarrow>
     OpaqueId (lo_policy_id l) \<and> Digest (lo_policy_digest l) \<and> Timestamp (lo_expires_at l) \<and>
     list_all (\<lambda>f. sized 8192 (fl_url f)) (lo_files l) \<and> map fl_name (lo_files l) = adapter_file_names"

record url_parts =
  up_scheme :: string
  up_netloc :: string
  up_username :: "string option"
  up_password :: "string option"

type_synonym origin = "string \<times> string"

record transport =
  tr_attempts :: nat
  tr_coordinator_fallback :: bool
  tr_allowed_origins :: "origin list"
  tr_shardcast_servers :: "string list"
  tr_clock :: time
  tr_split_url :: "string \<Rightarrow> url_parts"
  tr_parse_locations :: "string \<Rightarrow> policy_locations option"
  tr_parse_json :: "string \<Rightarrow> json option"

definition url_origin :: "transport \<Rightarrow> string \<Rightarrow> cache_error + origin" where
  "url_origin T url =
     (let parsed = tr_split_url T url in
      if up_scheme parsed \<noteq> ''https'' \<or> up_netloc parsed = [] \<or> up_username parsed \<noteq> None \<or> up_password parsed \<noteq> None
      then Inl CoordinatorProtocolError
      else Inr (up_scheme parsed, map lower_ascii (up_netloc parsed)))"

definition get_policy_locations :: "transport \<Rightarrow> network \<Rightarrow> nat \<Rightarrow> id \<Rightarrow> cache_error + policy_locations" where
  "get_policy_locations T net k policy_id =
     and_then (get_ok net k (Coordinator_Get (policy_path policy_id ''/locations'') 0)) (\<lambda>(_, content).
     case tr_parse_locations T content of
       None \<Rightarrow> Inl CoordinatorProtocolError
     | Some l \<Rightarrow> if PolicyLocations l then Inr l else Inl CoordinatorProtocolError)"

definition external_url :: "repository \<Rightarrow> transport \<Rightarrow> network \<Rightarrow> nat \<Rightarrow> policy_manifest \<Rightarrow> string \<Rightarrow> cache_error + string option" where
  "external_url R T net k m name =
     (case get_policy_locations T net k (pm_policy_id m) of
        Inl e \<Rightarrow> if e = CoordinatorAPIError 404 \<and> tr_coordinator_fallback T then Inr None else Inl e
      | Inr l \<Rightarrow>
          if lo_policy_id l \<noteq> pm_policy_id m \<or> lo_policy_digest l \<noteq> manifest_digest R m then Inl CoordinatorProtocolError
          else if lo_expires_at l \<le> tr_clock T then Inl CoordinatorProtocolError
          else case map_of (map (\<lambda>f. (fl_name f, fl_url f)) (lo_files l)) name of
            None \<Rightarrow> Inl CoordinatorProtocolError
          | Some url \<Rightarrow> and_then (url_origin T url) (\<lambda>origin.
              if origin \<notin> set (tr_allowed_origins T) then Inl CoordinatorProtocolError else Inr (Some url)))"

definition open_external :: "network \<Rightarrow> nat \<Rightarrow> string \<Rightarrow> nat \<Rightarrow> cache_error + http_response" where
  "open_external net k url offset = open_ranged net k (Artifact_Get url offset) (\<lambda>_. CoordinatorProtocolError)"

text \<open>\<open>stream\<close>: the opened answer and whether its entity tag must be the digest.\<close>

definition stream_file :: "repository \<Rightarrow> transport \<Rightarrow> network \<Rightarrow> nat \<Rightarrow> policy_manifest \<Rightarrow> string \<Rightarrow> nat \<Rightarrow> bool
    \<Rightarrow> cache_error + http_response \<times> bool" where
  "stream_file R T net k m name offset coordinator_only =
     and_then (if tr_allowed_origins T \<noteq> [] \<and> \<not> coordinator_only then external_url R T net k m name else Inr None) (\<lambda>url.
     case url of
       Some u \<Rightarrow> and_then (open_external net k u offset) (\<lambda>r. Inr (r, False))
     | None \<Rightarrow>
         if \<not> tr_coordinator_fallback T then Inl CoordinatorProtocolError
         else and_then (stream_policy_file net k (pm_policy_id m) name offset) (\<lambda>r. Inr (r, True)))"

section \<open>SHARDCAST mirrors\<close>

definition json_get :: "(string \<times> json) list \<Rightarrow> string \<Rightarrow> json" where
  "json_get kvs key = (case map_of kvs key of None \<Rightarrow> JNull | Some v \<Rightarrow> v)"

text \<open>
  One mirror's index: \<open>None\<close> when the mirror is skipped. A member \<open>policies\<close> that is not an object has
  no \<open>get\<close>, and the \<open>AttributeError\<close> is not among the exceptions that are caught.
\<close>

definition index_record :: "transport \<Rightarrow> id \<Rightarrow> string \<Rightarrow> cache_error + (string \<times> json) list option" where
  "index_record T policy_id content =
     (case tr_parse_json T content of
        Some (JObj index) \<Rightarrow>
          (case map_of index ''version'' of
             None \<Rightarrow> Inr None
           | Some v \<Rightarrow>
               if number_of v \<noteq> Some 1 then Inr None
               else case map_of index ''policies'' of
                 None \<Rightarrow> Inr None
               | Some (JObj entries) \<Rightarrow> Inr (case map_of entries policy_id of Some (JObj record) \<Rightarrow> Some record | _ \<Rightarrow> None)
               | Some _ \<Rightarrow> Inl AttributeError)
      | _ \<Rightarrow> Inr None)"

fun shardcast_record :: "transport \<Rightarrow> network \<Rightarrow> id \<Rightarrow> string list \<Rightarrow> cache_error + (string \<times> json) list option" where
  "shardcast_record T net policy_id [] = Inr None"
| "shardcast_record T net policy_id (server # servers) =
     (case and_then (send_request net 0 (Artifact_Get (server @ ''/aether-policies.json'') 0)) (\<lambda>r.
             and_then (response_content r) (\<lambda>content. Inr (r, content))) of
        Inl _ \<Rightarrow> shardcast_record T net policy_id servers
      | Inr (r, content) \<Rightarrow>
          if hr_status r \<noteq> 200 \<or> (1024 * 1024 :: int) < int (length content) then shardcast_record T net policy_id servers
          else and_then (index_record T policy_id content) (\<lambda>found.
            case found of Some record \<Rightarrow> Inr (Some record) | None \<Rightarrow> shardcast_record T net policy_id servers))"

text \<open>Version, number of shards and shard size of a usable record.\<close>

definition shard_plan :: "repository \<Rightarrow> policy_manifest \<Rightarrow> nat \<Rightarrow> digest \<Rightarrow> (string \<times> json) list \<Rightarrow> (string \<times> nat \<times> nat) option" where
  "shard_plan R m size_bytes dig record =
     (if json_get record ''policy_digest'' \<noteq> JStr (digest_text (manifest_digest R m)) \<or>
         json_get record ''artifact_digest'' \<noteq> JStr (digest_text dig) \<or>
         number_of (json_get record ''size_bytes'') \<noteq> Some (of_nat size_bytes) then None
      else case (json_get record ''version'', json_get record ''shard_count'', json_get record ''shard_size_bytes'') of
        (JStr version, JInt shard_count, JInt shard_size) \<Rightarrow>
          if starts_with version ''v'' \<and> 1024\<^sup>2 \<le> shard_size \<and> shard_count = (int size_bytes + shard_size - 1) div shard_size
          then Some (version, nat shard_count, nat shard_size) else None
      | _ \<Rightarrow> None)"

text \<open>Reading the body of a shard, which stops when it gets too long.\<close>

fun read_shard :: "nat \<Rightarrow> string \<Rightarrow> string list \<Rightarrow> bool \<Rightarrow> cache_error + string option" where
  "read_shard limit got [] broken =
     (if broken then Inl TransportError else Inr (if length got = limit then Some got else None))"
| "read_shard limit got (c # cs) broken =
     (if limit < length got + length c then Inr None else read_shard limit (got @ c) cs broken)"

definition shard_file :: "nat \<Rightarrow> string" where
  "shard_file index = ''shard_'' @ zero_padded 5 (index + 1) @ ''.bin''"

fun download_shard :: "network \<Rightarrow> string \<Rightarrow> nat \<Rightarrow> string list \<Rightarrow> cache_error + string" where
  "download_shard net path expected [] = Inl CoordinatorProtocolError"
| "download_shard net path expected (server # servers) =
     (case send_request net 0 (Artifact_Get (server @ path) 0) of
        Inl _ \<Rightarrow> download_shard net path expected servers
      | Inr r \<Rightarrow>
          if hr_status r \<noteq> 200 \<or> \<not> identity_encoding r \<or> content_length r \<noteq> Some (int expected)
          then download_shard net path expected servers
          else and_then (read_shard expected [] (hr_chunks r) (hr_broken r)) (\<lambda>body.
            case body of Some data \<Rightarrow> Inr data | None \<Rightarrow> download_shard net path expected servers))"

text \<open>
  The shards, in parallel up to a bound: any failure among them makes the download give up, so the
  order in which they run does not matter. The result is the file written, if any, and whether it has
  the size.
\<close>

definition download_shardcast :: "repository \<Rightarrow> transport \<Rightarrow> network \<Rightarrow> policy_manifest \<Rightarrow> string \<Rightarrow> nat \<Rightarrow> digest
    \<Rightarrow> cache_error + string option \<times> bool" where
  "download_shardcast R T net m name size_bytes dig =
     (if name \<noteq> ''adapter_model.safetensors'' \<or> tr_shardcast_servers T = [] then Inr (None, False)
      else and_then (shardcast_record T net (pm_policy_id m) (tr_shardcast_servers T)) (\<lambda>found.
        case Option.bind found (shard_plan R m size_bytes dig) of
          None \<Rightarrow> Inr (None, False)
        | Some (version, shard_count, shard_size) \<Rightarrow>
            (case each (\<lambda>i. download_shard net (''/'' @ version @ ''/'' @ shard_file i) (min shard_size (size_bytes - i * shard_size))
                          (tr_shardcast_servers T)) [0..<shard_count] of
               Inl _ \<Rightarrow> Inr (None, False)
             | Inr shards \<Rightarrow> Inr (Some (concat shards), length (concat shards) = size_bytes))))"

end
