(* ===== verification/Adapter_Cache.thy ===== *)
theory Adapter_Cache
  imports Policy_Transport
begin

text \<open>
  The worker's cache of policy adapters (\<open>worker/policy_cache.py\<close>). Its state is the table of
  verified policies, the directories on disk, the partial downloads, and what is in use. An operation
  returns the new state also when it fails: evictions and partial downloads stay. Operations are
  serialised by the capacity lock; symbolic links, special files and durability calls are not modelled.
\<close>

section \<open>State\<close>

type_synonym cache_path = "digest \<times> id"

record cached_policy =
  cp_manifest :: policy_manifest
  cp_path :: cache_path
  cp_size :: nat

record adapter_cache =
  ch_max_bytes :: nat
  ch_cached :: "cached_policy list"
  ch_artifacts :: "(cache_path \<times> directory) list"
  ch_incoming :: "(string \<times> string) list"
  ch_references :: "id \<Rightarrow> nat"
  ch_loaded :: "id list"
  ch_last_used :: "id \<Rightarrow> time"

text \<open>An operation on the cache.\<close>

type_synonym 'a cache_step = "adapter_cache \<times> (cache_error + 'a)"

definition and_next :: "'a cache_step \<Rightarrow> ('a \<Rightarrow> adapter_cache \<Rightarrow> 'b cache_step) \<Rightarrow> 'b cache_step" where
  "and_next st f = (case st of (ch, Inl e) \<Rightarrow> (ch, Inl e) | (ch, Inr x) \<Rightarrow> f x ch)"

definition path_of :: "repository \<Rightarrow> policy_manifest \<Rightarrow> cache_path" where
  "path_of R m = (manifest_digest R m, pm_policy_id m)"

definition adapter_size :: "policy_manifest \<Rightarrow> nat" where
  "adapter_size m = (case pm_adapter m of None \<Rightarrow> 0 | Some a \<Rightarrow> sum_list (map af_size_bytes (ac_files a)))"

definition policy_of :: "cached_policy \<Rightarrow> id" where
  "policy_of e = pm_policy_id (cp_manifest e)"

definition in_use :: "adapter_cache \<Rightarrow> id \<Rightarrow> bool" where
  "in_use ch policy_id \<longleftrightarrow> policy_id \<in> set (ch_loaded ch) \<or> ch_references ch policy_id > 0"

definition total_size :: "cached_policy list \<Rightarrow> nat" where
  "total_size es = sum_list (map cp_size es)"

definition remove_entry :: "cache_path \<Rightarrow> adapter_cache \<Rightarrow> adapter_cache" where
  "remove_entry path ch =
     ch\<lparr>ch_cached := filter (\<lambda>e. cp_path e \<noteq> path) (ch_cached ch),
        ch_artifacts := filter (\<lambda>d. fst d \<noteq> path) (ch_artifacts ch)\<rparr>"

definition find_cached :: "adapter_cache \<Rightarrow> cache_path \<Rightarrow> cached_policy option" where
  "find_cached ch path = find (\<lambda>e. cp_path e = path) (ch_cached ch)"

text \<open>Least recently used first; ties by name.\<close>

definition by_use :: "adapter_cache \<Rightarrow> cached_policy list" where
  "by_use ch = sort_key (\<lambda>e. (ch_last_used ch (policy_of e), snd (cp_path e))) (ch_cached ch)"

definition touch :: "id \<Rightarrow> time \<Rightarrow> adapter_cache \<Rightarrow> adapter_cache" where
  "touch policy_id now ch = ch\<lparr>ch_last_used := (ch_last_used ch)(policy_id := now)\<rparr>"

section \<open>Eviction\<close>

fun evict_until :: "int \<Rightarrow> cached_policy list \<Rightarrow> int \<Rightarrow> adapter_cache \<Rightarrow> int \<times> adapter_cache" where
  "evict_until required [] occupied ch = (occupied, ch)"
| "evict_until required (e # es) occupied ch =
     (if occupied + required \<le> int (ch_max_bytes ch) then (occupied, ch)
      else if in_use ch (policy_of e) then evict_until required es occupied ch
      else evict_until required es (occupied - int (cp_size e)) (remove_entry (cp_path e) ch))"

definition incoming_size :: "adapter_cache \<Rightarrow> nat" where
  "incoming_size ch = sum_list (map (length \<circ> snd) (ch_incoming ch))"

definition make_space :: "int \<Rightarrow> adapter_cache \<Rightarrow> unit cache_step" where
  "make_space required ch =
     (case evict_until required (by_use ch) (int (total_size (ch_cached ch)) + int (incoming_size ch)) ch of
        (occupied, ch') \<Rightarrow> (ch', guard (occupied + required \<le> int (ch_max_bytes ch)) AdapterCacheError))"

text \<open>\<open>enforce_retention\<close> tests after each removal.\<close>

fun retain :: "cached_policy list \<Rightarrow> int \<Rightarrow> adapter_cache \<Rightarrow> adapter_cache" where
  "retain [] occupied ch = ch"
| "retain (e # es) occupied ch =
     (if in_use ch (policy_of e) then retain es occupied ch
      else if occupied - int (cp_size e) \<le> int (ch_max_bytes ch) then remove_entry (cp_path e) ch
      else retain es (occupied - int (cp_size e)) (remove_entry (cp_path e) ch))"

definition enforce_retention :: "adapter_cache \<Rightarrow> adapter_cache" where
  "enforce_retention ch =
     (if total_size (ch_cached ch) \<le> ch_max_bytes ch then ch else retain (by_use ch) (int (total_size (ch_cached ch))) ch)"

section \<open>Partial files\<close>

definition part_name :: "digest \<Rightarrow> string \<Rightarrow> string" where
  "part_name dig name = digest_hex dig @ ''.'' @ name @ ''.part''"

definition expected_parts :: "adapter_manifest \<Rightarrow> (string \<times> nat) list" where
  "expected_parts a = map (\<lambda>f. (part_name (af_digest f) (af_name f), af_size_bytes f)) (ac_files a)"

definition keep_part :: "adapter_manifest \<Rightarrow> string \<times> string \<Rightarrow> bool" where
  "keep_part a p = (case map_of (expected_parts a) (fst p) of None \<Rightarrow> False | Some n \<Rightarrow> length (snd p) \<le> n)"

text \<open>\<open>_prune_partial_files\<close>: the state and the bytes that stay.\<close>

definition prune_partial_files :: "adapter_manifest \<Rightarrow> adapter_cache \<Rightarrow> adapter_cache \<times> nat" where
  "prune_partial_files a ch =
     (let ch' = ch\<lparr>ch_incoming := filter (keep_part a) (ch_incoming ch)\<rparr> in (ch', incoming_size ch'))"

text \<open>The pattern of the names that survive the start of the worker.\<close>

definition part_pattern :: "string \<Rightarrow> bool" where
  "part_pattern name \<longleftrightarrow>
     64 \<le> length name \<and> list_all is_hex (take 64 name) \<and>
     drop 64 name \<in> {''.adapter_config.json.part'', ''.adapter_model.safetensors.part''}"

definition set_part :: "string \<Rightarrow> string option \<Rightarrow> adapter_cache \<Rightarrow> adapter_cache" where
  "set_part name part ch =
     ch\<lparr>ch_incoming := filter (\<lambda>p. fst p \<noteq> name) (ch_incoming ch) @ (case part of None \<Rightarrow> [] | Some data \<Rightarrow> [(name, data)])\<rparr>"

section \<open>Downloads\<close>

definition expected_range :: "nat \<Rightarrow> nat \<Rightarrow> string option" where
  "expected_range offset size_bytes =
     (if offset = 0 then None
      else Some (''bytes '' @ decimal offset @ ''-'' @ decimal (size_bytes - 1) @ ''/'' @ decimal size_bytes))"

definition validate_response :: "http_response \<Rightarrow> string \<Rightarrow> nat \<Rightarrow> digest \<Rightarrow> nat \<Rightarrow> bool \<Rightarrow> cache_error + unit" where
  "validate_response r name size_bytes dig offset require_etag =
     (if \<not> identity_encoding r then Inl CoordinatorProtocolError
      else if content_type r \<noteq> (if name = ''adapter_config.json'' then ''application/json'' else ''application/octet-stream'')
      then Inl CoordinatorProtocolError
      else if require_etag \<and> header r ''etag'' \<noteq> Some (''\"'' @ digest_text dig @ ''\"'') then Inl CoordinatorProtocolError
      else if content_length r \<noteq> Some (int size_bytes - int offset) then Inl CoordinatorProtocolError
      else guard (header r ''content-range'' = expected_range offset size_bytes) CoordinatorProtocolError)"

text \<open>The chunks, appended to what is there: the content of the file and the error that ended the loop.\<close>

fun receive :: "nat \<Rightarrow> string \<Rightarrow> string list \<Rightarrow> bool \<Rightarrow> string \<times> cache_error option" where
  "receive size_bytes got [] broken = (got, if broken then Some TransportError else None)"
| "receive size_bytes got (c # cs) broken =
     (if size_bytes < length got + length c then (got, Some CoordinatorProtocolError)
      else receive size_bytes (got @ c) cs broken)"

definition open_stream :: "repository \<Rightarrow> transport option \<Rightarrow> network \<Rightarrow> nat \<Rightarrow> policy_manifest \<Rightarrow> string \<Rightarrow> nat
    \<Rightarrow> cache_error + http_response \<times> bool" where
  "open_stream R T net k m name offset =
     (case T of
        None \<Rightarrow> and_then (stream_policy_file net k (pm_policy_id m) name offset) (\<lambda>r. Inr (r, True))
      | Some t \<Rightarrow> stream_file R t net k m name offset
          (tr_coordinator_fallback t \<and> tr_attempts t > 1 \<and> k + 1 = tr_attempts t))"

text \<open>One attempt from the bytes that are there: the partial file after it and the error.\<close>

definition fetch_rest :: "repository \<Rightarrow> transport option \<Rightarrow> network \<Rightarrow> nat \<Rightarrow> policy_manifest \<Rightarrow> adapter_file \<Rightarrow> string
    \<Rightarrow> string option \<times> cache_error option" where
  "fetch_rest R T net k m f start =
     (let offset = length start; unchanged = (if offset = 0 then None else Some start) in
      case and_then (open_stream R T net k m (af_name f) offset) (\<lambda>(r, require_etag).
             and_then (validate_response r (af_name f) (af_size_bytes f) (af_digest f) offset require_etag) (\<lambda>_. Inr r)) of
        Inl e \<Rightarrow> (unchanged, Some e)
      | Inr r \<Rightarrow>
          (case receive (af_size_bytes f) start (hr_chunks r) (hr_broken r) of
             (got, Some e) \<Rightarrow> (Some got, Some e)
           | (got, None) \<Rightarrow>
               if length got \<noteq> af_size_bytes f \<or> sha256 R got \<noteq> af_digest f then (None, Some CoordinatorProtocolError)
               else (Some got, None)))"

definition retried :: "cache_error \<Rightarrow> bool" where
  "retried e =
     (case e of CoordinatorAPIError status \<Rightarrow> retryable status | TransportError \<Rightarrow> True | CoordinatorProtocolError \<Rightarrow> True
      | _ \<Rightarrow> False)"

definition part_bytes :: "string option \<Rightarrow> string" where
  "part_bytes part = (case part of None \<Rightarrow> [] | Some data \<Rightarrow> data)"

fun attempt_download :: "repository \<Rightarrow> transport option \<Rightarrow> network \<Rightarrow> policy_manifest \<Rightarrow> adapter_file \<Rightarrow> nat list \<Rightarrow> string option
    \<Rightarrow> string option \<times> cache_error option" where
  "attempt_download R T net m f [] part = (part, None)"
| "attempt_download R T net m f (k # ks) part =
     (let data = part_bytes part in
      if length data = af_size_bytes f \<and> sha256 R data = af_digest f then (part, None)
      else (case fetch_rest R T net k m f (if length data = af_size_bytes f then [] else data) of
              (part', None) \<Rightarrow> attempt_download R T net m f ks part'
            | (part', Some e) \<Rightarrow>
                if \<not> retried e \<or> ks = [] then (part', Some e) else attempt_download R T net m f ks part'))"

definition has_digest :: "repository \<Rightarrow> adapter_file \<Rightarrow> string \<Rightarrow> bool" where
  "has_digest R f data \<longleftrightarrow> length data = af_size_bytes f \<and> sha256 R data = af_digest f"

text \<open>The mirrors are asked first, when nothing is there yet.\<close>

definition from_mirrors :: "repository \<Rightarrow> transport option \<Rightarrow> network \<Rightarrow> policy_manifest \<Rightarrow> adapter_file \<Rightarrow> string option
    \<Rightarrow> cache_error + string option" where
  "from_mirrors R T net m f part =
     (case (T, part) of
        (Some t, None) \<Rightarrow>
          and_then (download_shardcast R t net m (af_name f) (af_size_bytes f) (af_digest f)) (\<lambda>(file, downloaded).
          Inr (if downloaded \<and> \<not> has_digest R f (part_bytes file) then None else file))
      | _ \<Rightarrow> Inr part)"

definition attempts_of :: "transport option \<Rightarrow> nat" where
  "attempts_of T = (case T of None \<Rightarrow> 1 | Some t \<Rightarrow> tr_attempts t)"

text \<open>\<open>_download_file\<close>: the partial file that stays, and the bytes moved into the directory or the error.\<close>

definition download_part :: "repository \<Rightarrow> transport option \<Rightarrow> network \<Rightarrow> policy_manifest \<Rightarrow> adapter_file \<Rightarrow> string option
    \<Rightarrow> string option \<times> (cache_error + string)" where
  "download_part R T net m f part0 =
     (let part = (if length (part_bytes part0) > af_size_bytes f then None else part0) in
      case from_mirrors R T net m f part of
        Inl e \<Rightarrow> (part, Inl e)
      | Inr part1 \<Rightarrow>
          (case attempt_download R T net m f [0..<attempts_of T] part1 of
             (part2, Some e) \<Rightarrow> (part2, Inl e)
           | (part2, None) \<Rightarrow>
               if \<not> has_digest R f (part_bytes part2) then (None, Inl CoordinatorProtocolError)
               else (None, Inr (part_bytes part2))))"

definition download_file :: "repository \<Rightarrow> transport option \<Rightarrow> network \<Rightarrow> policy_manifest \<Rightarrow> adapter_file \<Rightarrow> adapter_cache \<Rightarrow> string cache_step" where
  "download_file R T net m f ch =
     (let name = part_name (af_digest f) (af_name f) in
      case download_part R T net m f (map_of (ch_incoming ch) name) of
        (part, result) \<Rightarrow> (set_part name part ch, result))"

fun download_files :: "repository \<Rightarrow> transport option \<Rightarrow> network \<Rightarrow> policy_manifest \<Rightarrow> adapter_file list \<Rightarrow> directory \<Rightarrow> adapter_cache
    \<Rightarrow> directory cache_step" where
  "download_files R T net m [] dir ch = (ch, Inr dir)"
| "download_files R T net m (f # fs) dir ch =
     and_next (download_file R T net m f ch) (\<lambda>data. download_files R T net m fs (dir @ [(af_name f, data)]))"

section \<open>Ensuring a policy\<close>

definition validate_remote_manifest :: "repository \<Rightarrow> artifact_codec \<Rightarrow> network \<Rightarrow> policy_manifest \<Rightarrow> cache_error + unit" where
  "validate_remote_manifest R K net expected =
     and_then (get_policy_manifest net 0 (pm_policy_id expected)) (\<lambda>(r, content).
     if \<not> identity_encoding r then Inl CoordinatorProtocolError
     else if content_type r \<noteq> ''application/json'' then Inl CoordinatorProtocolError
     else if (1024 * 1024 :: int) < int (length content) then Inl CoordinatorProtocolError
     else if header r ''etag'' \<noteq> Some (''\"'' @ digest_text (sha256 R content) @ ''\"'') then Inl CoordinatorProtocolError
     else case parse_manifest K content of
       None \<Rightarrow> Inl CoordinatorProtocolError
     | Some m \<Rightarrow>
         if \<not> PolicyManifest (hash_adapter R) (hash_identity R) m then Inl CoordinatorProtocolError
         else guard (manifest_bytes K m = content \<and> m = expected) CoordinatorProtocolError)"

definition verify_cached :: "repository \<Rightarrow> artifact_codec \<Rightarrow> policy_manifest \<Rightarrow> cache_path \<Rightarrow> directory \<Rightarrow> cache_error + cached_policy" where
  "verify_cached R K m path dir =
     (case verify_lora_policy R K (snd path) dir (Some m) of
        Inl _ \<Rightarrow> Inl AdapterCacheCorruptionError
      | Inr verified \<Rightarrow> Inr \<lparr>cp_manifest = verified, cp_path = path, cp_size = adapter_size verified\<rparr>)"

definition raise_error :: "error + 'a \<Rightarrow> cache_error + 'a" where
  "raise_error r = (case r of Inl e \<Rightarrow> Inl (Raised e) | Inr x \<Rightarrow> Inr x)"

definition publish_directory :: "cache_path \<Rightarrow> directory \<Rightarrow> adapter_cache \<Rightarrow> adapter_cache" where
  "publish_directory path dir ch =
     (if map_of (ch_artifacts ch) path = None then ch\<lparr>ch_artifacts := ch_artifacts ch @ [(path, dir)]\<rparr> else ch)"

definition adopt :: "repository \<Rightarrow> artifact_codec \<Rightarrow> policy_manifest \<Rightarrow> time \<Rightarrow> adapter_cache \<Rightarrow> cached_policy cache_step" where
  "adopt R K m now ch =
     (case map_of (ch_artifacts ch) (path_of R m) of
        None \<Rightarrow> (ch, Inl AdapterCacheCorruptionError)
      | Some dir \<Rightarrow>
          (case verify_cached R K m (path_of R m) dir of
             Inl e \<Rightarrow> (ch, Inl e)
           | Inr e \<Rightarrow> (touch (pm_policy_id m) now (ch\<lparr>ch_cached := filter (\<lambda>x. cp_path x \<noteq> cp_path e) (ch_cached ch) @ [e]\<rparr>), Inr e)))"

text \<open>The temporary directory is named after the policy; it is gone whether the download succeeds or not.\<close>

definition fetch_policy :: "repository \<Rightarrow> artifact_codec \<Rightarrow> transport option \<Rightarrow> network \<Rightarrow> string \<Rightarrow> policy_manifest \<Rightarrow> adapter_manifest \<Rightarrow>
    time \<Rightarrow> adapter_cache \<Rightarrow> cached_policy cache_step" where
  "fetch_policy R K T net unique m a now ch =
     (case prune_partial_files a ch of
        (ch1, partial_bytes) \<Rightarrow>
          and_next (make_space (int (adapter_size m) - int partial_bytes) ch1) (\<lambda>_ ch2.
          and_next (ch2, validate_remote_manifest R K net m) (\<lambda>_ ch3.
          and_next (download_files R T net m (ac_files a) [] ch3) (\<lambda>files ch4.
          let dir = files @ [(''manifest.json'', manifest_bytes K m)] in
          and_next (ch4, raise_error (verify_lora_policy R K (''.'' @ pm_policy_id m @ ''.'' @ unique @ ''.tmp'') dir (Some m))) (\<lambda>_ ch5.
          adopt R K m now (publish_directory (path_of R m) dir ch5))))))"

definition ensure_locked :: "repository \<Rightarrow> artifact_codec \<Rightarrow> transport option \<Rightarrow> network \<Rightarrow> string \<Rightarrow> policy_manifest \<Rightarrow> adapter_manifest \<Rightarrow>
    time \<Rightarrow> adapter_cache \<Rightarrow> cached_policy cache_step" where
  "ensure_locked R K T net unique m a now ch =
     (case map_of (ch_artifacts ch) (path_of R m) of
        Some _ \<Rightarrow>
          (case find_cached ch (path_of R m) of
             Some e \<Rightarrow> (touch (pm_policy_id m) now ch, Inr e)
           | None \<Rightarrow> adopt R K m now ch)
      | None \<Rightarrow> fetch_policy R K T net unique m a now ch)"

definition ensure :: "repository \<Rightarrow> artifact_codec \<Rightarrow> transport option \<Rightarrow> network \<Rightarrow> string \<Rightarrow> policy_manifest \<Rightarrow> time \<Rightarrow> adapter_cache
    \<Rightarrow> cached_policy option cache_step" where
  "ensure R K T net unique m now ch =
     (case pm_adapter m of
        None \<Rightarrow> (ch, Inr None)
      | Some a \<Rightarrow>
          if ch_max_bytes ch < adapter_size m then (ch, Inl AdapterCacheError)
          else and_next (ensure_locked R K T net unique m a now ch) (\<lambda>e ch'. (ch', Inr (Some e))))"

section \<open>Start of the worker, pins and loads\<close>

definition scan_entry :: "repository \<Rightarrow> artifact_codec \<Rightarrow> cache_path \<times> directory \<Rightarrow> cache_error + cached_policy" where
  "scan_entry R K entry =
     (case entry of (path, dir) \<Rightarrow>
        (case Option.bind (map_of dir ''manifest.json'') (parse_manifest K) of
           None \<Rightarrow> Inl AdapterCacheCorruptionError
         | Some m \<Rightarrow>
             if \<not> PolicyManifest (hash_adapter R) (hash_identity R) m \<or> path_of R m \<noteq> path
             then Inl AdapterCacheCorruptionError else verify_cached R K m path dir))"

definition open_cache :: "repository \<Rightarrow> artifact_codec \<Rightarrow> nat \<Rightarrow> (cache_path \<times> directory) list \<Rightarrow> (string \<times> string) list
    \<Rightarrow> cache_error + adapter_cache" where
  "open_cache R K max_bytes artifacts parts =
     and_then (each (scan_entry R K) artifacts) (\<lambda>entries.
     Inr (enforce_retention
       \<lparr>ch_max_bytes = max_bytes, ch_cached = entries, ch_artifacts = artifacts,
        ch_incoming = filter (part_pattern \<circ> fst) parts, ch_references = (\<lambda>_. 0), ch_loaded = [],
        ch_last_used = (\<lambda>_. 0)\<rparr>))"

definition mark_loaded :: "id \<Rightarrow> time \<Rightarrow> adapter_cache \<Rightarrow> adapter_cache" where
  "mark_loaded policy_id now ch = touch policy_id now (ch\<lparr>ch_loaded := List.insert policy_id (ch_loaded ch)\<rparr>)"

definition mark_unloaded :: "id \<Rightarrow> adapter_cache \<Rightarrow> adapter_cache" where
  "mark_unloaded policy_id ch = ch\<lparr>ch_loaded := filter (\<lambda>p. p \<noteq> policy_id) (ch_loaded ch)\<rparr>"

definition pin_policy :: "repository \<Rightarrow> artifact_codec \<Rightarrow> transport option \<Rightarrow> network \<Rightarrow> string \<Rightarrow> policy_manifest \<Rightarrow> time \<Rightarrow> adapter_cache
    \<Rightarrow> cached_policy option cache_step" where
  "pin_policy R K T net unique m now ch =
     and_next (ensure R K T net unique m now ch) (\<lambda>cached ch1.
       let p = pm_policy_id m in
       (touch p now (ch1\<lparr>ch_references := (ch_references ch1)(p := ch_references ch1 p + 1)\<rparr>), Inr cached))"

definition unpin_policy :: "id \<Rightarrow> time \<Rightarrow> adapter_cache \<Rightarrow> adapter_cache" where
  "unpin_policy p now ch =
     enforce_retention (touch p now (ch\<lparr>ch_references := (ch_references ch)(p := ch_references ch p - 1)\<rparr>))"

section \<open>The invariant\<close>

text \<open>Every directory has its entry, and every entry a directory that verifies as its manifest.\<close>

definition entry_ok :: "repository \<Rightarrow> artifact_codec \<Rightarrow> adapter_cache \<Rightarrow> cached_policy \<Rightarrow> bool" where
  "entry_ok R K ch e \<longleftrightarrow>
     cp_path e = path_of R (cp_manifest e) \<and>
     (\<exists>dir. map_of (ch_artifacts ch) (cp_path e) = Some dir \<and> verify_cached R K (cp_manifest e) (cp_path e) dir = Inr e)"

definition entries_ok :: "repository \<Rightarrow> artifact_codec \<Rightarrow> adapter_cache \<Rightarrow> bool" where
  "entries_ok R K ch \<longleftrightarrow>
     distinct (map cp_path (ch_cached ch)) \<and> distinct (map fst (ch_artifacts ch)) \<and>
     cp_path ` set (ch_cached ch) = fst ` set (ch_artifacts ch) \<and> (\<forall>e \<in> set (ch_cached ch). entry_ok R K ch e)"

definition cache_ok :: "repository \<Rightarrow> artifact_codec \<Rightarrow> adapter_cache \<Rightarrow> bool" where
  "cache_ok R K ch \<longleftrightarrow> entries_ok R K ch \<and> total_size (ch_cached ch) \<le> ch_max_bytes ch"

lemma entries_okD:
  assumes "entries_ok R K ch"
  shows "distinct (map cp_path (ch_cached ch))" "distinct (map fst (ch_artifacts ch))"
    "cp_path ` set (ch_cached ch) = fst ` set (ch_artifacts ch)" "e \<in> set (ch_cached ch) \<Longrightarrow> entry_ok R K ch e"
  using assms by (auto simp: entries_ok_def)

lemma map_of_filter_key: "map_of (filter (\<lambda>d. fst d \<noteq> k) xs) = (map_of xs)(k := None)"
  by (induction xs) (auto simp: fun_eq_iff)

lemma entry_ok_remove:
  "entry_ok R K ch e \<Longrightarrow> cp_path e \<noteq> path \<Longrightarrow> entry_ok R K (remove_entry path ch) e"
  by (auto simp: entry_ok_def remove_entry_def map_of_filter_key)

lemma entries_ok_remove:
  assumes "entries_ok R K ch"
  shows "entries_ok R K (remove_entry path ch)"
proof -
  note ok = entries_okD [OF assms]
  have "cp_path ` set (ch_cached (remove_entry path ch)) = cp_path ` set (ch_cached ch) - {path}"
    "fst ` set (ch_artifacts (remove_entry path ch)) = fst ` set (ch_artifacts ch) - {path}"
    by (auto simp: remove_entry_def)
  moreover have "entry_ok R K (remove_entry path ch) e" if "e \<in> set (ch_cached (remove_entry path ch))" for e
    using that ok(4) [of e] by (intro entry_ok_remove) (auto simp: remove_entry_def)
  ultimately show ?thesis using ok(1-3)
    by (simp add: entries_ok_def) (simp add: remove_entry_def distinct_map_filter)
qed

lemma total_size_append [simp]: "total_size (xs @ ys) = total_size xs + total_size ys"
  by (simp add: total_size_def)

lemma filter_other_path: "p \<notin> cp_path ` set es \<Longrightarrow> filter (\<lambda>x. cp_path x \<noteq> p) es = es"
  by (auto simp: filter_id_conv)

lemma total_size_remove:
  assumes "distinct (map cp_path es)" "e \<in> set es"
  shows "total_size (filter (\<lambda>x. cp_path x \<noteq> cp_path e) es) + cp_size e = total_size es"
  using assms
proof (induction es)
  case (Cons x es)
  then show ?case
    by (cases "x = e") (auto simp: total_size_def filter_other_path rev_image_eqI)
qed (simp add: total_size_def)

lemma remove_entry_facts [simp]:
  "ch_max_bytes (remove_entry p ch) = ch_max_bytes ch" "ch_references (remove_entry p ch) = ch_references ch"
  "ch_loaded (remove_entry p ch) = ch_loaded ch" "ch_last_used (remove_entry p ch) = ch_last_used ch"
  "ch_incoming (remove_entry p ch) = ch_incoming ch" "in_use (remove_entry p ch) = in_use ch"
  by (simp_all add: remove_entry_def in_use_def fun_eq_iff)

text \<open>Removing entries one by one, and the effect of both eviction loops in these terms.\<close>

definition remove_entries :: "cached_policy list \<Rightarrow> adapter_cache \<Rightarrow> adapter_cache" where
  "remove_entries es ch = fold (\<lambda>e. remove_entry (cp_path e)) es ch"

lemma remove_entries_Cons [simp]: "remove_entries (e # es) ch = remove_entries es (remove_entry (cp_path e) ch)"
  "remove_entries [] ch = ch"
  by (simp_all add: remove_entries_def)

lemma remove_entries_facts [simp]:
  "ch_max_bytes (remove_entries es ch) = ch_max_bytes ch" "ch_references (remove_entries es ch) = ch_references ch"
  "ch_loaded (remove_entries es ch) = ch_loaded ch" "ch_last_used (remove_entries es ch) = ch_last_used ch"
  "ch_incoming (remove_entries es ch) = ch_incoming ch" "in_use (remove_entries es ch) = in_use ch"
  by (induction es arbitrary: ch) auto

lemma remove_entries_cached:
  "ch_cached (remove_entries es ch) = filter (\<lambda>e. cp_path e \<notin> cp_path ` set es) (ch_cached ch)"
  by (induction es arbitrary: ch) (auto simp: remove_entry_def intro: filter_cong)

lemma entries_ok_remove_entries: "entries_ok R K ch \<Longrightarrow> entries_ok R K (remove_entries es ch)"
  by (induction es arbitrary: ch) (auto intro: entries_ok_remove)

lemma remove_entries_total:
  assumes "distinct (map cp_path (ch_cached ch))" "distinct es" "set es \<subseteq> set (ch_cached ch)"
  shows "total_size (ch_cached (remove_entries es ch)) + total_size es = total_size (ch_cached ch)"
  using assms
proof (induction es arbitrary: ch)
  case (Cons e es)
  let ?ch = "remove_entry (cp_path e) ch"
  have "x \<in> set (ch_cached ?ch)" if "x \<in> set es" for x
    using that Cons.prems by (auto simp: remove_entry_def dest: inj_onD simp: distinct_map)
  with Cons.IH [of ?ch] Cons.prems total_size_remove [of "ch_cached ch" e] show ?case
    by (simp add: remove_entry_def distinct_map_filter total_size_def subset_iff)
qed (simp add: total_size_def)

definition unused :: "adapter_cache \<Rightarrow> cached_policy list \<Rightarrow> cached_policy list" where
  "unused ch es = filter (\<lambda>e. \<not> in_use ch (policy_of e)) es"

text \<open>\<open>make_space\<close> evicts the unused entries of a prefix, the shortest that suffices.\<close>

lemma evict_until_prefix:
  "\<exists>n \<le> length es. evict_until required es occupied ch =
      (occupied - int (total_size (unused ch (take n es))), remove_entries (unused ch (take n es)) ch) \<and>
    (n < length es \<longrightarrow> occupied - int (total_size (unused ch (take n es))) + required \<le> int (ch_max_bytes ch)) \<and>
    (\<forall>j < n. int (ch_max_bytes ch) < occupied - int (total_size (unused ch (take j es))) + required)"
proof (induction es arbitrary: occupied ch)
  case Nil
  then show ?case by (simp add: unused_def total_size_def)
next
  case (Cons e es)
  have same: "unused (remove_entry p ch) = unused ch" for p by (simp add: unused_def fun_eq_iff)
  show ?case
  proof (cases "occupied + required \<le> int (ch_max_bytes ch)")
    case True
    then show ?thesis by (intro exI [of _ 0]) (simp add: unused_def total_size_def)
  next
    case False
    show ?thesis
    proof (cases "in_use ch (policy_of e)")
      case used: True
      from Cons.IH [of occupied ch] obtain n where n: "n \<le> length es"
        "evict_until required es occupied ch =
          (occupied - int (total_size (unused ch (take n es))), remove_entries (unused ch (take n es)) ch)"
        "n < length es \<longrightarrow> occupied - int (total_size (unused ch (take n es))) + required \<le> int (ch_max_bytes ch)"
        "\<forall>j < n. int (ch_max_bytes ch) < occupied - int (total_size (unused ch (take j es))) + required" by blast
      with False used show ?thesis
        by (intro exI [of _ "Suc n"]) (auto simp: unused_def total_size_def less_Suc_eq_0_disj)
    next
      case free: False
      from Cons.IH [of "occupied - int (cp_size e)" "remove_entry (cp_path e) ch"] obtain n where n: "n \<le> length es"
        "evict_until required es (occupied - int (cp_size e)) (remove_entry (cp_path e) ch) =
          (occupied - int (cp_size e) - int (total_size (unused ch (take n es))),
           remove_entries (unused ch (take n es)) (remove_entry (cp_path e) ch))"
        "n < length es \<longrightarrow> occupied - int (cp_size e) - int (total_size (unused ch (take n es))) + required \<le> int (ch_max_bytes ch)"
        "\<forall>j < n. int (ch_max_bytes ch) < occupied - int (cp_size e) - int (total_size (unused ch (take j es))) + required"
        by (auto simp: same)
      with False free show ?thesis
        by (intro exI [of _ "Suc n"]) (auto simp: unused_def total_size_def less_Suc_eq_0_disj algebra_simps)
    qed
  qed
qed

lemma retain_prefix:
  "\<exists>n \<le> length es. retain es occupied ch = remove_entries (unused ch (take n es)) ch \<and>
    (n < length es \<longrightarrow> occupied - int (total_size (unused ch (take n es))) \<le> int (ch_max_bytes ch))"
proof (induction es arbitrary: occupied ch)
  case Nil
  then show ?case by (simp add: unused_def)
next
  case (Cons e es)
  have same: "unused (remove_entry p ch) = unused ch" for p by (simp add: unused_def fun_eq_iff)
  show ?case
  proof (cases "in_use ch (policy_of e)")
    case used: True
    from Cons.IH [of occupied ch] obtain n where "n \<le> length es"
      "retain es occupied ch = remove_entries (unused ch (take n es)) ch"
      "n < length es \<longrightarrow> occupied - int (total_size (unused ch (take n es))) \<le> int (ch_max_bytes ch)" by blast
    with used show ?thesis by (intro exI [of _ "Suc n"]) (auto simp: unused_def)
  next
    case free: False
    show ?thesis
    proof (cases "occupied - int (cp_size e) \<le> int (ch_max_bytes ch)")
      case True
      with free show ?thesis by (intro exI [of _ 1]) (simp add: unused_def total_size_def)
    next
      case False
      from Cons.IH [of "occupied - int (cp_size e)" "remove_entry (cp_path e) ch"] obtain n where "n \<le> length es"
        "retain es (occupied - int (cp_size e)) (remove_entry (cp_path e) ch) =
          remove_entries (unused ch (take n es)) (remove_entry (cp_path e) ch)"
        "n < length es \<longrightarrow> occupied - int (cp_size e) - int (total_size (unused ch (take n es))) \<le> int (ch_max_bytes ch)"
        by (auto simp: same)
      with False free show ?thesis
        by (intro exI [of _ "Suc n"]) (auto simp: unused_def total_size_def algebra_simps)
    qed
  qed
qed

text \<open>The state after an eviction: the unused entries among the \<open>n\<close> least recently used ones are gone.\<close>

definition evicted :: "nat \<Rightarrow> adapter_cache \<Rightarrow> adapter_cache" where
  "evicted n ch = remove_entries (unused ch (take n (by_use ch))) ch"

lemma by_use_facts: "set (by_use ch) = set (ch_cached ch)" "length (by_use ch) = length (ch_cached ch)"
  "distinct (map cp_path (ch_cached ch)) \<Longrightarrow> distinct (by_use ch)"
  by (simp_all add: by_use_def distinct_map)

lemma evicted_facts [simp]:
  "ch_max_bytes (evicted n ch) = ch_max_bytes ch" "ch_references (evicted n ch) = ch_references ch"
  "ch_loaded (evicted n ch) = ch_loaded ch" "ch_last_used (evicted n ch) = ch_last_used ch"
  "ch_incoming (evicted n ch) = ch_incoming ch" "in_use (evicted n ch) = in_use ch"
  by (simp_all add: evicted_def)

lemma entries_ok_evicted: "entries_ok R K ch \<Longrightarrow> entries_ok R K (evicted n ch)"
  by (simp add: evicted_def entries_ok_remove_entries)

lemma evicted_total:
  assumes "entries_ok R K ch"
  shows "total_size (ch_cached (evicted n ch)) + total_size (unused ch (take n (by_use ch))) = total_size (ch_cached ch)"
  unfolding evicted_def
proof (rule remove_entries_total)
  show "distinct (map cp_path (ch_cached ch))" by (rule entries_okD(1) [OF assms])
  then show "distinct (unused ch (take n (by_use ch)))" by (simp add: unused_def by_use_facts(3))
  show "set (unused ch (take n (by_use ch))) \<subseteq> set (ch_cached ch)"
    using by_use_facts(1) [of ch] by (auto simp: unused_def dest: in_set_takeD)
qed

lemma evicted_subset: "set (ch_cached (evicted n ch)) \<subseteq> set (ch_cached ch)"
  by (auto simp: evicted_def remove_entries_cached)

lemma evicted_member:
  assumes "entries_ok R K ch" "e \<in> set (ch_cached ch)"
  shows "e \<in> set (ch_cached (evicted n ch)) \<longleftrightarrow> in_use ch (policy_of e) \<or> e \<notin> set (take n (by_use ch))"
proof -
  let ?gone = "unused ch (take n (by_use ch))"
  have "set ?gone \<subseteq> set (ch_cached ch)"
    using by_use_facts(1) [of ch] by (auto simp: unused_def dest: in_set_takeD)
  then have "cp_path e \<in> cp_path ` set ?gone \<longleftrightarrow> e \<in> set ?gone"
    using entries_okD(1) [OF assms(1)] assms(2) by (auto simp: distinct_map dest: inj_onD)
  then have "e \<in> set (ch_cached (evicted n ch)) \<longleftrightarrow> e \<notin> set ?gone"
    using assms(2) by (simp add: evicted_def remove_entries_cached)
  then show ?thesis by (auto simp: unused_def)
qed

definition use_key :: "adapter_cache \<Rightarrow> cached_policy \<Rightarrow> time \<times> id" where
  "use_key ch e = (ch_last_used ch (policy_of e), snd (cp_path e))"

lemma sorted_take_le:
  assumes "sorted (map f xs)" "x \<in> set (take n xs)" "y \<in> set xs" "y \<notin> set (take n xs)"
  shows "f x \<le> f y"
proof -
  from assms(3,4) have "y \<in> set (drop n xs)" by (metis UnE append_take_drop_id set_append)
  moreover have "sorted (map f (take n xs) @ map f (drop n xs))" using assms(1) by (simp flip: map_append)
  ultimately show ?thesis using assms(2) by (auto simp: sorted_append)
qed

text \<open>Only unused entries go, and no unused entry that stays was used before one that goes.\<close>

lemma evicted_order:
  assumes "entries_ok R K ch" "e \<in> set (ch_cached ch)" "e \<notin> set (ch_cached (evicted n ch))"
  shows "\<not> in_use ch (policy_of e)"
    "\<And>e'. e' \<in> set (ch_cached (evicted n ch)) \<Longrightarrow> \<not> in_use ch (policy_of e') \<Longrightarrow> use_key ch e \<le> use_key ch e'"
proof -
  from evicted_member [OF assms(1,2)] assms(3) have gone: "\<not> in_use ch (policy_of e)" "e \<in> set (take n (by_use ch))" by auto
  show "\<not> in_use ch (policy_of e)" by (rule gone(1))
  fix e'
  assume e': "e' \<in> set (ch_cached (evicted n ch))" "\<not> in_use ch (policy_of e')"
  then have "e' \<in> set (by_use ch)" "e' \<notin> set (take n (by_use ch))"
    using evicted_member [OF assms(1), of e' n] evicted_subset [of n ch] by_use_facts(1) [of ch] by blast+
  moreover have "sorted (map (use_key ch) (by_use ch))" unfolding by_use_def use_key_def by (rule sorted_sort_key)
  ultimately show "use_key ch e \<le> use_key ch e'" by (intro sorted_take_le [OF _ gone(2)])
qed

lemma make_space_evicts:
  assumes "entries_ok R K ch" "make_space required ch = (ch', r)"
  obtains n where "ch' = evicted n ch"
    "r = Inr () \<Longrightarrow> int (total_size (ch_cached ch')) + int (incoming_size ch) + required \<le> int (ch_max_bytes ch)"
proof -
  let ?occupied = "int (total_size (ch_cached ch)) + int (incoming_size ch)"
  from evict_until_prefix [of "by_use ch" required ?occupied ch] obtain n where
    n: "evict_until required (by_use ch) ?occupied ch =
        (?occupied - int (total_size (unused ch (take n (by_use ch)))), evicted n ch)"
    by (auto simp: evicted_def)
  with assms(2) have "ch' = evicted n ch"
    "r = guard (?occupied - int (total_size (unused ch (take n (by_use ch)))) + required \<le> int (ch_max_bytes ch)) AdapterCacheError"
    by (auto simp: make_space_def)
  with evicted_total [OF assms(1), of n] show ?thesis by (intro that [of n]) (auto simp: guard_def split: if_splits)
qed

lemma enforce_retention_evicts: obtains n where "enforce_retention ch = evicted n ch"
proof (cases "total_size (ch_cached ch) \<le> ch_max_bytes ch")
  case True
  then show ?thesis by (intro that [of 0]) (simp add: enforce_retention_def evicted_def unused_def)
next
  case False
  from retain_prefix [of "by_use ch" "int (total_size (ch_cached ch))" ch] obtain n where
    "retain (by_use ch) (int (total_size (ch_cached ch))) ch = evicted n ch" unfolding evicted_def by blast
  with False show ?thesis by (intro that [of n]) (simp add: enforce_retention_def)
qed

section \<open>Fetching a policy\<close>

lemma and_next_cases:
  assumes "and_next st f = (ch', r)"
  obtains (failed) e where "st = (ch', Inl e)" "r = Inl e" | (continued) x ch1 where "st = (ch1, Inr x)" "f x ch1 = (ch', r)"
  using assms by (auto simp: and_next_def split: prod.splits sum.splits)

text \<open>Whatever the peers answer, only bytes of the declared size and digest leave a download.\<close>

lemma download_part_digest: "download_part R T net m f part = (part', Inr data) \<Longrightarrow> has_digest R f data"
  by (auto simp: download_part_def Let_def split: sum.splits prod.splits option.splits if_splits)

lemma download_file_facts:
  assumes "download_file R T net m f ch = (ch', r)"
  obtains parts where "ch' = ch\<lparr>ch_incoming := parts\<rparr>" "\<And>data. r = Inr data \<Longrightarrow> has_digest R f data"
  using assms
  by (auto simp: download_file_def Let_def set_part_def split: prod.splits dest: download_part_digest)

lemma download_files_facts:
  assumes "download_files R T net m fs dir ch = (ch', r)"
  shows "(\<exists>parts. ch' = ch\<lparr>ch_incoming := parts\<rparr>) \<and>
    (\<forall>files. r = Inr files \<longrightarrow> map fst files = map fst dir @ map af_name fs)"
  using assms
proof (induction fs arbitrary: dir ch)
  case Nil
  then show ?case by (auto intro: exI [of _ "ch_incoming ch"])
next
  case (Cons f fs)
  from Cons.prems have "and_next (download_file R T net m f ch) (\<lambda>data. download_files R T net m fs (dir @ [(af_name f, data)])) = (ch', r)"
    by simp
  then show ?case
  proof (cases rule: and_next_cases)
    case (failed e)
    from download_file_facts [OF failed(1)] failed(2) show ?thesis by auto
  next
    case (continued data ch1)
    from download_file_facts [OF continued(1)] obtain parts where "ch1 = ch\<lparr>ch_incoming := parts\<rparr>" by blast
    with Cons.IH [OF continued(2)] show ?thesis by auto
  qed
qed

lemma valid_adapter_names:
  assumes "PolicyManifest HA HP m" "pm_adapter m = Some a"
  shows "map af_name (ac_files a) = adapter_file_names"
  using assms
  by (auto simp: PolicyManifest_def make_policy_manifest_def AdapterManifest_def validate_manifest_def Let_def split: if_splits)

lemma valid_policy_id:
  assumes "PolicyManifest HA HP m"
  shows "pm_policy_id m = expected_policy_id (pm_policy_version m) (policy_manifest_digest HP m)"
  using assms by (auto simp: PolicyManifest_def policy_manifest_digest_def dest!: make_policy_manifest_InrD(1))

lemma remote_manifest_facts:
  assumes "validate_remote_manifest R K net m = Inr ()"
  shows "PolicyManifest (hash_adapter R) (hash_identity R) m" "parse_manifest K (manifest_bytes K m) = Some m"
  using assms by (auto simp: validate_remote_manifest_def and_then_eq_Inr split: if_splits option.splits)

lemma verified_is_expected:
  assumes "parse_manifest K (manifest_bytes K m) = Some m" "map_of dir ''manifest.json'' = Some (manifest_bytes K m)"
    and "verify_lora_policy R K name dir expected = Inr m'"
  shows "m' = m"
  using assms by (auto simp: verify_eq_Inr read_file_def read_manifest_def split: if_splits)

lemma verify_cached_eq_Inr:
  assumes "verify_cached R K m path dir = Inr e" "PolicyManifest (hash_adapter R) (hash_identity R) m" "path = path_of R m"
  shows "cp_path e = path_of R (cp_manifest e)" "cp_path e = path_of R m" "cp_size e = adapter_size (cp_manifest e)"
    "verify_cached R K (cp_manifest e) (cp_path e) dir = Inr e" "manifest_digest R (cp_manifest e) = manifest_digest R m"
proof -
  from assms(1) obtain v where v: "verify_lora_policy R K (snd path) dir (Some m) = Inr v"
    and e: "e = \<lparr>cp_manifest = v, cp_path = path, cp_size = adapter_size v\<rparr>"
    by (auto simp: verify_cached_def split: sum.splits)
  have "\<not> starts_with (pm_policy_id m) ''.policy-''"
    using valid_policy_id [OF assms(2)] policy_id_not_temporary by simp
  with v assms(3) have "pm_policy_id v = pm_policy_id m" "manifest_digest R v = manifest_digest R m"
    by (auto simp: verify_eq_Inr path_of_def)
  moreover from v have "verify_lora_policy R K (snd path) dir (Some v) = Inr v" by (simp add: verify_expected)
  ultimately show "cp_path e = path_of R (cp_manifest e)" "cp_path e = path_of R m" "cp_size e = adapter_size (cp_manifest e)"
    "verify_cached R K (cp_manifest e) (cp_path e) dir = Inr e" "manifest_digest R (cp_manifest e) = manifest_digest R m"
    using assms(3) e by (simp_all add: path_of_def verify_cached_def)
qed

lemma entries_ok_incoming: "entries_ok R K (ch\<lparr>ch_incoming := parts\<rparr>) = entries_ok R K ch"
  by (simp add: entries_ok_def entry_ok_def)

lemma evicted_incoming: "evicted n (ch\<lparr>ch_incoming := parts\<rparr>) = (evicted n ch)\<lparr>ch_incoming := parts\<rparr>"
proof -
  have "remove_entries es (ch\<lparr>ch_incoming := parts\<rparr>) = (remove_entries es ch)\<lparr>ch_incoming := parts\<rparr>" for es
  proof (induction es arbitrary: ch)
    case (Cons e es)
    have "remove_entry (cp_path e) (ch\<lparr>ch_incoming := parts\<rparr>) = (remove_entry (cp_path e) ch)\<lparr>ch_incoming := parts\<rparr>"
      by (simp add: remove_entry_def)
    with Cons show ?case by simp
  qed simp
  moreover have "by_use (ch\<lparr>ch_incoming := parts\<rparr>) = by_use ch" "unused (ch\<lparr>ch_incoming := parts\<rparr>) = unused ch"
    by (simp_all add: by_use_def unused_def in_use_def fun_eq_iff)
  ultimately show ?thesis by (simp add: evicted_def)
qed

lemma evicted_absent:
  "map_of (ch_artifacts ch) p = None \<Longrightarrow> map_of (ch_artifacts (evicted n ch)) p = None"
proof -
  have "map_of (ch_artifacts ch) p = None \<Longrightarrow> map_of (ch_artifacts (remove_entries es ch)) p = None" for es ch
    by (induction es arbitrary: ch) (auto simp: remove_entry_def map_of_filter_key)
  then show "map_of (ch_artifacts ch) p = None \<Longrightarrow> ?thesis" by (simp add: evicted_def)
qed

lemma absent_uncached:
  assumes "entries_ok R K ch" "map_of (ch_artifacts ch) p = None"
  shows "p \<notin> cp_path ` set (ch_cached ch)"
  using entries_okD(3) [OF assms(1)] assms(2) by (auto simp: map_of_eq_None_iff)

text \<open>The last part of a fetch: verification in the temporary directory, publication, adoption.\<close>

lemma fetch_end:
  assumes ok: "entries_ok R K ch" and a: "pm_adapter m = Some a" and absent: "map_of (ch_artifacts ch) (path_of R m) = None"
    and valid: "PolicyManifest (hash_adapter R) (hash_identity R) m" and parse: "parse_manifest K (manifest_bytes K m) = Some m"
    and names: "map fst files = map af_name (ac_files a)"
    and ch4: "ch4 = (evicted n ch)\<lparr>ch_incoming := parts\<rparr>"
    and bound: "adapter_size m + total_size (ch_cached (evicted n ch)) \<le> ch_max_bytes ch"
    and "and_next (ch4, raise_error (verify_lora_policy R K name (files @ [(''manifest.json'', manifest_bytes K m)]) (Some m)))
      (\<lambda>_ ch5. adopt R K m now (publish_directory (path_of R m) (files @ [(''manifest.json'', manifest_bytes K m)]) ch5)) = (ch', r)"
    and fail: "\<And>err. ch' = (evicted n ch)\<lparr>ch_incoming := parts\<rparr> \<Longrightarrow> r = Inl err \<Longrightarrow> P"
    and success: "\<And>dir e. r = Inr e \<Longrightarrow> e = \<lparr>cp_manifest = m, cp_path = path_of R m, cp_size = adapter_size m\<rparr> \<Longrightarrow>
      verify_cached R K m (path_of R m) dir = Inr e \<Longrightarrow> PolicyManifest (hash_adapter R) (hash_identity R) m \<Longrightarrow>
      ch' = touch (pm_policy_id m) now ((evicted n ch)\<lparr>ch_incoming := parts,
         ch_artifacts := ch_artifacts (evicted n ch) @ [(path_of R m, dir)],
         ch_cached := ch_cached (evicted n ch) @ [e]\<rparr>) \<Longrightarrow>
      total_size (ch_cached (evicted n ch)) + adapter_size m \<le> ch_max_bytes ch \<Longrightarrow> P"
  shows P
  using assms(9)
proof (cases rule: and_next_cases)
  case (failed e)
  with fail ch4 show P by auto
next
  case (continued v ch5)
  let ?dir = "files @ [(''manifest.json'', manifest_bytes K m)]"
  let ?e = "\<lparr>cp_manifest = m, cp_path = path_of R m, cp_size = adapter_size m\<rparr>"
  from continued(1) have ch5: "ch5 = ch4" and v: "verify_lora_policy R K name ?dir (Some m) = Inr v"
    by (auto simp: raise_error_def split: sum.splits)
  have "''manifest.json'' \<notin> fst ` set files"
    using names valid_adapter_names [OF valid a] by (auto simp: adapter_file_names_def simp flip: set_map)
  then have "map_of ?dir ''manifest.json'' = Some (manifest_bytes K m)"
    by (simp add: map_add_def map_of_eq_None_iff [THEN iffD2])
  from verified_is_expected [OF parse this v] v have "verify_lora_policy R K (pm_policy_id m) ?dir (Some m) = Inr m"
    using verify_renamed(1) by (auto simp: verify_expected)
  then have verified: "verify_cached R K m (path_of R m) ?dir = Inr ?e" by (simp add: verify_cached_def path_of_def)
  have gone: "map_of (ch_artifacts (evicted n ch)) (path_of R m) = None" by (rule evicted_absent [OF absent])
  have others: "filter (\<lambda>x. cp_path x \<noteq> path_of R m) (ch_cached (evicted n ch)) = ch_cached (evicted n ch)"
    by (rule filter_other_path [OF absent_uncached [OF entries_ok_evicted [OF ok] gone]])
  from continued(2) gone others verified have "r = Inr ?e"
    "ch' = touch (pm_policy_id m) now ((evicted n ch)\<lparr>ch_incoming := parts,
         ch_artifacts := ch_artifacts (evicted n ch) @ [(path_of R m, ?dir)],
         ch_cached := ch_cached (evicted n ch) @ [?e]\<rparr>)"
    by (auto simp: adopt_def publish_directory_def ch5 ch4 map_add_def)
  with success verified valid bound show P by (simp add: add.commute)
qed

text \<open>How a fetch ends: with evictions and partial files only, or with the policy added within the bound.\<close>

lemma fetch_policy_cases:
  assumes ok: "entries_ok R K ch" and a: "pm_adapter m = Some a" and absent: "map_of (ch_artifacts ch) (path_of R m) = None"
    and "fetch_policy R K T net unique m a now ch = (ch', r)"
  obtains (failed) n parts err where "ch' = (evicted n ch)\<lparr>ch_incoming := parts\<rparr>" "r = Inl err"
  | (fetched) n parts dir e where "r = Inr e" "e = \<lparr>cp_manifest = m, cp_path = path_of R m, cp_size = adapter_size m\<rparr>"
      "verify_cached R K m (path_of R m) dir = Inr e" "PolicyManifest (hash_adapter R) (hash_identity R) m"
      "ch' = touch (pm_policy_id m) now ((evicted n ch)\<lparr>ch_incoming := parts,
         ch_artifacts := ch_artifacts (evicted n ch) @ [(path_of R m, dir)],
         ch_cached := ch_cached (evicted n ch) @ [e]\<rparr>)"
      "total_size (ch_cached (evicted n ch)) + adapter_size m \<le> ch_max_bytes ch"
proof -
  let ?ch1 = "ch\<lparr>ch_incoming := filter (keep_part a) (ch_incoming ch)\<rparr>"
  let ?temporary = "''.'' @ pm_policy_id m @ ''.'' @ unique @ ''.tmp''"
  have ok1: "entries_ok R K ?ch1" using ok by (simp add: entries_ok_incoming)
  from assms(4) have "and_next (make_space (int (adapter_size m) - int (incoming_size ?ch1)) ?ch1) (\<lambda>_ ch2.
      and_next (ch2, validate_remote_manifest R K net m) (\<lambda>_ ch3.
      and_next (download_files R T net m (ac_files a) [] ch3) (\<lambda>files ch4.
      let dir = files @ [(''manifest.json'', manifest_bytes K m)] in
      and_next (ch4, raise_error (verify_lora_policy R K ?temporary dir (Some m))) (\<lambda>_ ch5.
      adopt R K m now (publish_directory (path_of R m) dir ch5))))) = (ch', r)"
    by (simp add: fetch_policy_def prune_partial_files_def Let_def)
  then show ?thesis
  proof (cases rule: and_next_cases)
    case (failed e)
    obtain n where "ch' = evicted n ?ch1" by (rule make_space_evicts [OF ok1 failed(1)])
    with failed(2) show ?thesis by (intro that(1)) (auto simp: evicted_incoming)
  next
    case (continued u ch2)
    obtain n where n: "ch2 = evicted n ?ch1"
      "int (total_size (ch_cached ch2)) + int (adapter_size m) \<le> int (ch_max_bytes ch)"
      using make_space_evicts [OF ok1 continued(1)] by auto
    show ?thesis using continued(2)
    proof (cases rule: and_next_cases)
      case (failed e)
      with n(1) show ?thesis by (auto simp: evicted_incoming intro: that(1))
    next
      case c3: (continued u3 ch3)
      then have manifest: "PolicyManifest (hash_adapter R) (hash_identity R) m" "parse_manifest K (manifest_bytes K m) = Some m"
        using remote_manifest_facts [of R K net m] by auto
      show ?thesis using c3(2)
      proof (cases rule: and_next_cases)
        case (failed e)
        with n(1) c3(1) download_files_facts [OF failed(1)] show ?thesis by (auto simp: evicted_incoming intro: that(1))
      next
        case c4: (continued files ch4)
        from c3(1) n(1) download_files_facts [OF c4(1)] obtain parts where
          ch4: "ch4 = (evicted n ch)\<lparr>ch_incoming := parts\<rparr>" and names: "map fst files = map af_name (ac_files a)"
          by (auto simp: evicted_incoming)
        show ?thesis
        proof (rule fetch_end [OF ok a absent manifest names ch4])
          show "adapter_size m + total_size (ch_cached (evicted n ch)) \<le> ch_max_bytes ch"
            using n by (simp add: evicted_incoming)
        qed (use c4(2) that in \<open>auto simp: Let_def\<close>)
      qed
    qed
  qed
qed

section \<open>Every operation keeps the invariant\<close>

lemma touch_facts [simp]:
  "ch_max_bytes (touch p now ch) = ch_max_bytes ch" "ch_cached (touch p now ch) = ch_cached ch"
  "ch_artifacts (touch p now ch) = ch_artifacts ch" "ch_references (touch p now ch) = ch_references ch"
  "ch_loaded (touch p now ch) = ch_loaded ch" "ch_incoming (touch p now ch) = ch_incoming ch"
  "in_use (touch p now ch) = in_use ch"
  by (simp_all add: touch_def in_use_def fun_eq_iff)

lemma entries_ok_cong:
  assumes "ch_cached ch' = ch_cached ch" "ch_artifacts ch' = ch_artifacts ch"
  shows "entries_ok R K ch' = entries_ok R K ch"
  using assms by (simp add: entries_ok_def entry_ok_def)

lemma cache_ok_cong:
  assumes "ch_cached ch' = ch_cached ch" "ch_artifacts ch' = ch_artifacts ch" "ch_max_bytes ch' = ch_max_bytes ch"
  shows "cache_ok R K ch' = cache_ok R K ch"
  using assms by (simp add: cache_ok_def entries_ok_def entry_ok_def)

lemma cache_ok_evicted: "cache_ok R K ch \<Longrightarrow> cache_ok R K (evicted n ch)"
  using evicted_total [of R K ch n] by (auto simp: cache_ok_def entries_ok_evicted)

lemma entries_ok_add:
  assumes ok: "entries_ok R K ch" and absent: "map_of (ch_artifacts ch) (path_of R m) = None"
    and v: "verify_cached R K m (path_of R m) dir = Inr e" and m: "PolicyManifest (hash_adapter R) (hash_identity R) m"
    and ch': "ch_cached ch' = ch_cached ch @ [e]" "ch_artifacts ch' = ch_artifacts ch @ [(path_of R m, dir)]"
  shows "entries_ok R K ch'"
proof -
  note e = verify_cached_eq_Inr [OF v m refl]
  have new: "entry_ok R K ch' e" using e absent by (simp add: entry_ok_def ch' map_add_def)
  have old: "entry_ok R K ch' x" if "x \<in> set (ch_cached ch)" for x
    using entries_okD(4) [OF ok that] absent by (auto simp: entry_ok_def ch' map_add_def split: option.splits)
  have "path_of R m \<notin> fst ` set (ch_artifacts ch)" using absent by (simp add: map_of_eq_None_iff)
  with entries_okD(1-3) [OF ok] e(2) new old show ?thesis by (auto simp: entries_ok_def ch')
qed

lemma find_cached_present:
  assumes "entries_ok R K ch" "map_of (ch_artifacts ch) p = Some dir"
  obtains e where "find_cached ch p = Some e" "e \<in> set (ch_cached ch)" "cp_path e = p"
proof -
  from assms(2) have "p \<in> fst ` set (ch_artifacts ch)" by (force dest: map_of_SomeD)
  then have "p \<in> cp_path ` set (ch_cached ch)" by (simp only: entries_okD(3) [OF assms(1)])
  then have "find_cached ch p \<noteq> None" by (auto simp: find_cached_def find_None_iff)
  then obtain e where e: "find_cached ch p = Some e" by auto
  then have "e \<in> set (ch_cached ch)" "cp_path e = p" by (auto simp: find_cached_def find_Some_iff)
  with e show ?thesis by (rule that)
qed

text \<open>The three ways in which \<open>ensure\<close> ends.\<close>

lemma ensure_cases:
  assumes ok: "cache_ok R K ch" and "ensure R K T net unique m now ch = (ch', r)"
  obtains (shrunk) n parts where "ch' = (evicted n ch)\<lparr>ch_incoming := parts\<rparr>" "\<And>e. r \<noteq> Inr (Some e)"
  | (hit) e where "ch' = touch (pm_policy_id m) now ch" "r = Inr (Some e)" "e \<in> set (ch_cached ch)" "cp_path e = path_of R m"
  | (fetched) n parts dir e where "r = Inr (Some e)" "cp_path e = path_of R m" "policy_of e = pm_policy_id m" "e \<notin> set (ch_cached ch)"
      "cache_ok R K ch'" "ch_cached ch' = ch_cached (evicted n ch) @ [e]" "ch_max_bytes ch' = ch_max_bytes ch"
      "ch_references ch' = ch_references ch" "ch_loaded ch' = ch_loaded ch"
proof -
  have still: "ch = (evicted 0 ch)\<lparr>ch_incoming := ch_incoming ch\<rparr>" by (simp add: evicted_def unused_def)
  have entries: "entries_ok R K ch" using ok by (simp add: cache_ok_def)
  show ?thesis
  proof (cases "pm_adapter m = None \<or> ch_max_bytes ch < adapter_size m")
    case True
    with assms(2) have "ch' = ch" "\<And>e. r \<noteq> Inr (Some e)" by (auto simp: ensure_def split: option.splits)
    with still show ?thesis by (metis that(1))
  next
    case False
    then obtain a where a: "pm_adapter m = Some a" by auto
    with False assms(2) have run: "and_next (ensure_locked R K T net unique m a now ch) (\<lambda>e ch'. (ch', Inr (Some e))) = (ch', r)"
      by (simp add: ensure_def)
    show ?thesis
    proof (cases "map_of (ch_artifacts ch) (path_of R m)")
      case (Some dir)
      obtain e where e: "find_cached ch (path_of R m) = Some e" "e \<in> set (ch_cached ch)" "cp_path e = path_of R m"
        by (rule find_cached_present [OF entries Some])
      from run Some e(1) have "ch' = touch (pm_policy_id m) now ch" "r = Inr (Some e)"
        by (auto simp: ensure_locked_def and_next_def)
      with e show ?thesis by (intro that(2))
    next
      case None
      then have "ensure_locked R K T net unique m a now ch = fetch_policy R K T net unique m a now ch"
        by (simp add: ensure_locked_def)
      with run obtain ch1 r1 where fetch: "fetch_policy R K T net unique m a now ch = (ch1, r1)"
        and r: "ch' = ch1" "r = (case r1 of Inl e \<Rightarrow> Inl e | Inr e \<Rightarrow> Inr (Some e))"
        by (auto simp: and_next_def split: prod.splits sum.splits)
      from entries a None fetch show ?thesis
      proof (cases rule: fetch_policy_cases)
        case (failed n parts err)
        with r show ?thesis by (intro that(1)) auto
      next
        case (fetched n parts dir e)
        have "entries_ok R K ch'"
          using fetched(5) r(1)
          by (intro entries_ok_add [OF entries_ok_evicted [OF entries] evicted_absent [OF None] fetched(3,4)]) auto
        moreover have "total_size (ch_cached ch') \<le> ch_max_bytes ch'"
          using fetched(2,5,6) r(1) by (simp add: total_size_def)
        moreover have "e \<notin> set (ch_cached ch)" using absent_uncached [OF entries None] fetched(2) by force
        ultimately show ?thesis using fetched r
          by (intro that(3) [of e n]) (auto simp: cache_ok_def policy_of_def)
      qed
    qed
  qed
qed

lemma ensure_keeps:
  assumes "cache_ok R K ch" "ensure R K T net unique m now ch = (ch', r)"
  shows "cache_ok R K ch' \<and> ch_references ch' = ch_references ch \<and> ch_loaded ch' = ch_loaded ch \<and> ch_max_bytes ch' = ch_max_bytes ch"
  using assms
proof (cases rule: ensure_cases)
  case (shrunk n parts)
  then show ?thesis using cache_ok_evicted [OF assms(1), of n] by (auto simp: cache_ok_def entries_ok_incoming)
next
  case (hit e)
  then show ?thesis using assms(1) cache_ok_cong [of ch' ch R K] by simp
qed auto

lemmas ensure_ok = ensure_keeps [THEN conjunct1]

lemma ensure_evicts:
  assumes "cache_ok R K ch" "ensure R K T net unique m now ch = (ch', r)"
  shows "\<exists>n. \<forall>e \<in> set (ch_cached ch). e \<in> set (ch_cached ch') \<longleftrightarrow> e \<in> set (ch_cached (evicted n ch))"
  using assms
proof (cases rule: ensure_cases)
  case (hit e)
  then show ?thesis by (intro exI [of _ 0]) (simp add: evicted_def unused_def)
qed (auto intro: exI)

lemma ensure_order:
  assumes "cache_ok R K ch" "ensure R K T net unique m now ch = (ch', r)" "e \<in> set (ch_cached ch)" "e \<notin> set (ch_cached ch')"
  shows "\<not> in_use ch (policy_of e)"
    "\<And>e'. e' \<in> set (ch_cached ch) \<Longrightarrow> e' \<in> set (ch_cached ch') \<Longrightarrow> \<not> in_use ch (policy_of e') \<Longrightarrow> use_key ch e \<le> use_key ch e'"
proof -
  have entries: "entries_ok R K ch" using assms(1) by (simp add: cache_ok_def)
  from ensure_evicts [OF assms(1,2)] obtain n where
    n: "\<And>x. x \<in> set (ch_cached ch) \<Longrightarrow> x \<in> set (ch_cached ch') \<longleftrightarrow> x \<in> set (ch_cached (evicted n ch))" by blast
  with assms(3,4) have gone: "e \<notin> set (ch_cached (evicted n ch))" by blast
  show "\<not> in_use ch (policy_of e)" by (rule evicted_order(1) [OF entries assms(3) gone])
  fix e'
  assume "e' \<in> set (ch_cached ch)" "e' \<in> set (ch_cached ch')" "\<not> in_use ch (policy_of e')"
  then show "use_key ch e \<le> use_key ch e'" using evicted_order(2) [OF entries assms(3) gone] n by blast
qed

text \<open>What is handed out is in the table and on disk, under the requested identity, and verifies.\<close>

lemma ensure_result:
  assumes "cache_ok R K ch" "ensure R K T net unique m now ch = (ch', Inr (Some e))"
  shows "e \<in> set (ch_cached ch')" "cp_path e = path_of R m" "entry_ok R K ch' e"
proof -
  have 1: "e \<in> set (ch_cached ch') \<and> cp_path e = path_of R m"
    using assms by (cases rule: ensure_cases) auto
  then show "e \<in> set (ch_cached ch')" "cp_path e = path_of R m" by auto
  with ensure_ok [OF assms] show "entry_ok R K ch' e" by (auto simp: cache_ok_def entries_ok_def)
qed

text \<open>Retention restores the bound whenever what is in use fits.\<close>

lemma retention_total:
  assumes "entries_ok R K ch"
  shows "total_size (ch_cached (enforce_retention ch)) \<le> ch_max_bytes ch \<or>
    (\<forall>e \<in> set (ch_cached (enforce_retention ch)). in_use ch (policy_of e))"
proof (cases "total_size (ch_cached ch) \<le> ch_max_bytes ch")
  case True
  then show ?thesis by (simp add: enforce_retention_def)
next
  case False
  obtain n where n: "n \<le> length (by_use ch)" "enforce_retention ch = evicted n ch"
    "n < length (by_use ch) \<longrightarrow> int (total_size (ch_cached ch)) - int (total_size (unused ch (take n (by_use ch)))) \<le> int (ch_max_bytes ch)"
    using retain_prefix [of "by_use ch" "int (total_size (ch_cached ch))" ch] False
    by (auto simp: enforce_retention_def evicted_def)
  show ?thesis
  proof (cases "n < length (by_use ch)")
    case True
    with n evicted_total [OF assms, of n] show ?thesis by auto
  next
    case False
    have "in_use ch (policy_of e)" if "e \<in> set (ch_cached (evicted n ch))" for e
      using that evicted_member [OF assms, of e n] evicted_subset [of n ch] by_use_facts(1) [of ch] False by auto
    with n(2) show ?thesis by simp
  qed
qed

lemma enforce_retention_ok:
  assumes "cache_ok R K ch"
  shows "enforce_retention ch = ch"
  using assms by (simp add: enforce_retention_def cache_ok_def)

lemma scan_entry_facts:
  assumes "scan_entry R K (path, dir) = Inr e"
  shows "cp_path e = path" "cp_path e = path_of R (cp_manifest e)" "verify_cached R K (cp_manifest e) (cp_path e) dir = Inr e"
proof -
  from assms obtain m where m: "PolicyManifest (hash_adapter R) (hash_identity R) m" "path = path_of R m"
    "verify_cached R K m path dir = Inr e"
    by (auto simp: scan_entry_def split: option.splits if_splits)
  note facts = verify_cached_eq_Inr [OF m(3,1,2)]
  show "cp_path e = path" using facts(2) m(2) by simp
  show "cp_path e = path_of R (cp_manifest e)" "verify_cached R K (cp_manifest e) (cp_path e) dir = Inr e"
    by (rule facts)+
qed

text \<open>A start that succeeds yields a cache with the invariant, from any directory listing.\<close>

lemma open_cache_ok:
  assumes "open_cache R K max_bytes artifacts parts = Inr ch" "distinct (map fst artifacts)"
  shows "cache_ok R K ch" "ch_references ch = (\<lambda>_. 0)" "ch_loaded ch = []" "ch_max_bytes ch = max_bytes"
proof -
  from assms(1) obtain entries where scan: "each (scan_entry R K) artifacts = Inr entries"
    and ch: "ch = enforce_retention
       \<lparr>ch_max_bytes = max_bytes, ch_cached = entries, ch_artifacts = artifacts,
        ch_incoming = filter (part_pattern \<circ> fst) parts, ch_references = (\<lambda>_. 0), ch_loaded = [],
        ch_last_used = (\<lambda>_. 0)\<rparr>" (is "_ = enforce_retention ?c")
    by (auto simp: open_cache_def and_then_eq_Inr)
  from scan have all: "list_all2 (\<lambda>x y. scan_entry R K x = Inr y) artifacts entries" by (simp add: each_Inr_iff)
  have paths: "map cp_path entries = map fst artifacts"
    using all by (induction rule: list_all2_induct) (auto dest: scan_entry_facts(1))
  have "entry_ok R K ?c e" if "e \<in> set entries" for e
  proof -
    have "\<exists>entry \<in> set artifacts. scan_entry R K entry = Inr e"
      using all that by (induction rule: list_all2_induct) auto
    then obtain entry where entry: "entry \<in> set artifacts" "scan_entry R K entry = Inr e" by blast
    obtain path dir where pd: "entry = (path, dir)" by fastforce
    with scan_entry_facts [of R K path dir e] entry assms(2) show ?thesis by (auto simp: entry_ok_def)
  qed
  moreover have "cp_path ` set entries = fst ` set artifacts" using paths by (metis set_map)
  ultimately have ok: "entries_ok R K ?c" using paths assms(2) by (simp add: entries_ok_def)
  obtain n where n: "ch = evicted n ?c" using enforce_retention_evicts ch by metis
  have none: "\<not> in_use ?c p" for p by (simp add: in_use_def)
  have "total_size (ch_cached ch) \<le> max_bytes"
  proof (rule ccontr)
    assume over: "\<not> ?thesis"
    with retention_total [OF ok] none have "ch_cached ch = []" by (simp add: ch)
    with over show False by (simp add: total_size_def)
  qed
  with n entries_ok_evicted [OF ok] show "cache_ok R K ch" "ch_references ch = (\<lambda>_. 0)" "ch_loaded ch = []" "ch_max_bytes ch = max_bytes"
    by (simp_all add: cache_ok_def)
qed

text \<open>
  C39: whatever the network answers and however it ends, \<open>ensure\<close> keeps the cache within its size and every
  entry backed by a directory that verifies; it evicts only policies that are neither loaded nor
  referenced, and none of these before one that was used earlier; a policy it hands out is in the
  cache under the requested identity.
\<close>

theorem ensure_bounded:
  assumes "cache_ok R K ch" "ensure R K T net unique m now ch = (ch', r)"
  shows "cache_ok R K ch' \<and>
    (\<forall>e \<in> set (ch_cached ch). e \<notin> set (ch_cached ch') \<longrightarrow> \<not> in_use ch (policy_of e) \<and>
       (\<forall>e' \<in> set (ch_cached ch). e' \<in> set (ch_cached ch') \<longrightarrow> \<not> in_use ch (policy_of e') \<longrightarrow> use_key ch e \<le> use_key ch e')) \<and>
    (\<forall>e. r = Inr (Some e) \<longrightarrow> e \<in> set (ch_cached ch') \<and> cp_path e = path_of R m \<and> entry_ok R K ch' e)"
  using ensure_ok [OF assms] ensure_order [OF assms] ensure_result [OF assms(1), of T net unique m now ch'] assms(2)
  by blast

section \<open>A concrete download\<close>

text \<open>An honest coordinator, and a cache that holds the first three bytes of the weights.\<close>

definition demo_answer :: "nat \<Rightarrow> string \<Rightarrow> string \<Rightarrow> (string \<times> string) list \<Rightarrow> http_outcome" where
  "demo_answer status type content headers =
     Answer \<lparr>hr_status = status,
       hr_headers = [(''content-type'', type), (''etag'', ''\"'' @ digest_text (hex_digest (CHR ''9'')) @ ''\"''),
                     (''content-length'', decimal (length content))] @ headers,
       hr_chunks = [take 2 content, drop 2 content], hr_broken = False\<rparr>"

definition demo_network :: network where
  "demo_network k q =
     (case q of
        Coordinator_Get path offset \<Rightarrow>
          if path = policy_path (pm_policy_id demo_manifest) ''/manifest'' then demo_answer 200 ''application/json'' ''manifest'' []
          else if path = policy_path (pm_policy_id demo_manifest) ''/files/adapter_config.json''
          then demo_answer 200 ''application/json'' ''config'' []
          else if path = policy_path (pm_policy_id demo_manifest) ''/files/adapter_model.safetensors'' \<and> offset = 3
          then demo_answer 206 ''application/octet-stream'' ''ghts'' [(''content-range'', ''bytes 3-6/7'')]
          else No_Answer
      | Artifact_Get _ _ \<Rightarrow> No_Answer)"

definition demo_cache :: adapter_cache where
  "demo_cache =
     \<lparr>ch_max_bytes = 20, ch_cached = [], ch_artifacts = [],
      ch_incoming = [(part_name (hex_digest (CHR ''9'')) ''adapter_model.safetensors'', ''wei'')],
      ch_references = \<lambda>_. 0, ch_loaded = [], ch_last_used = \<lambda>_. 0\<rparr>"

definition demo_entry :: cached_policy where
  "demo_entry = \<lparr>cp_manifest = demo_manifest, cp_path = path_of demo demo_manifest, cp_size = 13\<rparr>"

lemma demo_cache_ok: "cache_ok demo lora_codec demo_cache"
  by (simp add: cache_ok_def entries_ok_def demo_cache_def total_size_def)

lemma demo_ensure: "snd (ensure demo lora_codec None demo_network ''u'' demo_manifest 7 demo_cache) = Inr (Some demo_entry)"
  by code_simp

theorem ensure_bounded_witness:
  "let ch' = fst (ensure demo lora_codec None demo_network ''u'' demo_manifest 7 demo_cache) in
     cache_ok demo lora_codec ch' \<and> demo_entry \<in> set (ch_cached ch')"
proof -
  let ?ch = "fst (ensure demo lora_codec None demo_network ''u'' demo_manifest 7 demo_cache)"
  have "ensure demo lora_codec None demo_network ''u'' demo_manifest 7 demo_cache = (?ch, Inr (Some demo_entry))"
    by (rule prod_eqI) (simp_all add: demo_ensure)
  from ensure_bounded [OF demo_cache_ok this] show ?thesis by (simp add: Let_def)
qed

text \<open>A mirror whose index has a member \<open>policies\<close> of another type makes the download fail, fallback or not.\<close>

lemma malformed_index_raises:
  assumes "tr_parse_json T content = Some (JObj [(''version'', JInt 1), (''policies'', JArr [])])"
  shows "index_record T policy_id content = Inl AttributeError"
  using assms by (simp add: index_record_def number_of_def)

end
