(* ===== verification/Policy_Runtime.thy ===== *)
theory Policy_Runtime
  imports Adapter_Cache
begin

text \<open>
  The policies that a worker serves (\<open>worker/policy_runtime.py\<close>): rollouts acquire a policy, which is
  pinned in the cache, loaded into the inference engine if it has an adapter, and released afterwards. The
  engine is vLLM, whose answers are parameters. A step of the relation is the code between two awaits
  that can let another rollout run; the sections under the condition exclude each other, while
  downloads, pins and unpins of other rollouts interleave with them.
\<close>

section \<open>The engine\<close>

datatype runtime_error = Engine_Unavailable | Wrong_Adapter | PolicyRuntimeFatalError

text \<open>What the engine lists before a request, whether the request succeeded, and what it lists after.\<close>

type_synonym engine_models = "(string \<times> cache_path option) list"

record engine_reply =
  er_before :: "engine_models option"
  er_posted :: bool
  er_after :: "engine_models option"

definition lists_adapter :: "engine_models \<Rightarrow> string \<Rightarrow> cache_path \<Rightarrow> bool" where
  "lists_adapter models name path \<longleftrightarrow> map_of models name = Some (Some path)"

definition admin_load :: "engine_reply \<Rightarrow> string \<Rightarrow> cache_path \<Rightarrow> runtime_error + unit" where
  "admin_load rep name path =
     (case er_before rep of
        None \<Rightarrow> Inl Engine_Unavailable
      | Some models \<Rightarrow>
          if name \<in> fst ` set models then guard (lists_adapter models name path) Wrong_Adapter
          else guard (er_posted rep \<and> (case er_after rep of None \<Rightarrow> False | Some after \<Rightarrow> lists_adapter after name path))
                 PolicyRuntimeFatalError)"

definition admin_unload :: "engine_reply \<Rightarrow> string \<Rightarrow> runtime_error + unit" where
  "admin_unload rep name =
     guard (er_posted rep \<and> (case er_after rep of None \<Rightarrow> False | Some after \<Rightarrow> name \<notin> fst ` set after)) PolicyRuntimeFatalError"

section \<open>State\<close>

text \<open>
  Where a rollout is in \<open>acquire\<close>: pinned and about to enter the section, waiting on the condition, in the
  section before or after it took its reference, using the policy, in the section of its release, about to
  leave the pin, or gone.
\<close>

datatype status = Pinned | Waiting | Entering | Retaining | Holding | Leaving | Unpinning | Ended

record acquisition =
  aq_manifest :: policy_manifest
  aq_cached :: "cached_policy option"
  aq_status :: status

record policy_runtime =
  pr_max_loaded :: nat
  pr_cache :: adapter_cache
  pr_loaded :: "(id \<times> cached_policy option) list"
  pr_references :: "id \<Rightarrow> nat"
  pr_last_used :: "id \<Rightarrow> time"
  pr_acquisitions :: "acquisition list"

definition aq_policy :: "acquisition \<Rightarrow> id" where
  "aq_policy k = pm_policy_id (aq_manifest k)"

definition in_section :: "acquisition \<Rightarrow> bool" where
  "in_section k \<longleftrightarrow> aq_status k \<in> {Entering, Retaining, Leaving}"

definition lock_free :: "policy_runtime \<Rightarrow> bool" where
  "lock_free s \<longleftrightarrow> \<not> list_ex in_section (pr_acquisitions s)"

definition has_status :: "nat \<Rightarrow> status \<Rightarrow> policy_runtime \<Rightarrow> bool" where
  "has_status t st s \<longleftrightarrow> t < length (pr_acquisitions s) \<and> aq_status (pr_acquisitions s ! t) = st"

definition set_status :: "nat \<Rightarrow> status \<Rightarrow> policy_runtime \<Rightarrow> policy_runtime" where
  "set_status t st s =
     s\<lparr>pr_acquisitions := (pr_acquisitions s)[t := (pr_acquisitions s ! t)\<lparr>aq_status := st\<rparr>]\<rparr>"

text \<open>The policies with an adapter in the engine, and those of them that nobody uses.\<close>

definition trained :: "policy_runtime \<Rightarrow> id list" where
  "trained s = map fst (filter (\<lambda>x. snd x \<noteq> None) (pr_loaded s))"

definition idle :: "policy_runtime \<Rightarrow> id list" where
  "idle s = filter (\<lambda>p. pr_references s p = 0) (trained s)"

definition coldest :: "policy_runtime \<Rightarrow> id" where
  "coldest s = hd (sort_key (\<lambda>p. (pr_last_used s p, p)) (idle s))"

text \<open>Assignment in a Python dictionary: a present key keeps its position.\<close>

fun dict_set :: "'k \<Rightarrow> 'v \<Rightarrow> ('k \<times> 'v) list \<Rightarrow> ('k \<times> 'v) list" where
  "dict_set k v [] = [(k, v)]"
| "dict_set k v ((k', v') # kvs) = (if k' = k then (k, v) # kvs else (k', v') # dict_set k v kvs)"

section \<open>The operations\<close>

definition drop_loaded :: "id \<Rightarrow> policy_runtime \<Rightarrow> policy_runtime" where
  "drop_loaded p s =
     s\<lparr>pr_cache := mark_unloaded p (pr_cache s), pr_loaded := filter (\<lambda>x. fst x \<noteq> p) (pr_loaded s)\<rparr>"

text \<open>The end of the section of an acquisition: the policy is loaded and referenced.\<close>

definition take_reference :: "nat \<Rightarrow> time \<Rightarrow> policy_runtime \<Rightarrow> policy_runtime" where
  "take_reference t now s =
     (let k = pr_acquisitions s ! t; p = aq_policy k in
      set_status t Retaining
        (s\<lparr>pr_loaded := dict_set p (aq_cached k) (pr_loaded s),
           pr_references := (pr_references s)(p := pr_references s p + 1),
           pr_last_used := (pr_last_used s)(p := now)\<rparr>))"

definition enter_section :: "nat \<Rightarrow> time \<Rightarrow> policy_runtime \<Rightarrow> policy_runtime" where
  "enter_section t now s =
     (let k = pr_acquisitions s ! t in
      if aq_cached k \<noteq> None \<and> aq_policy k \<notin> fst ` set (pr_loaded s) then set_status t Entering s
      else take_reference t now s)"

text \<open>
  One round of \<open>_wait_for_load_capacity\<close>, or the load after it. An engine error leaves the section
  and the pin.
\<close>

definition load_step :: "engine_reply \<Rightarrow> nat \<Rightarrow> time \<Rightarrow> policy_runtime \<Rightarrow> policy_runtime" where
  "load_step rep t now s =
     (let k = pr_acquisitions s ! t in
      if pr_max_loaded s \<le> length (trained s) then
        (if idle s = [] then set_status t Waiting s
         else case admin_unload rep (coldest s) of
           Inl _ \<Rightarrow> set_status t Unpinning s
         | Inr _ \<Rightarrow> drop_loaded (coldest s) s)
      else case aq_cached k of
        None \<Rightarrow> take_reference t now s
      | Some e \<Rightarrow>
          (case admin_load rep (pm_served_model_name (aq_manifest k)) (cp_path e) of
             Inl _ \<Rightarrow> set_status t Unpinning s
           | Inr _ \<Rightarrow> take_reference t now (s\<lparr>pr_cache := mark_loaded (aq_policy k) now (pr_cache s)\<rparr>)))"

text \<open>One round of \<open>_enforce_loaded_retention\<close>, or the end of its section.\<close>

definition retention_step :: "engine_reply \<Rightarrow> nat \<Rightarrow> policy_runtime \<Rightarrow> policy_runtime" where
  "retention_step rep t s =
     (if length (trained s) \<le> pr_max_loaded s \<or> idle s = []
      then set_status t (if aq_status (pr_acquisitions s ! t) = Retaining then Holding else Unpinning) s
      else case admin_unload rep (coldest s) of
        Inl _ \<Rightarrow> set_status t Unpinning s
      | Inr _ \<Rightarrow> drop_loaded (coldest s) s)"

definition release_step :: "nat \<Rightarrow> time \<Rightarrow> policy_runtime \<Rightarrow> policy_runtime" where
  "release_step t now s =
     (let p = aq_policy (pr_acquisitions s ! t) in
      set_status t Leaving
        (s\<lparr>pr_references := (pr_references s)(p := pr_references s p - 1), pr_last_used := (pr_last_used s)(p := now)\<rparr>))"

definition unpin_step :: "nat \<Rightarrow> time \<Rightarrow> policy_runtime \<Rightarrow> policy_runtime" where
  "unpin_step t now s =
     set_status t Ended (s\<lparr>pr_cache := unpin_policy (aq_policy (pr_acquisitions s ! t)) now (pr_cache s)\<rparr>)"

text \<open>
  The steps of the worker, over the manifests that the coordinator hands out. A rollout that is cancelled
  before it takes its reference gives up.
\<close>

inductive runtime_step :: "repository \<Rightarrow> artifact_codec \<Rightarrow> policy_manifest list \<Rightarrow> policy_runtime \<Rightarrow> policy_runtime \<Rightarrow> bool"
  for R K catalogue where
  acquire: "m \<in> set catalogue \<Longrightarrow> pin_policy R K T net unique m now (pr_cache s) = (ch, Inr cached) \<Longrightarrow>
    runtime_step R K catalogue s
      (s\<lparr>pr_cache := ch, pr_acquisitions := pr_acquisitions s @ [\<lparr>aq_manifest = m, aq_cached = cached, aq_status = Pinned\<rparr>]\<rparr>)"
| acquire_failed: "m \<in> set catalogue \<Longrightarrow> pin_policy R K T net unique m now (pr_cache s) = (ch, Inl err) \<Longrightarrow>
    runtime_step R K catalogue s (s\<lparr>pr_cache := ch\<rparr>)"
| prefetch: "m \<in> set catalogue \<Longrightarrow> ensure R K T net unique m now (pr_cache s) = (ch, r) \<Longrightarrow>
    runtime_step R K catalogue s (s\<lparr>pr_cache := ch\<rparr>)"
| enter: "has_status t Pinned s \<Longrightarrow> lock_free s \<Longrightarrow> runtime_step R K catalogue s (enter_section t now s)"
| wake: "has_status t Waiting s \<Longrightarrow> lock_free s \<Longrightarrow> runtime_step R K catalogue s (set_status t Entering s)"
| load: "has_status t Entering s \<Longrightarrow> runtime_step R K catalogue s (load_step rep t now s)"
| retain: "has_status t Retaining s \<or> has_status t Leaving s \<Longrightarrow> runtime_step R K catalogue s (retention_step rep t s)"
| give_up: "has_status t Pinned s \<or> has_status t Waiting s \<Longrightarrow> runtime_step R K catalogue s (set_status t Unpinning s)"
| release: "has_status t Holding s \<Longrightarrow> lock_free s \<Longrightarrow> runtime_step R K catalogue s (release_step t now s)"
| unpin: "has_status t Unpinning s \<Longrightarrow> runtime_step R K catalogue s (unpin_step t now s)"

definition start_runtime :: "nat \<Rightarrow> adapter_cache \<Rightarrow> policy_runtime" where
  "start_runtime max_loaded ch =
     \<lparr>pr_max_loaded = max_loaded, pr_cache = ch, pr_loaded = [], pr_references = (\<lambda>_. 0), pr_last_used = (\<lambda>_. 0),
      pr_acquisitions = []\<rparr>"

section \<open>The invariant\<close>

definition number :: "(acquisition \<Rightarrow> bool) \<Rightarrow> policy_runtime \<Rightarrow> nat" where
  "number P s = length (filter P (pr_acquisitions s))"

definition pins :: "id \<Rightarrow> acquisition \<Rightarrow> bool" where
  "pins p k \<longleftrightarrow> aq_status k \<noteq> Ended \<and> aq_policy k = p"

definition uses :: "id \<Rightarrow> acquisition \<Rightarrow> bool" where
  "uses p k \<longleftrightarrow> aq_status k \<in> {Retaining, Holding} \<and> aq_policy k = p"

text \<open>What \<open>ensure\<close> answered for a manifest of the coordinator is still true of the cache.\<close>

definition backed :: "repository \<Rightarrow> policy_manifest list \<Rightarrow> adapter_cache \<Rightarrow> policy_manifest \<Rightarrow> cached_policy option \<Rightarrow> bool" where
  "backed R catalogue ch m c \<longleftrightarrow> m \<in> set catalogue \<and>
     (case c of None \<Rightarrow> pm_adapter m = None
      | Some e \<Rightarrow> pm_adapter m \<noteq> None \<and> e \<in> set (ch_cached ch) \<and> cp_path e = path_of R m)"

definition runtime_ok :: "repository \<Rightarrow> artifact_codec \<Rightarrow> policy_manifest list \<Rightarrow> policy_runtime \<Rightarrow> bool" where
  "runtime_ok R K catalogue s \<longleftrightarrow>
     distinct (map pm_policy_id catalogue) \<and> cache_ok R K (pr_cache s) \<and>
     (\<forall>p. ch_references (pr_cache s) p = number (pins p) s) \<and> (\<forall>p. pr_references s p = number (uses p) s) \<and>
     (\<forall>k \<in> set (pr_acquisitions s). aq_status k \<noteq> Ended \<longrightarrow> backed R catalogue (pr_cache s) (aq_manifest k) (aq_cached k)) \<and>
     (\<forall>k \<in> set (pr_acquisitions s). aq_status k \<in> {Retaining, Holding} \<longrightarrow> (aq_policy k, aq_cached k) \<in> set (pr_loaded s)) \<and>
     distinct (map fst (pr_loaded s)) \<and>
     (\<forall>(p, c) \<in> set (pr_loaded s). \<exists>m. pm_policy_id m = p \<and> backed R catalogue (pr_cache s) m c) \<and>
     set (trained s) \<subseteq> set (ch_loaded (pr_cache s)) \<and> length (trained s) \<le> pr_max_loaded s"

lemma runtime_okD:
  assumes "runtime_ok R K catalogue s"
  shows "distinct (map pm_policy_id catalogue)" "cache_ok R K (pr_cache s)"
    "ch_references (pr_cache s) p = number (pins p) s" "pr_references s p = number (uses p) s"
    "k \<in> set (pr_acquisitions s) \<Longrightarrow> aq_status k \<noteq> Ended \<Longrightarrow> backed R catalogue (pr_cache s) (aq_manifest k) (aq_cached k)"
    "k \<in> set (pr_acquisitions s) \<Longrightarrow> aq_status k \<in> {Retaining, Holding} \<Longrightarrow> (aq_policy k, aq_cached k) \<in> set (pr_loaded s)"
    "distinct (map fst (pr_loaded s))"
    "(p, c) \<in> set (pr_loaded s) \<Longrightarrow> \<exists>m. pm_policy_id m = p \<and> backed R catalogue (pr_cache s) m c"
    "set (trained s) \<subseteq> set (ch_loaded (pr_cache s))" "length (trained s) \<le> pr_max_loaded s"
  using assms unfolding runtime_ok_def by blast+

lemma filter_update:
  "t < length xs \<Longrightarrow>
    length (filter P (xs[t := y])) + (if P (xs ! t) then 1 else 0) = length (filter P xs) + (if P y then 1 else 0)"
proof (induction xs arbitrary: t)
  case (Cons x xs)
  show ?case
  proof (cases t)
    case (Suc u)
    with Cons.IH [of u] Cons.prems show ?thesis by (cases "P x") simp_all
  qed simp
qed simp

lemma number_pos: "k \<in> set (pr_acquisitions s) \<Longrightarrow> P k \<Longrightarrow> 0 < number P s"
  by (auto simp: number_def length_greater_0_conv filter_empty_conv)

lemma policy_of_path:
  assumes "cache_ok R K ch" "e \<in> set (ch_cached ch)"
  shows "policy_of e = snd (cp_path e)"
  using assms entries_okD(4) [of R K ch e] by (auto simp: cache_ok_def entry_ok_def policy_of_def path_of_def)

lemma same_entry:
  assumes "cache_ok R K ch" "e \<in> set (ch_cached ch)" "e' \<in> set (ch_cached ch)" "cp_path e = cp_path e'"
  shows "e = e'"
  using assms entries_okD(1) [of R K ch] by (auto simp: cache_ok_def distinct_map dest: inj_onD)

text \<open>One manifest per identifier, hence one cached policy per identifier.\<close>

lemma backed_unique:
  assumes "distinct (map pm_policy_id catalogue)" "cache_ok R K ch" "backed R catalogue ch m c" "backed R catalogue ch m' c'"
    and "pm_policy_id m = pm_policy_id m'"
  shows "m = m' \<and> c = c'"
proof -
  have "m = m'" using assms(1,3-5) by (auto simp: backed_def distinct_map dest: inj_onD)
  with assms(3,4) same_entry [OF assms(2)] show ?thesis by (auto simp: backed_def split: option.splits)
qed

text \<open>An operation on the cache that keeps what is in use keeps what is backed and in use.\<close>

lemma backed_kept:
  assumes "cache_ok R K ch" "backed R catalogue ch m c" "in_use ch (pm_policy_id m)"
    and "\<And>e. e \<in> set (ch_cached ch) \<Longrightarrow> in_use ch (policy_of e) \<Longrightarrow> e \<in> set (ch_cached ch')"
  shows "backed R catalogue ch' m c"
  using assms policy_of_path [OF assms(1)] by (auto simp: backed_def path_of_def split: option.splits)

lemma in_use_pinned:
  assumes "runtime_ok R K catalogue s" "k \<in> set (pr_acquisitions s)" "aq_status k \<noteq> Ended"
  shows "in_use (pr_cache s) (aq_policy k)"
  using runtime_okD(3) [OF assms(1), of "aq_policy k"] number_pos [OF assms(2), of "pins (aq_policy k)"] assms(3)
  by (simp add: in_use_def pins_def)

lemma in_use_loaded:
  assumes "runtime_ok R K catalogue s" "(p, Some e) \<in> set (pr_loaded s)"
  shows "in_use (pr_cache s) p"
proof -
  have "p \<in> set (trained s)" using assms(2) by (force simp: trained_def)
  with runtime_okD(9) [OF assms(1)] show ?thesis by (auto simp: in_use_def)
qed

text \<open>Steps that only change the cache and the list of acquisitions.\<close>

lemma runtime_ok_cache:
  assumes ok: "runtime_ok R K catalogue s" and ch: "cache_ok R K ch" "ch_loaded ch = ch_loaded (pr_cache s)"
    and keep: "\<And>e. e \<in> set (ch_cached (pr_cache s)) \<Longrightarrow> in_use (pr_cache s) (policy_of e) \<Longrightarrow> e \<in> set (ch_cached ch)"
    and s': "s' = s\<lparr>pr_cache := ch, pr_acquisitions := ks\<rparr>"
    and refs: "\<And>p. ch_references ch p = number (pins p) s'" "\<And>p. number (uses p) s' = number (uses p) s"
    and old: "\<And>k. k \<in> set ks \<Longrightarrow> aq_status k \<noteq> Ended \<Longrightarrow>
      k \<in> set (pr_acquisitions s) \<or> aq_status k \<notin> {Retaining, Holding} \<and> backed R catalogue ch (aq_manifest k) (aq_cached k)"
  shows "runtime_ok R K catalogue s'"
proof -
  note D = runtime_okD [OF ok]
  have "backed R catalogue ch (aq_manifest k) (aq_cached k)" if "k \<in> set ks" "aq_status k \<noteq> Ended" for k
  proof (cases "k \<in> set (pr_acquisitions s)")
    case True
    from D(5) [OF this that(2)] in_use_pinned [OF ok this that(2)] show ?thesis
      by (intro backed_kept [OF D(2) _ _ keep]) (simp_all add: aq_policy_def)
  next
    case False
    with old [OF that] show ?thesis by blast
  qed
  moreover have "(aq_policy k, aq_cached k) \<in> set (pr_loaded s)" if "k \<in> set ks" "aq_status k \<in> {Retaining, Holding}" for k
    using old [OF that(1)] that(2) D(6) [of k] by auto
  moreover have "\<exists>m. pm_policy_id m = p \<and> backed R catalogue ch m c" if "(p, c) \<in> set (pr_loaded s)" for p c
  proof -
    from D(8) [OF that] obtain m where m: "pm_policy_id m = p" "backed R catalogue (pr_cache s) m c" by blast
    show ?thesis
    proof (cases c)
      case None
      with m show ?thesis by (auto simp: backed_def)
    next
      case (Some e)
      with in_use_loaded [OF ok] that m have "in_use (pr_cache s) (pm_policy_id m)" by auto
      from backed_kept [OF D(2) m(2) this keep] m(1) show ?thesis by blast
    qed
  qed
  ultimately show ?thesis using D(1,4,7,9,10) ch refs unfolding s' runtime_ok_def
    by (auto simp: trained_def)
qed

section \<open>Every step keeps the invariant\<close>

lemma number_set_status:
  assumes "has_status t st0 s" "P ((pr_acquisitions s ! t)\<lparr>aq_status := st\<rparr>) \<longleftrightarrow> P (pr_acquisitions s ! t)"
  shows "number P (set_status t st s) = number P s"
  using filter_update [of t "pr_acquisitions s" P "(pr_acquisitions s ! t)\<lparr>aq_status := st\<rparr>"] assms
  by (simp add: number_def set_status_def has_status_def split: if_splits)

lemma set_status_facts [simp]:
  "pr_cache (set_status t st s) = pr_cache s" "pr_loaded (set_status t st s) = pr_loaded s"
  "pr_references (set_status t st s) = pr_references s" "pr_max_loaded (set_status t st s) = pr_max_loaded s"
  "trained (set_status t st s) = trained s" "pr_last_used (set_status t st s) = pr_last_used s"
  by (simp_all add: set_status_def trained_def)

lemma in_set_status:
  assumes "k \<in> set (pr_acquisitions (set_status t st s))" "has_status t st0 s"
  shows "k \<in> set (pr_acquisitions s) \<or>
    k = (pr_acquisitions s ! t)\<lparr>aq_status := st\<rparr> \<and> pr_acquisitions s ! t \<in> set (pr_acquisitions s)"
  using assms set_update_subset_insert [of "pr_acquisitions s" t "(pr_acquisitions s ! t)\<lparr>aq_status := st\<rparr>"]
  by (auto simp: set_status_def has_status_def)

text \<open>A step of an acquisition that neither takes nor gives up a reference.\<close>

lemma set_status_ok:
  assumes ok: "runtime_ok R K catalogue s" and t: "has_status t st0 s" "st0 \<noteq> Ended" "st \<noteq> Ended"
    and same: "st \<in> {Retaining, Holding} \<longleftrightarrow> st0 \<in> {Retaining, Holding}"
  shows "runtime_ok R K catalogue (set_status t st s)"
proof -
  note D = runtime_okD [OF ok]
  have k: "aq_status (pr_acquisitions s ! t) = st0" using t(1) by (simp add: has_status_def)
  have n: "number (pins p) (set_status t st s) = number (pins p) s" "number (uses p) (set_status t st s) = number (uses p) s" for p
    using t(2,3) same k by (intro number_set_status [OF t(1)]; simp add: pins_def uses_def aq_policy_def)+
  have "backed R catalogue (pr_cache s) (aq_manifest x) (aq_cached x)"
    if "x \<in> set (pr_acquisitions (set_status t st s))" "aq_status x \<noteq> Ended" for x
    using in_set_status [OF that(1) t(1)] that(2) D(5) k t(2) by auto
  moreover have "(aq_policy x, aq_cached x) \<in> set (pr_loaded s)"
    if "x \<in> set (pr_acquisitions (set_status t st s))" "aq_status x \<in> {Retaining, Holding}" for x
    using in_set_status [OF that(1) t(1)] that(2) D(6) k same by (auto simp: aq_policy_def)
  ultimately show ?thesis using D(1-4,7-10) n by (auto simp: runtime_ok_def)
qed

lemma cache_update_facts [simp]:
  "trained (s\<lparr>pr_cache := ch\<rparr>) = trained s" "number P (s\<lparr>pr_cache := ch\<rparr>) = number P s"
  by (simp_all add: trained_def number_def)

lemma backed_cong: "ch_cached ch' = ch_cached ch \<Longrightarrow> backed R catalogue ch' = backed R catalogue ch"
  by (simp add: backed_def fun_eq_iff split: option.splits)

lemma mark_loaded_ok:
  assumes ok: "runtime_ok R K catalogue s"
  shows "runtime_ok R K catalogue (s\<lparr>pr_cache := mark_loaded p now (pr_cache s)\<rparr>)"
proof -
  let ?ch = "mark_loaded p now (pr_cache s)"
  have "cache_ok R K ?ch = cache_ok R K (pr_cache s)" by (rule cache_ok_cong) (simp_all add: mark_loaded_def)
  moreover have "backed R catalogue ?ch = backed R catalogue (pr_cache s)" by (rule backed_cong) (simp add: mark_loaded_def)
  moreover have "ch_references ?ch = ch_references (pr_cache s)" "set (ch_loaded (pr_cache s)) \<subseteq> set (ch_loaded ?ch)"
    by (auto simp: mark_loaded_def)
  moreover have "set (trained s) \<subseteq> set (ch_loaded ?ch)" using runtime_okD(9) [OF ok] calculation(4) by blast
  ultimately show ?thesis using ok by (simp add: runtime_ok_def)
qed

lemma dict_set_keys: "fst ` set (dict_set k v kvs) = insert k (fst ` set kvs)"
  "distinct (map fst kvs) \<Longrightarrow> distinct (map fst (dict_set k v kvs))"
  by (induction kvs rule: dict_set.induct) auto

lemma dict_set_new: "k \<notin> fst ` set kvs \<Longrightarrow> dict_set k v kvs = kvs @ [(k, v)]"
  by (induction kvs rule: dict_set.induct) auto

lemma dict_set_same: "(k, v) \<in> set kvs \<Longrightarrow> distinct (map fst kvs) \<Longrightarrow> dict_set k v kvs = kvs"
  by (induction kvs rule: dict_set.induct) (auto simp: rev_image_eqI)

text \<open>Taking the reference: a policy that is loaded already is loaded with the same cache entry.\<close>

lemma take_reference_loaded:
  assumes ok: "runtime_ok R K catalogue s" and k: "k \<in> set (pr_acquisitions s)" "aq_status k \<noteq> Ended"
  shows "dict_set (aq_policy k) (aq_cached k) (pr_loaded s) = pr_loaded s \<or>
    aq_policy k \<notin> fst ` set (pr_loaded s) \<and>
    dict_set (aq_policy k) (aq_cached k) (pr_loaded s) = pr_loaded s @ [(aq_policy k, aq_cached k)]"
proof (cases "aq_policy k \<in> fst ` set (pr_loaded s)")
  case True
  then obtain c where c: "(aq_policy k, c) \<in> set (pr_loaded s)" by auto
  note D = runtime_okD [OF ok]
  from D(8) [OF c] obtain m where "pm_policy_id m = aq_policy k" "backed R catalogue (pr_cache s) m c" by blast
  with backed_unique [OF D(1,2) this(2) D(5) [OF k]] have "c = aq_cached k" by (simp add: aq_policy_def)
  with c D(7) show ?thesis by (auto simp: dict_set_same)
next
  case False
  then show ?thesis by (simp add: dict_set_new)
qed

lemma take_reference_ok:
  assumes ok: "runtime_ok R K catalogue s" and t: "has_status t st0 s" "st0 \<in> {Pinned, Entering}"
    and room: "aq_cached (pr_acquisitions s ! t) \<noteq> None \<Longrightarrow> aq_policy (pr_acquisitions s ! t) \<notin> fst ` set (pr_loaded s) \<Longrightarrow>
      length (trained s) < pr_max_loaded s \<and> aq_policy (pr_acquisitions s ! t) \<in> set (ch_loaded (pr_cache s))"
  shows "runtime_ok R K catalogue (take_reference t now s)"
proof -
  note D = runtime_okD [OF ok]
  let ?k = "pr_acquisitions s ! t" and ?s = "take_reference t now s"
  let ?p = "aq_policy ?k" and ?k' = "(pr_acquisitions s ! t)\<lparr>aq_status := Retaining\<rparr>"
  have k: "?k \<in> set (pr_acquisitions s)" "aq_status ?k = st0" "t < length (pr_acquisitions s)" using t(1) by (auto simp: has_status_def)
  have live: "aq_status ?k \<noteq> Ended" "aq_status ?k \<notin> {Retaining, Holding}" using k(2) t(2) by auto
  have loaded: "pr_loaded ?s = dict_set ?p (aq_cached ?k) (pr_loaded s)" by (simp add: take_reference_def Let_def)
  have acqs: "pr_acquisitions ?s = (pr_acquisitions s)[t := ?k']" by (simp add: take_reference_def set_status_def Let_def)
  have cache: "pr_cache ?s = pr_cache s" "pr_max_loaded ?s = pr_max_loaded s" by (simp_all add: take_reference_def Let_def)
  have refs: "pr_references ?s = (pr_references s)(?p := pr_references s ?p + 1)" by (simp add: take_reference_def Let_def)
  have pins: "number (pins p) ?s = number (pins p) s" for p
    using filter_update [of t "pr_acquisitions s" "pins p" ?k'] k(3) live
    by (simp add: number_def acqs pins_def aq_policy_def split: if_splits)
  have uses: "pr_references ?s p = number (uses p) ?s" for p
    using filter_update [of t "pr_acquisitions s" "uses p" ?k'] k(3) live D(4) [of p]
    by (simp add: number_def acqs refs) (auto simp: uses_def aq_policy_def split: if_splits)
  have L: "set (pr_loaded ?s) = insert (?p, aq_cached ?k) (set (pr_loaded s)) \<and> distinct (map fst (pr_loaded ?s)) \<and>
    set (trained ?s) \<subseteq> set (ch_loaded (pr_cache s)) \<and> length (trained ?s) \<le> pr_max_loaded s"
    using take_reference_loaded [OF ok k(1) live(1)]
  proof (elim disjE conjE)
    assume same: "dict_set ?p (aq_cached ?k) (pr_loaded s) = pr_loaded s"
    then have "?p \<in> fst ` set (pr_loaded s)" using dict_set_keys(1) [of ?p "aq_cached ?k" "pr_loaded s"] by auto
    then obtain c where c: "(?p, c) \<in> set (pr_loaded s)" by auto
    from D(8) [OF c] obtain m where "pm_policy_id m = ?p" "backed R catalogue (pr_cache s) m c" by blast
    with backed_unique [OF D(1,2) this(2) D(5) [OF k(1) live(1)]] c have "(?p, aq_cached ?k) \<in> set (pr_loaded s)"
      by (simp add: aq_policy_def)
    with D(7,9,10) show ?thesis by (auto simp: trained_def loaded same)
  next
    assume new: "?p \<notin> fst ` set (pr_loaded s)" "dict_set ?p (aq_cached ?k) (pr_loaded s) = pr_loaded s @ [(?p, aq_cached ?k)]"
    with D(7,9,10) room show ?thesis by (auto simp: trained_def loaded)
  qed
  have b: "backed R catalogue (pr_cache s) (aq_manifest x) (aq_cached x)" if "x \<in> set (pr_acquisitions ?s)" "aq_status x \<noteq> Ended" for x
    using that D(5) k(1) live(1) set_update_subset_insert [of "pr_acquisitions s" t ?k'] by (auto simp: acqs)
  have "(aq_policy x, aq_cached x) \<in> set (pr_loaded ?s)" if "x \<in> set (pr_acquisitions ?s)" "aq_status x \<in> {Retaining, Holding}" for x
    using that D(6) set_update_subset_insert [of "pr_acquisitions s" t ?k'] by (auto simp: acqs L aq_policy_def)
  moreover have "\<exists>m. pm_policy_id m = p \<and> backed R catalogue (pr_cache s) m c" if "(p, c) \<in> set (pr_loaded ?s)" for p c
    using that D(8) D(5) [OF k(1) live(1)] by (auto simp: L aq_policy_def)
  ultimately show ?thesis using D(1-3) pins uses L b unfolding runtime_ok_def cache by auto
qed

lemma coldest_idle: "idle s \<noteq> [] \<Longrightarrow> coldest s \<in> set (trained s) \<and> pr_references s (coldest s) = 0"
proof -
  assume "idle s \<noteq> []"
  then have "sort_key (\<lambda>p. (pr_last_used s p, p)) (idle s) \<noteq> []" by (metis length_0_conv length_sort)
  then have "coldest s \<in> set (idle s)" unfolding coldest_def by (metis hd_in_set set_sort)
  then show ?thesis by (simp add: idle_def)
qed

lemma drop_loaded_ok:
  assumes ok: "runtime_ok R K catalogue s" and unused: "pr_references s p = 0"
  shows "runtime_ok R K catalogue (drop_loaded p s)"
proof -
  note D = runtime_okD [OF ok]
  let ?ch = "mark_unloaded p (pr_cache s)" and ?s = "drop_loaded p s"
  have c: "cache_ok R K ?ch = cache_ok R K (pr_cache s)" by (rule cache_ok_cong) (simp_all add: mark_unloaded_def)
  have b: "backed R catalogue ?ch = backed R catalogue (pr_cache s)" by (rule backed_cong) (simp add: mark_unloaded_def)
  have parts: "pr_cache ?s = ?ch" "pr_acquisitions ?s = pr_acquisitions s" "pr_references ?s = pr_references s"
    "pr_max_loaded ?s = pr_max_loaded s" "pr_loaded ?s = filter (\<lambda>x. fst x \<noteq> p) (pr_loaded s)"
    "ch_references ?ch = ch_references (pr_cache s)" "ch_loaded ?ch = filter (\<lambda>q. q \<noteq> p) (ch_loaded (pr_cache s))"
    by (simp_all add: drop_loaded_def mark_unloaded_def)
  have n: "number P ?s = number P s" for P by (simp add: number_def parts)
  have "trained ?s = filter (\<lambda>q. q \<noteq> p) (trained s)"
  proof -
    have "map fst (filter (\<lambda>x. snd x \<noteq> None) (filter (\<lambda>x. fst x \<noteq> p) xs)) =
      filter (\<lambda>q. q \<noteq> p) (map fst (filter (\<lambda>x. snd x \<noteq> None) xs))" for xs :: "(id \<times> cached_policy option) list"
      by (induction xs) auto
    then show ?thesis by (simp only: trained_def parts)
  qed
  moreover have "length (filter (\<lambda>q. q \<noteq> p) (trained s)) \<le> pr_max_loaded s"
    using D(10) length_filter_le order_trans by blast
  moreover have "aq_policy k \<noteq> p" if "k \<in> set (pr_acquisitions s)" "aq_status k \<in> {Retaining, Holding}" for k
    using number_pos [OF that(1), of "uses (aq_policy k)"] that(2) D(4) [of "aq_policy k"] unused by (auto simp: uses_def)
  moreover have "distinct (map fst (filter (\<lambda>x. fst x \<noteq> p) (pr_loaded s)))" using D(7) by (rule distinct_map_filter)
  ultimately show ?thesis using D(1-6,8,9) unfolding runtime_ok_def parts b c n by auto
qed

lemma load_step_ok:
  assumes ok: "runtime_ok R K catalogue s" and t: "has_status t Entering s"
  shows "runtime_ok R K catalogue (load_step rep t now s)"
proof -
  let ?k = "pr_acquisitions s ! t"
  have stay: "runtime_ok R K catalogue (set_status t st s)" if "st \<in> {Waiting, Unpinning}" for st
    using that by (intro set_status_ok [OF ok t]) auto
  show ?thesis
  proof (cases "pr_max_loaded s \<le> length (trained s)")
    case True
    then show ?thesis using stay coldest_idle [of s] drop_loaded_ok [OF ok, of "coldest s"]
      by (auto simp: load_step_def Let_def split: sum.splits)
  next
    case False
    show ?thesis
    proof (cases "aq_cached ?k")
      case None
      with False take_reference_ok [OF ok t, of now] show ?thesis by (simp add: load_step_def Let_def)
    next
      case (Some e)
      let ?s = "s\<lparr>pr_cache := mark_loaded (aq_policy ?k) now (pr_cache s)\<rparr>"
      have "has_status t Entering ?s" "aq_policy ?k \<in> set (ch_loaded (pr_cache ?s))"
        using t by (simp_all add: has_status_def mark_loaded_def)
      with False take_reference_ok [OF mark_loaded_ok [OF ok, of "aq_policy ?k" now], of t Entering now]
      have "runtime_ok R K catalogue (take_reference t now ?s)" by simp
      with False Some stay show ?thesis by (auto simp: load_step_def Let_def split: sum.splits)
    qed
  qed
qed

lemma enter_section_ok:
  assumes ok: "runtime_ok R K catalogue s" and t: "has_status t Pinned s"
  shows "runtime_ok R K catalogue (enter_section t now s)"
  using take_reference_ok [OF ok t, of now] set_status_ok [OF ok t, of Entering]
  by (auto simp: enter_section_def Let_def)

text \<open>At most the allowed number of policies is loaded, so the retention has nothing to do.\<close>

lemma retention_step_ok:
  assumes ok: "runtime_ok R K catalogue s" and t: "has_status t Retaining s \<or> has_status t Leaving s"
  shows "runtime_ok R K catalogue (retention_step rep t s)"
  using t runtime_okD(10) [OF ok] set_status_ok [OF ok, of t Retaining Holding] set_status_ok [OF ok, of t Leaving Unpinning]
  by (auto simp: retention_step_def has_status_def)

lemma release_step_ok:
  assumes ok: "runtime_ok R K catalogue s" and t: "has_status t Holding s"
  shows "runtime_ok R K catalogue (release_step t now s)"
proof -
  note D = runtime_okD [OF ok]
  let ?k = "pr_acquisitions s ! t" and ?s = "release_step t now s"
  let ?k' = "?k\<lparr>aq_status := Leaving\<rparr>"
  have k: "?k \<in> set (pr_acquisitions s)" "aq_status ?k = Holding" "t < length (pr_acquisitions s)" using t by (auto simp: has_status_def)
  have parts: "pr_acquisitions ?s = (pr_acquisitions s)[t := ?k']" "pr_cache ?s = pr_cache s" "pr_loaded ?s = pr_loaded s"
    "pr_max_loaded ?s = pr_max_loaded s" "trained ?s = trained s"
    "pr_references ?s = (pr_references s)(aq_policy ?k := pr_references s (aq_policy ?k) - 1)"
    by (simp_all add: release_step_def Let_def set_status_def trained_def)
  have old: "x = ?k' \<or> x \<in> set (pr_acquisitions s)" if "x \<in> set (pr_acquisitions ?s)" for x
    using that set_update_subset_insert [of "pr_acquisitions s" t ?k'] by (auto simp: parts)
  have "number (pins p) ?s = number (pins p) s" for p
    using filter_update [of t "pr_acquisitions s" "pins p" ?k'] k
    by (simp add: number_def parts pins_def aq_policy_def split: if_splits)
  moreover have "pr_references ?s p = number (uses p) ?s" for p
    using filter_update [of t "pr_acquisitions s" "uses p" ?k'] k D(4) [of p]
    by (simp add: number_def parts) (auto simp: uses_def aq_policy_def split: if_splits)
  moreover have "backed R catalogue (pr_cache s) (aq_manifest x) (aq_cached x)"
    if "x \<in> set (pr_acquisitions ?s)" "aq_status x \<noteq> Ended" for x
    using old [OF that(1)] D(5) [of x] D(5) [OF k(1)] k(2) that(2) by auto
  moreover have "(aq_policy x, aq_cached x) \<in> set (pr_loaded s)"
    if "x \<in> set (pr_acquisitions ?s)" "aq_status x \<in> {Retaining, Holding}" for x
    using old [OF that(1)] D(6) [of x] that(2) by auto
  ultimately show ?thesis using D(1-3,7-10) unfolding runtime_ok_def parts(2-5) by auto
qed

lemma pin_policy_facts:
  assumes "cache_ok R K ch" "pin_policy R K T net unique m now ch = (ch', r)"
  shows "cache_ok R K ch'" "ch_loaded ch' = ch_loaded ch" "ch_max_bytes ch' = ch_max_bytes ch"
    "ch_references ch' = (if \<exists>c. r = Inr c then (ch_references ch)(pm_policy_id m := ch_references ch (pm_policy_id m) + 1) else ch_references ch)"
    "\<And>e. e \<in> set (ch_cached ch) \<Longrightarrow> in_use ch (policy_of e) \<Longrightarrow> e \<in> set (ch_cached ch')"
    "\<And>e. r = Inr (Some e) \<Longrightarrow> pm_adapter m \<noteq> None \<and> e \<in> set (ch_cached ch') \<and> cp_path e = path_of R m"
    "r = Inr None \<Longrightarrow> pm_adapter m = None"
proof -
  obtain ch1 r1 where e: "ensure R K T net unique m now ch = (ch1, r1)" by fastforce
  note ok = ensure_keeps [OF assms(1) e]
  have adapter: "r1 = Inr None \<Longrightarrow> pm_adapter m = None" "\<And>x. r1 = Inr (Some x) \<Longrightarrow> pm_adapter m \<noteq> None"
    using e by (auto simp: ensure_def and_next_def split: option.splits if_splits prod.splits sum.splits)
  from assms(2) have r: "r = r1" and same: "ch_cached ch' = ch_cached ch1" "ch_artifacts ch' = ch_artifacts ch1"
    "ch_max_bytes ch' = ch_max_bytes ch1" "ch_loaded ch' = ch_loaded ch1"
    "ch_references ch' = (if \<exists>c. r1 = Inr c then (ch_references ch1)(pm_policy_id m := ch_references ch1 (pm_policy_id m) + 1) else ch_references ch1)"
    by (auto simp: pin_policy_def e and_next_def Let_def split: sum.splits)
  show "cache_ok R K ch'" using cache_ok_cong [OF same(1-3)] ok by blast
  show "ch_loaded ch' = ch_loaded ch" "ch_max_bytes ch' = ch_max_bytes ch"
    "ch_references ch' = (if \<exists>c. r = Inr c then (ch_references ch)(pm_policy_id m := ch_references ch (pm_policy_id m) + 1) else ch_references ch)"
    using ok same r by auto
  show "x \<in> set (ch_cached ch')" if "x \<in> set (ch_cached ch)" "in_use ch (policy_of x)" for x
    using ensure_order(1) [OF assms(1) e that(1)] that(2) same by auto
  show "pm_adapter m \<noteq> None \<and> x \<in> set (ch_cached ch') \<and> cp_path x = path_of R m" if "r = Inr (Some x)" for x
  proof -
    from r that have "r1 = Inr (Some x)" by simp
    with ensure_result [OF assms(1), of T net unique m now ch1 x] e adapter(2) [of x] same show ?thesis by simp
  qed
  show "r = Inr None \<Longrightarrow> pm_adapter m = None" using adapter(1) r by simp
qed

lemma acquire_ok:
  assumes ok: "runtime_ok R K catalogue s" and m: "m \<in> set catalogue"
    and pin: "pin_policy R K T net unique m now (pr_cache s) = (ch, Inr cached)"
  shows "runtime_ok R K catalogue
    (s\<lparr>pr_cache := ch, pr_acquisitions := pr_acquisitions s @ [\<lparr>aq_manifest = m, aq_cached = cached, aq_status = Pinned\<rparr>]\<rparr>)"
proof (rule runtime_ok_cache [OF ok _ _ _ refl])
  note F = pin_policy_facts [OF runtime_okD(2) [OF ok] pin]
  show "cache_ok R K ch" "ch_loaded ch = ch_loaded (pr_cache s)" by (rule F(1,2))+
  show "e \<in> set (ch_cached ch)" if "e \<in> set (ch_cached (pr_cache s))" "in_use (pr_cache s) (policy_of e)" for e
    by (rule F(5) [OF that])
  let ?k = "\<lparr>aq_manifest = m, aq_cached = cached, aq_status = Pinned\<rparr>"
  let ?s = "s\<lparr>pr_cache := ch, pr_acquisitions := pr_acquisitions s @ [?k]\<rparr>"
  show "ch_references ch p = number (pins p) ?s" for p
    using F(4) runtime_okD(3) [OF ok, of p] by (auto simp: number_def pins_def aq_policy_def)
  show "number (uses p) ?s = number (uses p) s" for p by (simp add: number_def uses_def)
  have "backed R catalogue ch m cached" using F(6,7) m by (cases cached) (auto simp: backed_def)
  then show "k \<in> set (pr_acquisitions s) \<or> aq_status k \<notin> {Retaining, Holding} \<and> backed R catalogue ch (aq_manifest k) (aq_cached k)"
    if "k \<in> set (pr_acquisitions s @ [?k])" for k using that by auto
qed

text \<open>A download that fails, or a prefetch.\<close>

lemma cache_only_ok:
  assumes ok: "runtime_ok R K catalogue s"
    and ch: "cache_ok R K ch" "ch_loaded ch = ch_loaded (pr_cache s)" "ch_references ch = ch_references (pr_cache s)"
    and keep: "\<And>e. e \<in> set (ch_cached (pr_cache s)) \<Longrightarrow> in_use (pr_cache s) (policy_of e) \<Longrightarrow> e \<in> set (ch_cached ch)"
  shows "runtime_ok R K catalogue (s\<lparr>pr_cache := ch\<rparr>)"
proof (rule runtime_ok_cache [OF ok ch(1,2) keep, of _ "pr_acquisitions s"])
  show "ch_references ch p = number (pins p) (s\<lparr>pr_cache := ch\<rparr>)" for p using runtime_okD(3) [OF ok] ch(3) by simp
qed auto

lemma unpin_step_ok:
  assumes ok: "runtime_ok R K catalogue s" and t: "has_status t Unpinning s"
  shows "runtime_ok R K catalogue (unpin_step t now s)"
proof -
  note D = runtime_okD [OF ok]
  let ?k = "pr_acquisitions s ! t" and ?k' = "(pr_acquisitions s ! t)\<lparr>aq_status := Ended\<rparr>"
  let ?ch = "touch (aq_policy ?k) now ((pr_cache s)\<lparr>ch_references := (ch_references (pr_cache s))(aq_policy ?k := ch_references (pr_cache s) (aq_policy ?k) - 1)\<rparr>)"
  have k: "aq_status ?k = Unpinning" "t < length (pr_acquisitions s)" using t by (auto simp: has_status_def)
  have c: "cache_ok R K ?ch" using cache_ok_cong [of ?ch "pr_cache s" R K] D(2) by simp
  have s': "unpin_step t now s = s\<lparr>pr_cache := ?ch, pr_acquisitions := (pr_acquisitions s)[t := ?k']\<rparr>"
    using enforce_retention_ok [OF c] by (simp add: unpin_step_def unpin_policy_def set_status_def)
  show ?thesis unfolding s'
  proof (rule runtime_ok_cache [OF ok c _ _ refl])
    show "ch_references ?ch p = number (pins p) (s\<lparr>pr_cache := ?ch, pr_acquisitions := (pr_acquisitions s)[t := ?k']\<rparr>)" for p
      using filter_update [of t "pr_acquisitions s" "pins p" ?k'] k D(3) [of p]
      by (auto simp: number_def pins_def aq_policy_def split: if_splits)
    show "number (uses p) (s\<lparr>pr_cache := ?ch, pr_acquisitions := (pr_acquisitions s)[t := ?k']\<rparr>) = number (uses p) s" for p
      using filter_update [of t "pr_acquisitions s" "uses p" ?k'] k by (simp add: number_def uses_def split: if_splits)
    show "x \<in> set (pr_acquisitions s) \<or> aq_status x \<notin> {Retaining, Holding} \<and> backed R catalogue ?ch (aq_manifest x) (aq_cached x)"
      if "x \<in> set ((pr_acquisitions s)[t := ?k'])" "aq_status x \<noteq> Ended" for x
      using that set_update_subset_insert [of "pr_acquisitions s" t ?k'] by auto
  qed simp_all
qed

lemma runtime_step_ok:
  assumes "runtime_step R K catalogue s s'" and ok: "runtime_ok R K catalogue s"
  shows "runtime_ok R K catalogue s'"
  using assms(1)
proof cases
  case (acquire m T net unique now ch cached)
  then show ?thesis using acquire_ok [OF ok] by simp
next
  case (acquire_failed m T net unique now ch err)
  note F = pin_policy_facts [OF runtime_okD(2) [OF ok] acquire_failed(3)]
  from acquire_failed(1) show ?thesis using cache_only_ok [OF ok F(1,2) _ F(5)] F(4) by simp
next
  case (prefetch m T net unique now ch r)
  note E = ensure_keeps [OF runtime_okD(2) [OF ok] prefetch(3)]
  have "x \<in> set (ch_cached ch)" if "x \<in> set (ch_cached (pr_cache s))" "in_use (pr_cache s) (policy_of x)" for x
    using ensure_order(1) [OF runtime_okD(2) [OF ok] prefetch(3) that(1)] that(2) by blast
  with prefetch(1) E show ?thesis using cache_only_ok [OF ok, of ch] by simp
next
  case (give_up t)
  then show ?thesis using set_status_ok [OF ok, of t Pinned Unpinning] set_status_ok [OF ok, of t Waiting Unpinning] by auto
next
  case (wake t)
  then show ?thesis using set_status_ok [OF ok, of t Waiting Entering] by simp
qed (auto intro: enter_section_ok load_step_ok retention_step_ok release_step_ok unpin_step_ok ok)

definition runtime_init :: "repository \<Rightarrow> artifact_codec \<Rightarrow> policy_manifest list \<Rightarrow> nat \<Rightarrow> policy_runtime \<Rightarrow> bool" where
  "runtime_init R K catalogue n s \<longleftrightarrow> distinct (map pm_policy_id catalogue) \<and>
     (\<exists>ch. s = start_runtime n ch \<and> cache_ok R K ch \<and> ch_references ch = (\<lambda>_. 0))"

interpretation worker: invariant_system "runtime_init R K catalogue n" "runtime_step R K catalogue" "runtime_ok R K catalogue"
  for R K catalogue n
proof unfold_locales
  show "runtime_ok R K catalogue s" if "runtime_init R K catalogue n s" for s
    using that by (auto simp: runtime_init_def runtime_ok_def start_runtime_def number_def trained_def)
  show "runtime_ok R K catalogue s'" if "runtime_ok R K catalogue s" "runtime_step R K catalogue s s'" for s s'
    using that by (rule runtime_step_ok [rotated])
qed

lemma max_loaded_fixed:
  assumes "(runtime_step R K catalogue)\<^sup>*\<^sup>* s s'"
  shows "pr_max_loaded s' = pr_max_loaded s"
proof -
  have *: "pr_max_loaded (take_reference t now u) = pr_max_loaded u" "pr_max_loaded (drop_loaded p u) = pr_max_loaded u" for t now u p
    by (simp_all add: take_reference_def drop_loaded_def Let_def)
  have "pr_max_loaded v = pr_max_loaded u" if "runtime_step R K catalogue u v" for u v
    using that
    by cases (auto simp: * enter_section_def load_step_def retention_step_def release_step_def unpin_step_def Let_def
      split: option.splits sum.splits)
  with assms show ?thesis by (induction rule: rtranclp_induct) auto
qed

lemma max_bytes_fixed:
  assumes ok: "runtime_ok R K catalogue s" and "(runtime_step R K catalogue)\<^sup>*\<^sup>* s s'"
  shows "ch_max_bytes (pr_cache s') = ch_max_bytes (pr_cache s)"
  using assms(2)
proof (induction rule: rtranclp_induct)
  case (step u v)
  have u: "runtime_ok R K catalogue u" by (rule worker.good_reachable [OF step.hyps(1) ok])
  have *: "pr_cache (take_reference t now w) = pr_cache w" "ch_max_bytes (pr_cache (drop_loaded p w)) = ch_max_bytes (pr_cache w)"
    "ch_max_bytes (mark_loaded p now ch) = ch_max_bytes ch" for t now w p ch
    by (simp_all add: take_reference_def drop_loaded_def mark_loaded_def mark_unloaded_def Let_def)
  have unpin: "ch_max_bytes (unpin_policy p now ch) = ch_max_bytes ch" for p now ch
  proof -
    have "ch_max_bytes (enforce_retention c) = ch_max_bytes c" for c by (metis enforce_retention_evicts evicted_facts(1))
    then show ?thesis by (simp add: unpin_policy_def)
  qed
  from step.hyps(2) have "ch_max_bytes (pr_cache v) = ch_max_bytes (pr_cache u)"
    by cases (auto simp: * unpin enter_section_def load_step_def retention_step_def release_step_def unpin_step_def Let_def
      split: option.splits sum.splits dest: pin_policy_facts(3) [OF runtime_okD(2) [OF u]] ensure_keeps [OF runtime_okD(2) [OF u]])
  with step.IH show ?case by simp
qed simp

text \<open>
  A rollout that waits for capacity does not look again whether its own policy has been loaded in the
  meantime: it waits until that policy is unused, then unloads it and loads it again.
\<close>

lemma waiter_reloads_its_policy:
  assumes "pr_max_loaded s \<le> length (trained s)"
  shows "idle s = [] \<Longrightarrow> load_step rep t now s = set_status t Waiting s"
    "trained s = [aq_policy (pr_acquisitions s ! t)] \<Longrightarrow> idle s \<noteq> [] \<Longrightarrow> admin_unload rep (aq_policy (pr_acquisitions s ! t)) = Inr () \<Longrightarrow>
      load_step rep t now s = drop_loaded (aq_policy (pr_acquisitions s ! t)) s"
proof -
  show "idle s = [] \<Longrightarrow> load_step rep t now s = set_status t Waiting s" using assms by (simp add: load_step_def Let_def)
  show "load_step rep t now s = drop_loaded (aq_policy (pr_acquisitions s ! t)) s"
    if "trained s = [aq_policy (pr_acquisitions s ! t)]" "idle s \<noteq> []" "admin_unload rep (aq_policy (pr_acquisitions s ! t)) = Inr ()"
    using assms that coldest_idle [of s] by (simp add: load_step_def Let_def)
qed

text \<open>
  C40: from a start on any cache directory, however acquisitions, downloads, prefetches, releases and
  failures interleave, the engine never has more adapters than allowed, the cache stays within its
  size, and while a rollout holds a policy with an adapter, that adapter is loaded, and the directory it was
  loaded from is still in the cache, on disk, and verifies. The hypothesis is that the coordinator hands
  out one manifest per policy identifier.
\<close>

theorem served_policy_stays:
  assumes "distinct (map pm_policy_id catalogue)" "open_cache R K max_bytes artifacts parts = Inr ch" "distinct (map fst artifacts)"
    and "(runtime_step R K catalogue)\<^sup>*\<^sup>* (start_runtime n ch) s"
  shows "length (trained s) \<le> n \<and> total_size (ch_cached (pr_cache s)) \<le> max_bytes \<and>
    (\<forall>k \<in> set (pr_acquisitions s). aq_status k = Holding \<longrightarrow> (aq_policy k, aq_cached k) \<in> set (pr_loaded s) \<and>
       (case aq_cached k of None \<Rightarrow> pm_adapter (aq_manifest k) = None
        | Some e \<Rightarrow> e \<in> set (ch_cached (pr_cache s)) \<and> cp_path e = path_of R (aq_manifest k) \<and> entry_ok R K (pr_cache s) e))"
proof -
  have init: "runtime_init R K catalogue n (start_runtime n ch)"
    using assms(1) open_cache_ok [OF assms(2,3)] by (auto simp: runtime_init_def)
  from worker.reachable_good [OF this assms(4)] have ok: "runtime_ok R K catalogue s" .
  have max: "ch_max_bytes (pr_cache s) = max_bytes"
    using max_bytes_fixed [OF worker.init_good [OF init] assms(4)] open_cache_ok(4) [OF assms(2,3)] by (simp add: start_runtime_def)
  note D = runtime_okD [OF ok]
  have entries: "entry_ok R K (pr_cache s) e" if "e \<in> set (ch_cached (pr_cache s))" for e
    using D(2) entries_okD(4) that by (auto simp: cache_ok_def)
  moreover have "pr_max_loaded s = n" using max_loaded_fixed [OF assms(4)] by (simp add: start_runtime_def)
  moreover have "(aq_policy k, aq_cached k) \<in> set (pr_loaded s) \<and>
       (case aq_cached k of None \<Rightarrow> pm_adapter (aq_manifest k) = None
        | Some e \<Rightarrow> e \<in> set (ch_cached (pr_cache s)) \<and> cp_path e = path_of R (aq_manifest k) \<and> entry_ok R K (pr_cache s) e)"
    if "k \<in> set (pr_acquisitions s)" "aq_status k = Holding" for k
    using D(5) [OF that(1)] D(6) [OF that(1)] that(2) entries by (simp add: backed_def split: option.splits)
  ultimately show ?thesis using D(2,10) max by (simp add: cache_ok_def)
qed

section \<open>A concrete acquisition\<close>

definition demo_parts :: "(string \<times> string) list" where
  "demo_parts = ch_incoming demo_cache"

definition demo_reply :: engine_reply where
  "demo_reply = \<lparr>er_before = Some [], er_posted = True,
     er_after = Some [(pm_served_model_name demo_manifest, Some (path_of demo demo_manifest))]\<rparr>"

definition demo_pinned :: policy_runtime where
  "demo_pinned = (start_runtime 1 demo_cache)
     \<lparr>pr_cache := fst (pin_policy demo lora_codec None demo_network ''u'' demo_manifest 7 demo_cache),
      pr_acquisitions := [\<lparr>aq_manifest = demo_manifest, aq_cached = Some demo_entry, aq_status = Pinned\<rparr>]\<rparr>"

definition demo_holding :: policy_runtime where
  "demo_holding = retention_step demo_reply 0 (load_step demo_reply 0 8 (enter_section 0 8 demo_pinned))"

lemma demo_open: "open_cache demo lora_codec 20 [] demo_parts = Inr demo_cache"
proof -
  have "filter (part_pattern \<circ> fst) demo_parts = demo_parts" by code_simp
  then show ?thesis
    by (simp add: open_cache_def enforce_retention_def total_size_def) (simp add: demo_cache_def demo_parts_def)
qed

lemma demo_pin: "pin_policy demo lora_codec None demo_network ''u'' demo_manifest 7 demo_cache =
    (fst (pin_policy demo lora_codec None demo_network ''u'' demo_manifest 7 demo_cache), Inr (Some demo_entry))"
  using demo_ensure by (auto simp: pin_policy_def and_next_def Let_def split: prod.splits sum.splits)

lemma demo_states:
  "enter_section 0 8 demo_pinned = set_status 0 Entering demo_pinned"
  "aq_status (pr_acquisitions (load_step demo_reply 0 8 (set_status 0 Entering demo_pinned)) ! 0) = Retaining"
  "length (pr_acquisitions (load_step demo_reply 0 8 (set_status 0 Entering demo_pinned))) = 1"
  "length (trained (load_step demo_reply 0 8 (set_status 0 Entering demo_pinned))) = 1"
  by (simp_all add: enter_section_def demo_pinned_def start_runtime_def load_step_def set_status_def trained_def admin_load_def
    demo_reply_def lists_adapter_def demo_entry_def take_reference_def Let_def)

lemma demo_run: "(runtime_step demo lora_codec [demo_manifest])\<^sup>*\<^sup>* (start_runtime 1 demo_cache) demo_holding"
proof -
  let ?step = "runtime_step demo lora_codec [demo_manifest]"
  have "?step (start_runtime 1 demo_cache) demo_pinned"
    using runtime_step.acquire [of demo_manifest "[demo_manifest]" demo lora_codec None demo_network "''u''" 7 "start_runtime 1 demo_cache"] demo_pin
    by (simp add: demo_pinned_def start_runtime_def)
  moreover have "?step demo_pinned (set_status 0 Entering demo_pinned)"
    unfolding demo_states(1) [symmetric]
    by (rule runtime_step.enter) (simp_all add: has_status_def lock_free_def in_section_def demo_pinned_def)
  moreover have "?step (set_status 0 Entering demo_pinned) (load_step demo_reply 0 8 (set_status 0 Entering demo_pinned))"
    by (rule runtime_step.load) (simp add: has_status_def set_status_def demo_pinned_def)
  moreover have "?step (load_step demo_reply 0 8 (set_status 0 Entering demo_pinned)) demo_holding"
    unfolding demo_holding_def demo_states(1) by (rule runtime_step.retain) (simp add: has_status_def demo_states)
  ultimately show ?thesis by (meson converse_rtranclp_into_rtranclp r_into_rtranclp)
qed

lemma demo_holds: "pr_acquisitions demo_holding = [\<lparr>aq_manifest = demo_manifest, aq_cached = Some demo_entry, aq_status = Holding\<rparr>]"
  by (simp add: demo_holding_def demo_pinned_def enter_section_def start_runtime_def load_step_def retention_step_def set_status_def
    trained_def admin_load_def demo_reply_def lists_adapter_def demo_entry_def take_reference_def Let_def)

theorem served_policy_stays_witness:
  "trained demo_holding \<noteq> [] \<and> length (trained demo_holding) \<le> 1 \<and> demo_entry \<in> set (ch_cached (pr_cache demo_holding)) \<and>
   entry_ok demo lora_codec (pr_cache demo_holding) demo_entry"
proof -
  have "length (trained demo_holding) \<le> 1 \<and> (pm_policy_id demo_manifest, Some demo_entry) \<in> set (pr_loaded demo_holding) \<and>
      demo_entry \<in> set (ch_cached (pr_cache demo_holding)) \<and> entry_ok demo lora_codec (pr_cache demo_holding) demo_entry"
    using served_policy_stays [OF _ demo_open _ demo_run] by (simp add: demo_holds aq_policy_def)
  moreover from this have "pm_policy_id demo_manifest \<in> set (trained demo_holding)" by (force simp: trained_def)
  ultimately show ?thesis by auto
qed

end
