(* ===== verification/Coordinator_API.thy ===== *)
theory Coordinator_API
  imports Policy_Transport Inference_Broker
begin

text \<open>
  The HTTP interface of the coordinator (\<open>coordinator/api.py\<close>): authentication, the parsing of control
  bodies, the control handlers over the repository, and the handlers that serve policies. Routing and
  the JSON codec are FastAPI and pydantic; \<open>parse\<close> decodes a body, \<open>decode\<close> the fields of a message, and
  the validators of \<open>Protocol\<close> run on them. The message texts of failures are not modelled.
\<close>

section \<open>Requests and failures\<close>

datatype api_failure = API_Error (failure_status: nat) (failure_code: string)

record api_request =
  ap_path :: string
  ap_headers :: "(string \<times> string) list"
  ap_chunks :: "string list"

definition request_header :: "api_request \<Rightarrow> string \<Rightarrow> string option" where
  "request_header q name = map_of (ap_headers q) name"

definition header_default :: "string option \<Rightarrow> string \<Rightarrow> string" where
  "header_default h d = (case h of None \<Rightarrow> d | Some v \<Rightarrow> v)"

text \<open>The exception handlers of the application.\<close>

definition error_response :: "error \<Rightarrow> api_failure" where
  "error_response e =
     (case e of
        NotFoundError \<Rightarrow> API_Error 404 ''not_found''
      | ConflictError \<Rightarrow> API_Error 409 ''conflict''
      | IncompatibleWorkerError \<Rightarrow> API_Error 409 ''conflict''
      | InvalidStateError \<Rightarrow> API_Error 409 ''conflict''
      | CapacityError \<Rightarrow> API_Error 429 ''capacity_exceeded''
      | ArtifactCorruptionError \<Rightarrow> API_Error 500 ''artifact_corruption''
      | _ \<Rightarrow> API_Error 500 ''internal_error'')"

definition is_ascii :: "char \<Rightarrow> bool" where
  "is_ascii c \<longleftrightarrow> (of_char c :: nat) < 128"

text \<open>The middleware in front of every path of the API.\<close>

definition authenticate :: "string \<Rightarrow> api_request \<Rightarrow> api_failure + unit" where
  "authenticate token q =
     (if \<not> starts_with (ap_path q) ''/api/v2/'' then Inr ()
      else let supplied = header_default (request_header q ''authorization'') [];
               parts = lpartition '' '' supplied;
               scheme = (case parts of None \<Rightarrow> supplied | Some (a, _) \<Rightarrow> a);
               credential = (case parts of None \<Rightarrow> [] | Some (_, b) \<Rightarrow> b);
               credential_bytes = (if list_all is_ascii credential then credential else [])
           in if \<not> (parts \<noteq> None \<and> map lower_ascii scheme = ''bearer'' \<and> credential_bytes = token)
              then Inl (API_Error 401 ''unauthorized'')
              else if request_header q ''aether-protocol-version'' \<noteq> Some (decimal PROTOCOL_VERSION)
              then Inl (API_Error 400 ''unsupported_protocol_version'')
              else Inr ())"

section \<open>Control bodies\<close>

definition validate_json_body :: "api_request \<Rightarrow> nat \<Rightarrow> api_failure + unit" where
  "validate_json_body q limit =
     (if map lower_ascii (strip (takeWhile (\<lambda>c. c \<noteq> CHR '';'') (header_default (request_header q ''content-type'') []))) \<noteq> ''application/json''
      then Inl (API_Error 415 ''unsupported_media_type'')
      else if map lower_ascii (header_default (request_header q ''content-encoding'') ''identity'') \<noteq> ''identity''
      then Inl (API_Error 415 ''unsupported_encoding'')
      else case request_header q ''content-length'' of
        None \<Rightarrow> Inr ()
      | Some text \<Rightarrow>
          (case python_int text of
             None \<Rightarrow> Inl (API_Error 400 ''invalid_content_length'')
           | Some n \<Rightarrow>
               if n < 0 then Inl (API_Error 400 ''invalid_content_length'')
               else guard (n \<le> int limit) (API_Error 413 ''payload_too_large'')))"

fun collect_body :: "nat \<Rightarrow> string \<Rightarrow> string list \<Rightarrow> api_failure + string" where
  "collect_body limit data [] = Inr data"
| "collect_body limit data (c # cs) =
     (if limit < length data + length c then Inl (API_Error 413 ''payload_too_large'') else collect_body limit (data @ c) cs)"

text \<open>
  \<open>decode\<close> is the part of \<open>model_validate\<close> that pydantic does alone: the message, or where its errors are
  (the last component of each location).
\<close>

definition unsupported_protocol :: api_failure where
  "unsupported_protocol = API_Error 400 ''unsupported_protocol_version''"

definition malformed_request :: api_failure where
  "malformed_request = API_Error 422 ''malformed_request''"

definition parse_model_json :: "(string \<Rightarrow> json option) \<Rightarrow> (json \<Rightarrow> string list + 'm) \<Rightarrow> ('m \<Rightarrow> bool) \<Rightarrow> string \<Rightarrow> api_failure + 'm" where
  "parse_model_json parse decode valid data =
     (case parse data of
        None \<Rightarrow> Inl malformed_request
      | Some (JObj raw) \<Rightarrow>
          if map_of raw ''protocol_version'' = None then Inl unsupported_protocol
          else (case decode (JObj raw) of
              Inl locations \<Rightarrow>
                Inl (if ''protocol_version'' \<in> set locations then unsupported_protocol else malformed_request)
            | Inr m \<Rightarrow> if valid m then Inr m else Inl malformed_request)
      | Some _ \<Rightarrow> Inl unsupported_protocol)"

definition body_limit :: "bool \<Rightarrow> nat \<Rightarrow> nat \<Rightarrow> nat" where
  "body_limit is_exchange inference_limit control_limit =
     (if is_exchange then inference_limit * 2 + 1024 * 1024 else control_limit)"

definition parse_control_body :: "nat \<Rightarrow> (string \<Rightarrow> json option) \<Rightarrow> (json \<Rightarrow> string list + 'm) \<Rightarrow> ('m \<Rightarrow> bool) \<Rightarrow> api_request
    \<Rightarrow> api_failure + 'm" where
  "parse_control_body limit parse decode valid q =
     and_then (validate_json_body q limit) (\<lambda>_.
     and_then (collect_body limit [] (ap_chunks q)) (parse_model_json parse decode valid))"

section \<open>Control answers\<close>

record registration_response =
  rs_worker_id :: id
  rs_worker_session_id :: id
  rs_created :: bool
  rs_server_time :: time

record inference_lease =
  il_assignment_id :: id
  il_lease_id :: id
  il_attempt :: nat
  il_worker_id :: id
  il_worker_session_id :: id
  il_issued_at :: time
  il_expires_at :: time
  il_policy :: policy_manifest

record lease_renew_request =
  rn_assignment_id :: id
  rn_lease_id :: id
  rn_worker_id :: id
  rn_worker_session_id :: id
  rn_sent_at :: time

record lease_renew_response =
  rn_server_time :: time
  rn_renewed :: bool
  rn_renewal :: "lease_renewal option"
  rn_reason :: "cancel_reason option"

datatype exchange_action = Act_request | Act_wait | Act_stop

record exchange_request =
  xq_worker_id :: id
  xq_worker_session_id :: id
  xq_lease_id :: id
  xq_reply :: "inference_reply option"
  xq_wait_seconds :: time

record exchange_response =
  xr_action :: exchange_action
  xr_request :: "inference_request option"

definition WorkerRegistrationResponse :: "registration_response \<Rightarrow> bool" where
  "WorkerRegistrationResponse r \<longleftrightarrow> OpaqueId (rs_worker_id r) \<and> OpaqueId (rs_worker_session_id r) \<and> Timestamp (rs_server_time r)"

text \<open>The policy is an instance that has been validated before.\<close>

definition InferenceLease :: "inference_lease \<Rightarrow> bool" where
  "InferenceLease l \<longleftrightarrow>
     OpaqueId (il_assignment_id l) \<and> OpaqueId (il_lease_id l) \<and> 1 \<le> il_attempt l \<and> OpaqueId (il_worker_id l) \<and>
     OpaqueId (il_worker_session_id l) \<and> Timestamp (il_issued_at l) \<and> Timestamp (il_expires_at l)"

definition LeaseRenewRequest :: "lease_renew_request \<Rightarrow> bool" where
  "LeaseRenewRequest r \<longleftrightarrow>
     OpaqueId (rn_assignment_id r) \<and> OpaqueId (rn_lease_id r) \<and> OpaqueId (rn_worker_id r) \<and>
     OpaqueId (rn_worker_session_id r) \<and> Timestamp (rn_sent_at r)"

definition LeaseRenewal :: "lease_renewal \<Rightarrow> bool" where
  "LeaseRenewal r \<longleftrightarrow> OpaqueId (lr_assignment_id r) \<and> OpaqueId (lr_lease_id r) \<and> Timestamp (lr_expires_at r)"

definition WorkerHeartbeatResponse :: "heartbeat_response \<Rightarrow> bool" where
  "WorkerHeartbeatResponse r \<longleftrightarrow>
     Timestamp (hr_server_time r) \<and> list_all LeaseRenewal (hr_renewals r) \<and> list_all OpaqueId (hr_stop_lease_ids r) \<and>
     validate_response_ids r"

definition LeaseRenewResponse :: "lease_renew_response \<Rightarrow> bool" where
  "LeaseRenewResponse r \<longleftrightarrow>
     Timestamp (rn_server_time r) \<and> (case rn_renewal r of None \<Rightarrow> True | Some x \<Rightarrow> LeaseRenewal x) \<and>
     (if rn_renewed r then rn_renewal r \<noteq> None \<and> rn_reason r = None else rn_renewal r = None \<and> rn_reason r \<noteq> None)"

definition InferenceExchangeRequest :: "exchange_request \<Rightarrow> bool" where
  "InferenceExchangeRequest q \<longleftrightarrow>
     OpaqueId (xq_worker_id q) \<and> OpaqueId (xq_worker_session_id q) \<and> OpaqueId (xq_lease_id q) \<and>
     (case xq_reply q of None \<Rightarrow> True | Some r \<Rightarrow> InferenceReply r) \<and> 0 \<le> xq_wait_seconds q \<and> xq_wait_seconds q \<le> 60"

definition InferenceExchangeResponse :: "exchange_response \<Rightarrow> bool" where
  "InferenceExchangeResponse r \<longleftrightarrow>
     (case xr_request r of None \<Rightarrow> True | Some q \<Rightarrow> InferenceRequest q) \<and>
     (xr_action r = Act_request \<longleftrightarrow> xr_request r \<noteq> None)"

datatype control_answer =
    Registered registration_response
  | Heard heartbeat_response
  | Leased_Out inference_lease
  | No_Content
  | Renewal lease_renew_response
  | Exchanged exchange_response

definition answer_valid :: "control_answer \<Rightarrow> bool" where
  "answer_valid ans =
     (case ans of Registered r \<Rightarrow> WorkerRegistrationResponse r | Heard r \<Rightarrow> WorkerHeartbeatResponse r
      | Leased_Out l \<Rightarrow> InferenceLease l | No_Content \<Rightarrow> True | Renewal r \<Rightarrow> LeaseRenewResponse r
      | Exchanged r \<Rightarrow> InferenceExchangeResponse r)"

text \<open>Building an answer runs its validators; a violation is an unexpected exception.\<close>

definition respond :: "control_answer \<Rightarrow> api_failure + control_answer" where
  "respond ans = (if answer_valid ans then Inr ans else Inl (API_Error 500 ''internal_error''))"

text \<open>The calls that a handler makes into the environment runtime.\<close>

datatype episode_call = Start_Episode assignment_lease | Renew_Episode id time | Stop_Episode id

type_synonym control_result = "(api_failure + control_answer) \<times> db \<times> episode_call list"

section \<open>Control handlers\<close>

definition handle_register :: "worker_registration \<Rightarrow> time \<Rightarrow> time \<Rightarrow> db \<Rightarrow> control_result" where
  "handle_register reg now server_time d =
     (case register_worker reg now d of
        (Inl e, d1) \<Rightarrow> (Inl (error_response e), d1, [])
      | (Inr r, d1) \<Rightarrow>
          (respond (Registered \<lparr>rs_worker_id = rg_worker_id r, rs_worker_session_id = rg_worker_session_id r,
             rs_created = rg_created r, rs_server_time = server_time\<rparr>), d1, []))"

definition handle_heartbeat :: "worker_heartbeat \<Rightarrow> time \<Rightarrow> time \<Rightarrow> time \<Rightarrow> db \<Rightarrow> control_result" where
  "handle_heartbeat hb duration now server_time d =
     (case record_heartbeat hb duration now d of
        (Inl e, d1) \<Rightarrow> (Inl (error_response e), d1, [])
      | (Inr (renewals, stop_ids), d1) \<Rightarrow>
          (respond (Heard \<lparr>hr_server_time = server_time, hr_renewals = renewals, hr_stop_lease_ids = stop_ids\<rparr>), d1,
           map (\<lambda>r. Renew_Episode (lr_lease_id r) (lr_expires_at r)) renewals @ map Stop_Episode stop_ids))"

definition handle_renew :: "id \<Rightarrow> lease_renew_request \<Rightarrow> time \<Rightarrow> time \<Rightarrow> time \<Rightarrow> db \<Rightarrow> control_result" where
  "handle_renew assignment_id req duration now server_time d =
     (if rn_assignment_id req \<noteq> assignment_id then (Inl (API_Error 409 ''identity_mismatch''), d, [])
      else case renew_lease (rn_lease_id req) (rn_worker_id req) (rn_worker_session_id req) duration (Some assignment_id)
             (Some (rn_sent_at req)) True now d of
        (Inl e, d1) \<Rightarrow> (Inl (error_response e), d1, [])
      | (Inr (Inr reason), d1) \<Rightarrow>
          (respond (Renewal \<lparr>rn_server_time = server_time, rn_renewed = False, rn_renewal = None, rn_reason = Some reason\<rparr>), d1,
           [Stop_Episode (rn_lease_id req)])
      | (Inr (Inl lease), d1) \<Rightarrow>
          (respond (Renewal \<lparr>rn_server_time = server_time, rn_renewed = True,
             rn_renewal = Some \<lparr>lr_assignment_id = assignment_id, lr_lease_id = al_lease_id lease, lr_expires_at = al_expires_at lease\<rparr>,
             rn_reason = None\<rparr>), d1, [Renew_Episode (al_lease_id lease) (al_expires_at lease)]))"

definition redact :: "assignment_lease \<Rightarrow> inference_lease" where
  "redact l =
     \<lparr>il_assignment_id = ra_assignment_id (al_assignment l), il_lease_id = al_lease_id l, il_attempt = al_attempt l,
      il_worker_id = al_worker_id l, il_worker_session_id = al_worker_session_id l, il_issued_at = al_issued_at l,
      il_expires_at = al_expires_at l, il_policy = ra_policy (al_assignment l)\<rparr>"

definition lease_response :: "assignment_lease option \<Rightarrow> api_failure + control_answer" where
  "lease_response lease =
     (case lease of None \<Rightarrow> Inl (error_response InvalidStateError) | Some l \<Rightarrow> respond (Leased_Out (redact l)))"

definition start_episode :: "assignment_lease option \<Rightarrow> episode_call list" where
  "start_episode lease = (case lease of None \<Rightarrow> [] | Some l \<Rightarrow> [Start_Episode l])"

definition complete_no_work :: "id \<Rightarrow> time \<Rightarrow> db \<Rightarrow> control_result" where
  "complete_no_work request_id now d =
     (case mark_lease_request_no_work request_id now d of
        (Inl e, d1) \<Rightarrow> (Inl (error_response e), d1, [])
      | (Inr dp, d1) \<Rightarrow> (if dp_state dp = Rq_leased then lease_response (dp_lease dp) else Inr No_Content, d1, []))"

text \<open>
  One round of the polling loop of \<open>lease\<close> against the durable scheduler: the gate before the call, the
  time left, the scheduler's operation (which runs to its end even if the handler stops waiting for it),
  and the gate after it.
\<close>

record lease_round =
  ro_gate_before :: bool
  ro_remaining :: time
  ro_operation :: "lease_request \<Rightarrow> db \<Rightarrow> (error + assignment_lease option) \<times> db"
  ro_in_time :: bool
  ro_gate_after :: bool
  ro_remaining_after :: time
  ro_now :: time

definition trainer_unavailable :: api_failure where
  "trainer_unavailable = API_Error 503 ''trainer_unavailable''"

definition offer :: "lease_request \<Rightarrow> assignment_lease \<Rightarrow> bool \<Rightarrow> time \<Rightarrow> db \<Rightarrow> control_result" where
  "offer req offered gate now d =
     (if \<not> gate then
        (case release_unoffered_lease (al_lease_id offered) now d of
           (Inl e, d1) \<Rightarrow> (Inl (error_response e), d1, [])
         | (Inr _, d1) \<Rightarrow> (Inl trainer_unavailable, d1, []))
      else case associate_offered_lease req offered now now d of
        (Inl e, d1) \<Rightarrow> (Inl (error_response e), d1, [])
      | (Inr dp, d1) \<Rightarrow> (lease_response (dp_lease dp), d1, start_episode (dp_lease dp)))"

fun poll_lease :: "lease_request \<Rightarrow> bool \<Rightarrow> lease_round list \<Rightarrow> db \<Rightarrow> control_result option" where
  "poll_lease req initial [] d = None"
| "poll_lease req initial (r # rs) d =
     (if \<not> ro_gate_before r then Some (Inl trainer_unavailable, d, [])
      else if \<not> initial \<and> ro_remaining r \<le> 0 then Some (complete_no_work (lq_request_id req) (ro_now r) d)
      else case ro_operation r req d of
        (result, d1) \<Rightarrow>
          if \<not> ro_in_time r then Some (Inl (API_Error 503 ''lease_pending''), d1, [])
          else (case result of
              Inl e \<Rightarrow> Some (Inl (error_response e), d1, [])
            | Inr (Some offered) \<Rightarrow> Some (offer req offered (ro_gate_after r) (ro_now r) d1)
            | Inr None \<Rightarrow>
                if ro_remaining_after r \<le> 0 then Some (complete_no_work (lq_request_id req) (ro_now r) d1)
                else poll_lease req False rs d1))"

text \<open>\<open>None\<close>: still polling after the given rounds.\<close>

definition handle_lease :: "repository \<Rightarrow> bool \<Rightarrow> lease_request \<Rightarrow> time \<Rightarrow> lease_round list \<Rightarrow> db \<Rightarrow> control_result option" where
  "handle_lease R gate req now rounds d =
     (if \<not> gate then Some (Inl trainer_unavailable, d, [])
      else case validate_lease_request R req now d of
        (Inl e, d1) \<Rightarrow> Some (Inl (error_response e), d1, [])
      | (Inr dp, d1) \<Rightarrow>
          (case dp_state dp of
             Rq_leased \<Rightarrow> Some (lease_response (dp_lease dp), d1, start_episode (dp_lease dp))
           | Rq_no_work \<Rightarrow> Some (Inr No_Content, d1, [])
           | Rq_pending \<Rightarrow> poll_lease req True rounds d1))"

text \<open>
  The answer to an exchange, from what the broker returned. A broker that waits answers when a request
  arrives or the time is up; \<open>Await\<close> stands for the latter.
\<close>

definition exchange_answer :: "error + poll_answer \<Rightarrow> api_failure + control_answer" where
  "exchange_answer r =
     (case r of
        Inl PermissionError \<Rightarrow> Inl (API_Error 409 ''identity_mismatch'')
      | Inl ValueError \<Rightarrow> Inl (API_Error 422 ''malformed_inference_reply'')
      | Inl e \<Rightarrow> Inl (error_response e)
      | Inr Stop \<Rightarrow> respond (Exchanged \<lparr>xr_action = Act_stop, xr_request = None\<rparr>)
      | Inr (Await _) \<Rightarrow> respond (Exchanged \<lparr>xr_action = Act_wait, xr_request = None\<rparr>)
      | Inr (Deliver q) \<Rightarrow> respond (Exchanged \<lparr>xr_action = Act_request, xr_request = Some q\<rparr>))"

definition handle_exchange :: "bool \<Rightarrow> exchange_request \<Rightarrow> broker \<Rightarrow> (api_failure + control_answer) \<times> broker" where
  "handle_exchange has_broker q b =
     (if \<not> has_broker then (Inl (API_Error 503 ''inference_unavailable''), b)
      else case poll (xq_lease_id q) (xq_worker_id q) (xq_worker_session_id q) (xq_reply q) b of
        Inl e \<Rightarrow> (exchange_answer (Inl e), b)
      | Inr (answer, b1) \<Rightarrow> (exchange_answer (Inr answer), b1))"

end
