(* ===== verification/Policy_Server.thy ===== *)
theory Policy_Server
  imports Coordinator_API
begin

text \<open>
  How the coordinator serves policies (\<open>coordinator/api.py\<close>, \<open>open_policy_file\<close>): manifests with entity
  tags, byte ranges of adapter files, external locations, and the checks behind readiness and the lease
  gate. Published directories are found under the artifact path of their policy row. A body is the
  list of chunks that are sent; the JSON of a message is a parameter.
\<close>

section \<open>Opening a policy file\<close>

type_synonym artifact_store = "(string \<times> directory) list"

definition open_policy_file :: "repository \<Rightarrow> artifact_store \<Rightarrow> id \<Rightarrow> string \<Rightarrow> db \<Rightarrow> error + string \<times> adapter_file" where
  "open_policy_file R dirs p name d =
     and_then (listed_policy_file R p name d) (\<lambda>f.
     case Option.bind (policy_at d p) p_artifact_path of
       None \<Rightarrow> Inl TypeError
     | Some path \<Rightarrow>
         (case Option.bind (map_of dirs path) (\<lambda>dir. map_of dir name) of
            None \<Rightarrow> Inl ArtifactCorruptionError
          | Some data \<Rightarrow> if length data \<noteq> af_size_bytes f then Inl ArtifactCorruptionError else Inr (data, f)))"

definition verify_open_file :: "repository \<Rightarrow> string \<Rightarrow> digest \<Rightarrow> error + unit" where
  "verify_open_file R data dig = guard (sha256 R data = dig) ArtifactCorruptionError"

definition open_verified :: "repository \<Rightarrow> artifact_store \<Rightarrow> id \<Rightarrow> string \<Rightarrow> db \<Rightarrow> error + string \<times> adapter_file" where
  "open_verified R dirs p name d =
     and_then (open_policy_file R dirs p name d) (\<lambda>(data, f).
     and_then (verify_open_file R data (af_digest f)) (\<lambda>_. Inr (data, f)))"

text \<open>The background check of the active policy; its result gates leases and readiness.\<close>

definition verify_active_policy :: "repository \<Rightarrow> artifact_store \<Rightarrow> db \<Rightarrow> bool" where
  "verify_active_policy R dirs d =
     (case active_policy R d of
        Inl _ \<Rightarrow> False
      | Inr m \<Rightarrow>
          (case pm_adapter m of
             None \<Rightarrow> True
           | Some a \<Rightarrow> list_all (\<lambda>f. \<not> isl (open_verified R dirs (pm_policy_id m) (af_name f) d)) (ac_files a)))"

definition lease_gate_open :: "bool \<Rightarrow> bool \<Rightarrow> bool \<Rightarrow> bool" where
  "lease_gate_open gate_leases trainer_ready integrity_ok \<longleftrightarrow> \<not> gate_leases \<or> trainer_ready \<and> integrity_ok"

text \<open>\<open>ready\<close>: the status code; \<open>None\<close> is a trainer callback that raises.\<close>

definition ready_status :: "repository \<Rightarrow> bool option \<Rightarrow> bool \<Rightarrow> db \<Rightarrow> nat" where
  "ready_status R trainer_ready integrity_ok d =
     (if \<not> isl (verify_ready R d) \<and> trainer_ready = Some True \<and> integrity_ok then 200 else 503)"

definition handle_status :: "repository \<Rightarrow> time \<Rightarrow> time \<Rightarrow> time \<Rightarrow> db \<Rightarrow> (error + status_snapshot) \<times> db" where
  "handle_status R stale_after now now' d =
     (case expire_leases R now d of
        (Inl e, d1) \<Rightarrow> (Inl e, d1)
      | (Inr _, d1) \<Rightarrow> (status_snapshot_of stale_after now' d1, d1))"

section \<open>Entity tags and ranges\<close>

fun split_on :: "char \<Rightarrow> string \<Rightarrow> string list" where
  "split_on sep [] = [[]]"
| "split_on sep (c # cs) =
     (if c = sep then [] # split_on sep cs
      else case split_on sep cs of [] \<Rightarrow> [[c]] | part # parts \<Rightarrow> (c # part) # parts)"

definition remove_prefix :: "string \<Rightarrow> string \<Rightarrow> string" where
  "remove_prefix p s = (if starts_with s p then drop (length p) s else s)"

definition quoted_etag :: "digest \<Rightarrow> string" where
  "quoted_etag dig = ''\"'' @ digest_text dig @ ''\"''"

definition etag_matches :: "string option \<Rightarrow> string \<Rightarrow> bool" where
  "etag_matches h current =
     (case h of
        None \<Rightarrow> False
      | Some text \<Rightarrow>
          list_ex (\<lambda>candidate. strip candidate = ''*'' \<or> remove_prefix ''W/'' (strip candidate) = remove_prefix ''W/'' current)
            (split_on CHR '','' text))"

definition invalid_range :: api_failure where
  "invalid_range = API_Error 416 ''invalid_range''"

definition range_bounds :: "string \<Rightarrow> string \<Rightarrow> int \<Rightarrow> (int \<times> int) option" where
  "range_bounds start_text end_text size_bytes =
     (if start_text \<noteq> []
      then (case (python_int start_text, if end_text = [] then Some (size_bytes - 1) else python_int end_text) of
              (Some a, Some b) \<Rightarrow> Some (a, b) | _ \<Rightarrow> None)
      else (case python_int end_text of
              None \<Rightarrow> None
            | Some suffix \<Rightarrow> if suffix \<le> 0 then None else Some (max 0 (size_bytes - suffix), size_bytes - 1)))"

definition parse_range :: "string option \<Rightarrow> int \<Rightarrow> api_failure + int \<times> int" where
  "parse_range h size_bytes =
     (case h of
        None \<Rightarrow> Inr (0, size_bytes - 1)
      | Some text \<Rightarrow>
          if \<not> starts_with text ''bytes='' \<or> CHR '','' \<in> set text then Inl invalid_range
          else (case lpartition ''-'' (remove_prefix ''bytes='' text) of
              None \<Rightarrow> Inl invalid_range
            | Some (start_text, end_text) \<Rightarrow>
                (case range_bounds start_text end_text size_bytes of
                   None \<Rightarrow> Inl invalid_range
                 | Some (a, b) \<Rightarrow>
                     if a < 0 \<or> b < a \<or> size_bytes \<le> a then Inl invalid_range else Inr (a, min b (size_bytes - 1)))))"

text \<open>The file is read in blocks until the range or the file ends.\<close>

function file_chunks :: "nat \<Rightarrow> string \<Rightarrow> nat \<Rightarrow> string list" where
  "file_chunks block file remaining =
     (let chunk = take (min block remaining) file in
      if 0 < remaining \<and> chunk \<noteq> [] then chunk # file_chunks block (drop (length chunk) file) (remaining - length chunk) else [])"
  by pat_completeness auto
termination
  by (relation "measure (\<lambda>(block, file, remaining). length file)") (auto simp: Let_def)

declare file_chunks.simps [simp del]

definition chunk_size :: nat where
  "chunk_size = 1024 * 1024"

section \<open>Handlers\<close>

record policy_service =
  ps_manifest_json :: "policy_manifest \<Rightarrow> string"
  ps_locations :: "(policy_manifest \<Rightarrow> error + policy_locations) option"
  ps_locations_json :: "policy_locations \<Rightarrow> string"

definition json_response :: "string \<Rightarrow> http_response" where
  "json_response body =
     \<lparr>hr_status = 200, hr_headers = [(''content-type'', ''application/json''), (''cache-control'', ''no-store'')],
      hr_chunks = [body], hr_broken = False\<rparr>"

definition immutable_headers :: "digest \<Rightarrow> (string \<times> string) list" where
  "immutable_headers dig =
     [(''etag'', quoted_etag dig), (''cache-control'', ''private, max-age=31536000, immutable'')]"

definition not_modified :: "(string \<times> string) list \<Rightarrow> http_response" where
  "not_modified headers = \<lparr>hr_status = 304, hr_headers = headers, hr_chunks = [], hr_broken = False\<rparr>"

definition api_result :: "error + 'a \<Rightarrow> api_failure + 'a" where
  "api_result r = (case r of Inl e \<Rightarrow> Inl (error_response e) | Inr x \<Rightarrow> Inr x)"

definition current_policy :: "repository \<Rightarrow> policy_service \<Rightarrow> db \<Rightarrow> api_failure + http_response" where
  "current_policy R S d = and_then (api_result (active_policy R d)) (\<lambda>m. Inr (json_response (ps_manifest_json S m)))"

definition serve_policy_manifest :: "repository \<Rightarrow> artifact_codec \<Rightarrow> id \<Rightarrow> api_request \<Rightarrow> db \<Rightarrow> api_failure + http_response" where
  "serve_policy_manifest R K p q d =
     and_then (api_result (get_policy R p d)) (\<lambda>m.
     let content = manifest_bytes K m; headers = immutable_headers (sha256 R content) in
     if etag_matches (request_header q ''if-none-match'') (quoted_etag (sha256 R content)) then Inr (not_modified headers)
     else Inr \<lparr>hr_status = 200, hr_headers = (''content-type'', ''application/json'') # headers, hr_chunks = [content], hr_broken = False\<rparr>)"

definition policy_artifact_locations :: "repository \<Rightarrow> policy_service \<Rightarrow> id \<Rightarrow> db \<Rightarrow> api_failure + http_response" where
  "policy_artifact_locations R S p d =
     (case ps_locations S of
        None \<Rightarrow> Inl (API_Error 404 ''policy_locations_unavailable'')
      | Some locate \<Rightarrow>
          and_then (api_result (get_policy R p d)) (\<lambda>m.
          and_then (api_result (locate m)) (\<lambda>l. Inr (json_response (ps_locations_json S l)))))"

definition file_media_type :: "string \<Rightarrow> string" where
  "file_media_type name = (if name = ''adapter_config.json'' then ''application/json'' else ''application/octet-stream'')"

definition serve_policy_file :: "repository \<Rightarrow> artifact_store \<Rightarrow> id \<Rightarrow> string \<Rightarrow> api_request \<Rightarrow> db \<Rightarrow> api_failure + http_response" where
  "serve_policy_file R dirs p name q d =
     and_then (api_result (open_verified R dirs p name d)) (\<lambda>(data, f).
     and_then (parse_range (request_header q ''range'') (int (af_size_bytes f))) (\<lambda>(a, b).
     let headers = immutable_headers (af_digest f) @ [(''accept-ranges'', ''bytes''), (''content-length'', decimal (nat (b - a + 1)))];
         ranged = (request_header q ''range'' \<noteq> None)
     in if etag_matches (request_header q ''if-none-match'') (quoted_etag (af_digest f)) then Inr (not_modified headers)
        else Inr \<lparr>hr_status = (if ranged then 206 else 200),
                  hr_headers = (''content-type'', file_media_type name) # headers @
                    (if ranged then [(''content-range'', ''bytes '' @ decimal (nat a) @ ''-'' @ decimal (nat b) @ ''/'' @ decimal (af_size_bytes f))] else []),
                  hr_chunks = file_chunks chunk_size (drop (nat a) data) (nat (b - a + 1)), hr_broken = False\<rparr>))"

text \<open>The routes under \<open>/api/v2/policies\<close>, in their order.\<close>

definition route_policies :: "repository \<Rightarrow> artifact_codec \<Rightarrow> policy_service \<Rightarrow> artifact_store \<Rightarrow> db \<Rightarrow> api_request \<Rightarrow> api_failure + http_response" where
  "route_policies R K S dirs d q =
     (case split_on CHR ''/'' (remove_prefix ''/api/v2/policies/'' (ap_path q)) of
        [p] \<Rightarrow> if p = ''current'' then current_policy R S d else Inl (error_response NotFoundError)
      | [p, what] \<Rightarrow>
          if p = [] then Inl (error_response NotFoundError)
          else if what = ''manifest'' then serve_policy_manifest R K p q d
          else if what = ''locations'' then policy_artifact_locations R S p d
          else Inl (error_response NotFoundError)
      | [p, what, name] \<Rightarrow>
          if p = [] \<or> what \<noteq> ''files'' \<or> name = [] then Inl (error_response NotFoundError)
          else serve_policy_file R dirs p name q d
      | _ \<Rightarrow> Inl (error_response NotFoundError))"

definition answer_policy_request :: "repository \<Rightarrow> artifact_codec \<Rightarrow> policy_service \<Rightarrow> artifact_store \<Rightarrow> string \<Rightarrow> db \<Rightarrow> api_request
    \<Rightarrow> api_failure + http_response" where
  "answer_policy_request R K S dirs token d q =
     and_then (authenticate token q) (\<lambda>_.
     if starts_with (ap_path q) ''/api/v2/policies/'' then route_policies R K S dirs d q else Inl (error_response NotFoundError))"

section \<open>Ranges stay within the file\<close>

text \<open>What the read loop yields is the requested part of the file, in nonempty blocks.\<close>

lemma concat_file_chunks: "0 < b \<Longrightarrow> concat (file_chunks b data n) = take n data"
proof (induction b data n rule: file_chunks.induct)
  case (1 b data n)
  let ?chunk = "take (min b n) data"
  show ?case
  proof (cases "0 < n \<and> ?chunk \<noteq> []")
    case True
    have "concat (file_chunks b (drop (length ?chunk) data) (n - length ?chunk)) = take (n - length ?chunk) (drop (length ?chunk) data)"
      using True 1 by simp
    moreover have "take n data = ?chunk @ take (n - length ?chunk) (drop (length ?chunk) data)"
    proof -
      have "?chunk = take (length ?chunk) data" by (simp add: min_def)
      moreover have "length ?chunk \<le> n" by simp
      ultimately show ?thesis by (metis le_add_diff_inverse take_add)
    qed
    ultimately show ?thesis using True by (subst file_chunks.simps) (simp add: Let_def)
  next
    case False
    with 1(2) show ?thesis by (subst file_chunks.simps) (auto simp: Let_def)
  qed
qed

lemma chunk_size_pos [simp]: "0 < chunk_size"
  by (simp add: chunk_size_def)

lemma parse_range_bounds:
  "parse_range h n = Inr (a, b) \<Longrightarrow> h \<noteq> None \<or> 0 < n \<Longrightarrow> 0 \<le> a \<and> a \<le> b \<and> b < n"
  by (auto simp: parse_range_def split: option.splits if_splits)

end
