(* ===== verification/Policy_Download.thy ===== *)
theory Policy_Download
  imports Policy_Server Adapter_Cache
begin

text \<open>
  Coordinator and worker together: the network of \<open>Policy_Transport\<close> is the coordinator of
  \<open>Policy_Server\<close>, asked with the headers of the worker's client (\<open>worker/client.py\<close>). Bodies reach the
  worker in chunks of any size, and the state of the coordinator may change from request to request.
\<close>

section \<open>The worker's requests and the coordinator's answers\<close>

definition client_headers :: "string \<Rightarrow> (string \<times> string) list" where
  "client_headers token =
     [(''authorization'', ''Bearer '' @ token), (''aether-protocol-version'', decimal PROTOCOL_VERSION)]"

definition client_request :: "string \<Rightarrow> string \<Rightarrow> nat \<Rightarrow> api_request" where
  "client_request token path offset =
     \<lparr>ap_path = path,
      ap_headers = client_headers token @ [(''accept-encoding'', ''identity'')] @
        (if 0 < offset then [(''range'', ''bytes='' @ decimal offset @ ''-'')] else []),
      ap_chunks = []\<rparr>"

record connection =
  cn_token :: string
  cn_state :: "nat \<Rightarrow> request \<Rightarrow> db"
  cn_wire :: "nat \<Rightarrow> request \<Rightarrow> string \<Rightarrow> string list"
  cn_failure :: "api_failure \<Rightarrow> string"

definition failure_answer :: "connection \<Rightarrow> api_failure \<Rightarrow> http_response" where
  "failure_answer C f =
     \<lparr>hr_status = failure_status f, hr_headers = [(''content-type'', ''application/json'')], hr_chunks = [cn_failure C f], hr_broken = False\<rparr>"

definition coordinator_network :: "repository \<Rightarrow> artifact_codec \<Rightarrow> policy_service \<Rightarrow> artifact_store \<Rightarrow> connection \<Rightarrow> network" where
  "coordinator_network R K S dirs C k q =
     (case q of
        Artifact_Get _ _ \<Rightarrow> No_Answer
      | Coordinator_Get path offset \<Rightarrow>
          Answer (case answer_policy_request R K S dirs (cn_token C) (cn_state C k q) (client_request (cn_token C) path offset) of
              Inl f \<Rightarrow> failure_answer C f
            | Inr r \<Rightarrow> r\<lparr>hr_chunks := cn_wire C k q (concat (hr_chunks r))\<rparr>))"

section \<open>Texts\<close>

lemma filter_upt_first:
  assumes "k < n" "P k" "\<And>i. i < k \<Longrightarrow> \<not> P i"
  shows "filter P [0..<n] = k # filter P [Suc k..<n]"
proof -
  have "[0..<n] = [0..<k] @ k # [Suc k..<n]" using assms(1) by (metis upt_add_eq_append upt_conv_Cons le0 less_imp_le_nat add_diff_inverse_nat not_less)
  moreover have "filter P [0..<k] = []" using assms(3) by (auto simp: filter_empty_conv)
  ultimately show ?thesis using assms(2) by simp
qed

lemma starts_with_Cons [simp]: "starts_with (c # s) [d] \<longleftrightarrow> c = d" "\<not> starts_with [] [d]"
  by (auto simp: starts_with_def)

lemma starts_with_append [simp]: "starts_with (p @ s) p"
  by (simp add: starts_with_def)

lemma lpartition_char: "c \<notin> set xs \<Longrightarrow> lpartition [c] (xs @ c # ys) = Some (xs, ys)"
proof -
  assume c: "c \<notin> set xs"
  have "filter (\<lambda>i. starts_with (drop i (xs @ c # ys)) [c]) [0..<Suc (length (xs @ c # ys))] =
     length xs # filter (\<lambda>i. starts_with (drop i (xs @ c # ys)) [c]) [Suc (length xs)..<Suc (length (xs @ c # ys))]"
  proof (rule filter_upt_first)
    fix i assume i: "i < length xs"
    then have "drop i (xs @ c # ys) = xs ! i # drop (Suc i) (xs @ c # ys)"
      by (subst Cons_nth_drop_Suc [symmetric]) (simp_all add: nth_append)
    moreover have "xs ! i \<noteq> c" using c i by (metis nth_mem)
    ultimately show "\<not> starts_with (drop i (xs @ c # ys)) [c]" by simp
  qed simp_all
  then show ?thesis by (simp add: lpartition_def split_at_def)
qed

lemma split_on_absent: "c \<notin> set xs \<Longrightarrow> split_on c xs = [xs]"
  by (induction xs) auto

lemma split_on_append: "c \<notin> set xs \<Longrightarrow> split_on c (xs @ c # ys) = xs # split_on c ys"
  by (induction xs) auto

lemma remove_prefix_append [simp]: "remove_prefix p (p @ s) = s"
  by (simp add: remove_prefix_def)

lemma digit_not_space: "is_digit c \<Longrightarrow> \<not> is_space c"
  by (auto simp: is_digit_def is_space_def less_eq_char_def)

lemma decimal_nonempty [simp]: "decimal n \<noteq> []"
  by (subst decimal.simps) simp

lemma strip_decimal: "strip (decimal n) = decimal n"
proof -
  have keep: "dropWhile is_space xs = xs" if "list_all is_digit xs" for xs
    using that digit_not_space by (cases xs) auto
  show ?thesis unfolding strip_def using decimal_digits [of n]
    by (simp add: keep list.pred_set)
qed

lemma int_digits_digits: "xs \<noteq> [] \<Longrightarrow> list_all is_digit xs \<Longrightarrow> int_digits xs = Some xs"
proof (induction xs rule: int_digits.induct)
  case (3 c d cs)
  then have "d \<noteq> CHR ''_''" by (auto simp: is_digit_def less_eq_char_def)
  with 3 show ?case by simp
qed auto

lemma python_int_decimal: "python_int (decimal n) = Some (int n)"
proof (cases "decimal n")
  case (Cons c cs)
  then have "is_digit c" using decimal_digits [of n] by simp
  then have "c \<noteq> CHR ''-''" "c \<noteq> CHR ''+''" by (auto simp: is_digit_def less_eq_char_def)
  with Cons int_digits_digits [of "decimal n"] decimal_digits [of n] parse_decimal_decimal [of n] strip_decimal [of n] show ?thesis
    by (simp add: python_int_def)
qed simp

section \<open>What the coordinator answers\<close>

lemma client_authenticated:
  assumes "list_all is_ascii token" "starts_with path ''/api/v2/''"
  shows "authenticate token (client_request token path offset) = Inr ()"
proof -
  have "lpartition '' '' (''Bearer'' @ CHR '' '' # token) = Some (''Bearer'', token)" by (rule lpartition_char) simp
  moreover have "map lower_ascii ''Bearer'' = ''bearer''" by code_simp
  ultimately show ?thesis using assms
    by (simp add: authenticate_def client_request_def client_headers_def request_header_def header_default_def Let_def)
qed

lemma policy_path_prefix: "starts_with (policy_path p suffix) ''/api/v2/policies/''" "starts_with (policy_path p suffix) ''/api/v2/''"
  by (simp_all add: policy_path_def starts_with_def)

lemma policy_path_parts:
  "remove_prefix ''/api/v2/policies/'' (policy_path p suffix) = p @ suffix"
  using remove_prefix_append [of "''/api/v2/policies/''" "p @ suffix"] by (simp add: policy_path_def)

lemma route_manifest:
  assumes "CHR ''/'' \<notin> set p" "p \<noteq> []" "ap_path q = policy_path p ''/manifest''"
  shows "route_policies R K S dirs d q = serve_policy_manifest R K p q d"
  using assms split_on_append [of "CHR ''/''" p "''manifest''"]
  by (simp add: route_policies_def policy_path_parts)

lemma route_file:
  assumes "CHR ''/'' \<notin> set p" "p \<noteq> []" "CHR ''/'' \<notin> set name" "name \<noteq> []" "ap_path q = policy_path p (''/files/'' @ name)"
  shows "route_policies R K S dirs d q = serve_policy_file R dirs p name q d"
  using assms split_on_append [of "CHR ''/''" p "''files/'' @ name"] split_on_absent [of "CHR ''/''" name]
  by (simp add: route_policies_def policy_path_parts)

lemma client_range:
  assumes "offset < n"
  shows "parse_range (request_header (client_request token path offset) ''range'') (int n) = Inr (int offset, int n - 1)"
proof (cases "offset = 0")
  case True
  then show ?thesis by (simp add: client_request_def client_headers_def request_header_def parse_range_def)
next
  case False
  have digits: "CHR ''-'' \<notin> set (decimal offset)" "CHR '','' \<notin> set (decimal offset)"
    using decimal_digits [of offset] by (auto simp: list.pred_set is_digit_def less_eq_char_def)
  have "lpartition ''-'' (decimal offset @ CHR ''-'' # []) = Some (decimal offset, [])" by (rule lpartition_char) (rule digits)
  with False digits assms show ?thesis
    using remove_prefix_append [of "''bytes=''" "decimal offset @ ''-''"] starts_with_append [of "''bytes=''" "decimal offset @ ''-''"]
    by (simp add: client_request_def client_headers_def request_header_def parse_range_def range_bounds_def python_int_decimal)
qed

lemma no_if_none_match [simp]: "request_header (client_request token path offset) ''if-none-match'' = None"
  by (simp add: client_request_def client_headers_def request_header_def)


text \<open>The policy is recorded, passes the checks of the repository, and its row points to the directory.\<close>

definition offers :: "repository \<Rightarrow> artifact_store \<Rightarrow> policy_manifest \<Rightarrow> directory \<Rightarrow> db \<Rightarrow> bool" where
  "offers R dirs m dir d \<longleftrightarrow>
     get_policy R (pm_policy_id m) d = Inr m \<and>
     Option.bind (Option.bind (policy_at d (pm_policy_id m)) p_artifact_path) (map_of dirs) = Some dir"

lemma offersD:
  assumes "offers R dirs m dir d"
  obtains path where "get_policy R (pm_policy_id m) d = Inr m"
    "Option.bind (policy_at d (pm_policy_id m)) p_artifact_path = Some path" "map_of dirs path = Some dir"
  using assms by (auto simp: offers_def bind_eq_Some_conv)

lemma fold_step_checks: "fold_step (\<lambda>x _. check x) xs () = Inr () \<longleftrightarrow> (\<forall>x \<in> set xs. check x = Inr ())"
  by (induction xs) (auto simp: and_then_eq_Inr)

text \<open>The files of a directory that verifies.\<close>

lemma verified_files:
  assumes "verify_lora_policy R K name dir expected = Inr m" "pm_adapter m = Some a" "f \<in> set (ac_files a)"
  obtains data where "map_of dir (af_name f) = Some data" "length data = af_size_bytes f" "sha256 R data = af_digest f"
proof -
  from assms(1,2) have "verify_contents R K dir m a = Inr m" by (auto simp: verify_eq_Inr)
  then have "check_file R dir f = Inr ()"
    using assms(3) by (auto simp: verify_contents_def and_then_eq_Inr fold_step_checks)
  then show ?thesis using that by (auto simp: check_file_def and_then_eq_Inr read_file_def split: option.splits)
qed

lemma valid_files:
  assumes "PolicyManifest HA HP m" "pm_adapter m = Some a"
  shows "map af_name (ac_files a) = adapter_file_names" "f \<in> set (ac_files a) \<Longrightarrow> AdapterFile f"
proof -
  show "map af_name (ac_files a) = adapter_file_names" by (rule valid_adapter_names [OF assms])
  show "f \<in> set (ac_files a) \<Longrightarrow> AdapterFile f" using assms
    by (auto simp: PolicyManifest_def make_policy_manifest_def AdapterManifest_def Let_def list.pred_set split: if_splits)
qed

lemma find_by_name:
  "distinct (map af_name fs) \<Longrightarrow> f \<in> set fs \<Longrightarrow> find (\<lambda>x. af_name x = af_name f) fs = Some f"
  by (induction fs) (auto simp: rev_image_eqI)

lemma adapter_file_names_facts:
  "name \<in> set adapter_file_names \<Longrightarrow> CHR ''/'' \<notin> set name \<and> name \<noteq> [] \<and>
     map lower_ascii (takeWhile (\<lambda>c. c \<noteq> CHR '';'') (file_media_type name)) =
       (if name = ''adapter_config.json'' then ''application/json'' else ''application/octet-stream'')"
proof -
  have "list_all (\<lambda>name. CHR ''/'' \<notin> set name \<and> name \<noteq> [] \<and>
     map lower_ascii (takeWhile (\<lambda>c. c \<noteq> CHR '';'') (file_media_type name)) =
       (if name = ''adapter_config.json'' then ''application/json'' else ''application/octet-stream'')) adapter_file_names"
    by code_simp
  then show "name \<in> set adapter_file_names \<Longrightarrow> ?thesis" by (simp add: list.pred_set)
qed

lemma open_offered:
  assumes "offers R dirs m dir d" "pm_adapter m = Some a" "distinct (map af_name (ac_files a))" "f \<in> set (ac_files a)"
    and "map_of dir (af_name f) = Some data" "length data = af_size_bytes f" "sha256 R data = af_digest f"
  shows "open_verified R dirs (pm_policy_id m) (af_name f) d = Inr (data, f)"
proof -
  obtain path where "get_policy R (pm_policy_id m) d = Inr m"
    "Option.bind (policy_at d (pm_policy_id m)) p_artifact_path = Some path" "map_of dirs path = Some dir"
    by (rule offersD [OF assms(1)])
  with assms(2,5-7) find_by_name [OF assms(3,4)] show ?thesis
    by (simp add: open_verified_def open_policy_file_def listed_policy_file_def and_then_def verify_open_file_def)
qed

lemma serve_offered:
  assumes "open_verified R dirs p name d = Inr (data, f)" "length data = af_size_bytes f" "offset < length data"
  shows "\<exists>chunks. serve_policy_file R dirs p name (client_request token path offset) d =
      Inr \<lparr>hr_status = (if 0 < offset then 206 else 200),
           hr_headers = (''content-type'', file_media_type name) # immutable_headers (af_digest f) @
             [(''accept-ranges'', ''bytes''), (''content-length'', decimal (length data - offset))] @
             (if 0 < offset then [(''content-range'', ''bytes '' @ decimal offset @ ''-'' @ decimal (length data - 1) @ ''/'' @ decimal (length data))] else []),
           hr_chunks = chunks, hr_broken = False\<rparr> \<and>
    concat chunks = drop offset data"
proof -
  have ranged: "request_header (client_request token path offset) ''range'' \<noteq> None \<longleftrightarrow> 0 < offset"
    by (simp add: client_request_def client_headers_def request_header_def)
  have "nat (int (length data) - 1 - int offset + 1) = length data - offset" "nat (int (length data) - 1) = length data - 1"
    using assms(3) by simp_all
  with assms ranged client_range [of offset "af_size_bytes f" token path] show ?thesis
    by (simp add: serve_policy_file_def api_result_def and_then_def Let_def etag_matches_def concat_file_chunks)
qed

section \<open>One attempt of a download\<close>

lemma receive_complete:
  "length (got @ concat chunks) \<le> n \<Longrightarrow> receive n got chunks False = (got @ concat chunks, None)"
  by (induction chunks arbitrary: got) auto

text \<open>
  The connection of a worker that asks for \<open>m\<close>: in every state in which the coordinator answers, it offers
  the policy from a directory that verifies, and the bytes of a body arrive.
\<close>

definition connected :: "repository \<Rightarrow> artifact_codec \<Rightarrow> artifact_store \<Rightarrow> connection \<Rightarrow> policy_manifest \<Rightarrow> directory \<Rightarrow> bool" where
  "connected R K dirs C m dir \<longleftrightarrow>
     (\<forall>k q. offers R dirs m dir (cn_state C k q)) \<and>
     verify_lora_policy R K (pm_policy_id m) dir (Some m) = Inr m \<and>
     (\<forall>k q s. concat (cn_wire C k q s) = s) \<and>
     list_all is_ascii (cn_token C) \<and> CHR ''/'' \<notin> set (pm_policy_id m)"

lemma connectedD:
  assumes "connected R K dirs C m dir"
  shows "offers R dirs m dir (cn_state C k q)" "verify_lora_policy R K (pm_policy_id m) dir (Some m) = Inr m"
    "concat (cn_wire C k q s) = s" "list_all is_ascii (cn_token C)" "CHR ''/'' \<notin> set (pm_policy_id m)"
    "PolicyManifest (hash_adapter R) (hash_identity R) m" "pm_policy_id m \<noteq> []"
proof -
  show v: "verify_lora_policy R K (pm_policy_id m) dir (Some m) = Inr m" using assms by (simp add: connected_def)
  show valid: "PolicyManifest (hash_adapter R) (hash_identity R) m" by (rule verified_manifest [OF v])
  show "pm_policy_id m \<noteq> []" using valid_policy_id [OF valid] by (simp add: expected_policy_id_def)
qed (use assms in \<open>simp_all add: connected_def\<close>)

lemma coordinator_answers:
  assumes "connected R K dirs C m dir"
  shows "coordinator_network R K S dirs C k (Coordinator_Get (policy_path (pm_policy_id m) suffix) offset) =
    Answer (case route_policies R K S dirs (cn_state C k (Coordinator_Get (policy_path (pm_policy_id m) suffix) offset))
                (client_request (cn_token C) (policy_path (pm_policy_id m) suffix) offset) of
        Inl f \<Rightarrow> failure_answer C f
      | Inr r \<Rightarrow> r\<lparr>hr_chunks := cn_wire C k (Coordinator_Get (policy_path (pm_policy_id m) suffix) offset) (concat (hr_chunks r))\<rparr>)"
proof -
  have "ap_path (client_request (cn_token C) path offset) = path" for path by (simp add: client_request_def)
  then show ?thesis
    by (simp add: coordinator_network_def answer_policy_request_def and_then_def policy_path_prefix
        client_authenticated [OF connectedD(4) [OF assms] policy_path_prefix(2)])
qed

text \<open>The manifest arrives and passes the worker's checks when it is small enough and the codec reads it.\<close>

lemma manifest_arrives:
  assumes con: "connected R K dirs C m dir" and small: "int (length (manifest_bytes K m)) \<le> 1024 * 1024"
    and parse: "parse_manifest K (manifest_bytes K m) = Some m"
  shows "validate_remote_manifest R K (coordinator_network R K S dirs C) m = Inr ()"
proof -
  let ?q = "Coordinator_Get (policy_path (pm_policy_id m) ''/manifest'') 0"
  let ?req = "client_request (cn_token C) (policy_path (pm_policy_id m) ''/manifest'') 0"
  have path: "ap_path ?req = policy_path (pm_policy_id m) ''/manifest''" by (simp add: client_request_def)
  have "get_policy R (pm_policy_id m) (cn_state C 0 ?q) = Inr m"
    using connectedD(1) [OF con] by (auto elim: offersD)
  then have serve: "serve_policy_manifest R K (pm_policy_id m) ?req (cn_state C 0 ?q) =
     Inr \<lparr>hr_status = 200, hr_headers = (''content-type'', ''application/json'') # immutable_headers (sha256 R (manifest_bytes K m)),
          hr_chunks = [manifest_bytes K m], hr_broken = False\<rparr>"
    by (simp add: serve_policy_manifest_def api_result_def and_then_def Let_def etag_matches_def)
  have "map lower_ascii ''identity'' = ''identity''"
    "map lower_ascii (takeWhile (\<lambda>c. c \<noteq> CHR '';'') ''application/json'') = ''application/json''" by code_simp+
  moreover have "\<not> int 1024 * 1024 < int (length (manifest_bytes K m))" using small by simp
  ultimately show ?thesis using connectedD(6) [OF con] parse small
    by (simp add: validate_remote_manifest_def get_policy_manifest_def get_ok_def send_request_def coordinator_answers [OF con]
        route_manifest [OF connectedD(5,7) [OF con] path] serve and_then_def response_content_def connectedD(3) [OF con]
        identity_encoding_def content_type_def header_or_def header_def immutable_headers_def quoted_etag_def)
qed

text \<open>One attempt completes any proper prefix of a file.\<close>

lemma fetch_rest_completes:
  assumes con: "connected R K dirs C m dir" and a: "pm_adapter m = Some a" and f: "f \<in> set (ac_files a)"
    and data: "map_of dir (af_name f) = Some data" and start: "take (length start) data = start" "length start < length data"
  shows "fetch_rest R None (coordinator_network R K S dirs C) k m f start = (Some data, None)"
proof -
  note valid = valid_files [OF connectedD(6) [OF con] a]
  obtain data' where "map_of dir (af_name f) = Some data'" "length data' = af_size_bytes f" "sha256 R data' = af_digest f"
    by (rule verified_files [OF connectedD(2) [OF con] a f])
  with data have intact: "length data = af_size_bytes f" "sha256 R data = af_digest f" by auto
  have name: "af_name f \<in> set adapter_file_names" using valid(2) [OF f] by (simp add: AdapterFile_def)
  note media = adapter_file_names_facts [OF name]
  let ?offset = "length start"
  let ?path = "policy_path (pm_policy_id m) (''/files/'' @ af_name f)"
  let ?q = "Coordinator_Get ?path ?offset"
  let ?req = "client_request (cn_token C) ?path ?offset"
  have path: "ap_path ?req = ?path" by (simp add: client_request_def)
  have "distinct (map af_name (ac_files a))" by (simp add: valid(1) adapter_file_names_def)
  from serve_offered [OF open_offered [OF connectedD(1) [OF con, of k ?q] a this f data intact] intact(1) start(2)]
  obtain chunks where chunks: "serve_policy_file R dirs (pm_policy_id m) (af_name f) ?req (cn_state C k ?q) =
      Inr \<lparr>hr_status = (if 0 < ?offset then 206 else 200),
           hr_headers = (''content-type'', file_media_type (af_name f)) # immutable_headers (af_digest f) @
             [(''accept-ranges'', ''bytes''), (''content-length'', decimal (length data - ?offset))] @
             (if 0 < ?offset then [(''content-range'', ''bytes '' @ decimal ?offset @ ''-'' @ decimal (length data - 1) @ ''/'' @ decimal (length data))] else []),
           hr_chunks = chunks, hr_broken = False\<rparr>" (is "_ = Inr ?r")
    and whole: "concat chunks = drop ?offset data" by blast
  define sent where "sent = cn_wire C k ?q (drop ?offset data)"
  let ?answer = "?r\<lparr>hr_chunks := sent\<rparr>"
  have "route_policies R K S dirs (cn_state C k ?q) ?req = Inr ?r"
    using media chunks route_file [OF connectedD(5,7) [OF con] _ _ path] by metis
  then have answered: "coordinator_network R K S dirs C k ?q = Answer ?answer"
    unfolding coordinator_answers [OF con] by (simp only: sum.case whole http_response.simps sent_def)
  have "open_ranged (coordinator_network R K S dirs C) k ?q CoordinatorAPIError = Inr ?answer"
    unfolding open_ranged_def send_request_def answered by (simp add: and_then_def)
  then have stream: "open_stream R None (coordinator_network R K S dirs C) k m (af_name f) ?offset = Inr (?answer, True)"
    unfolding open_stream_def stream_policy_file_def option.case by (simp only: and_then_def sum.case)
  have identity: "map lower_ascii ''identity'' = ''identity''" by code_simp
  have valid_response: "validate_response ?answer (af_name f) (af_size_bytes f) (af_digest f) ?offset True = Inr ()"
    using identity media intact(1) start(2)
    by (simp add: validate_response_def identity_encoding_def content_type_def content_length_def header_or_def header_def
        immutable_headers_def quoted_etag_def python_int_decimal expected_range_def of_nat_diff)
  have "concat sent = drop ?offset data" unfolding sent_def by (rule connectedD(3) [OF con])
  with start(1) have "start @ concat sent = data" by (metis append_take_drop_id)
  with receive_complete [of start sent "af_size_bytes f"] intact(1)
  have "receive (af_size_bytes f) start sent False = (data, None)" by simp
  with stream valid_response intact show ?thesis
    by (simp add: fetch_rest_def Let_def and_then_def)
qed


section \<open>The whole download\<close>

text \<open>
  What an interrupted download leaves of a file: a part that is too long, the beginning of the file, or
  as many bytes as the file has with another digest.
\<close>

definition usable_part :: "repository \<Rightarrow> adapter_file \<Rightarrow> string \<Rightarrow> string \<Rightarrow> bool" where
  "usable_part R f data got \<longleftrightarrow>
     af_size_bytes f < length got \<or> take (length got) data = got \<or> length got = af_size_bytes f \<and> sha256 R got \<noteq> af_digest f"

definition usable_parts :: "repository \<Rightarrow> directory \<Rightarrow> adapter_file list \<Rightarrow> (string \<times> string) list \<Rightarrow> bool" where
  "usable_parts R dir fs parts \<longleftrightarrow>
     (\<forall>f \<in> set fs. \<forall>data got. map_of dir (af_name f) = Some data \<longrightarrow>
        (part_name (af_digest f) (af_name f), got) \<in> set parts \<longrightarrow> usable_part R f data got)"

lemma usable_parts_subset: "usable_parts R dir fs parts \<Longrightarrow> set fs' \<subseteq> set fs \<Longrightarrow> set parts' \<subseteq> set parts \<Longrightarrow> usable_parts R dir fs' parts'"
  unfolding usable_parts_def by blast

lemma attempt_completes:
  assumes "connected R K dirs C m dir" "pm_adapter m = Some a" "f \<in> set (ac_files a)" "map_of dir (af_name f) = Some data"
    and "usable_part R f data (part_bytes part)" "length (part_bytes part) \<le> af_size_bytes f"
    and "length data = af_size_bytes f" "sha256 R data = af_digest f" "0 < af_size_bytes f"
  shows "\<exists>part'. attempt_download R None (coordinator_network R K S dirs C) m f [0] part = (part', None) \<and> part_bytes part' = data"
proof -
  let ?got = "part_bytes part"
  note fetch = fetch_rest_completes [OF assms(1-4)]
  consider (complete) "?got = data" | (prefix) "take (length ?got) data = ?got" "length ?got < length data"
    | (damaged) "length ?got = af_size_bytes f" "sha256 R ?got \<noteq> af_digest f"
    using assms(5-7) unfolding usable_part_def by (metis take_all_iff nat_less_le not_le)
  then show ?thesis
  proof cases
    case complete
    with assms(7,8) show ?thesis by simp
  next
    case prefix
    with fetch [of ?got S 0] assms(7) show ?thesis by (simp add: part_bytes_def)
  next
    case damaged
    with fetch [of "[]" S 0] assms(7,9) show ?thesis by (simp add: part_bytes_def)
  qed
qed

lemma file_arrives:
  assumes con: "connected R K dirs C m dir" and a: "pm_adapter m = Some a" and f: "f \<in> set (ac_files a)"
    and data: "map_of dir (af_name f) = Some data" and parts: "usable_parts R dir [f] (ch_incoming ch)"
  shows "download_file R None (coordinator_network R K S dirs C) m f ch = (set_part (part_name (af_digest f) (af_name f)) None ch, Inr data)"
proof -
  obtain data' where "map_of dir (af_name f) = Some data'" "length data' = af_size_bytes f" "sha256 R data' = af_digest f"
    by (rule verified_files [OF connectedD(2) [OF con] a f])
  with data have intact: "length data = af_size_bytes f" "sha256 R data = af_digest f" by auto
  have size: "0 < af_size_bytes f" using valid_files(2) [OF connectedD(6) [OF con] a f] by (simp add: AdapterFile_def)
  let ?old = "map_of (ch_incoming ch) (part_name (af_digest f) (af_name f))"
  let ?part = "if length (part_bytes ?old) > af_size_bytes f then None else ?old"
  have "usable_part R f data (part_bytes ?part)"
  proof (cases ?old)
    case None
    then show ?thesis by (simp add: usable_part_def part_bytes_def)
  next
    case (Some got)
    from map_of_SomeD [OF Some] parts data have "usable_part R f data got" by (auto simp: usable_parts_def)
    with Some show ?thesis by (auto simp: usable_part_def part_bytes_def)
  qed
  moreover have "length (part_bytes ?part) \<le> af_size_bytes f" by (simp add: part_bytes_def)
  ultimately obtain part' where part': "attempt_download R None (coordinator_network R K S dirs C) m f [0] ?part = (part', None)"
    "part_bytes part' = data"
    using attempt_completes [OF con a f data _ _ intact size] by blast
  have "download_part R None (coordinator_network R K S dirs C) m f ?old = (None, Inr data)"
    using part' intact by (simp add: download_part_def Let_def from_mirrors_def attempts_of_def has_digest_def upt_rec)
  then show ?thesis by (simp add: download_file_def Let_def)
qed

lemma files_arrive:
  assumes con: "connected R K dirs C m dir" and a: "pm_adapter m = Some a" and "set fs \<subseteq> set (ac_files a)"
    and "usable_parts R dir fs (ch_incoming ch)"
  shows "\<exists>parts. download_files R None (coordinator_network R K S dirs C) m fs files ch =
     (ch\<lparr>ch_incoming := parts\<rparr>, Inr (files @ map (\<lambda>f. (af_name f, the (map_of dir (af_name f)))) fs))"
  using assms(3,4)
proof (induction fs arbitrary: files ch)
  case Nil
  then show ?case by (auto intro: exI [of _ "ch_incoming ch"])
next
  case (Cons f fs)
  from Cons.prems have f: "f \<in> set (ac_files a)" by simp
  obtain data where data: "map_of dir (af_name f) = Some data" by (rule verified_files [OF connectedD(2) [OF con] a f])
  let ?ch = "set_part (part_name (af_digest f) (af_name f)) None ch"
  have "download_file R None (coordinator_network R K S dirs C) m f ch = (?ch, Inr data)"
    using Cons.prems(2) by (intro file_arrives [OF con a f data] usable_parts_subset [OF Cons.prems(2)]) auto
  moreover have "usable_parts R dir fs (ch_incoming ?ch)"
    by (rule usable_parts_subset [OF Cons.prems(2)]) (auto simp: set_part_def)
  with Cons.IH [of ?ch "files @ [(af_name f, data)]"] Cons.prems(1) obtain parts where
    "download_files R None (coordinator_network R K S dirs C) m fs (files @ [(af_name f, data)]) ?ch =
      (?ch\<lparr>ch_incoming := parts\<rparr>, Inr ((files @ [(af_name f, data)]) @ map (\<lambda>f. (af_name f, the (map_of dir (af_name f)))) fs))"
    by auto
  moreover have "?ch\<lparr>ch_incoming := parts\<rparr> = ch\<lparr>ch_incoming := parts\<rparr>" by (simp add: set_part_def)
  ultimately show ?case using data by (auto simp: and_next_def)
qed

lemma fold_step_same: "(\<And>x. x \<in> set xs \<Longrightarrow> g x = h x) \<Longrightarrow> fold_step (\<lambda>x _. g x) xs s = fold_step (\<lambda>x _. h x) xs s"
  by (induction xs arbitrary: s) (auto simp: and_then_def split: sum.splits)

text \<open>Verification reads a directory through the names of a policy only.\<close>

lemma verify_same_files:
  assumes "verify_lora_policy R K name dir expected = Inr m" "set (map fst dir') = set policy_file_names"
    and "\<And>n. n \<in> set policy_file_names \<Longrightarrow> map_of dir' n = map_of dir n" "pm_adapter m = Some a"
    and "map af_name (ac_files a) = adapter_file_names"
  shows "verify_lora_policy R K name dir' expected = Inr m"
proof -
  have same: "read_file dir' n = read_file dir n" if "n \<in> set policy_file_names" for n
    using assms(3) [OF that] by (simp add: read_file_def)
  then have three: "read_file dir' ''manifest.json'' = read_file dir ''manifest.json''"
    "read_file dir' ''adapter_config.json'' = read_file dir ''adapter_config.json''"
    "read_file dir' ''adapter_model.safetensors'' = read_file dir ''adapter_model.safetensors''"
    by (simp_all add: policy_file_names_def)
  have "set (map af_name (ac_files a)) \<subseteq> set policy_file_names" using assms(5) by (simp add: adapter_file_names_def policy_file_names_def)
  then have "check_file R dir' f = check_file R dir f" if "f \<in> set (ac_files a)" for f
    using same [of "af_name f"] that by (simp add: check_file_def image_subset_iff)
  then have "verify_contents R K dir' m a = verify_contents R K dir m a" using three
    by (simp add: verify_contents_def fold_step_same [of "ac_files a" "check_file R dir'" "check_file R dir"])
  with assms three show ?thesis by (auto simp: verify_eq_Inr)
qed


text \<open>Eviction makes room whenever the entries in use leave enough of it.\<close>

definition used_size :: "adapter_cache \<Rightarrow> nat" where
  "used_size ch = total_size (filter (\<lambda>e. in_use ch (policy_of e)) (ch_cached ch))"

lemma total_size_partition: "total_size (filter P es) + total_size (filter (\<lambda>e. \<not> P e) es) = total_size es"
  by (induction es) (auto simp: total_size_def)

lemma total_size_mset: "mset xs = mset ys \<Longrightarrow> total_size xs = total_size ys"
  unfolding total_size_def by (metis mset_map sum_mset_sum_list)

lemma make_space_succeeds:
  assumes "int (used_size ch) + int (incoming_size ch) + required \<le> int (ch_max_bytes ch)"
  shows "\<exists>n. make_space required ch = (evicted n ch, Inr ())"
proof -
  let ?occupied = "int (total_size (ch_cached ch)) + int (incoming_size ch)"
  obtain n where n: "n \<le> length (by_use ch)"
    "evict_until required (by_use ch) ?occupied ch =
        (?occupied - int (total_size (unused ch (take n (by_use ch)))), remove_entries (unused ch (take n (by_use ch))) ch)"
    "n < length (by_use ch) \<longrightarrow> ?occupied - int (total_size (unused ch (take n (by_use ch)))) + required \<le> int (ch_max_bytes ch)"
    using evict_until_prefix [of "by_use ch" required ?occupied ch] by blast
  have "?occupied - int (total_size (unused ch (take n (by_use ch)))) + required \<le> int (ch_max_bytes ch)"
  proof (cases "n < length (by_use ch)")
    case True
    with n(3) show ?thesis by blast
  next
    case False
    have "total_size (unused ch (by_use ch)) = total_size (filter (\<lambda>e. \<not> in_use ch (policy_of e)) (ch_cached ch))"
      unfolding unused_def by (rule total_size_mset) (simp add: by_use_def)
    with total_size_partition [of "\<lambda>e. in_use ch (policy_of e)" "ch_cached ch"] False n(1) assms show ?thesis
      by (simp add: used_size_def)
  qed
  with n(2) show ?thesis by (auto simp: make_space_def evicted_def)
qed

lemma fetch_succeeds:
  assumes con: "connected R K dirs C m dir" and a: "pm_adapter m = Some a"
    and small: "int (length (manifest_bytes K m)) \<le> 1024 * 1024" and parts: "usable_parts R dir (ac_files a) (ch_incoming ch)"
    and room: "used_size ch + adapter_size m \<le> ch_max_bytes ch" and absent: "map_of (ch_artifacts ch) (path_of R m) = None"
  shows "\<exists>ch' e. fetch_policy R K None (coordinator_network R K S dirs C) unique m a now ch = (ch', Inr e)"
proof -
  let ?ch1 = "ch\<lparr>ch_incoming := filter (keep_part a) (ch_incoming ch)\<rparr>"
  have "used_size ?ch1 = used_size ch" by (simp add: used_size_def in_use_def)
  then have "\<exists>n. make_space (int (adapter_size m) - int (incoming_size ?ch1)) ?ch1 = (evicted n ?ch1, Inr ())"
    using room by (intro make_space_succeeds) simp
  then obtain n where space: "make_space (int (adapter_size m) - int (incoming_size ?ch1)) ?ch1 = (evicted n ?ch1, Inr ())" by blast
  let ?ch2 = "evicted n ?ch1"
  let ?files = "map (\<lambda>f. (af_name f, the (map_of dir (af_name f)))) (ac_files a)"
  let ?dir = "?files @ [(''manifest.json'', manifest_bytes K m)]"
  have "usable_parts R dir (ac_files a) (ch_incoming ?ch2)"
    by (rule usable_parts_subset [OF parts]) auto
  then obtain left where files: "download_files R None (coordinator_network R K S dirs C) m (ac_files a) [] ?ch2 =
      (?ch2\<lparr>ch_incoming := left\<rparr>, Inr ?files)"
    using files_arrive [OF con a subset_refl, of ?ch2 S "[]"] by auto
  note intact = connectedD(2) [OF con]
  from intact have manifest: "map_of dir ''manifest.json'' = Some (manifest_bytes K m)" "parse_manifest K (manifest_bytes K m) = Some m"
    by (auto simp: verify_eq_Inr and_then_eq_Inr read_file_def read_manifest_def split: option.splits if_splits)
  note names = valid_files(1) [OF connectedD(6) [OF con] a]
  obtain f g where fg: "ac_files a = [f, g]" "af_name f = ''adapter_config.json''" "af_name g = ''adapter_model.safetensors''"
    using names by (auto simp: adapter_file_names_def)
  obtain x where x: "map_of dir (af_name f) = Some x" by (rule verified_files [OF intact a, of f]) (auto simp: fg)
  obtain y where y: "map_of dir (af_name g) = Some y" by (rule verified_files [OF intact a, of g]) (auto simp: fg)
  have verified: "verify_lora_policy R K (pm_policy_id m) ?dir (Some m) = Inr m"
  proof (rule verify_same_files [OF intact _ _ a names])
    show "set (map fst ?dir) = set policy_file_names" by (auto simp: fg policy_file_names_def)
    show "map_of ?dir n = map_of dir n" if "n \<in> set policy_file_names" for n
      using that fg x y manifest(1) by (auto simp: policy_file_names_def)
  qed
  have "starts_with (''.'' @ pm_policy_id m @ ''.'' @ unique @ ''.tmp'') ''.policy-''"
    using valid_policy_id [OF connectedD(6) [OF con]] by (simp add: starts_with_def expected_policy_id_def)
  with verify_renamed(2) [OF verified]
  have temporary: "verify_lora_policy R K (''.'' @ pm_policy_id m @ ''.'' @ unique @ ''.tmp'') ?dir (Some m) = Inr m"
    by (auto simp: verify_expected)
  have gone: "map_of (ch_artifacts ?ch2) (path_of R m) = None" using evicted_absent [of ?ch1] absent by simp
  have adopted: "\<exists>ch' e. adopt R K m now (publish_directory (path_of R m) ?dir (?ch2\<lparr>ch_incoming := left\<rparr>)) = (ch', Inr e)"
    using gone verified by (simp add: adopt_def publish_directory_def map_add_def verify_cached_def path_of_def del: map_append)
  show ?thesis using adopted temporary
    by (simp add: fetch_policy_def prune_partial_files_def Let_def and_next_def space files raise_error_def
        manifest_arrives [OF con small manifest(2)])
qed


section \<open>A concrete download\<close>


text \<open>The worker of \<open>demo_cache\<close>, with the first bytes of the weights, at a coordinator that sends byte by byte.\<close>

definition demo_offering :: db where
  "demo_offering = migrated_db\<lparr>policies :=
     [\<lparr>p_policy_id = pm_policy_id demo_manifest, p_policy_version = 1, p_manifest_digest = manifest_digest demo demo_manifest,
       p_manifest_json = demo_manifest, p_artifact_path = Some ''policies/x'', p_created_at = 5\<rparr>]\<rparr>"

definition demo_connection :: connection where
  "demo_connection =
     \<lparr>cn_token = ''secret'', cn_state = \<lambda>_ _. demo_offering, cn_wire = \<lambda>_ _. map (\<lambda>c. [c]), cn_failure = \<lambda>_. []\<rparr>"

definition demo_service :: policy_service where
  "demo_service = \<lparr>ps_manifest_json = \<lambda>_. ''manifest'', ps_locations = None, ps_locations_json = \<lambda>_. []\<rparr>"

lemma demo_connected: "connected demo lora_codec [(''policies/x'', demo_directory)] demo_connection demo_manifest demo_directory"
proof -
  have "offers demo [(''policies/x'', demo_directory)] demo_manifest demo_directory demo_offering" by code_simp
  moreover have "verify_lora_policy demo lora_codec (pm_policy_id demo_manifest) demo_directory (Some demo_manifest) = Inr demo_manifest"
    by code_simp
  moreover have "concat (map (\<lambda>c. [c]) s) = s" for s :: string by (induction s) auto
  moreover have "list_all is_ascii ''secret''" "list_all (\<lambda>c. c \<noteq> CHR ''/'') (pm_policy_id demo_manifest)" by code_simp+
  ultimately show ?thesis by (auto simp: connected_def demo_connection_def list.pred_set)
qed


end
