(* ===== verification/Control_Answers.thy ===== *)
theory Control_Answers
  imports Coordinator_API Worker_Properties
begin

text \<open>
  The control answers of the coordinator are well typed: whatever a handler is asked by a valid request,
  either the repository refuses, or the answer passes the validators of its message.
\<close>

text \<open>How a handler may end, given what the repository returned.\<close>

definition typed_answer :: "error + 'a \<Rightarrow> api_failure + control_answer \<Rightarrow> bool" where
  "typed_answer result r \<longleftrightarrow>
     (case result of Inl e \<Rightarrow> r = Inl (error_response e) | Inr _ \<Rightarrow> \<exists>ans. r = Inr ans \<and> answer_valid ans)"

lemma respond_valid: "answer_valid ans \<Longrightarrow> respond ans = Inr ans"
  by (simp add: respond_def)

lemma registered_as:
  assumes "register_worker reg now d = (Inr r, d')"
  shows "rg_worker_id r = wr_worker_id reg" "rg_worker_session_id r = wr_worker_session_id reg"
  using assms by (auto simp: register_worker_def transaction_def and_then_eq_Inr split: sum.splits if_splits option.splits)

lemma register_typed:
  assumes "WorkerRegistration reg" "0 \<le> server_time"
  shows "typed_answer (fst (register_worker reg now d)) (fst (handle_register reg now server_time d))"
proof (cases "register_worker reg now d")
  case (Pair r d')
  with assms registered_as [of reg now d] show ?thesis
    by (cases r) (auto simp: typed_answer_def handle_register_def respond_def answer_valid_def WorkerRegistrationResponse_def
        WorkerRegistration_def Timestamp_def)
qed

text \<open>Every renewal in the answer to a heartbeat names a reported lease and the assignment it is for.\<close>

lemma renewal_valid:
  assumes c: "consistent d1" and hb: "list_all OpaqueId ls" "0 \<le> now"
    and x: "lr_lease_id x \<in> set ls" "\<not> must_stop d1 now (lr_lease_id x)" "reported_lease d1 (lr_lease_id x) = Some (lr, ar)"
      "lr_assignment_id x = l_assignment_id lr" "lr_expires_at x = renewed_expiry now dur lr ar" "0 < dur"
  shows "LeaseRenewal x"
proof -
  have at: "assignment_at d1 (l_assignment_id lr) = Some ar" using reported_leaseD [OF x(3)] by simp
  have "assignment_ok d1 ar" using c at by (auto simp: consistent_def intro: coreD(5))
  then have "RolloutAssignment (a_assignment_json ar)" "ra_assignment_id (a_assignment_json ar) = a_assignment_id ar"
    by (simp_all add: assignment_ok_def columns_ok_def Let_def)
  then have "OpaqueId (lr_assignment_id x)" using assignment_at_id [OF at] x(4) by (simp add: RolloutAssignment_def)
  moreover have "now < renewed_expiry now dur lr ar"
    using x(2,3,6) unfolding renewed_expiry_def by (intro cap_at_greater) (auto simp: must_stop_def)
  ultimately show ?thesis using hb x(1,5) by (simp add: LeaseRenewal_def Timestamp_def list.pred_set)
qed

lemma heartbeat_typed:
  assumes c: "consistent d" and hb: "WorkerHeartbeat hb" and now: "0 \<le> now" "0 \<le> server_time"
  shows "typed_answer (fst (record_heartbeat hb dur now d)) (fst (handle_heartbeat hb dur now server_time d))"
proof (cases "fst (record_heartbeat hb dur now d)")
  case (Inl e)
  then show ?thesis by (cases "record_heartbeat hb dur now d") (simp add: typed_answer_def handle_heartbeat_def)
next
  case (Inr answer)
  obtain renewals stops d' where run: "record_heartbeat hb dur now d = (Inr (renewals, stops), d')"
    using Inr by (metis prod.collapse)
  from run obtain d1 d2 where dur: "0 < dur" and r: "reconcile_stale_work now d = Inr d1"
    and f: "fold_step (heartbeat_lease d1 now dur) (hb_active_lease_ids hb) ([], [], d1) = Inr (renewals, stops, d2)"
    by (rule record_heartbeatD)
  have ids: "validate_sorted_unique (hb_active_lease_ids hb)" "list_all OpaqueId (hb_active_lease_ids hb)"
    using hb by (simp_all add: WorkerHeartbeat_def)
  then have "distinct (hb_active_lease_ids hb)" by (simp add: validate_sorted_unique_iff)
  note h = heartbeat_fold [OF f this]
  have c1: "consistent d1" using reconcile_advances [OF c r] by (simp add: advances_def)
  have "LeaseRenewal x" if "x \<in> set renewals" for x
    using h that by (auto intro: renewal_valid [OF c1 ids(2) now(1) _ _ _ _ _ dur])
  moreover have "list_all OpaqueId stops" using h ids(2) by (auto simp: list.pred_set)
  ultimately have "WorkerHeartbeatResponse \<lparr>hr_server_time = server_time, hr_renewals = renewals, hr_stop_lease_ids = stops\<rparr>"
    using h ids(1) now(2)
    by (simp add: WorkerHeartbeatResponse_def Timestamp_def validate_response_ids_def validate_sorted_unique_filter list.pred_set)
  with run show ?thesis by (simp add: typed_answer_def handle_heartbeat_def respond_def answer_valid_def)
qed

lemma renewed_lease:
  assumes "renew_lease l w s dur expected sent ack now d = (Inr (Inl lease), d')"
  shows "al_lease_id lease = l" "now < al_expires_at lease"
proof -
  from assms obtain lr ar where dur: "0 < dur"
    and r: "renew_lease_in l w s dur expected sent ack now d = Inr (Renewed lr ar, d')" and lease: "assignment_lease_of lr ar = Inr lease"
    by (auto simp: renew_lease_def transaction_def and_then_eq_Inr split: if_splits sum.splits prod.splits renew_answer.splits)
  from r obtain d1 old where old: "lease_at d1 l = Some old" "\<not> deadline_passed (a_deadline_at ar) now"
    and lr: "lr = old\<lparr>l_expires_at := renewed_expiry now dur old ar\<rparr>"
    by (rule renew_lease_inD) auto
  have "now < renewed_expiry now dur old ar"
    using old(2) dur unfolding renewed_expiry_def by (intro cap_at_greater) simp_all
  with lease lease_at_id [OF old(1)] show "al_lease_id lease = l" "now < al_expires_at lease"
    by (auto simp: assignment_lease_of_def and_then_eq_Inr AssignmentLease_def lr split: if_splits)
qed

lemma renew_typed:
  assumes "LeaseRenewRequest q" "rn_assignment_id q = assignment_id" "0 \<le> now" "0 \<le> server_time"
  shows "typed_answer (fst (renew_lease (rn_lease_id q) (rn_worker_id q) (rn_worker_session_id q) dur (Some assignment_id)
       (Some (rn_sent_at q)) True now d)) (fst (handle_renew assignment_id q dur now server_time d))"
proof (cases "renew_lease (rn_lease_id q) (rn_worker_id q) (rn_worker_session_id q) dur (Some assignment_id)
       (Some (rn_sent_at q)) True now d")
  case (Pair r d')
  consider e where "r = Inl e" | reason where "r = Inr (Inr reason)" | lease where "r = Inr (Inl lease)" by (metis sum.exhaust)
  then show ?thesis
  proof cases
    case (3 lease)
    note renewed = renewed_lease [OF Pair [unfolded 3]]
    with Pair 3 assms show ?thesis
      by (simp add: typed_answer_def handle_renew_def respond_def answer_valid_def LeaseRenewResponse_def LeaseRenewal_def
          LeaseRenewRequest_def Timestamp_def)
  qed (use Pair assms in \<open>simp_all add: typed_answer_def handle_renew_def respond_def answer_valid_def LeaseRenewResponse_def Timestamp_def\<close>)
qed

text \<open>
  C3: in every reachable state the answers to registrations, heartbeats and renewals are well typed: the
  handler of a valid request passes on what the repository refuses, and otherwise builds an answer that
  its message type accepts; building an answer never raises.
\<close>

theorem control_answers_typed:
  assumes "(coordinator_run R)\<^sup>*\<^sup>* coordinator_start (d, sp)" "0 \<le> now" "0 \<le> server_time"
    and "WorkerRegistration reg" "WorkerHeartbeat hb" "LeaseRenewRequest q"
  shows "typed_answer (fst (register_worker reg now d)) (fst (handle_register reg now server_time d)) \<and>
    typed_answer (fst (record_heartbeat hb dur now d)) (fst (handle_heartbeat hb dur now server_time d)) \<and>
    typed_answer (fst (renew_lease (rn_lease_id q) (rn_worker_id q) (rn_worker_session_id q) dur (Some (rn_assignment_id q))
       (Some (rn_sent_at q)) True now d)) (fst (handle_renew (rn_assignment_id q) q dur now server_time d))"
proof -
  have "consistent d" using coord.reachable_good [OF _ assms(1)] by (simp add: repository_inv_def)
  with assms register_typed heartbeat_typed renew_typed show ?thesis by blast
qed

definition demo_renewal :: lease_renew_request where
  "demo_renewal =
     \<lparr>rn_assignment_id = ''a0'', rn_lease_id = ''l0'', rn_worker_id = ''w'', rn_worker_session_id = ''s'', rn_sent_at = 13\<rparr>"

theorem control_answers_typed_witness:
  "\<exists>ans. fst (handle_heartbeat first_heartbeat 30 13 13 busy) = Inr ans \<and> answer_valid ans"
proof -
  have "WorkerRegistration the_worker" "LeaseRenewRequest demo_renewal" by code_simp+
  from control_answers_typed [OF demo_busy _ _ this(1) first_heartbeat_valid this(2), of 13 13 30] busy_heartbeat
  show ?thesis by (simp add: typed_answer_def)
qed

end
