(* ===== verification/Worker_Daemon.thy ===== *)
theory Worker_Daemon
  imports Coordinator_API "HOL-Library.AList"
begin

text \<open>
  The worker process (\<open>worker/daemon.py\<close>, the control calls of \<open>worker/client.py\<close>, \<open>configs/worker.py\<close>):
  slots that lease assignments and generate for them, the heartbeat, and the watchdog of expired
  leases, as interleaved steps that send messages. The coordinator, the policy runtime and the local
  inference server may answer anything; a step is cut where a coroutine awaits.
\<close>

section \<open>Configuration\<close>

record worker_config =
  wk_inference_slots :: nat
  wk_heartbeat_interval_seconds :: time
  wk_lease_wait_seconds :: time
  wk_inference_body_limit_bytes :: nat
  wk_retry_min_seconds :: time
  wk_retry_max_seconds :: time

text \<open>The field constraints and the check of the retry times; the URL fields are used by the transport only.\<close>

definition worker_fields :: "worker_config \<Rightarrow> bool" where
  "worker_fields c \<longleftrightarrow>
     1 \<le> wk_inference_slots c \<and> 0 < wk_heartbeat_interval_seconds c \<and> 0 \<le> wk_lease_wait_seconds c \<and>
     wk_lease_wait_seconds c \<le> 60 \<and> 1 \<le> wk_inference_body_limit_bytes c \<and> 0 < wk_retry_min_seconds c \<and>
     0 < wk_retry_max_seconds c"

definition WorkerConfig :: "worker_config \<Rightarrow> bool" where
  "WorkerConfig c \<longleftrightarrow> worker_fields c \<and> wk_retry_min_seconds c \<le> wk_retry_max_seconds c"

section \<open>Control calls\<close>

datatype 'm outcome = Success 'm | Transport_Failure | Protocol_Failure | API_Failure nat "time option"

definition retry_after :: "(string \<Rightarrow> time option) \<Rightarrow> string option \<Rightarrow> time option" where
  "retry_after parse_float v = (case v of None \<Rightarrow> None | Some text \<Rightarrow> map_option (max 0) (parse_float text))"

text \<open>
  \<open>_request\<close> and \<open>_model\<close>: the status decides, then the message must decode and pass its validators.
  \<open>None\<close> among the successes is the empty answer to a lease request.
\<close>

definition control_call :: "(string \<Rightarrow> time option) \<Rightarrow> (string \<Rightarrow> 'm option) \<Rightarrow> ('m \<Rightarrow> bool) \<Rightarrow> http_outcome \<Rightarrow> 'm outcome" where
  "control_call parse_float decode valid answer =
     (case answer of
        No_Answer \<Rightarrow> Transport_Failure
      | Answer r \<Rightarrow>
          if hr_broken r then Transport_Failure
          else if http_response.hr_status r \<noteq> 200
          then API_Failure (http_response.hr_status r) (retry_after parse_float (header r ''retry-after''))
          else (case decode (concat (hr_chunks r)) of
              None \<Rightarrow> Protocol_Failure
            | Some m \<Rightarrow> if valid m then Success m else Protocol_Failure))"

definition lease_call :: "(string \<Rightarrow> time option) \<Rightarrow> (string \<Rightarrow> inference_lease option) \<Rightarrow> http_outcome \<Rightarrow> inference_lease option outcome" where
  "lease_call parse_float decode answer =
     (case answer of
        Answer r \<Rightarrow>
          if \<not> hr_broken r \<and> http_response.hr_status r = 204 then Success None
          else (case control_call parse_float decode InferenceLease answer of
              Success l \<Rightarrow> Success (Some l) | Transport_Failure \<Rightarrow> Transport_Failure
            | Protocol_Failure \<Rightarrow> Protocol_Failure | API_Failure status after \<Rightarrow> API_Failure status after)
      | No_Answer \<Rightarrow> Transport_Failure)"

text \<open>
  The retry loop that \<open>_register\<close>, \<open>_acquire_lease\<close> and \<open>_retry_exchange\<close> share, over the outcomes of the
  attempts until the stop event: what it returns or raises, if it ends, and how long it slept each time.
\<close>

datatype 'm ending = Returned 'm | Raised_API nat | Stopped_Waiting

fun retry_call :: "worker_config \<Rightarrow> time \<Rightarrow> 'm outcome list \<Rightarrow> 'm ending \<times> time list" where
  "retry_call c delay [] = (Stopped_Waiting, [])"
| "retry_call c delay (r # rs) =
     (case r of
        Success m \<Rightarrow> (Returned m, [])
      | API_Failure status after \<Rightarrow>
          if \<not> retryable status then (Raised_API status, [])
          else (case retry_call c (min (delay * 2) (wk_retry_max_seconds c)) rs of
              (e, ds) \<Rightarrow> (e, (case after of None \<Rightarrow> delay | Some t \<Rightarrow> t) # ds))
      | _ \<Rightarrow> (case retry_call c (min (delay * 2) (wk_retry_max_seconds c)) rs of (e, ds) \<Rightarrow> (e, delay # ds)))"

definition register_outcome :: "worker_registration \<Rightarrow> registration_response outcome \<Rightarrow> registration_response outcome" where
  "register_outcome reg r =
     (case r of
        Success m \<Rightarrow>
          if (rs_worker_id m, rs_worker_session_id m) \<noteq> (wr_worker_id reg, wr_worker_session_id reg) then Protocol_Failure
          else Success m
      | _ \<Rightarrow> r)"

definition register_worker_loop :: "worker_config \<Rightarrow> worker_registration \<Rightarrow> registration_response outcome list
    \<Rightarrow> registration_response ending \<times> time list" where
  "register_worker_loop c reg rs = retry_call c (wk_retry_min_seconds c) (map (register_outcome reg) rs)"

section \<open>Identity and registration\<close>

text \<open>
  The worker's identifier is kept in a file of its state directory; \<open>stored\<close> is the text of an existing
  file and \<open>fresh\<close> a new hexadecimal identifier. \<open>None\<close> is the \<open>WorkerStateError\<close>.
\<close>

definition worker_id_pattern :: "string \<Rightarrow> bool" where
  "worker_id_pattern s \<longleftrightarrow>
     starts_with s ''worker-'' \<and> length (drop 7 s) = 32 \<and> list_all is_hex (drop 7 s)"

definition load_or_create_worker_id :: "string option \<Rightarrow> string \<Rightarrow> (id \<times> string) option" where
  "load_or_create_worker_id stored fresh =
     (case stored of
        None \<Rightarrow> Some (''worker-'' @ fresh, ''worker-'' @ fresh @ [CHR 0x0A])
      | Some text \<Rightarrow> if worker_id_pattern (strip text) then Some (strip text, text) else None)"

text \<open>A worker keeps its identifier over restarts.\<close>

lemma strip_line:
  assumes "xs \<noteq> []" "\<not> is_space (hd xs)" "\<not> is_space (last xs)"
  shows "strip (xs @ [CHR 0x0A]) = xs"
proof -
  obtain y ys where xs: "xs = y # ys" using assms(1) by (cases xs) auto
  have "dropWhile is_space (xs @ [CHR 0x0A]) = xs @ [CHR 0x0A]" using assms(2) xs by simp
  moreover have "dropWhile is_space (CHR 0x0A # rev xs) = rev xs"
    using assms(1,3) by (cases xs rule: rev_cases) (auto simp: is_space_def)
  ultimately show ?thesis by (simp add: strip_def)
qed

lemma worker_id_kept:
  assumes "length fresh = 32" "list_all is_hex fresh" "load_or_create_worker_id None fresh = Some (w, text)"
  shows "load_or_create_worker_id (Some text) fresh' = Some (w, text)"
proof -
  have hex: "\<not> is_space c" if "is_hex c" for c
    using that by (auto simp: is_hex_def is_digit_def is_space_def less_eq_char_def)
  have "is_hex (last fresh)" using assms(1,2) by (cases fresh rule: rev_cases) (auto simp: list.pred_set)
  then have "\<not> is_space (last (''worker-'' @ fresh))" using hex assms(1) by auto
  moreover have "\<not> is_space (hd (''worker-'' @ fresh))" by (simp add: is_space_def)
  ultimately have strip: "strip ((''worker-'' @ fresh) @ [CHR 0x0A]) = ''worker-'' @ fresh" by (intro strip_line) simp_all
  have pattern: "worker_id_pattern (''worker-'' @ fresh)"
    using assms(1,2) by (simp add: worker_id_pattern_def starts_with_def)
  have line: "text = (''worker-'' @ fresh) @ [CHR 0x0A]" "w = ''worker-'' @ fresh"
    using assms(3) by (auto simp: load_or_create_worker_id_def)
  show ?thesis unfolding load_or_create_worker_id_def line option.case strip using pattern by (simp only: if_True)
qed

text \<open>The configured identity of the base model must be the one computed from the pinned artifacts.\<close>

definition discover_base_model_identity :: "base_model_identity \<Rightarrow> (error + base_model_identity) \<Rightarrow> error + base_model_identity" where
  "discover_base_model_identity expected calculated =
     (if \<not> BaseModelIdentity expected then Inl ValueError
      else if bm_quantization expected \<noteq> ''none'' then Inl ValueError
      else and_then calculated (\<lambda>discovered. if discovered \<noteq> expected then Inl ValueError else Inr discovered))"

definition build_registration :: "id \<Rightarrow> id \<Rightarrow> time \<Rightarrow> worker_capabilities \<Rightarrow> error + worker_registration" where
  "build_registration worker_id session_id now capabilities =
     (if wc_gpu_count capabilities < 1 then Inl RuntimeError
      else let reg = \<lparr>wr_worker_id = worker_id, wr_worker_session_id = session_id, wr_registered_at = now,
                      wr_capabilities = capabilities\<rparr>
           in if WorkerRegistration reg then Inr reg else Inl ValueError)"

section \<open>State\<close>

record active_inference =
  ai_lease :: inference_lease
  ai_cancelled :: bool
  ai_expires_at :: time

text \<open>Where the coroutine of a slot is: the lock of \<open>_acquire_lease\<close> is held while \<open>Asking\<close>.\<close>

datatype slot =
    Idle
  | Asking lease_request
  | Preparing id
  | Exchanging id "inference_reply option"
  | Generating id inference_request

record daemon =
  dn_active :: "(id \<times> active_inference) list"
  dn_offset :: time
  dn_previous :: time
  dn_stop :: bool
  dn_slots :: "slot list"
  dn_heartbeat_started :: "time option"

definition start_daemon :: "worker_config \<Rightarrow> time \<Rightarrow> daemon" where
  "start_daemon c offset =
     \<lparr>dn_active = [], dn_offset = offset, dn_previous = 0, dn_stop = False, dn_slots = replicate (wk_inference_slots c) Idle,
      dn_heartbeat_started = None\<rparr>"

datatype message = Lease_Request lease_request | Heartbeat worker_heartbeat | Exchange exchange_request

definition next_timestamp :: "time \<Rightarrow> time \<Rightarrow> time" where
  "next_timestamp clock previous = max clock (previous + 1 / 1000000)"

definition free_slots :: "worker_config \<Rightarrow> daemon \<Rightarrow> int" where
  "free_slots c s = int (wk_inference_slots c) - int (length (dn_active s))"

definition set_slot :: "nat \<Rightarrow> slot \<Rightarrow> daemon \<Rightarrow> daemon" where
  "set_slot i x s = s\<lparr>dn_slots := (dn_slots s)[i := x]\<rparr>"

definition lease_locked :: "daemon \<Rightarrow> bool" where
  "lease_locked s \<longleftrightarrow> list_ex (\<lambda>x. case x of Asking _ \<Rightarrow> True | _ \<Rightarrow> False) (dn_slots s)"

section \<open>Operations\<close>

definition lease_request_of :: "worker_config \<Rightarrow> worker_registration \<Rightarrow> id \<Rightarrow> id list \<Rightarrow> time \<Rightarrow> daemon \<Rightarrow> lease_request" where
  "lease_request_of c reg request_id loaded now s =
     \<lparr>lq_request_id = request_id, lq_worker_id = wr_worker_id reg, lq_worker_session_id = wr_worker_session_id reg,
      lq_sent_at = next_timestamp now (dn_previous s), lq_loaded_policy_ids = sort loaded,
      lq_available_slots = nat (free_slots c s), lq_wait_seconds = wk_lease_wait_seconds c\<rparr>"

definition heartbeat_of :: "worker_registration \<Rightarrow> id list \<Rightarrow> time \<Rightarrow> daemon \<Rightarrow> worker_heartbeat" where
  "heartbeat_of reg loaded now s =
     \<lparr>hb_worker_id = wr_worker_id reg, hb_worker_session_id = wr_worker_session_id reg,
      hb_sent_at = next_timestamp now (dn_previous s), hb_active_lease_ids = sort (map fst (dn_active s)),
      hb_loaded_policy_ids = sort loaded\<rparr>"

definition exchange_of :: "worker_config \<Rightarrow> worker_registration \<Rightarrow> id \<Rightarrow> inference_reply option \<Rightarrow> exchange_request" where
  "exchange_of c reg l reply =
     \<lparr>xq_worker_id = wr_worker_id reg, xq_worker_session_id = wr_worker_session_id reg, xq_lease_id = l, xq_reply = reply,
      xq_wait_seconds = wk_lease_wait_seconds c\<rparr>"

text \<open>\<open>_validate_lease\<close>; the worker ends when it fails.\<close>

definition validate_lease :: "worker_registration \<Rightarrow> inference_lease \<Rightarrow> bool" where
  "validate_lease reg l \<longleftrightarrow>
     (il_worker_id l, il_worker_session_id l) = (wr_worker_id reg, wr_worker_session_id reg) \<and>
     pm_base_model (il_policy l) = wc_base_model (wr_capabilities reg)"

definition cancel_all :: "daemon \<Rightarrow> daemon" where
  "cancel_all s = s\<lparr>dn_stop := True, dn_active := map (\<lambda>(l, a). (l, a\<lparr>ai_cancelled := True\<rparr>)) (dn_active s)\<rparr>"

definition take_lease :: "worker_registration \<Rightarrow> nat \<Rightarrow> inference_lease option \<Rightarrow> time \<Rightarrow> daemon \<Rightarrow> daemon" where
  "take_lease reg i answer now s =
     (case answer of
        None \<Rightarrow> set_slot i Idle s
      | Some l \<Rightarrow>
          if \<not> validate_lease reg l then cancel_all (set_slot i Idle s)
          else if il_expires_at l \<le> now + dn_offset s then set_slot i Idle s
          else set_slot i (Preparing (il_lease_id l))
            (s\<lparr>dn_active := AList.update (il_lease_id l)
                 \<lparr>ai_lease = l, ai_cancelled = False, ai_expires_at = il_expires_at l\<rparr> (dn_active s)\<rparr>))"

definition leave_slot :: "nat \<Rightarrow> id \<Rightarrow> daemon \<Rightarrow> daemon" where
  "leave_slot i l s = set_slot i Idle (s\<lparr>dn_active := AList.delete l (dn_active s)\<rparr>)"

definition is_cancelled :: "daemon \<Rightarrow> id \<Rightarrow> bool" where
  "is_cancelled s l \<longleftrightarrow> (case map_of (dn_active s) l of None \<Rightarrow> True | Some a \<Rightarrow> ai_cancelled a)"

text \<open>The test at the head of the loop of \<open>_serve_lease\<close>.\<close>

definition continue_serving :: "nat \<Rightarrow> id \<Rightarrow> inference_reply option \<Rightarrow> daemon \<Rightarrow> daemon" where
  "continue_serving i l reply s =
     (if dn_stop s \<or> is_cancelled s l then leave_slot i l s else set_slot i (Exchanging l reply) s)"

text \<open>The answer to an exchange; a request action without a request cannot pass the validator.\<close>

definition take_answer :: "nat \<Rightarrow> id \<Rightarrow> exchange_response \<Rightarrow> daemon \<Rightarrow> daemon" where
  "take_answer i l r s =
     (case xr_action r of
        Act_stop \<Rightarrow> leave_slot i l s
      | Act_wait \<Rightarrow> continue_serving i l None s
      | Act_request \<Rightarrow>
          (case xr_request r of None \<Rightarrow> cancel_all (leave_slot i l s) | Some q \<Rightarrow> set_slot i (Generating l q) s))"

text \<open>The reply to a request, from what the local server did; every failure becomes a 502.\<close>

record local_response =
  lo_status :: nat
  lo_headers :: "(string \<times> string) list"
  lo_body :: string

definition failed_reply :: "string \<Rightarrow> inference_request \<Rightarrow> inference_reply" where
  "failed_reply message q =
     \<lparr>ir_request_id = iq_request_id q, ir_status_code = 502, ir_headers = [(''content-type'', ''application/json'')],
      ir_body = message\<rparr>"

definition kept_headers :: "(string \<times> string) list \<Rightarrow> (string \<times> string) list" where
  "kept_headers hs = filter (\<lambda>(k, _). map lower_ascii k \<in> {''content-type'', ''retry-after'', ''x-request-id''}) hs"

definition local_reply :: "worker_config \<Rightarrow> string \<Rightarrow> inference_request \<Rightarrow> local_response option \<Rightarrow> inference_reply" where
  "local_reply c message q answer =
     (case answer of
        None \<Rightarrow> failed_reply message q
      | Some r \<Rightarrow>
          if wk_inference_body_limit_bytes c < length (lo_body r) then failed_reply message q
          else let reply = \<lparr>ir_request_id = iq_request_id q, ir_status_code = lo_status r,
                     ir_headers = kept_headers (lo_headers r), ir_body = lo_body r\<rparr>
               in if InferenceReply reply then reply else failed_reply message q)"

text \<open>The answer to a heartbeat: renewals of known leases, then stops.\<close>

fun apply_renewals :: "lease_renewal list \<Rightarrow> daemon \<Rightarrow> bool \<times> daemon" where
  "apply_renewals [] s = (True, s)"
| "apply_renewals (r # rs) s =
     (case map_of (dn_active s) (lr_lease_id r) of
        None \<Rightarrow> apply_renewals rs s
      | Some a \<Rightarrow>
          if lr_assignment_id r \<noteq> il_assignment_id (ai_lease a) then (False, s)
          else apply_renewals rs
            (s\<lparr>dn_active := AList.update (lr_lease_id r) (a\<lparr>ai_expires_at := lr_expires_at r\<rparr>) (dn_active s)\<rparr>))"

definition apply_stop :: "id \<Rightarrow> daemon \<Rightarrow> daemon" where
  "apply_stop l s =
     (case map_of (dn_active s) l of
        None \<Rightarrow> s
      | Some a \<Rightarrow> s\<lparr>dn_active := AList.update l (a\<lparr>ai_cancelled := True\<rparr>) (dn_active s)\<rparr>)"

definition update_server_time :: "time \<Rightarrow> time \<Rightarrow> daemon \<Rightarrow> daemon" where
  "update_server_time server_time started s = s\<lparr>dn_offset := server_time - started\<rparr>"

definition apply_heartbeat :: "heartbeat_response \<Rightarrow> time \<Rightarrow> daemon \<Rightarrow> daemon" where
  "apply_heartbeat r started s =
     (let s0 = update_server_time (hr_server_time r) started (s\<lparr>dn_heartbeat_started := None\<rparr>) in
      case apply_renewals (hr_renewals r) s0 of
        (False, s1) \<Rightarrow> cancel_all s1
      | (True, s1) \<Rightarrow> fold apply_stop (hr_stop_lease_ids r) s1)"

definition watchdog :: "time \<Rightarrow> daemon \<Rightarrow> daemon" where
  "watchdog now s =
     s\<lparr>dn_active := map (\<lambda>(l, a). (l, if ai_expires_at a \<le> now + dn_offset s then a\<lparr>ai_cancelled := True\<rparr> else a)) (dn_active s)\<rparr>"


section \<open>The steps of the process\<close>

text \<open>
  One step with the messages it sends. A request is sent again while its call fails in a way that is
  retried. The coordinator grants every lease to one request, so the identifier of a lease is new to
  the worker; any clock value may be read.
\<close>

inductive daemon_step :: "worker_config \<Rightarrow> worker_registration \<Rightarrow> daemon \<times> message list \<Rightarrow> daemon \<times> message list \<Rightarrow> bool"
  for c reg where
  ask: "i < length (dn_slots s) \<Longrightarrow> dn_slots s ! i = Idle \<Longrightarrow> \<not> dn_stop s \<Longrightarrow> \<not> lease_locked s \<Longrightarrow> 1 \<le> free_slots c s \<Longrightarrow>
    OpaqueId request_id \<Longrightarrow> list_all OpaqueId loaded \<Longrightarrow> distinct loaded \<Longrightarrow> q = lease_request_of c reg request_id loaded now s \<Longrightarrow>
    daemon_step c reg (s, ms) (set_slot i (Asking q) (s\<lparr>dn_previous := lq_sent_at q\<rparr>), ms @ [Lease_Request q])"
| ask_again: "i < length (dn_slots s) \<Longrightarrow> dn_slots s ! i = Asking q \<Longrightarrow> \<not> dn_stop s \<Longrightarrow>
    daemon_step c reg (s, ms) (s, ms @ [Lease_Request q])"
| leased: "i < length (dn_slots s) \<Longrightarrow> dn_slots s ! i = Asking q \<Longrightarrow>
    (case answer of None \<Rightarrow> True | Some l \<Rightarrow> InferenceLease l \<and> il_lease_id l \<notin> fst ` set (dn_active s)) \<Longrightarrow>
    daemon_step c reg (s, ms) (take_lease reg i answer now s, ms)"
| lease_refused: "i < length (dn_slots s) \<Longrightarrow> dn_slots s ! i = Asking q \<Longrightarrow>
    daemon_step c reg (s, ms) (cancel_all (set_slot i Idle s), ms)"
| prepared: "i < length (dn_slots s) \<Longrightarrow> dn_slots s ! i = Preparing l \<Longrightarrow>
    daemon_step c reg (s, ms) (continue_serving i l None s, ms)"
| not_prepared: "i < length (dn_slots s) \<Longrightarrow> dn_slots s ! i = Preparing l \<Longrightarrow>
    daemon_step c reg (s, ms) (cancel_all (leave_slot i l s), ms)"
| exchange: "i < length (dn_slots s) \<Longrightarrow> dn_slots s ! i = Exchanging l reply \<Longrightarrow> \<not> dn_stop s \<Longrightarrow>
    daemon_step c reg (s, ms) (s, ms @ [Exchange (exchange_of c reg l reply)])"
| exchanged: "i < length (dn_slots s) \<Longrightarrow> dn_slots s ! i = Exchanging l reply \<Longrightarrow> InferenceExchangeResponse r \<Longrightarrow>
    daemon_step c reg (s, ms) (take_answer i l r s, ms)"
| exchange_refused: "i < length (dn_slots s) \<Longrightarrow> dn_slots s ! i = Exchanging l reply \<Longrightarrow>
    daemon_step c reg (s, ms) (cancel_all (leave_slot i l s), ms)"
| generated: "i < length (dn_slots s) \<Longrightarrow> dn_slots s ! i = Generating l q \<Longrightarrow>
    daemon_step c reg (s, ms) (continue_serving i l (Some (local_reply c failure q answer)) s, ms)"
| beat: "dn_heartbeat_started s = None \<Longrightarrow> \<not> dn_stop s \<Longrightarrow> list_all OpaqueId loaded \<Longrightarrow> distinct loaded \<Longrightarrow>
    h = heartbeat_of reg loaded now s \<Longrightarrow>
    daemon_step c reg (s, ms) (s\<lparr>dn_previous := hb_sent_at h, dn_heartbeat_started := Some started\<rparr>, ms @ [Heartbeat h])"
| heard: "dn_heartbeat_started s = Some started \<Longrightarrow> WorkerHeartbeatResponse r \<Longrightarrow>
    daemon_step c reg (s, ms) (apply_heartbeat r started s, ms)"
| not_heard: "dn_heartbeat_started s = Some started \<Longrightarrow>
    daemon_step c reg (s, ms) (s\<lparr>dn_heartbeat_started := None\<rparr>, ms)"
| watch: "\<not> dn_stop s \<Longrightarrow> daemon_step c reg (s, ms) (watchdog now s, ms)"
| stop: "daemon_step c reg (s, ms) (cancel_all s, ms)"

inductive_cases daemon_stepE: "daemon_step c reg (s, ms) (s', ms')"

section \<open>What holds in every state\<close>

definition message_valid :: "worker_config \<Rightarrow> message \<Rightarrow> bool" where
  "message_valid c m =
     (case m of
        Lease_Request q \<Rightarrow> LeaseRequest q \<and> lq_available_slots q \<le> wk_inference_slots c
      | Heartbeat h \<Rightarrow> WorkerHeartbeat h
      | Exchange x \<Rightarrow> InferenceExchangeRequest x)"

fun lease_requests_of :: "message list \<Rightarrow> lease_request list" where
  "lease_requests_of [] = []"
| "lease_requests_of (Lease_Request q # ms) = q # lease_requests_of ms"
| "lease_requests_of (_ # ms) = lease_requests_of ms"

fun heartbeats_of :: "message list \<Rightarrow> worker_heartbeat list" where
  "heartbeats_of [] = []"
| "heartbeats_of (Heartbeat h # ms) = h # heartbeats_of ms"
| "heartbeats_of (_ # ms) = heartbeats_of ms"

text \<open>The coordinator refuses a time that is not later than the last one, unless it has seen the request.\<close>

definition in_order :: "message list \<Rightarrow> bool" where
  "in_order ms \<longleftrightarrow>
     sorted_wrt (\<lambda>q q'. q' = q \<or> lq_sent_at q < lq_sent_at q') (lease_requests_of ms) \<and>
     sorted_wrt (\<lambda>h h'. hb_sent_at h < hb_sent_at h') (heartbeats_of ms)"

fun held :: "slot \<Rightarrow> id option" where
  "held (Preparing l) = Some l"
| "held (Exchanging l _) = Some l"
| "held (Generating l _) = Some l"
| "held _ = None"

definition held_leases :: "slot list \<Rightarrow> id list" where
  "held_leases xs = List.map_filter held xs"

fun slot_ok :: "message list \<Rightarrow> slot \<Rightarrow> bool" where
  "slot_ok ms (Asking q) = (LeaseRequest q \<and> Lease_Request q \<in> set ms \<and>
     (\<forall>q' \<in> set (lease_requests_of ms). q' = q \<or> lq_sent_at q' < lq_sent_at q))"
| "slot_ok ms (Exchanging l (Some r)) = InferenceReply r"
| "slot_ok ms (Generating l q) = InferenceRequest q"
| "slot_ok ms _ = True"

text \<open>The leases the worker serves, without their expiry and cancellation.\<close>

definition leases_of :: "daemon \<Rightarrow> (id \<times> inference_lease) list" where
  "leases_of s = map (\<lambda>(l, a). (l, ai_lease a)) (dn_active s)"

definition leases_ok :: "worker_registration \<Rightarrow> slot list \<Rightarrow> (id \<times> inference_lease) list \<Rightarrow> bool" where
  "leases_ok reg slots leases \<longleftrightarrow>
     mset (map fst leases) = mset (held_leases slots) \<and> distinct (map fst leases) \<and>
     (\<forall>(l, x) \<in> set leases. InferenceLease x \<and> il_lease_id x = l \<and> validate_lease reg x)"

definition messages_ok :: "worker_config \<Rightarrow> slot list \<Rightarrow> time \<Rightarrow> message list \<Rightarrow> bool" where
  "messages_ok c slots previous ms \<longleftrightarrow>
     list_all (slot_ok ms) slots \<and> list_all (message_valid c) ms \<and> in_order ms \<and> 0 \<le> previous \<and>
     (\<forall>q \<in> set (lease_requests_of ms). lq_sent_at q \<le> previous) \<and> (\<forall>h \<in> set (heartbeats_of ms). hb_sent_at h \<le> previous)"

definition daemon_ok :: "worker_config \<Rightarrow> worker_registration \<Rightarrow> daemon \<times> message list \<Rightarrow> bool" where
  "daemon_ok c reg st \<longleftrightarrow>
     (case st of (s, ms) \<Rightarrow>
        length (dn_slots s) = wk_inference_slots c \<and> leases_ok reg (dn_slots s) (leases_of s) \<and>
        messages_ok c (dn_slots s) (dn_previous s) ms)"

subsection \<open>Leases\<close>

definition of_option :: "'a option \<Rightarrow> 'a multiset" where
  "of_option x = (case x of None \<Rightarrow> {#} | Some y \<Rightarrow> {#y#})"

lemma of_option_simps [simp]: "of_option None = {#}" "of_option (Some y) = {#y#}"
  by (simp_all add: of_option_def)

lemma held_leases_Cons [simp]: "held_leases [] = []"
  "held_leases (x # xs) = (case held x of None \<Rightarrow> held_leases xs | Some l \<Rightarrow> l # held_leases xs)"
  by (simp_all add: held_leases_def List.map_filter_def split: option.split)

lemma held_leases_update:
  "i < length xs \<Longrightarrow> mset (held_leases (xs[i := x])) + of_option (held (xs ! i)) = mset (held_leases xs) + of_option (held x)"
proof (induction xs arbitrary: i)
  case (Cons y xs)
  show ?case
  proof (cases i)
    case 0
    then show ?thesis by (simp split: option.split)
  next
    case (Suc j)
    with Cons.IH [of j] Cons.prems show ?thesis by (simp split: option.split)
  qed
qed simp

lemma held_same: "i < length xs \<Longrightarrow> held x = held (xs ! i) \<Longrightarrow> mset (held_leases (xs[i := x])) = mset (held_leases xs)"
  using held_leases_update [of i xs x] by simp

lemma leases_of_keys: "map fst (leases_of s) = map fst (dn_active s)"
  by (simp add: leases_of_def case_prod_unfold)

lemma leases_of_updates [simp]:
  "leases_of (set_slot i x s) = leases_of s" "leases_of (s\<lparr>dn_previous := t\<rparr>) = leases_of s"
  "leases_of (s\<lparr>dn_heartbeat_started := h\<rparr>) = leases_of s" "leases_of (s\<lparr>dn_offset := t\<rparr>) = leases_of s"
  "leases_of (cancel_all s) = leases_of s" "leases_of (watchdog now s) = leases_of s"
  by (auto simp: leases_of_def set_slot_def cancel_all_def watchdog_def)

lemma dn_slots_updates [simp]:
  "dn_slots (set_slot i x s) = (dn_slots s)[i := x]" "dn_slots (cancel_all s) = dn_slots s" "dn_slots (watchdog now s) = dn_slots s"
  by (simp_all add: set_slot_def cancel_all_def watchdog_def)

lemma dn_previous_updates [simp]:
  "dn_previous (set_slot i x s) = dn_previous s" "dn_previous (cancel_all s) = dn_previous s" "dn_previous (watchdog now s) = dn_previous s"
  by (simp_all add: set_slot_def cancel_all_def watchdog_def)

lemma leases_of_update_same:
  "map_of (dn_active s) l = Some a \<Longrightarrow> ai_lease a' = ai_lease a \<Longrightarrow>
     leases_of (s\<lparr>dn_active := AList.update l a' (dn_active s)\<rparr>) = leases_of s"
proof -
  have "map_of al l = Some a \<Longrightarrow> ai_lease a' = ai_lease a \<Longrightarrow>
      map (\<lambda>(l, a). (l, ai_lease a)) (AList.update l a' al) = map (\<lambda>(l, a). (l, ai_lease a)) al" for al
    by (induction al) (auto split: if_splits)
  then show "map_of (dn_active s) l = Some a \<Longrightarrow> ai_lease a' = ai_lease a \<Longrightarrow> ?thesis" by (simp add: leases_of_def)
qed

text \<open>A heartbeat changes expiry times and cancellations only.\<close>

definition same_service :: "daemon \<Rightarrow> daemon \<Rightarrow> bool" where
  "same_service s s' \<longleftrightarrow> dn_slots s' = dn_slots s \<and> leases_of s' = leases_of s \<and> dn_previous s' = dn_previous s"

lemma apply_renewals_same: "apply_renewals rs s = (ok, s') \<Longrightarrow> same_service s s'"
proof (induction rs arbitrary: s)
  case (Cons r rs)
  show ?case
  proof (cases "map_of (dn_active s) (lr_lease_id r)")
    case None
    with Cons show ?thesis by simp
  next
    case (Some a)
    with Cons.prems Cons.IH [of "s\<lparr>dn_active := AList.update (lr_lease_id r) (a\<lparr>ai_expires_at := lr_expires_at r\<rparr>) (dn_active s)\<rparr>"]
      leases_of_update_same [OF Some]
    show ?thesis by (auto simp: same_service_def split: if_splits)
  qed
qed (simp add: same_service_def)

lemma apply_stops_same: "same_service s (fold apply_stop ls s)"
proof (induction ls arbitrary: s)
  case (Cons l ls)
  have "same_service s (apply_stop l s)"
    using leases_of_update_same by (auto simp: apply_stop_def same_service_def split: option.split)
  with Cons [of "apply_stop l s"] show ?case by (simp add: same_service_def)
qed (simp add: same_service_def)

lemma apply_heartbeat_same: "same_service s (apply_heartbeat r started s)"
proof -
  let ?s0 = "update_server_time (hr_server_time r) started (s\<lparr>dn_heartbeat_started := None\<rparr>)"
  have 0: "same_service s ?s0" by (simp add: same_service_def update_server_time_def)
  obtain ok s1 where r: "apply_renewals (hr_renewals r) ?s0 = (ok, s1)" by fastforce
  from apply_renewals_same [OF r] 0 have 1: "same_service s s1" by (simp add: same_service_def)
  show ?thesis
  proof (cases ok)
    case True
    with r 1 apply_stops_same [of s1 "hr_stop_lease_ids r"] show ?thesis by (simp add: apply_heartbeat_def Let_def same_service_def)
  next
    case False
    with r 1 show ?thesis by (simp add: apply_heartbeat_def Let_def same_service_def)
  qed
qed

lemma leases_ok_cong: "mset (held_leases xs') = mset (held_leases xs) \<Longrightarrow> leases_ok reg xs ls \<Longrightarrow> leases_ok reg xs' ls"
  by (simp add: leases_ok_def)

lemma leases_ok_added:
  assumes "leases_ok reg xs ls" "i < length xs" "held (xs ! i) = None" "held x = Some l" "l \<notin> fst ` set ls"
    and "InferenceLease y" "il_lease_id y = l" "validate_lease reg y"
  shows "leases_ok reg (xs[i := x]) (ls @ [(l, y)])"
  using assms held_leases_update [of i xs x] by (auto simp: leases_ok_def)

lemma leases_ok_removed:
  assumes "leases_ok reg xs ls" "i < length xs" "held (xs ! i) = Some l" "held x = None"
  shows "leases_ok reg (xs[i := x]) (filter (\<lambda>(k, _). k \<noteq> l) ls)"
proof -
  have keys: "map fst (filter (\<lambda>(k, _). k \<noteq> l) ls) = filter (\<lambda>k. k \<noteq> l) (map fst ls)"
    by (simp add: filter_map case_prod_unfold comp_def)
  have distinct: "distinct (map fst ls)" using assms(1) by (simp add: leases_ok_def)
  have all: "mset (map fst ls) = add_mset l (mset (held_leases (xs[i := x])))"
    using held_leases_update [OF assms(2), of x] assms(1,3,4) by (simp add: leases_ok_def)
  have "mset (filter (\<lambda>k. k \<noteq> l) (map fst ls)) = filter_mset (\<lambda>k. k \<noteq> l) (mset (map fst ls))" by simp
  also have "\<dots> = filter_mset (\<lambda>k. k \<noteq> l) (mset (held_leases (xs[i := x])))" unfolding all by simp
  also have "\<dots> = mset (held_leases (xs[i := x]))"
  proof -
    have "distinct (l # held_leases (xs[i := x]))" using all distinct by (metis mset.simps(2) mset_eq_imp_distinct_iff)
    then have "filter (\<lambda>k. k \<noteq> l) (held_leases (xs[i := x])) = held_leases (xs[i := x])" by (auto simp: filter_id_conv)
    then show ?thesis by (metis mset_filter)
  qed
  finally have "mset (held_leases (xs[i := x])) = mset (filter (\<lambda>k. k \<noteq> l) (map fst ls))" by simp
  with keys assms(1) show ?thesis by (auto simp: leases_ok_def distinct_map_filter simp del: set_map)
qed


subsection \<open>Messages\<close>

lemma sent_append [simp]: "lease_requests_of (ms @ ms') = lease_requests_of ms @ lease_requests_of ms'"
  "heartbeats_of (ms @ ms') = heartbeats_of ms @ heartbeats_of ms'"
  by (induction ms rule: lease_requests_of.induct; simp) (induction ms rule: heartbeats_of.induct; simp)

lemma set_lease_requests: "q \<in> set (lease_requests_of ms) \<longleftrightarrow> Lease_Request q \<in> set ms"
  by (induction ms rule: lease_requests_of.induct) auto

lemma next_timestamp_later: "previous < next_timestamp now previous"
  by (simp add: next_timestamp_def less_max_iff_disj)

lemma slot_ok_cong:
  assumes "set (lease_requests_of ms') = set (lease_requests_of ms)"
  shows "slot_ok ms' = slot_ok ms"
proof
  fix x
  show "slot_ok ms' x = slot_ok ms x" using assms
    by (cases "(ms, x)" rule: slot_ok.cases) (simp_all flip: set_lease_requests)
qed

lemma messages_ok_slot:
  assumes "messages_ok c xs p ms" "slot_ok ms x"
  shows "messages_ok c (xs[i := x]) p ms"
  using assms set_update_subset_insert [of xs i x] by (auto simp: messages_ok_def list.pred_set)

lemma messages_ok_sent:
  assumes "messages_ok c xs p ms" "message_valid c m" "lease_requests_of [m] = []" "heartbeats_of [m] = []"
  shows "messages_ok c xs p (ms @ [m])"
proof -
  have "slot_ok (ms @ [m]) = slot_ok ms" using assms(3) by (intro slot_ok_cong) simp
  with assms show ?thesis by (simp add: messages_ok_def in_order_def)
qed

lemma messages_ok_beat:
  assumes "messages_ok c xs p ms" "WorkerHeartbeat h" "p < hb_sent_at h"
  shows "messages_ok c xs (hb_sent_at h) (ms @ [Heartbeat h])"
proof -
  have same: "slot_ok (ms @ [Heartbeat h]) = slot_ok ms" by (intro slot_ok_cong) simp
  have "\<forall>q \<in> set (lease_requests_of ms). lq_sent_at q \<le> hb_sent_at h" "\<forall>h' \<in> set (heartbeats_of ms). hb_sent_at h' < hb_sent_at h"
    using assms(1,3) by (auto simp: messages_ok_def dest!: bspec)
  with assms same show ?thesis
    by (auto simp: messages_ok_def in_order_def message_valid_def sorted_wrt_append)
qed

lemma messages_ok_again:
  assumes "messages_ok c xs p ms" "i < length xs" "xs ! i = Asking q"
  shows "messages_ok c xs p (ms @ [Lease_Request q])"
proof -
  have q: "slot_ok ms (Asking q)" using assms(1,2) unfolding assms(3) [symmetric] by (simp add: messages_ok_def list_all_length)
  then have sent: "q \<in> set (lease_requests_of ms)" by (simp add: set_lease_requests)
  then have "slot_ok (ms @ [Lease_Request q]) = slot_ok ms" by (intro slot_ok_cong) auto
  moreover have "message_valid c (Lease_Request q)" using q assms(1) by (auto simp: messages_ok_def list.pred_set)
  ultimately show ?thesis using assms(1) q sent
    by (auto simp: messages_ok_def in_order_def sorted_wrt_append)
qed

lemma messages_ok_ask:
  assumes "messages_ok c xs p ms" "message_valid c (Lease_Request q)" "p < lq_sent_at q"
    and "\<not> list_ex (\<lambda>x. case x of Asking _ \<Rightarrow> True | _ \<Rightarrow> False) xs"
  shows "messages_ok c (xs[i := Asking q]) (lq_sent_at q) (ms @ [Lease_Request q])"
proof -
  have earlier: "\<forall>q' \<in> set (lease_requests_of ms). lq_sent_at q' < lq_sent_at q"
    "\<forall>h \<in> set (heartbeats_of ms). hb_sent_at h \<le> lq_sent_at q"
    using assms(1,3) by (auto simp: messages_ok_def dest!: bspec)
  have "slot_ok (ms @ [Lease_Request q]) x" if "x \<in> set xs" for x
  proof -
    have "slot_ok ms x" "\<not> (case x of Asking _ \<Rightarrow> True | _ \<Rightarrow> False)"
      using that assms(1,4) by (auto simp: messages_ok_def list.pred_set list_ex_iff)
    then show ?thesis by (cases "(ms, x)" rule: slot_ok.cases) auto
  qed
  moreover have "slot_ok (ms @ [Lease_Request q]) (Asking q)" using assms(2) earlier(1) by (auto simp: message_valid_def)
  ultimately have "list_all (slot_ok (ms @ [Lease_Request q])) (xs[i := Asking q])"
    using set_update_subset_insert [of xs i "Asking q"] by (auto simp: list.pred_set)
  with assms earlier show ?thesis by (auto simp: messages_ok_def in_order_def sorted_wrt_append)
qed

lemma local_reply_valid: "OpaqueId (iq_request_id q) \<Longrightarrow> InferenceReply (local_reply c failure q answer)"
  by (simp add: local_reply_def failed_reply_def InferenceReply_def Let_def split: option.split)

subsection \<open>Every step keeps the invariant\<close>

lemma daemon_okI:
  assumes "length (dn_slots s) = wk_inference_slots c" "leases_ok reg (dn_slots s) (leases_of s)"
    "messages_ok c (dn_slots s) (dn_previous s) ms"
  shows "daemon_ok c reg (s, ms)"
  using assms by (simp add: daemon_ok_def)

lemma daemon_okD:
  assumes "daemon_ok c reg (s, ms)"
  shows "length (dn_slots s) = wk_inference_slots c" "leases_ok reg (dn_slots s) (leases_of s)"
    "messages_ok c (dn_slots s) (dn_previous s) ms"
  using assms by (simp_all add: daemon_ok_def)

lemma cancel_all_ok: "daemon_ok c reg (s, ms) \<Longrightarrow> daemon_ok c reg (cancel_all s, ms)"
  by (simp add: daemon_ok_def)

lemma same_service_ok: "same_service s s' \<Longrightarrow> daemon_ok c reg (s, ms) \<Longrightarrow> daemon_ok c reg (s', ms)"
  by (simp add: daemon_ok_def same_service_def)

lemma set_slot_ok:
  assumes "daemon_ok c reg (s, ms)" "i < length (dn_slots s)" "held x = held (dn_slots s ! i)" "slot_ok ms x"
  shows "daemon_ok c reg (set_slot i x s, ms)"
  using daemon_okD [OF assms(1)] assms(2,4) leases_ok_cong [OF held_same [OF assms(2,3)]]
  by (intro daemon_okI) (auto intro: messages_ok_slot)

lemma leave_slot_ok:
  assumes "daemon_ok c reg (s, ms)" "i < length (dn_slots s)" "held (dn_slots s ! i) = Some l"
  shows "daemon_ok c reg (leave_slot i l s, ms)"
proof -
  have "leases_of (leave_slot i l s) = filter (\<lambda>(k, _). k \<noteq> l) (leases_of s)"
    by (simp add: leave_slot_def leases_of_def set_slot_def AList.delete_eq filter_map comp_def case_prod_unfold)
      (auto intro!: arg_cong [where f = "map _"] filter_cong)
  with daemon_okD [OF assms(1)] assms(2,3) leases_ok_removed [of reg "dn_slots s" "leases_of s" i l Idle] show ?thesis
    by (intro daemon_okI) (auto simp: leave_slot_def set_slot_def intro: messages_ok_slot)
qed

lemma continue_ok:
  assumes "daemon_ok c reg (s, ms)" "i < length (dn_slots s)" "held (dn_slots s ! i) = Some l"
    and "\<And>r. reply = Some r \<Longrightarrow> InferenceReply r"
  shows "daemon_ok c reg (continue_serving i l reply s, ms)"
proof -
  have "slot_ok ms (Exchanging l reply)" using assms(4) by (cases reply) auto
  with assms leave_slot_ok [OF assms(1-3)] show ?thesis by (auto simp: continue_serving_def intro: set_slot_ok)
qed

lemma take_answer_ok:
  assumes "daemon_ok c reg (s, ms)" "i < length (dn_slots s)" "held (dn_slots s ! i) = Some l" "InferenceExchangeResponse r"
  shows "daemon_ok c reg (take_answer i l r s, ms)"
proof (cases "xr_action r")
  case Act_request
  with assms(4) obtain q where q: "xr_request r = Some q" "InferenceRequest q"
    by (auto simp: InferenceExchangeResponse_def split: option.splits)
  with Act_request assms show ?thesis by (auto simp: take_answer_def intro: set_slot_ok)
qed (use leave_slot_ok [OF assms(1-3)] continue_ok [OF assms(1-3), of None] in \<open>simp_all add: take_answer_def\<close>)

lemma take_lease_ok:
  assumes ok: "daemon_ok c reg (s, ms)" and i: "i < length (dn_slots s)" "dn_slots s ! i = Asking q"
    and answer: "case answer of None \<Rightarrow> True | Some l \<Rightarrow> InferenceLease l \<and> il_lease_id l \<notin> fst ` set (dn_active s)"
  shows "daemon_ok c reg (take_lease reg i answer now s, ms)"
proof -
  have idle: "daemon_ok c reg (set_slot i Idle s, ms)" using i by (intro set_slot_ok [OF ok]) simp_all
  show ?thesis
  proof (cases answer)
    case None
    with idle show ?thesis by (simp add: take_lease_def)
  next
    case (Some l)
    let ?a = "\<lparr>ai_lease = l, ai_cancelled = False, ai_expires_at = il_expires_at l\<rparr>"
    let ?s = "s\<lparr>dn_active := AList.update (il_lease_id l) ?a (dn_active s)\<rparr>"
    from Some answer have new: "il_lease_id l \<notin> fst ` set (dn_active s)" and valid: "InferenceLease l" by auto
    have "AList.update (il_lease_id l) ?a al = al @ [(il_lease_id l, ?a)]" if "il_lease_id l \<notin> fst ` set al" for al
      using that by (induction al) auto
    with new have leases: "leases_of ?s = leases_of s @ [(il_lease_id l, l)]" by (simp add: leases_of_def)
    have absent: "il_lease_id l \<notin> fst ` set (leases_of s)" using new leases_of_keys [of s] by (metis list.set_map)
    have "daemon_ok c reg (set_slot i (Preparing (il_lease_id l)) ?s, ms)" if "validate_lease reg l"
      using daemon_okD [OF ok] i leases valid absent that
      by (intro daemon_okI) (auto intro: messages_ok_slot leases_ok_added)
    with Some idle cancel_all_ok [OF idle] show ?thesis by (simp add: take_lease_def)
  qed
qed

text \<open>Leases are counted by the slots that hold them, so an idle slot means a free one.\<close>

lemma active_bound:
  assumes "daemon_ok c reg (s, ms)"
  shows "length (dn_active s) \<le> wk_inference_slots c"
proof -
  have "mset (map fst (leases_of s)) = mset (held_leases (dn_slots s))"
    using daemon_okD(2) [OF assms] by (simp add: leases_ok_def)
  then have "length (map fst (leases_of s)) = length (held_leases (dn_slots s))" by (rule mset_eq_length)
  moreover have "length (held_leases xs) \<le> length xs" for xs by (induction xs) (auto split: option.split)
  ultimately show ?thesis using daemon_okD(1) [OF assms] leases_of_keys [of s] by (metis length_map)
qed


lemma held_valid:
  assumes "daemon_ok c reg (s, ms)" "i < length (dn_slots s)" "held (dn_slots s ! i) = Some l"
  shows "OpaqueId l"
proof -
  have "l \<in> set (held_leases xs)" if "x \<in> set xs" "held x = Some l" for x xs
    using that by (induction xs) (auto split: option.split)
  then have "l \<in> set (held_leases (dn_slots s))" using assms(2,3) nth_mem by blast
  moreover have "set (map fst (leases_of s)) = set (held_leases (dn_slots s))"
    using daemon_okD(2) [OF assms(1)] by (intro mset_eq_setD) (simp add: leases_ok_def)
  ultimately have "l \<in> fst ` set (leases_of s)" by simp
  then obtain x where "(l, x) \<in> set (leases_of s)" by auto
  then show ?thesis using daemon_okD(2) [OF assms(1)] by (auto simp: leases_ok_def InferenceLease_def)
qed

lemma active_valid:
  assumes "daemon_ok c reg (s, ms)"
  shows "list_all OpaqueId (map fst (dn_active s))" "distinct (map fst (dn_active s))"
proof -
  have "leases_ok reg (dn_slots s) (leases_of s)" by (rule daemon_okD(2) [OF assms])
  then have "list_all OpaqueId (map fst (leases_of s))" "distinct (map fst (leases_of s))"
    by (auto simp: leases_ok_def InferenceLease_def list.pred_set)
  then show "list_all OpaqueId (map fst (dn_active s))" "distinct (map fst (dn_active s))" by (simp_all only: leases_of_keys)
qed

lemma sorted_ids_valid: "list_all OpaqueId xs \<Longrightarrow> distinct xs \<Longrightarrow> list_all OpaqueId (sort xs) \<and> validate_sorted_unique (sort xs)"
  by (simp add: validate_sorted_unique_iff list.pred_set)

lemma heartbeat_of_valid:
  assumes "daemon_ok c reg (s, ms)" "WorkerRegistration reg" "list_all OpaqueId loaded" "distinct loaded"
  shows "WorkerHeartbeat (heartbeat_of reg loaded now s)" "dn_previous s < hb_sent_at (heartbeat_of reg loaded now s)"
proof -
  show later: "dn_previous s < hb_sent_at (heartbeat_of reg loaded now s)" by (simp add: heartbeat_of_def next_timestamp_later)
  have "0 \<le> dn_previous s" using daemon_okD(3) [OF assms(1)] by (simp add: messages_ok_def)
  with later sorted_ids_valid [OF active_valid [OF assms(1)]] sorted_ids_valid [OF assms(3,4)] assms(2)
  show "WorkerHeartbeat (heartbeat_of reg loaded now s)"
    by (simp add: WorkerHeartbeat_def heartbeat_of_def WorkerRegistration_def Timestamp_def)
qed

lemma lease_request_of_valid:
  assumes "daemon_ok c reg (s, ms)" "WorkerConfig c" "WorkerRegistration reg" "OpaqueId rid" "list_all OpaqueId loaded" "distinct loaded"
    and "1 \<le> free_slots c s"
  shows "message_valid c (Lease_Request (lease_request_of c reg rid loaded now s))"
    "dn_previous s < lq_sent_at (lease_request_of c reg rid loaded now s)"
proof -
  show later: "dn_previous s < lq_sent_at (lease_request_of c reg rid loaded now s)"
    by (simp add: lease_request_of_def next_timestamp_later)
  have "0 \<le> dn_previous s" using daemon_okD(3) [OF assms(1)] by (simp add: messages_ok_def)
  moreover have "1 \<le> nat (free_slots c s)" "nat (free_slots c s) \<le> wk_inference_slots c"
    using assms(7) by (simp_all add: free_slots_def)
  ultimately show "message_valid c (Lease_Request (lease_request_of c reg rid loaded now s))"
    using later sorted_ids_valid [OF assms(5,6)] assms(2-4)
    by (simp add: message_valid_def LeaseRequest_def lease_request_of_def WorkerRegistration_def WorkerConfig_def worker_fields_def Timestamp_def)
qed

lemma exchange_of_valid:
  assumes "daemon_ok c reg (s, ms)" "WorkerConfig c" "WorkerRegistration reg" "i < length (dn_slots s)" "dn_slots s ! i = Exchanging l reply"
  shows "message_valid c (Exchange (exchange_of c reg l reply))"
proof -
  have "OpaqueId l" using held_valid [OF assms(1,4)] assms(5) by simp
  moreover have "slot_ok ms (Exchanging l reply)"
    using daemon_okD(3) [OF assms(1)] assms(4) unfolding assms(5) [symmetric] by (simp add: messages_ok_def list_all_length)
  ultimately show ?thesis using assms(2,3)
    by (cases reply) (simp_all add: message_valid_def InferenceExchangeRequest_def exchange_of_def WorkerRegistration_def WorkerConfig_def worker_fields_def)
qed

lemma daemon_step_ok:
  assumes "daemon_ok c reg st" "daemon_step c reg st st'" and valid: "WorkerConfig c" "WorkerRegistration reg"
  shows "daemon_ok c reg st'"
  using assms(2,1)
proof (cases rule: daemon_step.cases)
  case (ask i s request_id loaded q now ms)
  have ok: "daemon_ok c reg (s, ms)" using assms(1) ask by simp
  note q = lease_request_of_valid [OF ok valid ask(8-10,7), of now]
  have "held (dn_slots s ! i) = held (Asking q)" using ask(4) by simp
  then have "leases_ok reg ((dn_slots s)[i := Asking q]) (leases_of s)"
    using daemon_okD(2) [OF ok] ask(3) by (intro leases_ok_cong [OF held_same]) simp_all
  moreover have "messages_ok c ((dn_slots s)[i := Asking q]) (lq_sent_at q) (ms @ [Lease_Request q])"
    using q ask(6,11) daemon_okD(3) [OF ok] by (intro messages_ok_ask) (simp_all add: lease_locked_def)
  ultimately show ?thesis using daemon_okD(1) [OF ok] ask(2) by (auto intro!: daemon_okI simp: set_slot_def leases_of_def)
next
  case (ask_again i s q ms)
  then have ok: "daemon_ok c reg (s, ms)" using assms(1) by simp
  with ask_again messages_ok_again [OF daemon_okD(3) [OF ok]] show ?thesis by (auto intro!: daemon_okI dest: daemon_okD)
next
  case (leased i s q answer ms now)
  then show ?thesis using assms(1) by (auto intro: take_lease_ok)
next
  case (lease_refused i s q ms)
  then show ?thesis using assms(1) by (auto intro!: cancel_all_ok set_slot_ok)
next
  case (prepared i s l ms)
  then show ?thesis using assms(1) by (auto intro!: continue_ok)
next
  case (not_prepared i s l ms)
  then show ?thesis using assms(1) by (auto intro!: cancel_all_ok leave_slot_ok)
next
  case (exchange i s l reply ms)
  then have ok: "daemon_ok c reg (s, ms)" using assms(1) by simp
  have "messages_ok c (dn_slots s) (dn_previous s) (ms @ [Exchange (exchange_of c reg l reply)])"
    using exchange_of_valid [OF ok valid exchange(3,4)] daemon_okD(3) [OF ok] by (intro messages_ok_sent) simp_all
  with exchange daemon_okD(1,2) [OF ok] show ?thesis by (auto intro!: daemon_okI)
next
  case (exchanged i s l reply r ms)
  then show ?thesis using assms(1) by (auto intro!: take_answer_ok)
next
  case (exchange_refused i s l reply ms)
  then show ?thesis using assms(1) by (auto intro!: cancel_all_ok leave_slot_ok)
next
  case (generated i s l q ms failure answer)
  then have ok: "daemon_ok c reg (s, ms)" using assms(1) by simp
  have "slot_ok ms (dn_slots s ! i)" using daemon_okD(3) [OF ok] generated(3) by (simp add: messages_ok_def list_all_length)
  then have "InferenceReply (local_reply c failure q answer)"
    using generated(4) by (intro local_reply_valid) (simp add: InferenceRequest_def)
  with generated ok show ?thesis by (auto intro!: continue_ok)
next
  case (beat s loaded h now ms started)
  then have ok: "daemon_ok c reg (s, ms)" using assms(1) by simp
  note h = heartbeat_of_valid [OF ok valid(2) beat(5,6), of now]
  have "messages_ok c (dn_slots s) (hb_sent_at h) (ms @ [Heartbeat h])"
    using h beat(7) daemon_okD(3) [OF ok] by (intro messages_ok_beat) simp_all
  with beat daemon_okD(1,2) [OF ok] show ?thesis by (auto intro!: daemon_okI simp: leases_of_def)
next
  case (heard s started r ms)
  then have "daemon_ok c reg (s, ms)" using assms(1) by simp
  from same_service_ok [OF apply_heartbeat_same this] show ?thesis unfolding heard(2) .
next
  case (not_heard s started ms)
  then show ?thesis using assms(1) by (auto intro!: same_service_ok [of s] simp: same_service_def)
next
  case (watch s now ms)
  then show ?thesis using assms(1) by (auto intro!: same_service_ok [of s] simp: same_service_def)
next
  case (stop s ms)
  then show ?thesis using assms(1) by (auto intro!: cancel_all_ok)
qed

definition daemon_init :: "worker_config \<Rightarrow> worker_registration \<Rightarrow> daemon \<times> message list \<Rightarrow> bool" where
  "daemon_init c reg st \<longleftrightarrow> WorkerConfig c \<and> WorkerRegistration reg \<and> (\<exists>offset. st = (start_daemon c offset, []))"

lemma start_ok: "daemon_ok c reg (start_daemon c offset, [])"
proof -
  have "held_leases (replicate n Idle) = []" for n by (induction n) auto
  then show ?thesis
    by (simp add: daemon_ok_def start_daemon_def leases_ok_def messages_ok_def in_order_def leases_of_def list.pred_set)
qed

interpretation worker_process: invariant_system "daemon_init c reg" "daemon_step c reg"
    "\<lambda>st. WorkerConfig c \<and> WorkerRegistration reg \<and> daemon_ok c reg st"
  by unfold_locales (auto simp: daemon_init_def start_ok intro: daemon_step_ok)



section \<open>A concrete start\<close>

definition demo_config :: worker_config where
  "demo_config =
     \<lparr>wk_inference_slots = 2, wk_heartbeat_interval_seconds = 10, wk_lease_wait_seconds = 30,
      wk_inference_body_limit_bytes = 100, wk_retry_min_seconds = 1 / 2, wk_retry_max_seconds = 30\<rparr>"

definition demo_ask_lease :: lease_request where
  "demo_ask_lease = lease_request_of demo_config the_worker ''r1'' [] 5 (start_daemon demo_config 0)"

definition demo_asking :: daemon where
  "demo_asking = set_slot 0 (Asking demo_ask_lease) ((start_daemon demo_config 0)\<lparr>dn_previous := lq_sent_at demo_ask_lease\<rparr>)"

definition demo_beat :: worker_heartbeat where
  "demo_beat = heartbeat_of the_worker [''p''] 5 demo_asking"


text \<open>The loops wait no longer than the maximum, unless the coordinator says how long.\<close>

lemma retry_delays:
  assumes "delay \<le> wk_retry_max_seconds c" "0 < delay" "0 < wk_retry_max_seconds c"
    and "\<forall>status t. API_Failure status (Some t) \<in> set rs \<longrightarrow> 0 \<le> t \<and> t \<le> wk_retry_max_seconds c"
  shows "\<forall>t \<in> set (snd (retry_call c delay rs)). 0 \<le> t \<and> t \<le> wk_retry_max_seconds c"
  using assms
proof (induction rs arbitrary: delay)
  case (Cons r rs)
  let ?next = "min (delay * 2) (wk_retry_max_seconds c)"
  have "?next \<le> wk_retry_max_seconds c" "0 < ?next" using Cons.prems(2,3) by simp_all
  obtain e ds where rec: "retry_call c ?next rs = (e, ds)" by fastforce
  have rest: "\<forall>t \<in> set ds. 0 \<le> t \<and> t \<le> wk_retry_max_seconds c"
  proof -
    have "\<forall>status t. API_Failure status (Some t) \<in> set rs \<longrightarrow> 0 \<le> t \<and> t \<le> wk_retry_max_seconds c"
      using Cons.prems(4) by (meson list.set_intros(2))
    from Cons.IH [OF \<open>?next \<le> _\<close> \<open>0 < ?next\<close> Cons.prems(3) this] show ?thesis unfolding rec snd_conv .
  qed
  have now: "0 \<le> delay" "delay \<le> wk_retry_max_seconds c" using Cons.prems(1,2) by simp_all
  show ?case
  proof (cases r)
    case (API_Failure status after)
    have "\<forall>t. after = Some t \<longrightarrow> 0 \<le> t \<and> t \<le> wk_retry_max_seconds c" using Cons.prems(4) API_Failure by simp
    with rest now show ?thesis unfolding API_Failure retry_call.simps outcome.case rec by (cases after) simp_all
  qed (simp_all add: rec rest now del: min_less_iff_conj)
qed simp

end
