(* ===== verification/Conversion_Ops.thy ===== *)
theory Conversion_Ops
  imports Lora_Policy "HOL-Library.AList"
begin

text \<open>
  The invertible operators that convert a state dict between the HuggingFace and the training layout
  (\<open>trainer/models/conversion_ops.py\<close>). A state dict is an association list with the updates of a Python
  dictionary: a new key goes to the end and an old one keeps its place. Tensors are a type \<open>'t\<close> of
  their own, and the functions of torch that the operators call are a record.
\<close>

section \<open>State dicts and tensors\<close>

type_synonym 't weights = "(string \<times> 't) list"

text \<open>
  The functions of torch: \<open>t.shape[dim]\<close>, \<open>torch.stack\<close>, \<open>Tensor.select\<close>, \<open>Tensor.narrow\<close> and
  \<open>torch.cat\<close>. \<open>None\<close> is an exception.
\<close>

record 't torch =
  shape_at :: "'t \<Rightarrow> nat \<Rightarrow> nat option"
  stack_of :: "'t list \<Rightarrow> nat \<Rightarrow> 't option"
  select_of :: "'t \<Rightarrow> nat \<Rightarrow> nat \<Rightarrow> 't option"
  narrow_of :: "'t \<Rightarrow> nat \<Rightarrow> nat \<Rightarrow> nat \<Rightarrow> 't option"
  cat_of :: "'t list \<Rightarrow> nat \<Rightarrow> 't option"

text \<open>What the conversions rely on: stacking the slices of a tensor along a dimension gives the tensor.\<close>

definition torch_laws :: "'t torch \<Rightarrow> bool" where
  "torch_laws T \<longleftrightarrow>
     (\<forall>t d n. shape_at T t d = Some n \<longrightarrow> 0 < n \<longrightarrow>
        (\<exists>ts. length ts = n \<and> (\<forall>i < n. select_of T t d i = Some (ts ! i)) \<and> stack_of T ts d = Some t))"

definition checked :: "'e \<Rightarrow> 'a option \<Rightarrow> 'e + 'a" where
  "checked e x = (case x of None \<Rightarrow> Inl e | Some v \<Rightarrow> Inr v)"

lemma checked_simps [simp]: "checked e None = Inl e" "checked e (Some v) = Inr v"
  by (simp_all add: checked_def)

text \<open>\<open>sd[new] = sd.pop(old)\<close> where \<open>old\<close> is present.\<close>

definition rename_key :: "string \<Rightarrow> string \<Rightarrow> 't weights \<Rightarrow> 't weights" where
  "rename_key old new sd =
     (case map_of sd old of None \<Rightarrow> sd | Some t \<Rightarrow> AList.update new t (AList.delete old sd))"

text \<open>\<open>pattern.format(e=e)\<close> for a pattern whose only braces are those of \<open>{e}\<close>.\<close>

fun format_e :: "string \<Rightarrow> nat \<Rightarrow> string" where
  "format_e [] e = []"
| "format_e (c # cs) e =
     (if starts_with (c # cs) ''{e}'' then decimal e @ format_e (drop 2 cs) e else c # format_e cs e)"

section \<open>The operators\<close>

datatype 't conv_op =
    Rename string string
  | PrefixRename string string
  | Drop string bool
  | Stack string string nat nat
  | SplitConcat string "(string \<times> nat option) list" nat
  | Synthetic string "'t weights \<Rightarrow> 't"
  | MapValue string "'t \<Rightarrow> 't option" "'t \<Rightarrow> 't option"
  | SqueezeLeading string
  | Conditional "'t weights \<Rightarrow> bool" "'t conv_op list" "'t conv_op list"
  | Sequence "'t conv_op list"

definition swap_prefix :: "string \<Rightarrow> string \<Rightarrow> 't weights \<Rightarrow> 't weights" where
  "swap_prefix old new sd =
     fold (\<lambda>key. rename_key key (new @ drop (length old) key)) (filter (\<lambda>k. starts_with k old) (map fst sd)) sd"

definition dropped :: "string \<Rightarrow> bool \<Rightarrow> string \<Rightarrow> bool" where
  "dropped name is_prefix k \<longleftrightarrow> (if is_prefix then starts_with k name else k = name)"

definition drop_keys :: "string \<Rightarrow> bool \<Rightarrow> 't weights \<Rightarrow> 't weights" where
  "drop_keys name is_prefix sd =
     fold (\<lambda>key. AList.delete key) (filter (dropped name is_prefix) (map fst sd)) sd"

lemma length_delete_present: "map_of sd k = Some t \<Longrightarrow> length (AList.delete k sd) < length sd"
proof -
  assume "map_of sd k = Some t"
  then have "(k, t) \<in> set sd" by (rule map_of_SomeD)
  then show ?thesis by (simp add: AList.delete_eq length_filter_less [where x = "(k, t)"])
qed

function collect_items :: "string \<Rightarrow> nat \<Rightarrow> 't weights \<Rightarrow> 't list \<times> 't weights" where
  "collect_items item e sd =
     (case map_of sd (format_e item e) of
        None \<Rightarrow> ([], sd)
      | Some t \<Rightarrow>
          (let (ts, sd') = collect_items item (Suc e) (AList.delete (format_e item e) sd) in (t # ts, sd')))"
  by pat_completeness auto

termination
  by (relation "measure (\<lambda>(_, _, sd). length sd)") (auto intro: length_delete_present)

declare collect_items.simps [simp del]

definition stack_forward :: "'t torch \<Rightarrow> string \<Rightarrow> string \<Rightarrow> nat \<Rightarrow> 't weights \<Rightarrow> error + 't weights" where
  "stack_forward T stacked item axis sd =
     (case collect_items item 0 sd of
        ([], sd') \<Rightarrow> Inr sd'
      | (items, sd') \<Rightarrow> and_then (checked RuntimeError (stack_of T items axis)) (\<lambda>t. Inr (AList.update stacked t sd')))"

definition stack_backward ::
    "'t torch \<Rightarrow> string \<Rightarrow> string \<Rightarrow> nat \<Rightarrow> nat \<Rightarrow> 't weights \<Rightarrow> error + 't weights" where
  "stack_backward T stacked item axis index_offset sd =
     (case map_of sd stacked of
        None \<Rightarrow> Inr sd
      | Some t \<Rightarrow>
          and_then (checked IndexError (shape_at T t axis)) (\<lambda>n.
            fold_step
              (\<lambda>e sd. and_then (checked IndexError (select_of T t axis e))
                         (\<lambda>x. Inr (AList.update (format_e item (index_offset + e)) x sd)))
              [0..<n] (AList.delete stacked sd)))"

definition split_sizes :: "(string \<times> nat option) list \<Rightarrow> nat \<Rightarrow> error + nat list" where
  "split_sizes pieces n_total =
     (if list_all (\<lambda>p. snd p = None) pieces
      then (if pieces = [] then Inl ZeroDivisionError
            else if n_total mod length pieces \<noteq> 0 then Inl AssertionError
            else Inr (replicate (length pieces) (n_total div length pieces)))
      else each (\<lambda>p. checked TypeError (snd p)) pieces)"

definition split_forward ::
    "'t torch \<Rightarrow> string \<Rightarrow> (string \<times> nat option) list \<Rightarrow> nat \<Rightarrow> 't weights \<Rightarrow> error + 't weights" where
  "split_forward T combined pieces axis sd =
     (case map_of sd combined of
        None \<Rightarrow> Inr sd
      | Some t \<Rightarrow>
          and_then (checked IndexError (shape_at T t axis)) (\<lambda>n.
          and_then (split_sizes pieces n) (\<lambda>sizes.
          and_then
            (fold_step
              (\<lambda>(key, size) (offset, sd). and_then (checked RuntimeError (narrow_of T t axis offset size))
                 (\<lambda>x. Inr (offset + size, AList.update key x sd)))
              (zip (map fst pieces) sizes) (0, AList.delete combined sd))
            (\<lambda>r. Inr (snd r)))))"

definition pop_key :: "string \<Rightarrow> 't list \<times> 't weights \<Rightarrow> error + ('t list \<times> 't weights)" where
  "pop_key key r = and_then (checked KeyError (map_of (snd r) key)) (\<lambda>t. Inr (fst r @ [t], AList.delete key (snd r)))"

definition split_backward ::
    "'t torch \<Rightarrow> string \<Rightarrow> (string \<times> nat option) list \<Rightarrow> nat \<Rightarrow> 't weights \<Rightarrow> error + 't weights" where
  "split_backward T combined pieces axis sd =
     (if list_all (\<lambda>p. map_of sd (fst p) \<noteq> None) pieces
      then and_then (fold_step pop_key (map fst pieces) ([], sd)) (\<lambda>r.
             and_then (checked RuntimeError (cat_of T (fst r) axis)) (\<lambda>t. Inr (AList.update combined t (snd r))))
      else Inr sd)"

definition map_value :: "string \<Rightarrow> ('t \<Rightarrow> 't option) \<Rightarrow> 't weights \<Rightarrow> error + 't weights" where
  "map_value key f sd =
     (case map_of sd key of
        None \<Rightarrow> Inr sd
      | Some t \<Rightarrow> and_then (checked RuntimeError (f t)) (\<lambda>x. Inr (AList.update key x sd)))"

definition squeeze_leading :: "'t torch \<Rightarrow> string \<Rightarrow> 't weights \<Rightarrow> error + 't weights" where
  "squeeze_leading T key sd =
     (case map_of sd key of
        None \<Rightarrow> Inr sd
      | Some t \<Rightarrow>
          and_then (checked IndexError (shape_at T t 0)) (\<lambda>n.
            if n = 1 then and_then (checked IndexError (select_of T t 0 0)) (\<lambda>x. Inr (AList.update key x sd))
            else Inr sd))"

section \<open>Playing a chain in both directions\<close>

fun hf_to_prime :: "'t torch \<Rightarrow> 't conv_op \<Rightarrow> 't weights \<Rightarrow> error + 't weights"
  and apply_hf_to_prime :: "'t torch \<Rightarrow> 't conv_op list \<Rightarrow> 't weights \<Rightarrow> error + 't weights" where
  "hf_to_prime T (Rename hf prime) sd = Inr (rename_key hf prime sd)"
| "hf_to_prime T (PrefixRename hf prime) sd = Inr (swap_prefix hf prime sd)"
| "hf_to_prime T (Drop name is_prefix) sd = Inr (drop_keys name is_prefix sd)"
| "hf_to_prime T (Stack stacked item axis index_offset) sd = stack_forward T stacked item axis sd"
| "hf_to_prime T (SplitConcat combined pieces axis) sd = split_forward T combined pieces axis sd"
| "hf_to_prime T (Synthetic prime factory) sd = Inr (AList.update prime (factory sd) sd)"
| "hf_to_prime T (MapValue prime forward backward) sd = map_value prime forward sd"
| "hf_to_prime T (SqueezeLeading key) sd = Inr sd"
| "hf_to_prime T (Conditional predicate th el) sd =
     (if predicate sd then apply_hf_to_prime T th sd else apply_hf_to_prime T el sd)"
| "hf_to_prime T (Sequence ops) sd = apply_hf_to_prime T ops sd"
| "apply_hf_to_prime T [] sd = Inr sd"
| "apply_hf_to_prime T (x # ops) sd = and_then (hf_to_prime T x sd) (apply_hf_to_prime T ops)"

text \<open>The backward direction plays \<open>reversed(ops)\<close>: the operators behind the first one, then the first.\<close>

fun prime_to_hf :: "'t torch \<Rightarrow> 't conv_op \<Rightarrow> 't weights \<Rightarrow> error + 't weights"
  and apply_prime_to_hf :: "'t torch \<Rightarrow> 't conv_op list \<Rightarrow> 't weights \<Rightarrow> error + 't weights" where
  "prime_to_hf T (Rename hf prime) sd = Inr (rename_key prime hf sd)"
| "prime_to_hf T (PrefixRename hf prime) sd = Inr (swap_prefix prime hf sd)"
| "prime_to_hf T (Drop name is_prefix) sd = Inr (drop_keys name is_prefix sd)"
| "prime_to_hf T (Stack stacked item axis index_offset) sd = stack_backward T stacked item axis index_offset sd"
| "prime_to_hf T (SplitConcat combined pieces axis) sd = split_backward T combined pieces axis sd"
| "prime_to_hf T (Synthetic prime factory) sd = Inr (AList.delete prime sd)"
| "prime_to_hf T (MapValue prime forward backward) sd = map_value prime backward sd"
| "prime_to_hf T (SqueezeLeading key) sd = squeeze_leading T key sd"
| "prime_to_hf T (Conditional predicate th el) sd =
     (if predicate sd then apply_prime_to_hf T th sd else apply_prime_to_hf T el sd)"
| "prime_to_hf T (Sequence ops) sd = apply_prime_to_hf T ops sd"
| "apply_prime_to_hf T [] sd = Inr sd"
| "apply_prime_to_hf T (x # ops) sd = and_then (apply_prime_to_hf T ops sd) (prime_to_hf T x)"

lemma apply_hf_to_prime_fold: "apply_hf_to_prime T ops sd = fold_step (hf_to_prime T) ops sd"
  by (induction ops arbitrary: sd) (simp_all add: and_then_def split: sum.split)

lemma apply_prime_to_hf_rev: "apply_prime_to_hf T ops sd = fold_step (prime_to_hf T) (rev ops) sd"
  by (induction ops arbitrary: sd) (simp_all add: fold_step_append and_then_def split: sum.split)

definition key_present :: "string \<Rightarrow> 't weights \<Rightarrow> bool" where
  "key_present name sd \<longleftrightarrow> map_of sd name \<noteq> None"

definition GATE_DOWN_UP :: "(string \<times> string) list" where
  "GATE_DOWN_UP = [(''w1'', ''gate_proj''), (''w2'', ''down_proj''), (''w3'', ''up_proj'')]"

definition routed_experts_op ::
    "string \<Rightarrow> string \<Rightarrow> string \<Rightarrow> (string \<times> string) list \<Rightarrow> string \<Rightarrow> bool \<Rightarrow> 't conv_op" where
  "routed_experts_op prefix hf_experts prime_experts proj_order hf_proj_suffix fused =
     (let stacks = map (\<lambda>(wn, hf_proj).
                Stack (prefix @ ''.'' @ prime_experts @ ''.'' @ wn)
                  (prefix @ ''.'' @ hf_experts @ ''.{e}.'' @ hf_proj @ hf_proj_suffix) 0 0) proj_order;
          gate_up = prefix @ ''.'' @ hf_experts @ ''.gate_up_proj'';
          fused_then =
            [SplitConcat gate_up
               [(prefix @ ''.'' @ prime_experts @ ''.w1'', None), (prefix @ ''.'' @ prime_experts @ ''.w3'', None)] 1,
             Rename (prefix @ ''.'' @ hf_experts @ ''.down_proj'') (prefix @ ''.'' @ prime_experts @ ''.w2'')]
      in if \<not> fused then Sequence stacks else Conditional (key_present gate_up) fused_then stacks)"

section \<open>Dictionaries as maps\<close>

lemma map_of_rename_key:
  "map_of (rename_key old new sd) =
     (case map_of sd old of None \<Rightarrow> map_of sd | Some t \<Rightarrow> ((map_of sd)(old := None))(new \<mapsto> t))"
  by (simp add: rename_key_def AList.update_conv' AList.delete_conv' split: option.split)

lemma map_of_drop_keys:
  "map_of (drop_keys name is_prefix sd) = (\<lambda>k. if dropped name is_prefix k then None else map_of sd k)"
proof -
  have "map_of (fold (\<lambda>key. AList.delete key) ks sd) = (\<lambda>k. if k \<in> set ks then None else map_of sd k)"
    for ks and sd :: "'a weights"
    by (induction ks arbitrary: sd) (auto simp: AList.delete_conv' fun_eq_iff)
  then show ?thesis
    unfolding drop_keys_def by (auto simp: fun_eq_iff map_of_eq_None_iff)
qed

lemma map_of_update [simp]: "map_of (AList.update k v sd) = (map_of sd)(k \<mapsto> v)"
  by (rule AList.update_conv')

lemma map_of_delete [simp]: "map_of (AList.delete k sd) = (map_of sd)(k := None)"
  by (rule AList.delete_conv')

lemma collect_items_result:
  assumes "\<And>i j. format_e item i = format_e item j \<Longrightarrow> i = j" "length ts = n"
    and "\<And>i. i < n \<Longrightarrow> map_of sd (format_e item (e + i)) = Some (ts ! i)"
    and "map_of sd (format_e item (e + n)) = None"
  shows "\<exists>sd'. collect_items item e sd = (ts, sd') \<and>
     map_of sd' = (\<lambda>k. if \<exists>i<n. k = format_e item (e + i) then None else map_of sd k)"
  using assms(2-)
proof (induction n arbitrary: e sd ts)
  case 0
  then show ?case by (subst collect_items.simps) simp
next
  case (Suc n)
  from Suc.prems(1) obtain t us where ts: "ts = t # us" "length us = n" by (cases ts) auto
  have t: "map_of sd (format_e item e) = Some t" using Suc.prems(2) [of 0] ts by simp
  let ?sd = "AList.delete (format_e item e) sd"
  have other: "format_e item (Suc e + i) \<noteq> format_e item e" for i using assms(1) [of "Suc e + i" e] by auto
  have "\<exists>sd'. collect_items item (Suc e) ?sd = (us, sd') \<and>
     map_of sd' = (\<lambda>k. if \<exists>i<n. k = format_e item (Suc e + i) then None else map_of ?sd k)"
  proof (rule Suc.IH)
    fix i assume "i < n"
    then show "map_of ?sd (format_e item (Suc e + i)) = Some (us ! i)"
      using Suc.prems(2) [of "Suc i"] other [of i] ts by simp
  next
    show "map_of ?sd (format_e item (Suc e + n)) = None"
      using Suc.prems(3) by simp
  qed (rule ts)
  then obtain sd' where sd': "collect_items item (Suc e) ?sd = (us, sd')"
    "map_of sd' = (\<lambda>k. if \<exists>i<n. k = format_e item (Suc e + i) then None else map_of ?sd k)" by blast
  have "(\<exists>i<Suc n. k = format_e item (e + i)) \<longleftrightarrow> k = format_e item e \<or> (\<exists>i<n. k = format_e item (Suc e + i))" for k
    by (auto simp: less_Suc_eq_0_disj)
  then show ?case using t sd' by (subst collect_items.simps) (auto simp: ts fun_eq_iff)
qed

lemma unstack_result:
  assumes "\<And>i. i < n \<Longrightarrow> select_of T t d i = Some (ts ! i)"
    and "\<And>i j. format_e item i = format_e item j \<Longrightarrow> i = j"
  shows "\<exists>sd'. fold_step (\<lambda>e sd. and_then (checked IndexError (select_of T t d e))
             (\<lambda>x. Inr (AList.update (format_e item (0 + e)) x sd))) [0..<n] sd = Inr sd' \<and>
     (\<forall>i<n. map_of sd' (format_e item i) = Some (ts ! i)) \<and>
     (\<forall>k. (\<forall>i<n. k \<noteq> format_e item i) \<longrightarrow> map_of sd' k = map_of sd k)"
  using assms(1)
proof (induction n)
  case (Suc n)
  then obtain sd' where "fold_step (\<lambda>e sd. and_then (checked IndexError (select_of T t d e))
             (\<lambda>x. Inr (AList.update (format_e item (0 + e)) x sd))) [0..<n] sd = Inr sd'"
     "\<forall>i<n. map_of sd' (format_e item i) = Some (ts ! i)"
     "\<forall>k. (\<forall>i<n. k \<noteq> format_e item i) \<longrightarrow> map_of sd' k = map_of sd k" by auto
  moreover have "format_e item n \<noteq> format_e item i" "format_e item i \<noteq> format_e item n" if "i < n" for i
    using assms(2) [of n i] assms(2) [of i n] that by auto
  ultimately show ?case using Suc.prems [of n] by (auto simp: fold_step_append less_Suc_eq)
qed simp

section \<open>The names of a chain\<close>

text \<open>
  The names the HuggingFace side of an operator may have, and those its training side has: a number
  stands for the placeholder of a \<open>Stack\<close>, and a training dictionary takes the \<open>else_\<close> branch of a
  \<open>Conditional\<close>.
\<close>

fun matches :: "string \<Rightarrow> string \<Rightarrow> bool" where
  "matches [] k \<longleftrightarrow> k = []"
| "matches (c # cs) k \<longleftrightarrow>
     (if starts_with (c # cs) ''{e}''
      then takeWhile is_digit k \<noteq> [] \<and> matches (drop 2 cs) (dropWhile is_digit k)
      else k \<noteq> [] \<and> hd k = c \<and> matches cs (tl k))"

fun hf_name :: "'t conv_op \<Rightarrow> string \<Rightarrow> bool" and hf_names :: "'t conv_op list \<Rightarrow> string \<Rightarrow> bool" where
  "hf_name (Rename hf prime) k \<longleftrightarrow> k = hf"
| "hf_name (PrefixRename hf prime) k \<longleftrightarrow> starts_with k hf"
| "hf_name (Drop name is_prefix) k \<longleftrightarrow> dropped name is_prefix k"
| "hf_name (Stack stacked item d index_offset) k \<longleftrightarrow> matches item k"
| "hf_name (SplitConcat combined pieces d) k \<longleftrightarrow> k = combined"
| "hf_name (Synthetic prime factory) k \<longleftrightarrow> False"
| "hf_name (MapValue prime forward backward) k \<longleftrightarrow> False"
| "hf_name (SqueezeLeading key) k \<longleftrightarrow> k = key"
| "hf_name (Conditional predicate th el) k \<longleftrightarrow> hf_names th k \<or> hf_names el k"
| "hf_name (Sequence ops) k \<longleftrightarrow> hf_names ops k"
| "hf_names [] k \<longleftrightarrow> False"
| "hf_names (x # ops) k \<longleftrightarrow> hf_name x k \<or> hf_names ops k"

fun prime_name :: "'t conv_op \<Rightarrow> string \<Rightarrow> bool" and prime_names :: "'t conv_op list \<Rightarrow> string \<Rightarrow> bool" where
  "prime_name (Rename hf prime) k \<longleftrightarrow> k = prime"
| "prime_name (PrefixRename hf prime) k \<longleftrightarrow> starts_with k prime"
| "prime_name (Drop name is_prefix) k \<longleftrightarrow> False"
| "prime_name (Stack stacked item d index_offset) k \<longleftrightarrow> k = stacked"
| "prime_name (SplitConcat combined pieces d) k \<longleftrightarrow> list_ex (\<lambda>p. k = fst p) pieces"
| "prime_name (Synthetic prime factory) k \<longleftrightarrow> k = prime"
| "prime_name (MapValue prime forward backward) k \<longleftrightarrow> False"
| "prime_name (SqueezeLeading key) k \<longleftrightarrow> False"
| "prime_name (Conditional predicate th el) k \<longleftrightarrow> prime_names el k"
| "prime_name (Sequence ops) k \<longleftrightarrow> prime_names ops k"
| "prime_names [] k \<longleftrightarrow> False"
| "prime_names (x # ops) k \<longleftrightarrow> prime_name x k \<or> prime_names ops k"

text \<open>The names that hold the stacked tensors of an indexed group.\<close>

fun stacked_name :: "'t conv_op \<Rightarrow> string \<Rightarrow> bool" and stacked_names :: "'t conv_op list \<Rightarrow> string \<Rightarrow> bool" where
  "stacked_name (Stack stacked item d index_offset) k \<longleftrightarrow> k = stacked"
| "stacked_name (Conditional predicate th el) k \<longleftrightarrow> stacked_names el k"
| "stacked_name (Sequence ops) k \<longleftrightarrow> stacked_names ops k"
| "stacked_name (Rename hf prime) k \<longleftrightarrow> False"
| "stacked_name (PrefixRename hf prime) k \<longleftrightarrow> False"
| "stacked_name (Drop name is_prefix) k \<longleftrightarrow> False"
| "stacked_name (SplitConcat combined pieces d) k \<longleftrightarrow> False"
| "stacked_name (Synthetic prime factory) k \<longleftrightarrow> False"
| "stacked_name (MapValue prime forward backward) k \<longleftrightarrow> False"
| "stacked_name (SqueezeLeading key) k \<longleftrightarrow> False"
| "stacked_names [] k \<longleftrightarrow> False"
| "stacked_names (x # ops) k \<longleftrightarrow> stacked_name x k \<or> stacked_names ops k"

lemma hf_names_ex: "hf_names ops k \<longleftrightarrow> list_ex (\<lambda>x. hf_name x k) ops"
  by (induction ops) simp_all

lemma prime_names_ex: "prime_names ops k \<longleftrightarrow> list_ex (\<lambda>x. prime_name x k) ops"
  by (induction ops) simp_all

lemma stacked_names_ex: "stacked_names ops k \<longleftrightarrow> list_ex (\<lambda>x. stacked_name x k) ops"
  by (induction ops) simp_all

lemma names_append [simp]:
  "hf_names (xs @ ys) k \<longleftrightarrow> hf_names xs k \<or> hf_names ys k"
  "prime_names (xs @ ys) k \<longleftrightarrow> prime_names xs k \<or> prime_names ys k"
  "stacked_names (xs @ ys) k \<longleftrightarrow> stacked_names xs k \<or> stacked_names ys k"
  by (simp_all add: hf_names_ex prime_names_ex stacked_names_ex)

section \<open>Chains whose backward direction is undone by the forward one\<close>

text \<open>
  \<open>reversible T ops H P Q\<close>: \<open>H\<close> are the names the chain may introduce on the way to HuggingFace and \<open>P\<close>
  names it removes. From every state dict without a name of \<open>H\<close> whose entries satisfy \<open>Q\<close>, the backward
  direction succeeds, removes the names of \<open>P\<close>, changes no other name outside
  \<open>H\<close>, and the forward direction restores the dictionary from every dictionary with the same entries.
\<close>

definition reversible ::
    "'t torch \<Rightarrow> 't conv_op list \<Rightarrow> string set \<Rightarrow> string set \<Rightarrow> (string \<Rightarrow> 't \<Rightarrow> bool) \<Rightarrow> bool" where
  "reversible T ops H P Q \<longleftrightarrow>
     (\<forall>sd. (\<forall>k t. map_of sd k = Some t \<longrightarrow> k \<notin> H \<and> Q k t) \<longrightarrow>
        (\<exists>sd1. apply_prime_to_hf T ops sd = Inr sd1 \<and> (\<forall>k \<in> P. map_of sd1 k = None) \<and>
           (\<forall>k. k \<notin> H \<longrightarrow> map_of sd1 k = (if k \<in> P then None else map_of sd k)) \<and>
           (\<forall>sd'. map_of sd' = map_of sd1 \<longrightarrow>
              (\<exists>sd2. apply_hf_to_prime T ops sd' = Inr sd2 \<and> map_of sd2 = map_of sd))))"

lemma reversibleI:
  assumes "\<And>sd. (\<And>k t. map_of sd k = Some t \<Longrightarrow> k \<notin> H) \<Longrightarrow> (\<And>k t. map_of sd k = Some t \<Longrightarrow> Q k t) \<Longrightarrow>
     \<exists>sd1. apply_prime_to_hf T ops sd = Inr sd1 \<and> (\<forall>k \<in> P. map_of sd1 k = None) \<and>
       (\<forall>k. k \<notin> H \<longrightarrow> map_of sd1 k = (if k \<in> P then None else map_of sd k)) \<and>
       (\<forall>sd'. map_of sd' = map_of sd1 \<longrightarrow>
          (\<exists>sd2. apply_hf_to_prime T ops sd' = Inr sd2 \<and> map_of sd2 = map_of sd))"
  shows "reversible T ops H P Q"
  using assms unfolding reversible_def by blast

lemma reversibleD:
  assumes "reversible T ops H P Q" "\<And>k t. map_of sd k = Some t \<Longrightarrow> k \<notin> H"
    "\<And>k t. map_of sd k = Some t \<Longrightarrow> Q k t"
  obtains sd1 where "apply_prime_to_hf T ops sd = Inr sd1" "\<And>k. k \<in> P \<Longrightarrow> map_of sd1 k = None"
    "\<And>k. k \<notin> H \<Longrightarrow> map_of sd1 k = (if k \<in> P then None else map_of sd k)"
    "\<And>sd'. map_of sd' = map_of sd1 \<Longrightarrow> \<exists>sd2. apply_hf_to_prime T ops sd' = Inr sd2 \<and> map_of sd2 = map_of sd"
proof -
  have "\<forall>k t. map_of sd k = Some t \<longrightarrow> k \<notin> H \<and> Q k t" using assms(2,3) by blast
  from assms(1) [unfolded reversible_def, THEN spec, THEN mp, OF this] obtain sd1 where
    "apply_prime_to_hf T ops sd = Inr sd1" "\<forall>k \<in> P. map_of sd1 k = None"
    and "\<forall>k. k \<notin> H \<longrightarrow> map_of sd1 k = (if k \<in> P then None else map_of sd k)"
    and "\<forall>sd'. map_of sd' = map_of sd1 \<longrightarrow> (\<exists>sd2. apply_hf_to_prime T ops sd' = Inr sd2 \<and> map_of sd2 = map_of sd)"
    by (elim exE conjE)
  then show thesis by (intro that [of sd1]) simp_all
qed

lemma reversible_mono:
  assumes "reversible T ops H P' Q" "H \<subseteq> H'" "P = P'" "\<And>k t. Q' k t \<Longrightarrow> Q k t"
  shows "reversible T ops H' P Q'"
proof (rule reversibleI)
  fix sd :: "'a weights"
  assume sd: "\<And>k t. map_of sd k = Some t \<Longrightarrow> k \<notin> H'" "\<And>k t. map_of sd k = Some t \<Longrightarrow> Q' k t"
  have names: "k \<notin> H" if "map_of sd k = Some t" for k t using sd(1) [OF that] assms(2) by blast
  have entries: "Q k t" if "map_of sd k = Some t" for k t using assms(4) [OF sd(2) [OF that]] .
  obtain sd1 where sd1: "apply_prime_to_hf T ops sd = Inr sd1" "\<And>k. k \<in> P \<Longrightarrow> map_of sd1 k = None"
    "\<And>k. k \<notin> H \<Longrightarrow> map_of sd1 k = (if k \<in> P then None else map_of sd k)"
    "\<And>sd'. map_of sd' = map_of sd1 \<Longrightarrow> \<exists>sd2. apply_hf_to_prime T ops sd' = Inr sd2 \<and> map_of sd2 = map_of sd"
    by (rule reversibleD [of T ops H P Q sd, OF assms(1) [folded assms(3)] names entries]) blast+
  moreover from sd1(3) assms(2) have "\<forall>k. k \<notin> H' \<longrightarrow> map_of sd1 k = (if k \<in> P then None else map_of sd k)" by blast
  moreover from sd1(2) have "\<forall>k \<in> P. map_of sd1 k = None" by blast
  ultimately show "\<exists>sd1. apply_prime_to_hf T ops sd = Inr sd1 \<and> (\<forall>k \<in> P. map_of sd1 k = None) \<and>
       (\<forall>k. k \<notin> H' \<longrightarrow> map_of sd1 k = (if k \<in> P then None else map_of sd k)) \<and>
       (\<forall>sd'. map_of sd' = map_of sd1 \<longrightarrow>
          (\<exists>sd2. apply_hf_to_prime T ops sd' = Inr sd2 \<and> map_of sd2 = map_of sd))"
    by blast
qed

lemma reversible_Nil [simp]: "reversible T [] H {} Q"
  by (auto simp: reversible_def)

lemma apply_single [simp]:
  "apply_hf_to_prime T [x] sd = hf_to_prime T x sd"
  "apply_prime_to_hf T [x] sd = prime_to_hf T x sd"
  by (simp_all add: and_then_def split: sum.split)

lemma apply_hf_to_prime_append:
  "apply_hf_to_prime T (xs @ ys) sd = and_then (apply_hf_to_prime T xs sd) (apply_hf_to_prime T ys)"
  by (induction xs arbitrary: sd) (simp_all add: and_then_def split: sum.split)

lemma apply_prime_to_hf_append:
  "apply_prime_to_hf T (xs @ ys) sd = and_then (apply_prime_to_hf T ys sd) (apply_prime_to_hf T xs)"
  by (induction xs arbitrary: sd) (simp_all add: and_then_def split: sum.split)

lemma reversible_append:
  assumes "reversible T xs H P Q" "reversible T ys J M R" "H \<inter> J = {}" "H \<inter> M = {}"
    and "\<And>k t. k \<in> J \<Longrightarrow> Q k t"
  shows "reversible T (xs @ ys) (H \<union> J) (P \<union> M) (\<lambda>k t. Q k t \<and> R k t)"
proof (rule reversibleI)
  fix sd :: "'a weights"
  assume names: "\<And>k t. map_of sd k = Some t \<Longrightarrow> k \<notin> H \<union> J"
    and entries: "\<And>k t. map_of sd k = Some t \<Longrightarrow> Q k t \<and> R k t"
  obtain s1 where s1: "apply_prime_to_hf T ys sd = Inr s1" "\<And>k. k \<in> M \<Longrightarrow> map_of s1 k = None"
    "\<And>k. k \<notin> J \<Longrightarrow> map_of s1 k = (if k \<in> M then None else map_of sd k)"
    "\<And>sd'. map_of sd' = map_of s1 \<Longrightarrow> \<exists>sd2. apply_hf_to_prime T ys sd' = Inr sd2 \<and> map_of sd2 = map_of sd"
    using reversibleD [OF assms(2), of sd] names entries by auto
  have names1: "k \<notin> H" if k: "map_of s1 k = Some t" for k t
  proof
    assume H: "k \<in> H"
    with assms(3) have "k \<notin> J" by auto
    with s1(3) [of k] k have "map_of sd k = Some t" by (simp split: if_splits)
    with names H show False by auto
  qed
  have entries1: "Q k t" if k: "map_of s1 k = Some t" for k t
    using s1(3) [of k] k entries [of k] assms(5) by (cases "k \<in> J") (auto split: if_splits)
  obtain s2 where s2: "apply_prime_to_hf T xs s1 = Inr s2" "\<And>k. k \<in> P \<Longrightarrow> map_of s2 k = None"
    "\<And>k. k \<notin> H \<Longrightarrow> map_of s2 k = (if k \<in> P then None else map_of s1 k)"
    "\<And>sd'. map_of sd' = map_of s2 \<Longrightarrow> \<exists>sd2. apply_hf_to_prime T xs sd' = Inr sd2 \<and> map_of sd2 = map_of s1"
    by (rule reversibleD [of T xs H P Q s1, OF assms(1) names1 entries1]) blast+
  have "\<exists>sd2. apply_hf_to_prime T (xs @ ys) sd' = Inr sd2 \<and> map_of sd2 = map_of sd"
    if "map_of sd' = map_of s2" for sd'
    using s2(4) [OF that] s1(4) by (auto simp: apply_hf_to_prime_append)
  moreover have "map_of s2 k = None" if "k \<in> P \<union> M" for k
  proof (cases "k \<in> P")
    case False
    with that have M: "k \<in> M" by simp
    with assms(4) have "k \<notin> H" by blast
    with s2(3) [of k] s1(2) [OF M] show ?thesis by simp
  qed (rule s2(2))
  ultimately show "\<exists>sd1. apply_prime_to_hf T (xs @ ys) sd = Inr sd1 \<and> (\<forall>k \<in> P \<union> M. map_of sd1 k = None) \<and>
       (\<forall>k. k \<notin> H \<union> J \<longrightarrow> map_of sd1 k = (if k \<in> P \<union> M then None else map_of sd k)) \<and>
       (\<forall>sd'. map_of sd' = map_of sd1 \<longrightarrow>
          (\<exists>sd2. apply_hf_to_prime T (xs @ ys) sd' = Inr sd2 \<and> map_of sd2 = map_of sd))"
    using s1 s2 by (simp add: apply_prime_to_hf_append)
qed

text \<open>The chains of the layers, one behind the other: each layer has names of its own, \<open>U\<close>.\<close>

lemma reversible_concat:
  assumes "\<And>x. reversible T (layer x) (H x) (P x) (Q x)" "\<And>x. H x \<subseteq> U x" "\<And>x. P x \<subseteq> U x"
    and "\<And>x y. x \<noteq> y \<Longrightarrow> U x \<inter> U y = {}" "\<And>x k t. k \<notin> U x \<Longrightarrow> Q x k t" "distinct xs"
  shows "reversible T (concat (map layer xs)) (\<Union>x\<in>set xs. H x) (\<Union>x\<in>set xs. P x) (\<lambda>k t. \<forall>x\<in>set xs. Q x k t)"
  using assms(6)
proof (induction xs)
  case (Cons x xs)
  have "reversible T (layer x @ concat (map layer xs)) (H x \<union> (\<Union>x\<in>set xs. H x)) (P x \<union> (\<Union>x\<in>set xs. P x))
      (\<lambda>k t. Q x k t \<and> (\<forall>x\<in>set xs. Q x k t))"
  proof (rule reversible_append [OF assms(1) Cons.IH])
    have other: "k \<notin> U x" if "k \<in> H y \<union> P y" "y \<in> set xs" for k y
    proof -
      have "x \<noteq> y" using Cons.prems that(2) by auto
      then have "U x \<inter> U y = {}" by (rule assms(4))
      moreover have "k \<in> U y" using that(1) assms(2,3) by blast
      ultimately show ?thesis by blast
    qed
    show "H x \<inter> (\<Union>x\<in>set xs. H x) = {}" "H x \<inter> (\<Union>x\<in>set xs. P x) = {}"
      using other assms(2) [of x] by blast+
    show "Q x k t" if "k \<in> (\<Union>x\<in>set xs. H x)" for k t
    proof (rule assms(5))
      show "k \<notin> U x" using that other by blast
    qed
  qed (use Cons.prems in simp)
  then show ?case by simp
qed simp

subsection \<open>The operators\<close>

lemma reversible_Rename:
  assumes "hf \<noteq> prime"
  shows "reversible T [Rename hf prime] {hf} {prime} (\<lambda>_ _. True)"
proof (rule reversibleI)
  fix sd :: "'a weights" assume "\<And>k t. map_of sd k = Some t \<Longrightarrow> k \<notin> {hf}"
  then have hf: "map_of sd hf = None" by (cases "map_of sd hf") auto
  show "\<exists>sd1. apply_prime_to_hf T [Rename hf prime] sd = Inr sd1 \<and> (\<forall>k \<in> {prime}. map_of sd1 k = None) \<and>
       (\<forall>k. k \<notin> {hf} \<longrightarrow> map_of sd1 k = (if k \<in> {prime} then None else map_of sd k)) \<and>
       (\<forall>sd'. map_of sd' = map_of sd1 \<longrightarrow>
          (\<exists>sd2. apply_hf_to_prime T [Rename hf prime] sd' = Inr sd2 \<and> map_of sd2 = map_of sd))"
    using assms hf by (cases "map_of sd prime") (auto simp: map_of_rename_key fun_eq_iff)
qed

lemma reversible_Drop: "reversible T [Drop name is_prefix] {k. dropped name is_prefix k} {} (\<lambda>_ _. True)"
proof (rule reversibleI)
  fix sd :: "'a weights" assume names: "\<And>k t. map_of sd k = Some t \<Longrightarrow> k \<notin> {k. dropped name is_prefix k}"
  have "map_of (drop_keys name is_prefix sd') = map_of sd" if "map_of sd' = map_of sd" for sd' :: "'a weights"
  proof
    fix k show "map_of (drop_keys name is_prefix sd') k = map_of sd k"
      using that names by (cases "map_of sd k") (auto simp: map_of_drop_keys)
  qed
  then show "\<exists>sd1. apply_prime_to_hf T [Drop name is_prefix] sd = Inr sd1 \<and> (\<forall>k \<in> {}. map_of sd1 k = None) \<and>
       (\<forall>k. k \<notin> {k. dropped name is_prefix k} \<longrightarrow> map_of sd1 k = (if k \<in> {} then None else map_of sd k)) \<and>
       (\<forall>sd'. map_of sd' = map_of sd1 \<longrightarrow>
          (\<exists>sd2. apply_hf_to_prime T [Drop name is_prefix] sd' = Inr sd2 \<and> map_of sd2 = map_of sd))"
    by simp
qed

lemma reversible_Stack:
  assumes laws: "torch_laws T" and inj: "\<And>i j. format_e item i = format_e item j \<Longrightarrow> i = j"
    and fresh: "\<And>i. format_e item i \<noteq> stacked"
  shows "reversible T [Stack stacked item d 0] (range (format_e item)) {stacked}
     (\<lambda>k t. k = stacked \<longrightarrow> (\<exists>n>0. shape_at T t d = Some n))"
proof (rule reversibleI)
  fix sd :: "'a weights"
  assume names: "\<And>k t. map_of sd k = Some t \<Longrightarrow> k \<notin> range (format_e item)"
    and entries: "\<And>k t. map_of sd k = Some t \<Longrightarrow> k = stacked \<longrightarrow> (\<exists>n>0. shape_at T t d = Some n)"
  have none: "map_of sd (format_e item i) = None" for i using names by (cases "map_of sd (format_e item i)") auto
  show "\<exists>sd1. apply_prime_to_hf T [Stack stacked item d 0] sd = Inr sd1 \<and> (\<forall>k \<in> {stacked}. map_of sd1 k = None) \<and>
       (\<forall>k. k \<notin> range (format_e item) \<longrightarrow> map_of sd1 k = (if k \<in> {stacked} then None else map_of sd k)) \<and>
       (\<forall>sd'. map_of sd' = map_of sd1 \<longrightarrow>
          (\<exists>sd2. apply_hf_to_prime T [Stack stacked item d 0] sd' = Inr sd2 \<and> map_of sd2 = map_of sd))"
  proof (cases "map_of sd stacked")
    case None
    then show ?thesis using none [of 0]
      by (auto simp: stack_backward_def stack_forward_def collect_items.simps [of item 0])
  next
    case (Some t)
    with entries obtain n where n: "0 < n" "shape_at T t d = Some n" by blast
    with laws obtain ts where ts: "length ts = n" "\<And>i. i < n \<Longrightarrow> select_of T t d i = Some (ts ! i)"
      "stack_of T ts d = Some t" unfolding torch_laws_def by blast
    obtain sd1 where sd1: "fold_step (\<lambda>e sd. and_then (checked IndexError (select_of T t d e))
             (\<lambda>x. Inr (AList.update (format_e item (0 + e)) x sd))) [0..<n] (AList.delete stacked sd) = Inr sd1"
        "\<forall>i<n. map_of sd1 (format_e item i) = Some (ts ! i)"
        "\<forall>k. (\<forall>i<n. k \<noteq> format_e item i) \<longrightarrow> map_of sd1 k = map_of (AList.delete stacked sd) k"
      using unstack_result [where sd = "AList.delete stacked sd", OF ts(2) inj] by blast
    have unstacked: "apply_prime_to_hf T [Stack stacked item d 0] sd = Inr sd1"
      using Some n sd1(1) by (simp add: stack_backward_def)
    have keep: "map_of sd1 k = (if k \<in> {stacked} then None else map_of sd k)" if "k \<notin> range (format_e item)" for k
      using sd1(3) that by fastforce
    have "\<exists>sd2. apply_hf_to_prime T [Stack stacked item d 0] sd' = Inr sd2 \<and> map_of sd2 = map_of sd"
      if sd': "map_of sd' = map_of sd1" for sd' :: "'a weights"
    proof -
      have "map_of sd1 (format_e item n) = None"
      proof -
        have "\<forall>i<n. format_e item n \<noteq> format_e item i" using inj by blast
        then show ?thesis using sd1(3) none fresh by simp
      qed
      then have "\<exists>r. collect_items item 0 sd' = (ts, r) \<and>
          map_of r = (\<lambda>k. if \<exists>i<n. k = format_e item (0 + i) then None else map_of sd' k)"
        by (intro collect_items_result) (use inj ts(1) sd' sd1(2) in auto)
      then obtain r where r: "collect_items item 0 sd' = (ts, r)"
         "map_of r = (\<lambda>k. if \<exists>i<n. k = format_e item i then None else map_of sd1 k)" unfolding sd' add_0 by blast
      have "(map_of r)(stacked \<mapsto> t) = map_of sd"
      proof
        fix k show "((map_of r)(stacked \<mapsto> t)) k = map_of sd k"
          using Some none sd1(3) fresh r(2) by (cases "\<exists>i<n. k = format_e item i") auto
      qed
      moreover have "ts \<noteq> []" using ts(1) n(1) by auto
      ultimately show ?thesis using r(1) ts(3) by (auto simp: stack_forward_def split: list.split)
    qed
    moreover have "map_of sd1 stacked = None" using sd1(3) fresh by (metis fun_upd_same map_of_delete)
    ultimately show ?thesis using unstacked keep by blast
  qed
qed

lemma reversible_Conditional:
  assumes "reversible T el H P Q" and "g \<notin> H" "\<And>sd. predicate sd \<Longrightarrow> map_of sd g \<noteq> None"
  shows "reversible T [Conditional predicate th el] (insert g H) P Q"
proof (rule reversibleI)
  fix sd :: "'a weights"
  assume names: "\<And>k t. map_of sd k = Some t \<Longrightarrow> k \<notin> insert g H"
    and entries: "\<And>k t. map_of sd k = Some t \<Longrightarrow> Q k t"
  have g: "map_of sd g = None" using names by (cases "map_of sd g") auto
  obtain s1 where s1: "apply_prime_to_hf T el sd = Inr s1" "\<And>k. k \<in> P \<Longrightarrow> map_of s1 k = None"
    "\<And>k. k \<notin> H \<Longrightarrow> map_of s1 k = (if k \<in> P then None else map_of sd k)"
    "\<And>sd'. map_of sd' = map_of s1 \<Longrightarrow> \<exists>sd2. apply_hf_to_prime T el sd' = Inr sd2 \<and> map_of sd2 = map_of sd"
    using reversibleD [OF assms(1), of sd] names entries by auto
  have "\<not> predicate sd'" if "map_of sd' = map_of s1" for sd'
    using assms(3) [of sd'] s1(3) [OF assms(2)] that g by (auto split: if_splits)
  then show "\<exists>sd1. apply_prime_to_hf T [Conditional predicate th el] sd = Inr sd1 \<and> (\<forall>k \<in> P. map_of sd1 k = None) \<and>
       (\<forall>k. k \<notin> insert g H \<longrightarrow> map_of sd1 k = (if k \<in> P then None else map_of sd k)) \<and>
       (\<forall>sd'. map_of sd' = map_of sd1 \<longrightarrow>
          (\<exists>sd2. apply_hf_to_prime T [Conditional predicate th el] sd' = Inr sd2 \<and> map_of sd2 = map_of sd))"
    using s1 g assms(3) [of sd] by (auto simp del: apply_hf_to_prime.simps apply_prime_to_hf.simps)
qed

lemma reversible_Sequence: "reversible T [Sequence ops] H P Q \<longleftrightarrow> reversible T ops H P Q"
  by (simp add: reversible_def del: apply_hf_to_prime.simps apply_prime_to_hf.simps)

text \<open>
  A name that the backward direction squeezes after it has restored it: undone when the tensor has no
  leading dimension of size one.
\<close>

lemma reversible_Squeeze:
  assumes "hf \<noteq> prime"
  shows "reversible T [SqueezeLeading hf, Rename hf prime] {hf} {prime}
     (\<lambda>k t. k = prime \<longrightarrow> (\<exists>n. shape_at T t 0 = Some n \<and> n \<noteq> 1))"
proof (rule reversibleI)
  fix sd :: "'a weights"
  assume "\<And>k t. map_of sd k = Some t \<Longrightarrow> k \<notin> {hf}"
    and entries: "\<And>k t. map_of sd k = Some t \<Longrightarrow> k = prime \<longrightarrow> (\<exists>n. shape_at T t 0 = Some n \<and> n \<noteq> 1)"
  then have hf: "map_of sd hf = None" by (cases "map_of sd hf") auto
  have squeeze: "squeeze_leading T hf (rename_key prime hf sd) = Inr (rename_key prime hf sd)"
    using entries [of prime] hf by (cases "map_of sd prime") (auto simp: squeeze_leading_def map_of_rename_key)
  show "\<exists>sd1. apply_prime_to_hf T [SqueezeLeading hf, Rename hf prime] sd = Inr sd1 \<and> (\<forall>k \<in> {prime}. map_of sd1 k = None) \<and>
       (\<forall>k. k \<notin> {hf} \<longrightarrow> map_of sd1 k = (if k \<in> {prime} then None else map_of sd k)) \<and>
       (\<forall>sd'. map_of sd' = map_of sd1 \<longrightarrow>
          (\<exists>sd2. apply_hf_to_prime T [SqueezeLeading hf, Rename hf prime] sd' = Inr sd2 \<and> map_of sd2 = map_of sd))"
    using assms hf by (cases "map_of sd prime") (auto simp: map_of_rename_key squeeze fun_eq_iff)
qed

section \<open>Names with a number\<close>

lemma starts_with_simps [simp]:
  "starts_with (p @ s) (p @ q) \<longleftrightarrow> starts_with s q"
  "starts_with (c # s) (d # q) \<longleftrightarrow> c = d \<and> starts_with s q"
  "starts_with s [] \<longleftrightarrow> True"
  "starts_with [] (d # q) \<longleftrightarrow> False"
  by (auto simp: starts_with_def)

lemma format_e_plain: "CHR ''{'' \<notin> set xs \<Longrightarrow> format_e (xs @ ys) e = xs @ format_e ys e"
  by (induction xs) auto

lemma format_e_item:
  assumes "CHR ''{'' \<notin> set xs" "CHR ''{'' \<notin> set ys"
  shows "format_e (xs @ ''{e}'' @ ys) e = xs @ decimal e @ ys"
  using assms format_e_plain [OF assms(1)] format_e_plain [OF assms(2), of "[]"] by simp

lemma matches_plain: "CHR ''{'' \<notin> set xs \<Longrightarrow> matches (xs @ ys) k \<longleftrightarrow> (\<exists>r. k = xs @ r \<and> matches ys r)"
proof (induction xs arbitrary: k)
  case (Cons c xs)
  then show ?case by (cases k) auto
qed simp

lemma matches_item:
  assumes "CHR ''{'' \<notin> set xs" "CHR ''{'' \<notin> set ys" "\<not> is_digit c" "c \<noteq> CHR ''{''"
  shows "matches (xs @ ''{e}'' @ c # ys) k \<longleftrightarrow> (\<exists>ds. ds \<noteq> [] \<and> list_all is_digit ds \<and> k = xs @ ds @ c # ys)"
proof -
  have 1: "matches (''{e}'' @ c # ys) r \<longleftrightarrow> (\<exists>ds. ds \<noteq> [] \<and> list_all is_digit ds \<and> r = ds @ c # ys)" for r
  proof -
    have "matches (c # ys) d \<longleftrightarrow> d = c # ys" for d
      using matches_plain [of "c # ys" "[]" d] assms(2,4) by simp
    then have "matches (''{e}'' @ c # ys) r \<longleftrightarrow> takeWhile is_digit r \<noteq> [] \<and> dropWhile is_digit r = c # ys" by simp
    also have "\<dots> \<longleftrightarrow> (\<exists>ds. ds \<noteq> [] \<and> list_all is_digit ds \<and> r = ds @ c # ys)"
    proof
      assume r: "takeWhile is_digit r \<noteq> [] \<and> dropWhile is_digit r = c # ys"
      have "list_all is_digit (takeWhile is_digit r)" by (auto simp: list_all_iff dest: set_takeWhileD)
      moreover have "r = takeWhile is_digit r @ c # ys" using r takeWhile_dropWhile_id [of is_digit r] by simp
      ultimately show "\<exists>ds. ds \<noteq> [] \<and> list_all is_digit ds \<and> r = ds @ c # ys" using r by blast
    next
      assume "\<exists>ds. ds \<noteq> [] \<and> list_all is_digit ds \<and> r = ds @ c # ys"
      then show "takeWhile is_digit r \<noteq> [] \<and> dropWhile is_digit r = c # ys"
        using assms(3) by (auto simp: list_all_iff)
    qed
    finally show ?thesis .
  qed
  show ?thesis unfolding matches_plain [OF assms(1)] 1 by auto
qed

lemma decimal_not_Nil: "decimal n \<noteq> []"
  by (subst decimal.simps) simp

lemma digits_append_cancel:
  assumes "list_all is_digit ds" "list_all is_digit es" "\<not> is_digit c"
  shows "ds @ c # xs = es @ c # ys \<longleftrightarrow> ds = es \<and> xs = ys"
proof
  assume eq: "ds @ c # xs = es @ c # ys"
  have "takeWhile is_digit (ds @ c # xs) = ds" "takeWhile is_digit (es @ c # ys) = es"
    using assms by (simp_all add: list_all_iff)
  with eq have "ds = es" by simp
  with eq show "ds = es \<and> xs = ys" by simp
qed simp

lemma digits_append_other:
  assumes "list_all is_digit ds" "ds \<noteq> []" "\<not> is_digit c"
  shows "ds @ xs \<noteq> c # ys" "c # ys \<noteq> ds @ xs" "\<not> starts_with (ds @ xs) (c # ys)"
  using assms by (cases ds; auto simp: starts_with_def)+

lemma decimal_eq_iff: "decimal i = decimal j \<longleftrightarrow> i = j"
  by (metis parse_decimal_decimal)

lemma brace_not_digit: "\<not> is_digit (CHR ''{'')"
  by (simp add: is_digit_def less_eq_char_def)

lemma no_brace_decimal: "CHR ''{'' \<notin> set (decimal n)"
  using decimal_digits [of n] brace_not_digit by (auto simp: list_all_iff)

section \<open>Chains that are undone under their own names\<close>

text \<open>
  A stacked tensor of a training dictionary has at least one row to unstack. A tensor whose
  HuggingFace name the chain squeezes has no leading dimension of size one.
\<close>

definition has_rows :: "'t torch \<Rightarrow> 't \<Rightarrow> bool" where
  "has_rows T t \<longleftrightarrow> (case shape_at T t 0 of None \<Rightarrow> False | Some n \<Rightarrow> 0 < n)"

definition keeps_rank :: "'t torch \<Rightarrow> 't \<Rightarrow> bool" where
  "keeps_rank T t \<longleftrightarrow> (case shape_at T t 0 of None \<Rightarrow> False | Some n \<Rightarrow> n \<noteq> 1)"

fun squeezed_head :: "'t conv_op \<Rightarrow> 't conv_op list \<Rightarrow> string \<Rightarrow> bool" where
  "squeezed_head (SqueezeLeading key) (Rename hf prime # ops) k \<longleftrightarrow> key = hf \<and> k = prime"
| "squeezed_head _ _ k \<longleftrightarrow> False"

fun squeezed_names :: "'t conv_op list \<Rightarrow> string \<Rightarrow> bool" where
  "squeezed_names [] k \<longleftrightarrow> False"
| "squeezed_names (x # ops) k \<longleftrightarrow> squeezed_head x ops k \<or> squeezed_names ops k"

definition entry_ok :: "'t torch \<Rightarrow> 't conv_op list \<Rightarrow> string \<Rightarrow> 't \<Rightarrow> bool" where
  "entry_ok T ops k t \<longleftrightarrow> (stacked_names ops k \<longrightarrow> has_rows T t) \<and> (squeezed_names ops k \<longrightarrow> keeps_rank T t)"

lemma stacked_prime:
  fixes x :: "'t conv_op" and ops :: "'t conv_op list"
  shows "stacked_name x k \<Longrightarrow> prime_name x k" "stacked_names ops k \<Longrightarrow> prime_names ops k"
  by (induction x k and ops k rule: stacked_name_stacked_names.induct) auto

lemma squeezed_head_prime: "squeezed_head x ops k \<Longrightarrow> prime_names ops k"
  by (induction x ops k rule: squeezed_head.induct) auto

lemma squeezed_head_append: "squeezed_head x xs k \<Longrightarrow> squeezed_head x (xs @ ys) k"
  by (induction x xs k rule: squeezed_head.induct) auto

lemma squeezed_prime: "squeezed_names ops k \<Longrightarrow> prime_names ops k"
  by (induction ops) (auto dest: squeezed_head_prime)

lemma squeezed_append: "squeezed_names xs k \<or> squeezed_names ys k \<Longrightarrow> squeezed_names (xs @ ys) k"
  by (induction xs) (auto intro: squeezed_head_append)

lemma entry_ok_other: "\<not> prime_names ops k \<Longrightarrow> entry_ok T ops k t"
  unfolding entry_ok_def using stacked_prime(2) squeezed_prime by blast

lemma entry_ok_append: "entry_ok T (xs @ ys) k t \<Longrightarrow> entry_ok T xs k t \<and> entry_ok T ys k t"
  using squeezed_append unfolding entry_ok_def by auto

definition undone :: "'t torch \<Rightarrow> 't conv_op list \<Rightarrow> bool" where
  "undone T ops \<longleftrightarrow> reversible T ops {k. hf_names ops k} {k. prime_names ops k} (entry_ok T ops)"

lemma undone_Nil [simp]: "undone T []"
  by (simp add: undone_def)

lemma undone_append:
  assumes "undone T xs" "undone T ys"
    and "\<And>k. hf_names xs k \<Longrightarrow> hf_names ys k \<Longrightarrow> False" "\<And>k. hf_names xs k \<Longrightarrow> prime_names ys k \<Longrightarrow> False"
    and "\<And>k. hf_names ys k \<Longrightarrow> prime_names xs k \<Longrightarrow> False"
  shows "undone T (xs @ ys)"
  unfolding undone_def
proof (rule reversible_mono [OF reversible_append [OF assms(1,2) [unfolded undone_def]]])
  show "entry_ok T xs k t" if "k \<in> {k. hf_names ys k}" for k t
    using that assms(5) [of k] by (intro entry_ok_other) auto
  show "entry_ok T xs k t \<and> entry_ok T ys k t" if "entry_ok T (xs @ ys) k t" for k t
    using that by (rule entry_ok_append)
qed (use assms(3,4) in auto)

lemma undone_Cons:
  assumes "undone T [x]" "undone T (y # ys)"
    and "\<And>k. hf_name x k \<Longrightarrow> hf_names (y # ys) k \<Longrightarrow> False"
    and "\<And>k. hf_name x k \<Longrightarrow> prime_names (y # ys) k \<Longrightarrow> False"
    and "\<And>k. hf_names (y # ys) k \<Longrightarrow> prime_name x k \<Longrightarrow> False"
  shows "undone T (x # y # ys)"
  using undone_append [OF assms(1,2)] assms(3-) by auto

lemma undone_Rename: "hf \<noteq> prime \<Longrightarrow> undone T [Rename hf prime]"
  unfolding undone_def by (rule reversible_mono [OF reversible_Rename]) auto

lemma undone_Drop: "undone T [Drop name is_prefix]"
  unfolding undone_def by (rule reversible_mono [OF reversible_Drop]) auto

lemma undone_Squeeze: "hf \<noteq> prime \<Longrightarrow> undone T [SqueezeLeading hf, Rename hf prime]"
  unfolding undone_def
  by (rule reversible_mono [OF reversible_Squeeze]) (auto simp: entry_ok_def keeps_rank_def split: option.splits)

lemma undone_Conditional:
  assumes "undone T el" "\<not> hf_names el g" "hf_names th g" "\<And>sd. predicate sd \<Longrightarrow> map_of sd g \<noteq> None"
    and "\<And>k. \<not> squeezed_names el k"
  shows "undone T [Conditional predicate th el]"
  unfolding undone_def
  by (rule reversible_mono [OF reversible_Conditional [OF assms(1) [unfolded undone_def], of g]])
     (use assms(2-) in \<open>auto simp: entry_ok_def\<close>)

lemma undone_Sequence: "undone T ops \<Longrightarrow> (\<And>k. \<not> squeezed_names ops k) \<Longrightarrow> undone T [Sequence ops]"
  by (simp add: undone_def reversible_Sequence entry_ok_def [abs_def])

lemma undone_Stack:
  assumes "torch_laws T" "CHR ''{'' \<notin> set xs" "CHR ''{'' \<notin> set ys" "\<not> is_digit c" "c \<noteq> CHR ''{''"
    and "\<And>ds. list_all is_digit ds \<Longrightarrow> ds \<noteq> [] \<Longrightarrow> xs @ ds @ c # ys \<noteq> stacked"
  shows "undone T [Stack stacked (xs @ ''{e}'' @ c # ys) 0 0]"
proof -
  have item: "format_e (xs @ ''{e}'' @ c # ys) e = xs @ decimal e @ c # ys" for e
    using assms(2,3,5) by (intro format_e_item) auto
  show ?thesis unfolding undone_def
  proof (rule reversible_mono [OF reversible_Stack [OF assms(1)]])
    show "range (format_e (xs @ ''{e}'' @ c # ys)) \<subseteq> {k. hf_names [Stack stacked (xs @ ''{e}'' @ c # ys) 0 0] k}"
      using assms(2-5) decimal_not_Nil decimal_digits
      by (auto simp: item matches_item simp del: append_Cons append_Nil)
  qed (use assms(4,6) in \<open>auto simp: item digits_append_cancel [OF decimal_digits decimal_digits] decimal_eq_iff
        decimal_not_Nil decimal_digits entry_ok_def has_rows_def split: option.splits simp del: append_Cons append_Nil\<close>)
qed

text \<open>The items of an indexed container: \<open><prefix>.<container>.{e}.<rest>\<close>.\<close>

definition expert_item :: "string \<Rightarrow> string \<Rightarrow> string \<Rightarrow> string" where
  "expert_item p c q = p @ ''.'' @ c @ ''.{e}.'' @ q"

lemma dot_not_digit: "\<not> is_digit (CHR ''.'')"
  by (simp add: is_digit_def less_eq_char_def)

lemma expert_item_split: "expert_item p c q = (p @ ''.'' @ c @ ''.'') @ ''{e}'' @ CHR ''.'' # q"
  by (simp add: expert_item_def)

lemma matches_expert_item:
  assumes "CHR ''{'' \<notin> set p" "CHR ''{'' \<notin> set c" "CHR ''{'' \<notin> set q"
  shows "matches (expert_item p c q) k \<longleftrightarrow>
     (\<exists>ds. ds \<noteq> [] \<and> list_all is_digit ds \<and> k = p @ ''.'' @ c @ ''.'' @ ds @ ''.'' @ q)"
  unfolding expert_item_split using assms by (subst matches_item) (simp_all add: dot_not_digit)

lemma undone_expert_item:
  assumes "torch_laws T" "CHR ''{'' \<notin> set p" "CHR ''{'' \<notin> set c" "CHR ''{'' \<notin> set q"
    and "\<And>ds. list_all is_digit ds \<Longrightarrow> ds \<noteq> [] \<Longrightarrow> p @ ''.'' @ c @ ''.'' @ ds @ ''.'' @ q \<noteq> stacked"
  shows "undone T [Stack stacked (expert_item p c q) 0 0]"
  unfolding expert_item_split using assms by (intro undone_Stack) (simp_all add: dot_not_digit)

text \<open>The layers of a model.\<close>

definition layer_of :: "string \<Rightarrow> nat \<Rightarrow> string" where
  "layer_of model_prefix i = model_prefix @ ''.layers.'' @ decimal i"

lemma layer_of_no_brace: "CHR ''{'' \<notin> set model_prefix \<Longrightarrow> CHR ''{'' \<notin> set (layer_of model_prefix i)"
  by (simp add: layer_of_def no_brace_decimal)

lemma layer_of_disjoint:
  assumes "starts_with k (layer_of m i @ ''.'')" "starts_with k (layer_of m j @ ''.'')"
  shows "i = j"
proof -
  obtain r s where "k = layer_of m i @ CHR ''.'' # r" "k = layer_of m j @ CHR ''.'' # s"
    using assms unfolding starts_with_def by (metis append.assoc append_Cons append_Nil append_take_drop_id)
  then have "decimal i @ CHR ''.'' # r = decimal j @ CHR ''.'' # s" by (simp add: layer_of_def)
  then show ?thesis using digits_append_cancel [OF decimal_digits decimal_digits dot_not_digit] decimal_eq_iff by blast
qed

lemma names_concat:
  "hf_names (concat xss) k \<longleftrightarrow> (\<exists>xs\<in>set xss. hf_names xs k)"
  "prime_names (concat xss) k \<longleftrightarrow> (\<exists>xs\<in>set xss. prime_names xs k)"
  by (induction xss) simp_all

lemma entry_ok_concat: "entry_ok T (concat xss) k t \<Longrightarrow> xs \<in> set xss \<Longrightarrow> entry_ok T xs k t"
  by (induction xss) (auto dest: entry_ok_append)

lemma undone_layers:
  assumes "\<And>i. undone T (layer i)"
    and "\<And>i k. hf_names (layer i) k \<Longrightarrow> starts_with k (layer_of m i @ ''.'')"
    and "\<And>i k. prime_names (layer i) k \<Longrightarrow> starts_with k (layer_of m i @ ''.'')"
  shows "undone T (concat (map layer [0..<n]))"
  unfolding undone_def
proof (rule reversible_mono [OF reversible_concat [where U = "\<lambda>i. {k. starts_with k (layer_of m i @ ''.'')}"]])
  show "\<And>i. reversible T (layer i) {k. hf_names (layer i) k} {k. prime_names (layer i) k} (entry_ok T (layer i))"
    using assms(1) by (simp add: undone_def)
  show "\<And>i k t. k \<notin> {k. starts_with k (layer_of m i @ ''.'')} \<Longrightarrow> entry_ok T (layer i) k t"
    by (rule entry_ok_other) (use assms(3) in blast)
  show "\<And>i j. i \<noteq> j \<Longrightarrow> {k. starts_with k (layer_of m i @ ''.'')} \<inter> {k. starts_with k (layer_of m j @ ''.'')} = {}"
    using layer_of_disjoint by blast
  show "\<And>k t. entry_ok T (concat (map layer [0..<n])) k t \<Longrightarrow> \<forall>i\<in>set [0..<n]. entry_ok T (layer i) k t"
  proof (intro ballI)
    fix k t i assume "entry_ok T (concat (map layer [0..<n])) k t" "i \<in> set [0..<n]"
    then show "entry_ok T (layer i) k t" using entry_ok_concat [of T "map layer [0..<n]" k t "layer i"] by simp
  qed
  show "\<And>i. {k. hf_names (layer i) k} \<subseteq> {k. starts_with k (layer_of m i @ ''.'')}" using assms(2) by blast
  show "\<And>i. {k. prime_names (layer i) k} \<subseteq> {k. starts_with k (layer_of m i @ ''.'')}" using assms(3) by blast
qed (auto simp: names_concat Bex_def)

end
