(* ===== verification/Model_Conversions.thy ===== *)
theory Model_Conversions
  imports Conversion_Ops
begin

text \<open>
  The conversion chains of the mixture-of-experts models (\<open>trainer/models/*/converting_*.py\<close>), the tests
  by which a model recognises its layout, and the choice of the checkpoint to load
  (\<open>trainer/model.py\<close>). The main result: every chain that claims to be reversible takes a training
  dictionary to HuggingFace and back.
\<close>

section \<open>The chains\<close>

definition qwen3_moe_layer :: "nat \<Rightarrow> 't conv_op list" where
  "qwen3_moe_layer i =
     (let p = layer_of ''model'' i
      in [Rename (p @ ''.mlp.gate.weight'') (p @ ''.mlp.router.gate.weight''),
          routed_experts_op p ''mlp.experts'' ''mlp.experts'' GATE_DOWN_UP ''.weight'' True])"

definition qwen3_moe_chain :: "nat \<Rightarrow> 't conv_op list" where
  "qwen3_moe_chain n = concat (map qwen3_moe_layer [0..<n])"

definition qwen3_5_moe_layer :: "string \<Rightarrow> nat \<Rightarrow> 't conv_op list" where
  "qwen3_5_moe_layer model_prefix i =
     (let p = layer_of model_prefix i
      in [Rename (p @ ''.mlp.gate.weight'') (p @ ''.mlp.router.gate.weight''),
          routed_experts_op p ''mlp.experts'' ''mlp.experts'' GATE_DOWN_UP ''.weight'' True,
          Rename (p @ ''.mlp.shared_expert.gate_proj.weight'') (p @ ''.shared_expert.w1.weight''),
          Rename (p @ ''.mlp.shared_expert.down_proj.weight'') (p @ ''.shared_expert.w2.weight''),
          Rename (p @ ''.mlp.shared_expert.up_proj.weight'') (p @ ''.shared_expert.w3.weight''),
          Rename (p @ ''.mlp.shared_expert_gate.weight'') (p @ ''.shared_expert_gate.weight'')])"

definition qwen3_5_moe_chain :: "nat \<Rightarrow> 't conv_op list" where
  "qwen3_5_moe_chain n =
     concat (map (qwen3_5_moe_layer ''model'') [0..<n]) @
     concat (map (qwen3_5_moe_layer ''model.language_model'') [0..<n])"

definition minimax_m2_layer :: "nat \<Rightarrow> 't conv_op list" where
  "minimax_m2_layer i =
     (let p = layer_of ''model'' i
      in [Rename (p @ ''.block_sparse_moe.gate.weight'') (p @ ''.mlp.router.gate.weight''),
          Rename (p @ ''.block_sparse_moe.e_score_correction_bias'') (p @ ''.mlp.expert_bias''),
          routed_experts_op p ''block_sparse_moe.experts'' ''mlp.experts''
            [(''w1'', ''w1''), (''w2'', ''w2''), (''w3'', ''w3'')] ''.weight'' False,
          Drop (p @ ''.mlp.tokens_per_expert'') False])"

definition minimax_m2_chain :: "nat \<Rightarrow> 't conv_op list" where
  "minimax_m2_chain n = concat (map minimax_m2_layer [0..<n])"

definition afmoe_layer :: "nat \<Rightarrow> 't conv_op list" where
  "afmoe_layer i =
     (let p = layer_of ''model'' i @ ''.mlp''
      in map (\<lambda>(wn, hf_proj). Rename (p @ ''.shared_experts.'' @ hf_proj @ ''.weight'') (p @ ''.shared_expert.'' @ wn))
           GATE_DOWN_UP @
         map (\<lambda>(wn, hf_proj).
             Stack (p @ ''.experts.'' @ wn) (p @ ''.experts.{e}.'' @ hf_proj @ ''.weight'') 0 0) GATE_DOWN_UP @
         [Drop (p @ ''.tokens_per_expert'') False, Drop (p @ ''.reorderer'') True])"

definition afmoe_chain :: "nat \<Rightarrow> 't conv_op list" where
  "afmoe_chain n = concat (map afmoe_layer [0..<n])"

definition glm_moe_layer_ops :: "nat \<Rightarrow> 't conv_op list" where
  "glm_moe_layer_ops layer_idx =
     (let p = layer_of ''model'' layer_idx @ ''.mlp''
      in [Rename (p @ ''.gate.weight'') (p @ ''.router.gate.weight''),
          Rename (p @ ''.gate.e_score_correction_bias'') (p @ ''.expert_bias''),
          routed_experts_op (layer_of ''model'' layer_idx) ''mlp.experts'' ''mlp.experts'' GATE_DOWN_UP ''.weight'' True] @
         concat (map (\<lambda>(wn, hf_proj).
             [SqueezeLeading (p @ ''.shared_experts.'' @ hf_proj @ ''.weight''),
              Rename (p @ ''.shared_experts.'' @ hf_proj @ ''.weight'') (p @ ''.shared_expert.'' @ wn)]) GATE_DOWN_UP) @
         [Drop (p @ ''.tokens_per_expert'') False])"

definition glm4_moe_chain :: "nat \<Rightarrow> 't conv_op list" where
  "glm4_moe_chain n = concat (map glm_moe_layer_ops [0..<n])"

definition glm_moe_dsa_chain :: "nat \<Rightarrow> 't conv_op list" where
  "glm_moe_dsa_chain n = concat (map glm_moe_layer_ops [0..<n])"

definition laguna_layer :: "nat \<Rightarrow> 't conv_op list" where
  "laguna_layer i =
     (let p = layer_of ''model'' i
      in [Rename (p @ ''.mlp.gate.weight'') (p @ ''.mlp.router.gate.weight''),
          Rename (p @ ''.mlp.experts.e_score_correction_bias'') (p @ ''.mlp.expert_bias''),
          Conditional
            (\<lambda>sd. key_present (p @ ''.mlp.gate.e_score_correction_bias'') sd \<and>
                  \<not> key_present (p @ ''.mlp.experts.e_score_correction_bias'') sd)
            [Rename (p @ ''.mlp.gate.e_score_correction_bias'') (p @ ''.mlp.expert_bias'')] [],
          routed_experts_op p ''mlp.experts'' ''mlp.experts'' GATE_DOWN_UP ''.weight'' True] @
         map (\<lambda>(wn, hf_proj). Rename (p @ ''.mlp.shared_expert.'' @ hf_proj @ ''.weight'')
                               (p @ ''.shared_expert.'' @ wn @ ''.weight'')) GATE_DOWN_UP @
         [Conditional
            (\<lambda>sd. key_present (p @ ''.mlp.shared_experts.gate_proj.weight'') sd \<and>
                  \<not> key_present (p @ ''.mlp.shared_expert.gate_proj.weight'') sd)
            (map (\<lambda>(wn, hf_proj). Rename (p @ ''.mlp.shared_experts.'' @ hf_proj @ ''.weight'')
                                   (p @ ''.shared_expert.'' @ wn @ ''.weight'')) GATE_DOWN_UP) [],
          Drop (p @ ''.mlp.tokens_per_expert'') False])"

definition laguna_chain :: "nat \<Rightarrow> 't conv_op list" where
  "laguna_chain n = concat (map laguna_layer [0..<n])"

text \<open>The HuggingFace layout of GPT-OSS and of the dense models is the training layout.\<close>

definition gpt_oss_chain :: "nat \<Rightarrow> 't conv_op list" where
  "gpt_oss_chain n = []"

text \<open>
  Nemotron-H: \<open>shift_min\<close> is \<open>x - x.min()\<close> and \<open>empty_on\<close> is \<open>torch.empty(0)\<close> on the device of a
  tensor, the CPU for \<open>None\<close>.
\<close>

definition empty_w3 :: "('t option \<Rightarrow> 't) \<Rightarrow> string \<Rightarrow> 't weights \<Rightarrow> 't" where
  "empty_w3 empty_on prefix sd = empty_on (map_of sd (prefix @ ''.mlp.experts.w1''))"

definition nemotron_moe_layer_ops ::
    "('t \<Rightarrow> 't option) \<Rightarrow> ('t option \<Rightarrow> 't) \<Rightarrow> string \<Rightarrow> 't conv_op list" where
  "nemotron_moe_layer_ops shift_min empty_on prefix =
     [Rename (prefix @ ''.mixer.gate.weight'') (prefix @ ''.mlp.router.gate''),
      Rename (prefix @ ''.mixer.gate.e_score_correction_bias'') (prefix @ ''.mlp.router.e_score_correction_bias''),
      MapValue (prefix @ ''.mlp.router.e_score_correction_bias'') shift_min Some,
      Conditional (key_present (prefix @ ''.mixer.experts.up_proj''))
        [Rename (prefix @ ''.mixer.experts.up_proj'') (prefix @ ''.mlp.experts.w1''),
         Rename (prefix @ ''.mixer.experts.down_proj'') (prefix @ ''.mlp.experts.w2'')]
        [Stack (prefix @ ''.mlp.experts.w1'') (prefix @ ''.mixer.experts.{e}.up_proj.weight'') 0 0,
         Stack (prefix @ ''.mlp.experts.w2'') (prefix @ ''.mixer.experts.{e}.down_proj.weight'') 0 0],
      Synthetic (prefix @ ''.mlp.experts.w3'') (empty_w3 empty_on prefix),
      PrefixRename (prefix @ ''.mixer.shared_experts.'') (prefix @ ''.mlp.shared_expert.''),
      PrefixRename (prefix @ ''.mixer.fc1_latent_proj.'') (prefix @ ''.mlp.fc1_latent_proj.''),
      PrefixRename (prefix @ ''.mixer.fc2_latent_proj.'') (prefix @ ''.mlp.fc2_latent_proj.'')]"

definition nemotron_layer_op :: "('t \<Rightarrow> 't option) \<Rightarrow> ('t option \<Rightarrow> 't) \<Rightarrow> string \<Rightarrow> 't conv_op" where
  "nemotron_layer_op shift_min empty_on prefix =
     Conditional
       (\<lambda>sd. key_present (prefix @ ''.mixer.q_proj.weight'') sd \<or> key_present (prefix @ ''.self_attn.q_proj.weight'') sd)
       [PrefixRename (prefix @ ''.mixer.'') (prefix @ ''.self_attn.'')]
       [Conditional
          (\<lambda>sd. key_present (prefix @ ''.mixer.gate.weight'') sd \<or> key_present (prefix @ ''.mlp.router.gate'') sd)
          (nemotron_moe_layer_ops shift_min empty_on prefix)
          [PrefixRename (prefix @ ''.mixer.'') (prefix @ ''.mamba.'')]]"

definition nemotron_h_chain :: "('t \<Rightarrow> 't option) \<Rightarrow> ('t option \<Rightarrow> 't) \<Rightarrow> nat \<Rightarrow> 't conv_op list" where
  "nemotron_h_chain shift_min empty_on n =
     [PrefixRename ''backbone.'' ''model.'',
      Drop ''mtp.'' True,
      Rename ''model.embeddings.weight'' ''model.embed_tokens.weight'',
      Rename ''model.norm_f.weight'' ''model.norm.weight''] @
     map (\<lambda>i. nemotron_layer_op shift_min empty_on (layer_of ''model'' i)) [0..<n]"

section \<open>Models\<close>

datatype moe_model = Qwen3_Moe | Qwen3_5_Moe | Minimax_M2 | Afmoe | Glm4_Moe | Glm_Moe_Dsa | Laguna | Gpt_Oss

text \<open>The chain of a model with \<open>n\<close> hidden layers.\<close>

fun conversion_chain :: "moe_model \<Rightarrow> nat \<Rightarrow> 't conv_op list" where
  "conversion_chain Qwen3_Moe n = qwen3_moe_chain n"
| "conversion_chain Qwen3_5_Moe n = qwen3_5_moe_chain n"
| "conversion_chain Minimax_M2 n = minimax_m2_chain n"
| "conversion_chain Afmoe n = afmoe_chain n"
| "conversion_chain Glm4_Moe n = glm4_moe_chain n"
| "conversion_chain Glm_Moe_Dsa n = glm_moe_dsa_chain n"
| "conversion_chain Laguna n = laguna_chain n"
| "conversion_chain Gpt_Oss n = gpt_oss_chain n"

definition convert_to_hf :: "'t torch \<Rightarrow> moe_model \<Rightarrow> nat \<Rightarrow> 't weights \<Rightarrow> error + 't weights" where
  "convert_to_hf T model n sd = apply_prime_to_hf T (conversion_chain model n) sd"

definition convert_to_prime :: "'t torch \<Rightarrow> moe_model \<Rightarrow> nat \<Rightarrow> 't weights \<Rightarrow> error + 't weights" where
  "convert_to_prime T model n sd = apply_hf_to_prime T (conversion_chain model n) sd"

definition convert_layer_to_hf :: "'t torch \<Rightarrow> moe_model \<Rightarrow> nat \<Rightarrow> 't weights \<Rightarrow> nat \<Rightarrow> error + 't weights" where
  "convert_layer_to_hf T model n sd layer_idx = convert_to_hf T model n sd"

definition convert_layer_to_prime :: "'t torch \<Rightarrow> moe_model \<Rightarrow> nat \<Rightarrow> 't weights \<Rightarrow> nat \<Rightarrow> error + 't weights" where
  "convert_layer_to_prime T model n sd layer_idx = convert_to_prime T model n sd"

definition any_contains :: "string list \<Rightarrow> string list \<Rightarrow> bool" where
  "any_contains parts names = list_ex (\<lambda>name. list_ex (contains name) parts) names"

fun is_hf_state_dict :: "moe_model \<Rightarrow> string list \<Rightarrow> bool" where
  "is_hf_state_dict Qwen3_Moe names = any_contains [''mlp.experts.1.up_proj'', ''mlp.experts.gate_up_proj''] names"
| "is_hf_state_dict Qwen3_5_Moe names =
     any_contains [''mlp.experts.1.up_proj'', ''mlp.experts.gate_up_proj'', ''mlp.shared_expert.gate_proj''] names"
| "is_hf_state_dict Minimax_M2 names = any_contains [''block_sparse_moe.experts.1.w1''] names"
| "is_hf_state_dict Afmoe names = any_contains [''mlp.experts.1.up_proj''] names"
| "is_hf_state_dict Glm4_Moe names = any_contains [''mlp.experts.1.up_proj'', ''mlp.experts.gate_up_proj''] names"
| "is_hf_state_dict Glm_Moe_Dsa names = any_contains [''mlp.experts.1.up_proj'', ''mlp.experts.gate_up_proj''] names"
| "is_hf_state_dict Laguna names =
     any_contains [''mlp.experts.0.gate_proj.weight'', ''mlp.experts.gate_up_proj'', ''mlp.gate.weight''] names"
| "is_hf_state_dict Gpt_Oss names = any_contains [''mlp.experts.gate_up_proj''] names"

fun is_prime_state_dict :: "moe_model \<Rightarrow> string list \<Rightarrow> bool" where
  "is_prime_state_dict Gpt_Oss names = False"
| "is_prime_state_dict _ names = any_contains [''mlp.experts.w1''] names"

text \<open>
  What the loader reads: the snapshot as it is, or its converted copy below the conversion directory,
  which the master rank writes unless it is there.
\<close>

datatype load_plan = Load_Snapshot | Load_Prime bool | Load_Hf bool

definition load_dcp_plan ::
    "moe_model \<Rightarrow> string list \<Rightarrow> string list \<Rightarrow> bool \<Rightarrow> bool \<Rightarrow> bool \<Rightarrow> load_plan" where
  "load_dcp_plan model snapshot_keys model_keys prime_exists hf_exists is_master =
     (let snapshot_is_hf = is_hf_state_dict model snapshot_keys;
          snapshot_is_prime = is_prime_state_dict model snapshot_keys
      in if snapshot_is_hf \<and> \<not> snapshot_is_prime \<and> is_prime_state_dict model model_keys
         then Load_Prime (\<not> prime_exists \<and> is_master)
         else if snapshot_is_prime \<and> \<not> snapshot_is_hf \<and> is_hf_state_dict model model_keys
         then Load_Hf (\<not> hf_exists \<and> is_master)
         else Load_Snapshot)"

section \<open>The chains are undone\<close>

lemma not_digit_letters [simp]:
  "\<not> is_digit (CHR ''g'')" "\<not> is_digit (CHR ''d'')" "\<not> is_digit (CHR ''u'')" "\<not> is_digit (CHR ''w'')"
  "\<not> is_digit (CHR ''e'')" "\<not> is_digit (CHR ''.'')"
  by (simp_all add: is_digit_def less_eq_char_def)

lemmas digit_names = digits_append_cancel digits_append_other matches_expert_item dropped_def

lemma routed_stacks:
  "routed_experts_op p hfe pre order suf False =
     Sequence (map (\<lambda>(wn, pr). Stack (p @ ''.'' @ pre @ ''.'' @ wn) (expert_item p hfe (pr @ suf)) 0 0) order)"
  by (simp add: routed_experts_op_def expert_item_def)

lemma routed_fused:
  "routed_experts_op p hfe pre order suf True =
     Conditional (key_present (p @ ''.'' @ hfe @ ''.gate_up_proj''))
       [SplitConcat (p @ ''.'' @ hfe @ ''.gate_up_proj'')
          [(p @ ''.'' @ pre @ ''.w1'', None), (p @ ''.'' @ pre @ ''.w3'', None)] 1,
        Rename (p @ ''.'' @ hfe @ ''.down_proj'') (p @ ''.'' @ pre @ ''.w2'')]
       (map (\<lambda>(wn, pr). Stack (p @ ''.'' @ pre @ ''.'' @ wn) (expert_item p hfe (pr @ suf)) 0 0) order)"
  by (simp add: routed_experts_op_def expert_item_def Let_def)

lemma undone_gate_down_up:
  assumes "torch_laws T" "CHR ''{'' \<notin> set p"
  shows "undone T (map (\<lambda>(wn, pr). Stack (p @ ''.mlp.experts.'' @ wn) (expert_item p ''mlp.experts'' (pr @ ''.weight'')) 0 0)
     GATE_DOWN_UP)"
  unfolding GATE_DOWN_UP_def list.map prod.case
  by (intro undone_Cons undone_Nil undone_expert_item assms) (use assms(2) in \<open>auto simp: digit_names\<close>)

lemma names_gate_down_up:
  assumes "CHR ''{'' \<notin> set p"
  shows "hf_names (map (\<lambda>(wn, pr). Stack (p @ ''.mlp.experts.'' @ wn) (expert_item p ''mlp.experts'' (pr @ ''.weight'')) 0 0)
      GATE_DOWN_UP) k \<longleftrightarrow>
     (\<exists>ds pr. ds \<noteq> [] \<and> list_all is_digit ds \<and> pr \<in> {''gate_proj'', ''down_proj'', ''up_proj''} \<and>
        k = p @ ''.mlp.experts.'' @ ds @ ''.'' @ pr @ ''.weight'')"
    "prime_names (map (\<lambda>(wn, pr). Stack (p @ ''.mlp.experts.'' @ wn) (expert_item p ''mlp.experts'' (pr @ ''.weight'')) 0 0)
      GATE_DOWN_UP) k \<longleftrightarrow> k \<in> {p @ ''.mlp.experts.w1'', p @ ''.mlp.experts.w2'', p @ ''.mlp.experts.w3''}"
  using assms by (auto simp: GATE_DOWN_UP_def matches_expert_item)

lemma undone_routed_fused:
  assumes "torch_laws T" "CHR ''{'' \<notin> set p"
  shows "undone T [routed_experts_op p ''mlp.experts'' ''mlp.experts'' GATE_DOWN_UP ''.weight'' True]"
proof -
  have "undone T (map (\<lambda>(wn, pr). Stack (p @ ''.'' @ ''mlp.experts'' @ ''.'' @ wn) (expert_item p ''mlp.experts'' (pr @ ''.weight'')) 0 0)
     GATE_DOWN_UP)"
    using undone_gate_down_up [OF assms] by simp
  then show ?thesis unfolding routed_fused
  proof (rule undone_Conditional)
    show "map_of sd (p @ ''.'' @ ''mlp.experts'' @ ''.gate_up_proj'') \<noteq> None"
      if "key_present (p @ ''.'' @ ''mlp.experts'' @ ''.gate_up_proj'') sd" for sd :: "'a weights"
      using that by (simp add: key_present_def)
  qed (use assms(2) in \<open>auto simp: GATE_DOWN_UP_def digit_names\<close>)
qed

lemma names_routed_fused:
  assumes "CHR ''{'' \<notin> set p"
  shows "hf_name (routed_experts_op p ''mlp.experts'' ''mlp.experts'' GATE_DOWN_UP ''.weight'' True :: 't conv_op) k \<longleftrightarrow>
     k \<in> {p @ ''.mlp.experts.gate_up_proj'', p @ ''.mlp.experts.down_proj''} \<or>
     (\<exists>ds pr. ds \<noteq> [] \<and> list_all is_digit ds \<and> pr \<in> {''gate_proj'', ''down_proj'', ''up_proj''} \<and>
        k = p @ ''.mlp.experts.'' @ ds @ ''.'' @ pr @ ''.weight'')"
    "prime_name (routed_experts_op p ''mlp.experts'' ''mlp.experts'' GATE_DOWN_UP ''.weight'' True :: 't conv_op) k \<longleftrightarrow>
     k \<in> {p @ ''.mlp.experts.w1'', p @ ''.mlp.experts.w2'', p @ ''.mlp.experts.w3''}"
  using assms by (auto simp: routed_fused GATE_DOWN_UP_def matches_expert_item)

lemma starts_with_weaken: "starts_with k (p @ c # q) \<Longrightarrow> starts_with k (p @ [c])"
  unfolding starts_with_def
  by (metis (no_types, lifting) append.assoc append_Cons append_Nil append_take_drop_id append_eq_conv_conj)

subsection \<open>One layer\<close>

lemmas layer_names = names_routed_fused names_routed_fused [unfolded GATE_DOWN_UP_def] digit_names routed_stacks

lemma undone_qwen3_moe_layer: "torch_laws T \<Longrightarrow> undone T (qwen3_moe_layer i)"
  unfolding qwen3_moe_layer_def Let_def
  by (intro undone_Cons undone_Rename undone_routed_fused) (auto simp: layer_names layer_of_no_brace)

lemma qwen3_moe_layer_names:
  "hf_names (qwen3_moe_layer i) k \<Longrightarrow> starts_with k (layer_of ''model'' i @ ''.'')"
  "prime_names (qwen3_moe_layer i) k \<Longrightarrow> starts_with k (layer_of ''model'' i @ ''.'')"
  by (auto simp: qwen3_moe_layer_def Let_def layer_names layer_of_no_brace)

lemma undone_qwen3_5_moe_layer:
  assumes "torch_laws T" "CHR ''{'' \<notin> set m"
  shows "undone T (qwen3_5_moe_layer m i)"
  unfolding qwen3_5_moe_layer_def Let_def
  by (intro undone_Cons undone_Rename undone_routed_fused) (use assms in \<open>auto simp: layer_names layer_of_no_brace\<close>)

lemma qwen3_5_moe_layer_names:
  assumes "CHR ''{'' \<notin> set m"
  shows "hf_names (qwen3_5_moe_layer m i) k \<Longrightarrow> starts_with k (layer_of m i @ ''.'')"
    "prime_names (qwen3_5_moe_layer m i) k \<Longrightarrow> starts_with k (layer_of m i @ ''.'')"
  using assms by (auto simp: qwen3_5_moe_layer_def Let_def layer_names layer_of_no_brace)

lemma undone_minimax_m2_layer:
  assumes "torch_laws T"
  shows "undone T (minimax_m2_layer i)"
proof -
  let ?p = "layer_of ''model'' i"
  have p: "CHR ''{'' \<notin> set ?p" by (simp add: layer_of_no_brace)
  have "undone T [Stack (?p @ ''.mlp.experts.w1'') (expert_item ?p ''block_sparse_moe.experts'' ''w1.weight'') 0 0,
      Stack (?p @ ''.mlp.experts.w2'') (expert_item ?p ''block_sparse_moe.experts'' ''w2.weight'') 0 0,
      Stack (?p @ ''.mlp.experts.w3'') (expert_item ?p ''block_sparse_moe.experts'' ''w3.weight'') 0 0]"
    by (intro undone_Cons undone_expert_item assms p) (use p in \<open>auto simp: digit_names\<close>)
  then have "undone T [routed_experts_op ?p ''block_sparse_moe.experts'' ''mlp.experts''
            [(''w1'', ''w1''), (''w2'', ''w2''), (''w3'', ''w3'')] ''.weight'' False]"
    unfolding routed_stacks by (intro undone_Sequence) simp_all
  then show ?thesis
    unfolding minimax_m2_layer_def Let_def
    by (intro undone_Cons undone_Rename undone_Drop) (use p in \<open>auto simp: layer_names\<close>)
qed

lemma minimax_m2_layer_names:
  "hf_names (minimax_m2_layer i) k \<Longrightarrow> starts_with k (layer_of ''model'' i @ ''.'')"
  "prime_names (minimax_m2_layer i) k \<Longrightarrow> starts_with k (layer_of ''model'' i @ ''.'')"
  by (auto simp: minimax_m2_layer_def Let_def layer_names layer_of_no_brace)

lemma afmoe_layer_ops:
  "p = layer_of ''model'' i @ ''.mlp'' \<Longrightarrow> afmoe_layer i =
     [Rename (p @ ''.shared_experts.gate_proj.weight'') (p @ ''.shared_expert.w1''),
      Rename (p @ ''.shared_experts.down_proj.weight'') (p @ ''.shared_expert.w2''),
      Rename (p @ ''.shared_experts.up_proj.weight'') (p @ ''.shared_expert.w3''),
      Stack (p @ ''.experts.w1'') (expert_item p ''experts'' ''gate_proj.weight'') 0 0,
      Stack (p @ ''.experts.w2'') (expert_item p ''experts'' ''down_proj.weight'') 0 0,
      Stack (p @ ''.experts.w3'') (expert_item p ''experts'' ''up_proj.weight'') 0 0,
      Drop (p @ ''.tokens_per_expert'') False, Drop (p @ ''.reorderer'') True]"
  by (simp add: afmoe_layer_def GATE_DOWN_UP_def expert_item_def)

lemma undone_afmoe_layer:
  assumes "torch_laws T"
  shows "undone T (afmoe_layer i)"
proof -
  obtain p where ops: "p = layer_of ''model'' i @ ''.mlp''" and p: "CHR ''{'' \<notin> set p"
    by (simp add: layer_of_no_brace)
  show ?thesis
    unfolding afmoe_layer_ops [OF ops]
    by (intro undone_Cons undone_Rename undone_Drop undone_expert_item assms p) (use p in \<open>auto simp: digit_names\<close>)
qed

lemma afmoe_layer_names:
  "hf_names (afmoe_layer i) k \<Longrightarrow> starts_with k (layer_of ''model'' i @ ''.'')"
  "prime_names (afmoe_layer i) k \<Longrightarrow> starts_with k (layer_of ''model'' i @ ''.'')"
  by (auto simp: afmoe_layer_ops [OF refl] digit_names layer_of_no_brace dest: starts_with_weaken)

lemma undone_glm_moe_layer:
  assumes "torch_laws T"
  shows "undone T (glm_moe_layer_ops i)"
proof -
  define p where "p = layer_of ''model'' i"
  have p: "CHR ''{'' \<notin> set p" by (simp add: p_def layer_of_no_brace)
  have router: "undone T [Rename (p @ ''.mlp.gate.weight'') (p @ ''.mlp.router.gate.weight''),
          Rename (p @ ''.mlp.gate.e_score_correction_bias'') (p @ ''.mlp.expert_bias''),
          routed_experts_op p ''mlp.experts'' ''mlp.experts'' GATE_DOWN_UP ''.weight'' True]"
    by (intro undone_Cons undone_Rename undone_routed_fused assms p) (use p in \<open>auto simp: layer_names\<close>)
  have pair: "undone T [SqueezeLeading (p @ ''.mlp.shared_experts.'' @ q), Rename (p @ ''.mlp.shared_experts.'' @ q) (p @ ''.mlp.shared_expert.'' @ w)]"
    for q w by (rule undone_Squeeze) simp
  let ?shared = "[SqueezeLeading (p @ ''.mlp.shared_experts.gate_proj.weight''),
           Rename (p @ ''.mlp.shared_experts.gate_proj.weight'') (p @ ''.mlp.shared_expert.w1'')] @
         [SqueezeLeading (p @ ''.mlp.shared_experts.down_proj.weight''),
           Rename (p @ ''.mlp.shared_experts.down_proj.weight'') (p @ ''.mlp.shared_expert.w2'')] @
         [SqueezeLeading (p @ ''.mlp.shared_experts.up_proj.weight''),
           Rename (p @ ''.mlp.shared_experts.up_proj.weight'') (p @ ''.mlp.shared_expert.w3'')] @
         [Drop (p @ ''.mlp.tokens_per_expert'') False]"
  have shared: "undone T ?shared"
    using pair [of "''gate_proj.weight''" "''w1''"] pair [of "''down_proj.weight''" "''w2''"] pair [of "''up_proj.weight''" "''w3''"]
    by (intro undone_append undone_Drop) (auto simp: dropped_def)
  have ops: "glm_moe_layer_ops i = [Rename (p @ ''.mlp.gate.weight'') (p @ ''.mlp.router.gate.weight''),
          Rename (p @ ''.mlp.gate.e_score_correction_bias'') (p @ ''.mlp.expert_bias''),
          routed_experts_op p ''mlp.experts'' ''mlp.experts'' GATE_DOWN_UP ''.weight'' True] @ ?shared"
    by (simp add: glm_moe_layer_ops_def Let_def p_def GATE_DOWN_UP_def)
  show ?thesis unfolding ops
    by (rule undone_append [OF router shared]) (use p in \<open>auto simp: layer_names\<close>)
qed

lemma glm_moe_layer_names:
  "hf_names (glm_moe_layer_ops i) k \<Longrightarrow> starts_with k (layer_of ''model'' i @ ''.'')"
  "prime_names (glm_moe_layer_ops i) k \<Longrightarrow> starts_with k (layer_of ''model'' i @ ''.'')"
  by (auto simp: glm_moe_layer_ops_def Let_def layer_names layer_of_no_brace GATE_DOWN_UP_def)

lemma undone_laguna_layer:
  assumes "torch_laws T"
  shows "undone T (laguna_layer i)"
proof -
  define p where "p = layer_of ''model'' i"
  have p: "CHR ''{'' \<notin> set p" by (simp add: p_def layer_of_no_brace)
  have other: "undone T [Conditional (\<lambda>sd. key_present g sd \<and> \<not> key_present h sd) [Rename g x] []]"
      "undone T [Conditional (\<lambda>sd. key_present g sd \<and> \<not> key_present h sd) [Rename g x, Rename y z, Rename u v] []]"
    for g h x y z u v :: string
    by (rule undone_Conditional [where g = g]; simp add: key_present_def)+
  show ?thesis
    unfolding laguna_layer_def Let_def p_def [symmetric] GATE_DOWN_UP_def list.map prod.case append.simps
    by (intro undone_Cons undone_Rename undone_Drop other undone_routed_fused [unfolded GATE_DOWN_UP_def] assms p)
       (use p in \<open>auto simp: layer_names [unfolded GATE_DOWN_UP_def]\<close>)
qed

lemma laguna_layer_names:
  "hf_names (laguna_layer i) k \<Longrightarrow> starts_with k (layer_of ''model'' i @ ''.'')"
  "prime_names (laguna_layer i) k \<Longrightarrow> starts_with k (layer_of ''model'' i @ ''.'')"
  by (auto simp: laguna_layer_def Let_def layer_names layer_of_no_brace GATE_DOWN_UP_def)

subsection \<open>Every model\<close>

lemma model_prefixes_differ:
  assumes "starts_with k (layer_of ''model'' i @ ''.'')" "starts_with k (layer_of ''model.language_model'' j @ ''.'')"
  shows False
proof -
  obtain r s where "k = layer_of ''model'' i @ r" "k = layer_of ''model.language_model'' j @ s"
    using assms unfolding starts_with_def by (metis append.assoc append_take_drop_id)
  then show False by (simp add: layer_of_def)
qed

lemma qwen3_5_chain_names:
  assumes "CHR ''{'' \<notin> set m"
  shows "hf_names (concat (map (qwen3_5_moe_layer m) [0..<n])) k \<Longrightarrow> \<exists>i. starts_with k (layer_of m i @ ''.'')"
    "prime_names (concat (map (qwen3_5_moe_layer m) [0..<n])) k \<Longrightarrow> \<exists>i. starts_with k (layer_of m i @ ''.'')"
  using qwen3_5_moe_layer_names [OF assms] unfolding names_concat set_map by blast+

lemma undone_conversion_chain:
  assumes "torch_laws T"
  shows "undone T (conversion_chain model n)"
proof (cases model)
  case Qwen3_5_Moe
  have brace: "CHR ''{'' \<notin> set ''model''" "CHR ''{'' \<notin> set ''model.language_model''" by simp_all
  have part: "undone T (concat (map (qwen3_5_moe_layer m) [0..<n]))" if "CHR ''{'' \<notin> set m" for m
    by (rule undone_layers [where m = m]) (use that qwen3_5_moe_layer_names undone_qwen3_5_moe_layer [OF assms] in blast)+
  have "undone T (qwen3_5_moe_chain n)" unfolding qwen3_5_moe_chain_def
    by (rule undone_append [OF part [OF brace(1)] part [OF brace(2)]])
       (use qwen3_5_chain_names [OF brace(1)] qwen3_5_chain_names [OF brace(2)] model_prefixes_differ in blast)+
  then show ?thesis by (simp add: Qwen3_5_Moe)
next
  case Qwen3_Moe
  have "undone T (qwen3_moe_chain n)" unfolding qwen3_moe_chain_def
    by (rule undone_layers [where m = "''model''"]) (use qwen3_moe_layer_names undone_qwen3_moe_layer [OF assms] in blast)+
  then show ?thesis by (simp add: Qwen3_Moe)
next
  case Minimax_M2
  have "undone T (minimax_m2_chain n)" unfolding minimax_m2_chain_def
    by (rule undone_layers [where m = "''model''"]) (use minimax_m2_layer_names undone_minimax_m2_layer [OF assms] in blast)+
  then show ?thesis by (simp add: Minimax_M2)
next
  case Afmoe
  have "undone T (afmoe_chain n)" unfolding afmoe_chain_def
    by (rule undone_layers [where m = "''model''"]) (use afmoe_layer_names undone_afmoe_layer [OF assms] in blast)+
  then show ?thesis by (simp add: Afmoe)
next
  case Glm4_Moe
  have "undone T (glm4_moe_chain n)" unfolding glm4_moe_chain_def
    by (rule undone_layers [where m = "''model''"]) (use glm_moe_layer_names undone_glm_moe_layer [OF assms] in blast)+
  then show ?thesis by (simp add: Glm4_Moe)
next
  case Glm_Moe_Dsa
  have "undone T (glm_moe_dsa_chain n)" unfolding glm_moe_dsa_chain_def
    by (rule undone_layers [where m = "''model''"]) (use glm_moe_layer_names undone_glm_moe_layer [OF assms] in blast)+
  then show ?thesis by (simp add: Glm_Moe_Dsa)
next
  case Laguna
  have "undone T (laguna_chain n)" unfolding laguna_chain_def
    by (rule undone_layers [where m = "''model''"]) (use laguna_layer_names undone_laguna_layer [OF assms] in blast)+
  then show ?thesis by (simp add: Laguna)
next
  case Gpt_Oss
  then show ?thesis by (simp add: gpt_oss_chain_def)
qed

section \<open>The round trip\<close>

text \<open>
  A training dictionary of a model: no name of the HuggingFace side, and tensors the conversion can
  unstack and does not squeeze.
\<close>

definition training_dict :: "'t torch \<Rightarrow> moe_model \<Rightarrow> nat \<Rightarrow> 't weights \<Rightarrow> bool" where
  "training_dict T model n sd \<longleftrightarrow>
     list_all (\<lambda>(k, t). \<not> hf_names (conversion_chain model n :: 't conv_op list) k \<and>
                        entry_ok T (conversion_chain model n) k t) sd"


text \<open>Tensors as nested lists, with the operations along the leading dimension.\<close>

datatype nested = Leaf nat | Block "nested list"

definition nested_torch :: "nested torch" where
  "nested_torch =
     \<lparr>shape_at = (\<lambda>t d. case t of Block ts \<Rightarrow> if d = 0 then Some (length ts) else None | Leaf _ \<Rightarrow> None),
      stack_of = (\<lambda>ts d. if d = 0 then Some (Block ts) else None),
      select_of = (\<lambda>t d i. case t of Block ts \<Rightarrow> if d = 0 \<and> i < length ts then Some (ts ! i) else None | Leaf _ \<Rightarrow> None),
      narrow_of = (\<lambda>t d off len. case t of
         Block ts \<Rightarrow> if d = 0 \<and> off + len \<le> length ts then Some (Block (take len (drop off ts))) else None
       | Leaf _ \<Rightarrow> None),
      cat_of = (\<lambda>ts d. if d = 0 then Some (Block (concat (map (\<lambda>t. case t of Block us \<Rightarrow> us | Leaf _ \<Rightarrow> []) ts))) else None)\<rparr>"

lemma nested_laws: "torch_laws nested_torch"
  unfolding torch_laws_def nested_torch_def by (auto split: nested.splits if_splits)

definition demo_weights :: "nested weights" where
  "demo_weights =
     [(''model.embed_tokens.weight'', Leaf 7),
      (''model.layers.0.mlp.router.gate.weight'', Block [Leaf 1, Leaf 2]),
      (''model.layers.0.mlp.experts.w1'', Block [Leaf 10, Leaf 11]),
      (''model.layers.0.mlp.experts.w2'', Block [Leaf 20, Leaf 21]),
      (''model.layers.0.mlp.experts.w3'', Block [Leaf 30, Leaf 31]),
      (''model.layers.0.mlp.shared_expert.w1'', Block [Leaf 5, Leaf 6])]"


lemma demo_conversion:
  "convert_to_hf nested_torch Glm4_Moe 1 demo_weights = Inr
     [(''model.embed_tokens.weight'', Leaf 7),
      (''model.layers.0.mlp.shared_experts.gate_proj.weight'', Block [Leaf 5, Leaf 6]),
      (''model.layers.0.mlp.experts.0.up_proj.weight'', Leaf 30),
      (''model.layers.0.mlp.experts.1.up_proj.weight'', Leaf 31),
      (''model.layers.0.mlp.experts.0.down_proj.weight'', Leaf 20),
      (''model.layers.0.mlp.experts.1.down_proj.weight'', Leaf 21),
      (''model.layers.0.mlp.experts.0.gate_proj.weight'', Leaf 10),
      (''model.layers.0.mlp.experts.1.gate_proj.weight'', Leaf 11),
      (''model.layers.0.mlp.gate.weight'', Block [Leaf 1, Leaf 2])]"
  by code_simp

section \<open>The other inputs\<close>

text \<open>
  The fused layout of the experts is accepted too: its two halves along the second dimension become
  \<open>w1\<close> and \<open>w3\<close>.
\<close>

lemma routed_fused_forward:
  assumes "map_of sd (p @ ''.mlp.experts.gate_up_proj'') = Some t" "map_of sd (p @ ''.mlp.experts.down_proj'') = Some d"
    and "shape_at T t 1 = Some (2 * h)" "narrow_of T t 1 0 h = Some a" "narrow_of T t 1 h h = Some b"
  shows "\<exists>sd'. hf_to_prime T (routed_experts_op p ''mlp.experts'' ''mlp.experts'' GATE_DOWN_UP ''.weight'' True) sd = Inr sd' \<and>
     map_of sd' = (map_of sd)(p @ ''.mlp.experts.gate_up_proj'' := None, p @ ''.mlp.experts.down_proj'' := None,
        p @ ''.mlp.experts.w1'' \<mapsto> a, p @ ''.mlp.experts.w3'' \<mapsto> b, p @ ''.mlp.experts.w2'' \<mapsto> d)"
proof -
  have half: "length [x, y] = 2" for x y :: "string \<times> nat option" by simp
  have pair: "replicate 2 h = [h, h]" by (simp add: numeral_2_eq_2)
  have "split_sizes [(x, None), (y, None)] (2 * h) = Inr [h, h]" for x y
    unfolding split_sizes_def half by (simp add: pair)
  then have "split_forward T (p @ ''.mlp.experts.gate_up_proj'')
       [(p @ ''.mlp.experts.w1'', None), (p @ ''.mlp.experts.w3'', None)] 1 sd =
     Inr (AList.update (p @ ''.mlp.experts.w3'') b
       (AList.update (p @ ''.mlp.experts.w1'') a (AList.delete (p @ ''.mlp.experts.gate_up_proj'') sd)))"
    using assms by (simp add: split_forward_def)
  then show ?thesis using assms(1,2)
    by (auto simp: routed_fused key_present_def map_of_rename_key fun_eq_iff)
qed

text \<open>
  Laguna prefers the router bias below \<open>gate\<close> when both are present, and the plural shared experts: the
  first \<open>Rename\<close> has removed the canonical name before the predicate of the \<open>Conditional\<close> looks for it.
\<close>

lemma laguna_alternate_wins:
  "convert_to_prime nested_torch Laguna 1
     [(''model.layers.0.mlp.experts.e_score_correction_bias'', Leaf 1),
      (''model.layers.0.mlp.gate.e_score_correction_bias'', Leaf 2),
      (''model.layers.0.mlp.shared_expert.gate_proj.weight'', Leaf 3),
      (''model.layers.0.mlp.shared_experts.gate_proj.weight'', Leaf 4)] =
   Inr [(''model.layers.0.mlp.expert_bias'', Leaf 2), (''model.layers.0.shared_expert.w1.weight'', Leaf 4)]"
  by code_simp

text \<open>A model whose layouts coincide is loaded as it is.\<close>

lemma gpt_oss_loads_snapshot: "load_dcp_plan Gpt_Oss snapshot_keys model_keys prime_exists hf_exists is_master = Load_Snapshot"
  by (simp add: load_dcp_plan_def)

end
