(* ===== verification/Spec2Isabelle.thy ===== *)
theory Spec2Isabelle
  imports Coordinator_Properties Worker_Properties Packing Result_Processing Inference_Broker Policy_Runtime Policy_Download Control_Answers Worker_Daemon Model_Conversions
begin

text \<open>
  Verification of aether-rl, a coordinator for reinforcement learning with remote rollout workers.

  \<^bold>\<open>The program.\<close> The coordinator (\<open>src/aether_rl/coordinator\<close>) owns a SQLite database of policies,
  environment sources, rollout groups, assignments, leases and results. Workers register, send
  heartbeats, lease assignments one at a time, and return result or failure envelopes. Results are
  published in a content-addressed spool before the database refers to them. When all assignments
  of a group are finished, the result processor turns the traces of the group into training samples
  with advantages, stores them in the durable training queue, and emits batches of samples of one
  policy. The trainer (\<open>src/aether_rl/trainer\<close>) packs a batch into micro batches for its ranks and
  publishes the next policy, which the coordinator activates; stale work is cancelled or discarded.

  \<^bold>\<open>The theories and the code.\<close>
  \<^item> \<open>Prelude\<close>: fallible steps (\<open>error + 'a\<close>, one constructor per exception class), folds of fallible
    steps, tables as lists of rows, transactions that roll back on an error.
  \<^item> \<open>Protocol\<close> (\<open>protocol.py\<close>): messages as records, field constraints and validators as predicates,
    content digests over an abstract hash.
  \<^item> \<open>Schema\<close> (\<open>coordinator/migrations.py\<close>): one record per table, one guarded insertion per table for
    the CHECK, UNIQUE, NOT NULL and FOREIGN KEY constraints; the record \<open>db\<close> holds all tables.
  \<^item> \<open>Lifecycle\<close>, \<open>Leasing\<close>, \<open>Acceptance\<close>, \<open>Policy_Store\<close>, \<open>Group_Store\<close>, \<open>Batch_Store\<close>
    (\<open>coordinator/database.py\<close>, \<open>scheduler.py\<close>, \<open>environments.py\<close>): the methods of
    \<open>CoordinatorRepository\<close>, each a function from \<open>db\<close> to a result and a new \<open>db\<close>. The record
    \<open>repository\<close> holds the settings and, as functions, the hash, the encoders and the check of policy
    files, which are third-party code or file I/O.
  \<^item> \<open>Spool\<close> (\<open>coordinator/spool.py\<close>): publication as a sequence of file-system steps, with a crash
    possible after each.
  \<^item> \<open>Training_Queue\<close> (\<open>coordinator/results.py\<close>): publication, verification and recovery of groups and
    batches. The locale \<open>content_store\<close> states what clients rely on; spool and queue interpret it.
  \<^item> \<open>Batch_Emission\<close> (\<open>coordinator/results.py\<close>): dropping stale rollouts, choosing rollouts of one policy,
    emitting batches; the loop ends because every round consumes a rollout.
  \<^item> \<open>Result_Processing\<close> (\<open>coordinator/results.py\<close>): episodes to stamped rollouts, samples, scores and the
    payload of a group; the loop over ready groups ends because each leaves the backlog.
  \<^item> \<open>Inference_Broker\<close> (\<open>coordinator/inference.py\<close>): the exchange of generation requests and replies
    between environments and the workers that hold their leases, as a step relation on a heap of exchanges.
  \<^item> \<open>Lora_Policy\<close> (\<open>trainer/policy.py\<close>): the check of adapter tensors and configuration, verification and
    publication of a policy directory.
  \<^item> \<open>Policy_Transport\<close>, \<open>Adapter_Cache\<close>, \<open>Policy_Runtime\<close> (\<open>worker/client.py\<close>, \<open>policy_transport.py\<close>,
    \<open>policy_cache.py\<close>, \<open>policy_runtime.py\<close>): how a worker fetches a policy from any of its sources, keeps it
    in a bounded cache, and serves it to concurrent rollouts. The network and the inference engine are
    parameters that may answer anything; the runtime is a step relation over interleaved rollouts, and its
    invariant an interpretation of \<open>invariant_system\<close>.
  \<^item> \<open>Coordinator_API\<close>, \<open>Policy_Server\<close> (\<open>coordinator/api.py\<close>): authentication, control bodies, the handlers
    over repository and broker, manifests with entity tags, byte ranges of policy files. \<open>Control_Answers\<close>
    shows that the answers of the handlers are well typed, \<open>Policy_Download\<close> that the worker's cache gets a
    policy from this server. Routing, the JSON codec and HTTP framing are FastAPI and pydantic.
  \<^item> \<open>Worker_Daemon\<close> (\<open>worker/daemon.py\<close>, \<open>client.py\<close>, \<open>state.py\<close>): the worker process as a step relation
    with the messages it sends: slots, heartbeat, watchdog, retries with growing delays.
  \<^item> \<open>Conversion_Ops\<close>, \<open>Model_Conversions\<close> (\<open>trainer/models/conversion_ops.py\<close>, \<open>converting_*.py\<close>): the
    operators that convert checkpoints between the HuggingFace and the training layout, and the chain of
    every model. A calculus of chains that are undone, closed under concatenation of chains with disjoint
    names, carries the round trip to all layers. The tensor functions are a parameter with one law.
  \<^item> \<open>Trajectories\<close>, \<open>Scoring\<close> (\<open>orchestrator\<close>): traces to samples, advantages, loss routing, filters.
    Floating-point numbers are exact rationals.
  \<^item> \<open>Training_Data\<close>, \<open>Partition\<close>, \<open>Packing\<close> (\<open>transport/types.py\<close>, \<open>trainer/utils.py\<close>,
    \<open>trainer/batch.py\<close>): sample preparation, balanced partitioning, packing, padding, distribution.

  \<^bold>\<open>The proofs.\<close> \<open>Assignment_Life\<close> is the abstract life cycle of an assignment and \<open>rollout_life\<close> of
  \<open>Batch_Store\<close> that of a processed rollout. \<open>Invariant\<close> ties the tables together and reduces the
  invariant to the assignment that an operation touches; \<open>Lifecycle_Inv\<close>, \<open>Leasing_Inv\<close>,
  \<open>Acceptance_Inv\<close> and \<open>Group_Store_Inv\<close> show that every operation keeps it and moves along the abstract
  machines, and \<open>Quiet\<close> that worker operations leave policies and sources alone. \<open>Coordinator\<close> puts the
  operations into one step relation; its locales \<open>invariant_system\<close> and \<open>refinement_system\<close> turn these
  facts into statements on all runs, and are interpreted on the repository. \<open>Coordinator_Properties\<close> and
  \<open>Worker_Properties\<close> draw the conclusions; \<open>Scenario\<close> evaluates a concrete run from the empty database,
  on which the witnesses rest.

  \<^bold>\<open>Bounds and termination.\<close> Times are exact rationals, database integers are unbounded (SQLite
  holds 64 bits, far above what the program stores). Loops are structural recursions or functions with
  termination proofs: the hill climb of the partitioning terminates because a lexicographic
  score over finitely many partitions decreases. No fuel is used.

  \<^bold>\<open>Not modelled.\<close> The layers and kernels of the trainer's models, the inference server, monitors, entry points
  and configuration: their meaning is that of PyTorch, vLLM, FastAPI and the file system, which are not
  part of the repository. The asynchronous loops of the scheduler and the runtime, symbolic links and
  file permissions, the rounding of \<open>float32\<close>.
\<close>

end
